(* ===== verification/Prelude.thy ===== *)
theory Prelude
  imports Main "HOL-Library.Word" "HOL-Library.AList" "HOL-Library.Code_Target_Numeral"
begin

unbundle bit_operations_syntax

text \<open>
  Shared vocabulary of the development.

  \<^item> Rust's machine integers as words: \<open>u8\<close>, \<open>u32\<close>, \<open>u64\<close> and \<open>i64\<close> (a 64-bit word read
    through \<^const>\<open>sint\<close>). \<open>usize\<close> is a \<^typ>\<open>nat\<close> on a 64-bit target, so every positive
    \<open>i64\<close> fits; where the source checks that, the check is written out.
  \<^item> \<open>Result\<close> as a sum with \<open>Err\<close> on the left, its \<open>?\<close> operator as \<open>bindr\<close>.
  \<^item> Rust's checked and saturating arithmetic on \<open>i64\<close> and \<open>u32\<close>, little-endian byte
    arrays (\<open>to_le_bytes\<close>, \<open>from_le_bytes\<close>) and \<open>copy_from_slice\<close> into a buffer.
  \<^item> \<open>Duration\<close> as a natural number of nanoseconds and \<open>HashMap\<close> as an association list
    behind the interface \<open>hash_map\<close>, whose laws are proved once and used by every
    component that keeps a table.
\<close>

named_theorems result_simps \<open>unfolding the result monad\<close>
named_theorems bytes_simps \<open>lengths and slices of byte buffers\<close>
named_theorems proto_consts \<open>the wire constants of irtt-proto\<close>

section \<open>Integer types\<close>

type_synonym u8 = "8 word"
type_synonym u32 = "32 word"
type_synonym u64 = "64 word"
type_synonym i64 = "64 word"
type_synonym bytes = "u8 list"

definition usize_max :: nat where
  "usize_max = 2 ^ 64 - 1"

definition i64_max :: int where
  "i64_max = 2 ^ 63 - 1"

definition i64_min :: int where
  "i64_min = - (2 ^ 63)"

definition in_i64 :: "int \<Rightarrow> bool" where
  "in_i64 x \<longleftrightarrow> i64_min \<le> x \<and> x \<le> i64_max"

text \<open>The \<open>i64\<close> with a given value, clamped to the type's range: the result of Rust's
  saturating operations.\<close>

definition clamp_i64 :: "int \<Rightarrow> int" where
  "clamp_i64 x = max i64_min (min i64_max x)"

definition sat_i64 :: "int \<Rightarrow> i64" where
  "sat_i64 x = word_of_int (clamp_i64 x)"

definition saturating_add_i64 :: "i64 \<Rightarrow> i64 \<Rightarrow> i64" where
  "saturating_add_i64 a b = sat_i64 (sint a + sint b)"

definition saturating_sub_i64 :: "i64 \<Rightarrow> i64 \<Rightarrow> i64" where
  "saturating_sub_i64 a b = sat_i64 (sint a - sint b)"

definition saturating_mul_i64 :: "i64 \<Rightarrow> i64 \<Rightarrow> i64" where
  "saturating_mul_i64 a b = sat_i64 (sint a * sint b)"

definition min_i64 :: "i64 \<Rightarrow> i64 \<Rightarrow> i64" where
  "min_i64 a b = (if sint a \<le> sint b then a else b)"

definition checked_sub_i64 :: "i64 \<Rightarrow> i64 \<Rightarrow> i64 option" where
  "checked_sub_i64 a b =
     (let d = sint a - sint b in if in_i64 d then Some (word_of_int d) else None)"

text \<open>Rust's \<open>/\<close> on signed integers truncates toward zero.\<close>

definition quot_trunc :: "int \<Rightarrow> int \<Rightarrow> int" where
  "quot_trunc a b = sgn a * sgn b * (\<bar>a\<bar> div \<bar>b\<bar>)"

lemma sint_i64_lower: "- 9223372036854775808 \<le> sint (x :: i64)"
  using sint_ge [of x] by simp

lemma sint_i64_upper: "sint (x :: i64) < 9223372036854775808"
  using sint_lt [of x] by simp

lemma in_i64_sint [simp]: "in_i64 (sint (x :: i64))"
  using sint_i64_lower [of x] sint_i64_upper [of x]
  by (simp add: in_i64_def i64_min_def i64_max_def)

lemma sint_word_of_int_i64 [simp]: "in_i64 x \<Longrightarrow> sint (word_of_int x :: i64) = x"
  by (simp add: in_i64_def i64_min_def i64_max_def sint_sbintrunc' signed_take_bit_int_eq_self_iff)

lemma in_i64_clamp [simp]: "in_i64 (clamp_i64 x)"
  by (simp add: in_i64_def clamp_i64_def i64_min_def i64_max_def)

lemma clamp_i64_id [simp]: "in_i64 x \<Longrightarrow> clamp_i64 x = x"
  by (simp add: in_i64_def clamp_i64_def)

lemma sint_sat_i64 [simp]: "sint (sat_i64 x) = clamp_i64 x"
  by (simp add: sat_i64_def)

lemma sat_i64_sint [simp]: "sat_i64 (sint x) = x"
  by (simp add: sat_i64_def)

lemma sint_saturating_add [simp]: "sint (saturating_add_i64 a b) = clamp_i64 (sint a + sint b)"
  by (simp add: saturating_add_i64_def)

lemma sint_saturating_sub [simp]: "sint (saturating_sub_i64 a b) = clamp_i64 (sint a - sint b)"
  by (simp add: saturating_sub_i64_def)

lemma sint_saturating_mul [simp]: "sint (saturating_mul_i64 a b) = clamp_i64 (sint a * sint b)"
  by (simp add: saturating_mul_i64_def)

lemma sint_min_i64 [simp]: "sint (min_i64 a b) = min (sint a) (sint b)"
  by (simp add: min_i64_def)

lemma checked_sub_i64_Some:
  "checked_sub_i64 a b = Some c \<Longrightarrow> sint c = sint a - sint b"
  unfolding checked_sub_i64_def Let_def
  by (metis option.distinct(1) option.inject sint_word_of_int_i64)

section \<open>Results\<close>

abbreviation Ok :: "'a \<Rightarrow> 'e + 'a" where
  "Ok \<equiv> Inr"

abbreviation Err :: "'e \<Rightarrow> 'e + 'a" where
  "Err \<equiv> Inl"

text \<open>Rust's \<open>?\<close>: continue with the value, or return the error.\<close>

fun bindr :: "'e + 'a \<Rightarrow> ('a \<Rightarrow> 'e + 'b) \<Rightarrow> 'e + 'b" where
  "bindr (Inl e) f = Inl e"
| "bindr (Inr x) f = f x"

fun map_err :: "('e \<Rightarrow> 'd) \<Rightarrow> 'e + 'a \<Rightarrow> 'd + 'a" where
  "map_err h (Inl e) = Inl (h e)"
| "map_err h (Inr x) = Inr x"

text \<open>\<open>Option::ok_or\<close>.\<close>

definition ok_or :: "'e \<Rightarrow> 'a option \<Rightarrow> 'e + 'a" where
  "ok_or e r = (case r of None \<Rightarrow> Err e | Some x \<Rightarrow> Ok x)"

lemma ok_or_eq_Ok [simp]: "ok_or e r = Ok x \<longleftrightarrow> r = Some x"
  by (cases r) (auto simp: ok_or_def)

lemma ok_or_eq_Err [simp]: "ok_or e r = Err e' \<longleftrightarrow> r = None \<and> e' = e"
  by (cases r) (auto simp: ok_or_def)

lemma ok_or_simps [simp]: "ok_or e None = Err e" "ok_or e (Some x) = Ok x"
  by (simp_all add: ok_or_def)

text \<open>A computation that may also panic: \<open>None\<close> is the panic, and \<open>?\<close> passes errors on.\<close>

type_synonym ('e, 'a) outcome = "('e + 'a) option"

definition bindp :: "('e, 'a) outcome \<Rightarrow> ('a \<Rightarrow> ('e, 'b) outcome) \<Rightarrow> ('e, 'b) outcome" where
  "bindp m f = Option.bind m (\<lambda>r. case r of Inl e \<Rightarrow> Some (Inl e) | Inr x \<Rightarrow> f x)"

lemma bindp_simps [simp]:
  "bindp None f = None" "bindp (Some (Inl e)) f = Some (Inl e)" "bindp (Some (Inr x)) f = f x"
  by (simp_all add: bindp_def)

lemma bindp_eq_Ok [result_simps]:
  "bindp m f = Some (Inr y) \<longleftrightarrow> (\<exists>x. m = Some (Inr x) \<and> f x = Some (Inr y))"
proof (cases m)
  case (Some r)
  then show ?thesis by (cases r) auto
qed simp

lemma bindr_eq_Ok [result_simps]:
  "bindr m f = Inr y \<longleftrightarrow> (\<exists>x. m = Inr x \<and> f x = Inr y)"
  by (cases m) auto

lemma bindr_eq_Err [result_simps]:
  "bindr m f = Inl e \<longleftrightarrow> m = Inl e \<or> (\<exists>x. m = Inr x \<and> f x = Inl e)"
  by (cases m) auto

lemma bindr_assoc: "bindr (bindr m f) g = bindr m (\<lambda>x. bindr (f x) g)"
  by (cases m) auto

lemma bindr_cong [fundef_cong]:
  "m = m' \<Longrightarrow> (\<And>x. m' = Inr x \<Longrightarrow> f x = f' x) \<Longrightarrow> bindr m f = bindr m' f'"
  by (cases m') auto

section \<open>Byte buffers\<close>

text \<open>\<open>to_le_bytes\<close> of an \<open>n\<close>-byte integer and \<open>from_le_bytes\<close>.\<close>

fun to_le_bytes :: "nat \<Rightarrow> 'a::len word \<Rightarrow> bytes" where
  "to_le_bytes 0 w = []"
| "to_le_bytes (Suc n) w = ucast w # to_le_bytes n (drop_bit 8 w)"

fun from_le_bytes :: "bytes \<Rightarrow> 'a::len word" where
  "from_le_bytes [] = 0"
| "from_le_bytes (b # bs) = ucast b OR push_bit 8 (from_le_bytes bs)"

lemma length_to_le_bytes [simp]: "length (to_le_bytes n w) = n"
  by (induction n arbitrary: w) auto

lemma from_to_le_bytes: "from_le_bytes (to_le_bytes n w) = take_bit (8 * n) (w :: 'a::len word)"
proof (induction n arbitrary: w)
  case 0
  show ?case by simp
next
  case (Suc n)
  show ?case
  proof (rule bit_word_eqI)
    fix m assume m: "m < LENGTH('a)"
    show "bit (from_le_bytes (to_le_bytes (Suc n) w) :: 'a word) m = bit (take_bit (8 * Suc n) w) m"
      using m Suc.IH [of "drop_bit 8 w"]
      by (auto simp: bit_or_iff bit_ucast_iff bit_push_bit_iff bit_take_bit_iff bit_drop_bit_eq)
  qed
qed

lemma from_to_le_bytes_u64 [simp]: "from_le_bytes (to_le_bytes 8 w) = (w :: 64 word)"
  using from_to_le_bytes [of 8 w] by (simp add: take_bit_word_eq_self)

lemma from_to_le_bytes_u32 [simp]: "from_le_bytes (to_le_bytes 4 w) = (w :: 32 word)"
  using from_to_le_bytes [of 4 w] by (simp add: take_bit_word_eq_self)

text \<open>\<open>packet[off..off + n]\<close> and \<open>buf[off..off + len].copy_from_slice(src)\<close>; the second
  panics in Rust unless the range fits, so its uses carry that as a proof obligation.\<close>

definition slice_at :: "nat \<Rightarrow> nat \<Rightarrow> bytes \<Rightarrow> bytes" where
  "slice_at off n bs = take n (drop off bs)"

definition copy_at :: "nat \<Rightarrow> bytes \<Rightarrow> bytes \<Rightarrow> bytes" where
  "copy_at off src buf = take off buf @ src @ drop (off + length src) buf"

text \<open>\<open>Vec::resize(len, 0)\<close>: truncate or pad with zeroes.\<close>

definition resize_zero :: "nat \<Rightarrow> bytes \<Rightarrow> bytes" where
  "resize_zero n bs = take n bs @ replicate (n - length bs) 0"

lemma length_slice_at [bytes_simps]:
  "off + n \<le> length bs \<Longrightarrow> length (slice_at off n bs) = n"
  by (simp add: slice_at_def)

lemma length_copy_at [bytes_simps]:
  "off + length src \<le> length buf \<Longrightarrow> length (copy_at off src buf) = length buf"
  by (simp add: copy_at_def)

lemma length_resize_zero [simp]: "length (resize_zero n bs) = n"
  by (simp add: resize_zero_def)

lemma take_copy_at [bytes_simps]:
  "n \<le> off \<Longrightarrow> off \<le> length buf \<Longrightarrow> take n (copy_at off src buf) = take n buf"
  by (simp add: copy_at_def min_def)

lemma resize_zero_grow: "length bs \<le> n \<Longrightarrow> resize_zero n bs = bs @ replicate (n - length bs) 0"
  by (simp add: resize_zero_def)

lemma copy_at_end:
  "length hdr = off \<Longrightarrow> length src \<le> length pad \<Longrightarrow>
     copy_at off src (hdr @ pad) = hdr @ src @ drop (length src) pad"
  by (simp add: copy_at_def)

section \<open>Durations and instants\<close>

text \<open>\<open>std::time::Duration\<close> in nanoseconds; \<open>as_nanos\<close> is the identity.\<close>

type_synonym duration = nat

text \<open>\<open>Instant\<close> and \<open>SystemTime\<close> in nanoseconds, relative to the clock's origin and to the
  Unix epoch. Both are a signed 64-bit second count and a nanosecond part on Linux, so
  \<open>checked_add\<close> fails exactly above \<open>instant_max\<close>.\<close>

type_synonym instant = int
type_synonym system_time = int

definition instant_max :: int where
  "instant_max = 2 ^ 63 * 1000000000 - 1"

definition instant_checked_add :: "instant \<Rightarrow> duration \<Rightarrow> instant option" where
  "instant_checked_add t d = (if t + int d \<le> instant_max then Some (t + int d) else None)"

definition checked_duration_since :: "instant \<Rightarrow> instant \<Rightarrow> duration option" where
  "checked_duration_since later earlier =
     (if earlier \<le> later then Some (nat (later - earlier)) else None)"

lemma instant_checked_add_Some [simp]:
  "instant_checked_add t d = Some u \<longleftrightarrow> u = t + int d \<and> u \<le> instant_max"
  by (auto simp: instant_checked_add_def)

section \<open>Network addresses\<close>

text \<open>\<open>std::net::SocketAddr\<close>: address, port, and for IPv6 the flow label and scope.\<close>

datatype socket_addr = V4 "32 word" "16 word" | V6 "128 word" "16 word" u32 u32

section \<open>What the operating system answers\<close>

text \<open>An error code; the answer of a call without a result; a call that may still be waiting.\<close>

type_synonym io_error = int

datatype 'a poll = Pending | Ready 'a

type_synonym io_answer = "io_error option"

text \<open>\<open>io::Error::kind\<close> of a Linux error code: \<open>EAGAIN\<close>, \<open>EINTR\<close> and \<open>ETIMEDOUT\<close>.\<close>

definition is_would_block :: "io_error \<Rightarrow> bool" where "is_would_block e \<longleftrightarrow> e = 11"
definition is_interrupted :: "io_error \<Rightarrow> bool" where "is_interrupted e \<longleftrightarrow> e = 4"
definition is_timed_out :: "io_error \<Rightarrow> bool" where "is_timed_out e \<longleftrightarrow> e = 110"

section \<open>Hash maps\<close>

text \<open>\<open>HashMap<K, V>\<close>: the operations the source calls and what they promise. The model is
  an association list with distinct keys, whose length is the map's \<open>len()\<close>.\<close>

type_synonym ('k, 'v) hash_table = "('k \<times> 'v) list"

definition table_get :: "('k, 'v) hash_table \<Rightarrow> 'k \<Rightarrow> 'v option" where
  "table_get m k = map_of m k"

definition table_insert :: "'k \<Rightarrow> 'v \<Rightarrow> ('k, 'v) hash_table \<Rightarrow> ('k, 'v) hash_table" where
  "table_insert k v m = AList.update k v m"

definition table_remove :: "'k \<Rightarrow> ('k, 'v) hash_table \<Rightarrow> ('k, 'v) hash_table" where
  "table_remove k m = AList.delete k m"

definition table_retain :: "('k \<Rightarrow> 'v \<Rightarrow> bool) \<Rightarrow> ('k, 'v) hash_table \<Rightarrow> ('k, 'v) hash_table" where
  "table_retain p m = filter (\<lambda>(k, v). p k v) m"

definition table_len :: "('k, 'v) hash_table \<Rightarrow> nat" where
  "table_len m = length m"

definition table_wf :: "('k, 'v) hash_table \<Rightarrow> bool" where
  "table_wf m \<longleftrightarrow> distinct (map fst m)"

locale hash_map =
  fixes empty :: 'm
    and get :: "'m \<Rightarrow> 'k \<Rightarrow> 'v option"
    and insert :: "'k \<Rightarrow> 'v \<Rightarrow> 'm \<Rightarrow> 'm"
    and remove :: "'k \<Rightarrow> 'm \<Rightarrow> 'm"
    and retain :: "('k \<Rightarrow> 'v \<Rightarrow> bool) \<Rightarrow> 'm \<Rightarrow> 'm"
    and len :: "'m \<Rightarrow> nat"
    and wf :: "'m \<Rightarrow> bool"
  assumes wf_empty: "wf empty"
    and get_empty: "get empty k = None"
    and len_is_card: "wf m \<Longrightarrow> len m = card {k. get m k \<noteq> None}"
    and finite_keys: "finite {k. get m k \<noteq> None}"
    and wf_insert: "wf m \<Longrightarrow> wf (insert k v m)"
    and get_insert: "get (insert k v m) k' = (if k' = k then Some v else get m k')"
    and wf_remove: "wf m \<Longrightarrow> wf (remove k m)"
    and get_remove: "wf m \<Longrightarrow> get (remove k m) k' = (if k' = k then None else get m k')"
    and wf_retain: "wf m \<Longrightarrow> wf (retain p m)"
    and get_retain:
      "wf m \<Longrightarrow> get (retain p m) k =
         (case get m k of None \<Rightarrow> None | Some v \<Rightarrow> if p k v then Some v else None)"
begin

lemma len_empty: "len empty = 0"
  by (simp add: len_is_card wf_empty get_empty)

lemma len_zero_iff: "wf m \<Longrightarrow> len m = 0 \<longleftrightarrow> (\<forall>k. get m k = None)"
  using finite_keys [of m] by (auto simp: len_is_card)

lemma len_insert_new: "wf m \<Longrightarrow> get m k = None \<Longrightarrow> len (insert k v m) = Suc (len m)"
proof -
  assume m: "wf m" and k: "get m k = None"
  have "{k'. get (insert k v m) k' \<noteq> None} = Set.insert k {k'. get m k' \<noteq> None}"
    by (auto simp: get_insert)
  with m k show ?thesis
    using finite_keys [of m] by (simp add: len_is_card wf_insert)
qed

lemma len_insert_old: "wf m \<Longrightarrow> get m k = Some w \<Longrightarrow> len (insert k v m) = len m"
proof -
  assume m: "wf m" and k: "get m k = Some w"
  have "{k'. get (insert k v m) k' \<noteq> None} = {k'. get m k' \<noteq> None}"
    using k by (auto simp: get_insert)
  with m show ?thesis by (simp add: len_is_card wf_insert)
qed

lemma len_remove_present: "wf m \<Longrightarrow> get m k = Some w \<Longrightarrow> Suc (len (remove k m)) = len m"
proof -
  assume m: "wf m" and k: "get m k = Some w"
  have "{k'. get (remove k m) k' \<noteq> None} = {k'. get m k' \<noteq> None} - {k}"
    using m by (auto simp: get_remove)
  moreover have "k \<in> {k'. get m k' \<noteq> None}" using k by simp
  ultimately show ?thesis
    using m finite_keys [of m] by (simp add: len_is_card wf_remove card_Suc_Diff1 del: not_None_eq card_Diff_insert)
qed

lemma len_remove_le: "wf m \<Longrightarrow> len (remove k m) \<le> len m"
proof -
  assume m: "wf m"
  have "{k'. get (remove k m) k' \<noteq> None} \<subseteq> {k'. get m k' \<noteq> None}"
    using m by (auto simp: get_remove)
  with m show ?thesis by (simp add: len_is_card wf_remove card_mono finite_keys del: not_None_eq)
qed

lemma len_retain_le: "wf m \<Longrightarrow> len (retain p m) \<le> len m"
proof -
  assume m: "wf m"
  have "{k'. get (retain p m) k' \<noteq> None} \<subseteq> {k'. get m k' \<noteq> None}"
    using m by (auto simp: get_retain split: option.splits)
  with m show ?thesis by (simp add: len_is_card wf_retain card_mono finite_keys del: not_None_eq)
qed

lemma len_pos: "wf m \<Longrightarrow> get m k = Some v \<Longrightarrow> 0 < len m"
  by (metis len_zero_iff neq0_conv option.distinct(1))

end

lemma table_keys: "{k. map_of m k \<noteq> None} = fst ` set m"
  by (simp add: dom_map_of_conv_image_fst [symmetric] dom_def)

interpretation tbl: hash_map "[]" table_get table_insert table_remove table_retain table_len table_wf
proof unfold_locales
  fix m :: "('a \<times> 'b) list" and k k' :: 'a and v :: 'b and p :: "'a \<Rightarrow> 'b \<Rightarrow> bool"
  show "table_wf ([] :: ('a \<times> 'b) list)" by (simp add: table_wf_def)
  show "table_get ([] :: ('a \<times> 'b) list) k = None" by (simp add: table_get_def)
  show "finite {k. table_get m k \<noteq> None}"
    by (simp add: table_get_def table_keys del: not_None_eq)
  show "table_get (table_insert k v m) k' = (if k' = k then Some v else table_get m k')"
    by (simp add: table_get_def table_insert_def update_conv')
  show "table_wf m \<Longrightarrow> table_len m = card {k. table_get m k \<noteq> None}"
    using distinct_card [of "map fst m"]
    by (simp add: table_get_def table_keys table_wf_def table_len_def del: not_None_eq)
  show "table_wf m \<Longrightarrow> table_wf (table_insert k v m)"
    by (simp add: table_wf_def table_insert_def distinct_update)
  show "table_wf m \<Longrightarrow> table_wf (table_remove k m)"
    by (simp add: table_wf_def table_remove_def distinct_delete)
  show "table_get (table_remove k m) k' = (if k' = k then None else table_get m k')"
    if "table_wf m"
    by (simp add: table_get_def table_remove_def delete_conv')
  show "table_wf m \<Longrightarrow> table_wf (table_retain p m)"
    by (simp add: table_wf_def table_retain_def distinct_map_filter)
  show "table_get (table_retain p m) k =
      (case table_get m k of None \<Rightarrow> None | Some v \<Rightarrow> if p k v then Some v else None)"
    if "table_wf m"
    using that
    by (induction m)
       (auto simp: table_get_def table_retain_def table_wf_def map_of_eq_None_iff
          split: option.splits dest: map_of_SomeD)
qed

lemmas table_simps [simp] =
  tbl.wf_empty tbl.get_empty tbl.len_empty tbl.get_insert
  tbl.wf_insert tbl.wf_remove tbl.wf_retain

end
