(* ===== verification/Wire.thy ===== *)
theory Wire
  imports Prelude
begin

unbundle bit_operations_syntax

text \<open>
  The base of \<open>irtt-proto\<close>: its error type (\<open>error.rs\<close>), the wire constants and the fixed
  four-byte header (\<open>lib.rs\<close>), and the flag bits (\<open>flags.rs\<close>). Strings that only name a
  field or an enum in an error message are kept as the source has them.
\<close>

section \<open>Errors\<close>

datatype proto_error =
    PacketTooShort nat nat
  | PacketLengthMismatch nat nat
  | BadMagic
  | ReservedFlags u8
  | MissingFlag u8
  | UnexpectedFlag u8
  | HmacPresenceMismatch
  | BadHmac
  | InvalidHmacOffset
  | TruncatedVarint
  | VarintOverflow
  | InvalidUtf8
  | InvalidEnum string i64
  | PacketLengthUnrepresentable i64
  | ParameterLengthTooLarge u64 u64
  | ZeroToken
  | MalformedParams
  | PayloadTooLarge nat nat
  | MissingField string
  | UnexpectedField string

type_synonym 'a result = "proto_error + 'a"

section \<open>Constants\<close>

definition MAGIC :: bytes where
  "MAGIC = [0x14, 0xA7, 0x5B]"

definition PROTOCOL_VERSION :: i64 where
  "PROTOCOL_VERSION = 1"

definition HMAC_SIZE :: nat where [proto_consts]: "HMAC_SIZE = 16"
definition TOKEN_SIZE :: nat where [proto_consts]: "TOKEN_SIZE = 8"
definition SEQ_SIZE :: nat where [proto_consts]: "SEQ_SIZE = 4"
definition RECV_COUNT_SIZE :: nat where [proto_consts]: "RECV_COUNT_SIZE = 4"
definition RECV_WINDOW_SIZE :: nat where [proto_consts]: "RECV_WINDOW_SIZE = 8"
definition TIMESTAMP_SIZE :: nat where [proto_consts]: "TIMESTAMP_SIZE = 8"
definition HEADER_SIZE :: nat where [proto_consts]: "HEADER_SIZE = 4"

definition FLAG_OPEN :: u8 where [proto_consts]: "FLAG_OPEN = 0x01"
definition FLAG_REPLY :: u8 where [proto_consts]: "FLAG_REPLY = 0x02"
definition FLAG_CLOSE :: u8 where [proto_consts]: "FLAG_CLOSE = 0x04"
definition FLAG_HMAC :: u8 where [proto_consts]: "FLAG_HMAC = 0x08"
definition RESERVED_FLAGS_MASK :: u8 where [proto_consts]: "RESERVED_FLAGS_MASK = 0xF0"

section \<open>Flags and header\<close>

definition validate_flags :: "u8 \<Rightarrow> unit result" where
  "validate_flags flags =
     (let reserved = flags AND RESERVED_FLAGS_MASK
      in if reserved \<noteq> 0 then Err (ReservedFlags reserved) else Ok ())"

definition has :: "u8 \<Rightarrow> u8 \<Rightarrow> bool" where
  "has flags flag \<longleftrightarrow> flags AND flag \<noteq> 0"

definition write_header :: "bytes \<Rightarrow> u8 \<Rightarrow> bytes" where
  "write_header out flags = out @ MAGIC @ [flags]"

definition validate_header :: "bytes \<Rightarrow> u8 result" where
  "validate_header packet =
     (if length packet < HEADER_SIZE then Err (PacketTooShort HEADER_SIZE (length packet))
      else if take 3 packet \<noteq> MAGIC then Err BadMagic
      else let flags = packet ! 3
           in bindr (validate_flags flags) (\<lambda>_. Ok flags))"

lemma length_MAGIC [simp]: "length MAGIC = 3"
  by (simp add: MAGIC_def)

lemma validate_flags_Ok: "validate_flags f = Ok u \<longleftrightarrow> f AND RESERVED_FLAGS_MASK = 0"
  by (simp add: validate_flags_def Let_def)

lemma validate_header_Ok:
  "validate_header p = Ok f \<longleftrightarrow>
     4 \<le> length p \<and> take 3 p = MAGIC \<and> f = p ! 3 \<and> f AND RESERVED_FLAGS_MASK = 0"
  by (auto simp: validate_header_def Let_def HEADER_SIZE_def validate_flags_Ok result_simps)

lemma validate_header_written:
  "f AND RESERVED_FLAGS_MASK = 0 \<Longrightarrow> validate_header (MAGIC @ f # rest) = Ok f"
  by (simp add: validate_header_Ok nth_append)

text \<open>A flag byte is determined by its reserved nibble and its four flag bits: a finite
  check over all 256 values, done by bits.\<close>

lemma has_bit:
  "has f FLAG_OPEN \<longleftrightarrow> bit f 0" "has f FLAG_REPLY \<longleftrightarrow> bit f 1"
  "has f FLAG_CLOSE \<longleftrightarrow> bit f 2" "has f FLAG_HMAC \<longleftrightarrow> bit f 3"
proof -
  have p: "f AND (2 ^ n) \<noteq> 0 \<longleftrightarrow> bit f n" if "n < 8" for n
    using that by (simp add: and_exp_eq_0_iff_not_bit)
  from p [of 0] show "has f FLAG_OPEN \<longleftrightarrow> bit f 0" by (simp add: has_def FLAG_OPEN_def)
  from p [of 1] show "has f FLAG_REPLY \<longleftrightarrow> bit f 1" by (simp add: has_def FLAG_REPLY_def)
  from p [of 2] show "has f FLAG_CLOSE \<longleftrightarrow> bit f 2" by (simp add: has_def FLAG_CLOSE_def)
  from p [of 3] show "has f FLAG_HMAC \<longleftrightarrow> bit f 3" by (simp add: has_def FLAG_HMAC_def)
qed

end
