(* ===== verification/Envelope.thy ===== *)
theory Envelope
  imports Wire
begin

unbundle bit_operations_syntax

text \<open>
  \<open>hmac.rs\<close> and \<open>envelope.rs\<close>: the authentication field and the structural envelope every
  codec shares. HMAC-MD5 itself comes from the \<open>hmac\<close> and \<open>md5\<close> crates and is the
  parameter \<open>mac\<close>, a function from key and message to a 16-byte digest; the digest type is
  a 128-bit word because the crate's type is a 16-byte array, so its length needs no
  hypothesis. Nothing is assumed of \<open>mac\<close>.
\<close>

type_synonym mac_fun = "bytes \<Rightarrow> bytes \<Rightarrow> 128 word"

section \<open>The authentication field (\<open>hmac.rs\<close>)\<close>

definition compute_hmac :: "mac_fun \<Rightarrow> bytes \<Rightarrow> bytes \<Rightarrow> nat \<Rightarrow> bytes result" where
  "compute_hmac mac key packet hmac_offset =
     (if length packet - hmac_offset < HMAC_SIZE then Err InvalidHmacOffset
      else let hmac_end = hmac_offset + HMAC_SIZE;
               zero_hmac = replicate HMAC_SIZE 0
           in Ok (to_le_bytes 16
                (mac key (take hmac_offset packet @ zero_hmac @ drop hmac_end packet))))"

definition compute_hmac_in_place :: "mac_fun \<Rightarrow> bytes \<Rightarrow> bytes \<Rightarrow> nat \<Rightarrow> bytes result" where
  "compute_hmac_in_place mac key packet hmac_offset =
     (if length packet - hmac_offset < HMAC_SIZE then Err InvalidHmacOffset
      else bindr (compute_hmac mac key packet hmac_offset)
             (\<lambda>digest. Ok (copy_at hmac_offset digest packet)))"

definition verify_hmac :: "mac_fun \<Rightarrow> bytes \<Rightarrow> bytes \<Rightarrow> nat \<Rightarrow> unit result" where
  "verify_hmac mac key packet hmac_offset =
     (if length packet - hmac_offset < HMAC_SIZE then Err InvalidHmacOffset
      else bindr (compute_hmac mac key packet hmac_offset)
             (\<lambda>expected. if expected = slice_at hmac_offset HMAC_SIZE packet then Ok ()
                          else Err BadHmac))"

definition hmac_offset :: nat where
  "hmac_offset = HEADER_SIZE"

section \<open>The envelope (\<open>envelope.rs\<close>)\<close>

datatype flag_rule = Require u8 | Reject u8

record envelope =
  env_flags :: u8
  env_hmac_present :: bool
  env_body_offset :: nat

definition decode_structural :: "bytes \<Rightarrow> envelope result" where
  "decode_structural packet =
     bindr (validate_header packet) (\<lambda>flags.
       let hmac_present = has flags FLAG_HMAC
       in Ok \<lparr>env_flags = flags, env_hmac_present = hmac_present,
              env_body_offset = HEADER_SIZE + (if hmac_present then HMAC_SIZE else 0)\<rparr>)"

fun require_flags :: "u8 \<Rightarrow> flag_rule list \<Rightarrow> unit result" where
  "require_flags flags [] = Ok ()"
| "require_flags flags (rule # rules) =
     (case rule of
        Require flag \<Rightarrow> if \<not> has flags flag then Err (MissingFlag flag) else require_flags flags rules
      | Reject flag \<Rightarrow> if has flags flag then Err (UnexpectedFlag flag) else require_flags flags rules)"

definition check_hmac_presence :: "u8 \<Rightarrow> bytes option \<Rightarrow> unit result" where
  "check_hmac_presence flags hmac_key =
     (if has flags FLAG_HMAC = (hmac_key \<noteq> None) then Ok () else Err HmacPresenceMismatch)"

definition decode_envelope :: "bytes \<Rightarrow> bytes option \<Rightarrow> flag_rule list \<Rightarrow> envelope result" where
  "decode_envelope packet hmac_key rules =
     bindr (decode_structural packet) (\<lambda>envelope.
     bindr (require_flags (env_flags envelope) rules) (\<lambda>_.
     bindr (check_hmac_presence (env_flags envelope) hmac_key) (\<lambda>_.
     Ok envelope)))"

definition with_hmac_flag :: "u8 \<Rightarrow> bool \<Rightarrow> u8" where
  "with_hmac_flag flags authenticated =
     (if authenticated then flags OR FLAG_HMAC else flags AND NOT FLAG_HMAC)"

text \<open>The buffer's reserved capacity is not observable and is left out.\<close>

definition begin_checked :: "u8 \<Rightarrow> bytes option \<Rightarrow> flag_rule list \<Rightarrow> bytes result" where
  "begin_checked flags hmac_key rules =
     (let flags = with_hmac_flag flags (hmac_key \<noteq> None)
      in bindr (validate_flags flags) (\<lambda>_.
         bindr (require_flags flags rules) (\<lambda>_.
         let out = write_header [] flags
         in Ok (if hmac_key \<noteq> None then out @ replicate HMAC_SIZE 0 else out))))"

definition begin_packet :: "u8 \<Rightarrow> bytes option \<Rightarrow> bytes result" where
  "begin_packet flags hmac_key = begin_checked flags hmac_key []"

definition verify_envelope :: "mac_fun \<Rightarrow> bytes \<Rightarrow> bytes option \<Rightarrow> unit result" where
  "verify_envelope mac packet hmac_key =
     (case hmac_key of
        Some key \<Rightarrow> verify_hmac mac key packet hmac_offset
      | None \<Rightarrow> Ok ())"

definition finish :: "mac_fun \<Rightarrow> bytes \<Rightarrow> bytes option \<Rightarrow> bytes result" where
  "finish mac packet hmac_key =
     (case hmac_key of
        Some key \<Rightarrow> compute_hmac_in_place mac key packet hmac_offset
      | None \<Rightarrow> Ok packet)"

definition verify_packet_hmac :: "mac_fun \<Rightarrow> bytes \<Rightarrow> bytes \<Rightarrow> unit result" where
  "verify_packet_hmac mac key packet =
     bindr (decode_structural packet) (\<lambda>envelope.
       if \<not> env_hmac_present envelope then Err (MissingFlag FLAG_HMAC)
       else verify_hmac mac key packet hmac_offset)"

section \<open>Lemmas\<close>

text \<open>The canonical shape of a packet: magic, flags, the authentication field when the key is
  present, and the body.\<close>

definition sealed :: "mac_fun \<Rightarrow> u8 \<Rightarrow> bytes option \<Rightarrow> bytes \<Rightarrow> bytes" where
  "sealed mac flags hmac_key body =
     MAGIC @ flags # (case hmac_key of
         None \<Rightarrow> body
       | Some key \<Rightarrow> to_le_bytes 16 (mac key (MAGIC @ flags # replicate 16 0 @ body)) @ body)"

definition auth_len :: "bytes option \<Rightarrow> nat" where
  "auth_len hmac_key = (if hmac_key = None then 0 else 16)"

lemma length_sealed [simp]: "length (sealed mac f k body) = 4 + auth_len k + length body"
  by (cases k) (simp_all add: sealed_def auth_len_def)

lemma drop_sealed [simp]: "drop (4 + auth_len k) (sealed mac f k body) = body"
  by (cases k) (simp_all add: sealed_def auth_len_def)

lemma drop_sealed_add:
  "drop (4 + auth_len k + n) (sealed mac f k body) = drop n body"
  by (metis drop_drop drop_sealed add.commute)

lemma begin_checked_Ok:
  assumes "g = with_hmac_flag f (k \<noteq> None)" and "g AND RESERVED_FLAGS_MASK = 0"
    and "require_flags g rules = Ok ()"
  shows "begin_checked f k rules =
     Ok (MAGIC @ g # (if k = None then [] else replicate 16 0))"
  using assms
  by (auto simp: begin_checked_def Let_def validate_flags_def write_header_def HMAC_SIZE_def)

lemma finish_sealed:
  "finish mac (MAGIC @ f # (if k = None then [] else replicate 16 0) @ body) k =
     Ok (sealed mac f k body)"
  by (cases k)
     (simp_all add: finish_def compute_hmac_in_place_def compute_hmac_def hmac_offset_def
        HEADER_SIZE_def HMAC_SIZE_def Let_def copy_at_def sealed_def)

lemma validate_header_sealed:
  "f AND RESERVED_FLAGS_MASK = 0 \<Longrightarrow> validate_header (sealed mac f k body) = Ok f"
  by (simp add: sealed_def validate_header_written)

lemma decode_structural_sealed:
  "f AND RESERVED_FLAGS_MASK = 0 \<Longrightarrow> has f FLAG_HMAC = (k \<noteq> None) \<Longrightarrow>
     decode_structural (sealed mac f k body) =
       Ok \<lparr>env_flags = f, env_hmac_present = (k \<noteq> None), env_body_offset = 4 + auth_len k\<rparr>"
  by (simp add: decode_structural_def validate_header_sealed Let_def auth_len_def
      HEADER_SIZE_def HMAC_SIZE_def)

lemma verify_hmac_iff:
  "verify_hmac mac key p off = Ok () \<longleftrightarrow>
     off + 16 \<le> length p \<and>
     slice_at off 16 p = to_le_bytes 16 (mac key (take off p @ replicate 16 0 @ drop (off + 16) p))"
  by (auto simp: verify_hmac_def compute_hmac_def HMAC_SIZE_def Let_def)

lemma verify_sealed:
  "verify_hmac mac key (sealed mac f (Some key) body) hmac_offset = Ok ()"
  by (simp add: verify_hmac_iff hmac_offset_def HEADER_SIZE_def slice_at_def sealed_def)

lemma verify_envelope_sealed: "verify_envelope mac (sealed mac f k body) k = Ok ()"
  by (cases k) (simp_all add: verify_envelope_def verify_sealed)

lemma decode_envelope_sealed:
  "f AND RESERVED_FLAGS_MASK = 0 \<Longrightarrow> has f FLAG_HMAC = (k \<noteq> None) \<Longrightarrow>
   require_flags f rules = Ok () \<Longrightarrow>
     decode_envelope (sealed mac f k body) k rules =
       Ok \<lparr>env_flags = f, env_hmac_present = (k \<noteq> None), env_body_offset = 4 + auth_len k\<rparr>"
  by (simp add: decode_envelope_def decode_structural_sealed check_hmac_presence_def)

lemma decode_structural_Ok:
  "decode_structural p = Ok e \<longleftrightarrow>
     validate_header p = Ok (env_flags e) \<and> env_hmac_present e = has (env_flags e) FLAG_HMAC \<and>
     env_body_offset e = 4 + (if env_hmac_present e then 16 else 0)"
  by (cases e) (auto simp: decode_structural_def result_simps Let_def HEADER_SIZE_def HMAC_SIZE_def)

text \<open>The encoder's key decides the flag: the other bits are untouched.\<close>

lemma bit_FLAG_HMAC: "bit FLAG_HMAC n \<longleftrightarrow> n = 3"
proof -
  have eq: "FLAG_HMAC = 2 ^ 3" by (simp add: FLAG_HMAC_def)
  show ?thesis unfolding eq bit_exp_iff by auto
qed

lemma bit_RESERVED: "bit RESERVED_FLAGS_MASK n \<longleftrightarrow> 4 \<le> n \<and> n < 8"
proof -
  have eq: "RESERVED_FLAGS_MASK = push_bit 4 (mask 4)"
    by (simp add: RESERVED_FLAGS_MASK_def mask_eq_exp_minus_1)
  show ?thesis unfolding eq bit_push_bit_iff bit_mask_iff by auto
qed

lemma with_hmac_flag_reserved:
  "with_hmac_flag f a AND RESERVED_FLAGS_MASK = f AND RESERVED_FLAGS_MASK"
  by (rule bit_word_eqI)
     (auto simp: with_hmac_flag_def bit_and_iff bit_or_iff bit_not_iff bit_FLAG_HMAC bit_RESERVED)

lemma has_with_hmac_flag:
  "has (with_hmac_flag f a) FLAG_HMAC \<longleftrightarrow> a"
  "has (with_hmac_flag f a) FLAG_OPEN \<longleftrightarrow> has f FLAG_OPEN"
  "has (with_hmac_flag f a) FLAG_REPLY \<longleftrightarrow> has f FLAG_REPLY"
  "has (with_hmac_flag f a) FLAG_CLOSE \<longleftrightarrow> has f FLAG_CLOSE"
  unfolding has_bit with_hmac_flag_def
  by (auto simp: bit_and_iff bit_or_iff bit_not_iff bit_FLAG_HMAC)

lemma require_flags_with_hmac:
  "require_flags (with_hmac_flag f a) [Require FLAG_OPEN, Require FLAG_REPLY] =
     require_flags f [Require FLAG_OPEN, Require FLAG_REPLY]"
  "require_flags (with_hmac_flag f a) [Reject FLAG_OPEN, Require FLAG_REPLY] =
     require_flags f [Reject FLAG_OPEN, Require FLAG_REPLY]"
  by (simp_all add: has_with_hmac_flag)

end
