(* ===== verification/Varint.thy ===== *)
theory Varint
  imports Wire
begin

unbundle bit_operations_syntax

text \<open>
  \<open>varint.rs\<close>: base-128 varints and the zigzag transform. The decoder's loop carries the
  index of the byte it reads and the value so far, as the source's \<open>for\<close> over
  \<open>input.iter().enumerate()\<close> does. The interface \<open>prefix_codec\<close> states what the parameter
  codec relies on: decoding an encoded value followed by anything yields the value and
  its length.
\<close>

section \<open>Model\<close>

lemma unat_drop_bit_7_less: "0x80 \<le> v \<Longrightarrow> unat (drop_bit 7 v) < unat (v :: u64)"
proof -
  assume "0x80 \<le> v"
  then have "0x80 \<le> unat v" by (simp add: word_le_nat_alt)
  then show ?thesis by (simp only: unat_drop_bit_eq drop_bit_nat_def) simp
qed

function encode_uvarint :: "u64 \<Rightarrow> bytes \<Rightarrow> bytes" where
  "encode_uvarint value out =
     (if value \<ge> 0x80 then encode_uvarint (drop_bit 7 value) (out @ [ucast value OR 0x80])
      else out @ [ucast value])"
  by pat_completeness auto
termination
  by (relation "measure (\<lambda>(v, _). unat v)") (auto simp: unat_drop_bit_7_less)

declare encode_uvarint.simps [simp del]

fun decode_uvarint_from :: "nat \<Rightarrow> u64 \<Rightarrow> bytes \<Rightarrow> (u64 \<times> nat) result" where
  "decode_uvarint_from idx value [] = Err TruncatedVarint"
| "decode_uvarint_from idx value (byte # rest) =
     (if idx = 10 then Err VarintOverflow
      else let low = (ucast (byte AND 0x7f) :: u64); shift = idx * 7
           in if shift = 63 \<and> low > 1 then Err VarintOverflow
              else let value' = value OR push_bit shift low
                   in if byte < 0x80 then Ok (value', idx + 1)
                      else decode_uvarint_from (idx + 1) value' rest)"

definition decode_uvarint :: "bytes \<Rightarrow> (u64 \<times> nat) result" where
  "decode_uvarint input = decode_uvarint_from 0 0 input"

text \<open>\<open>value << 1\<close> and the arithmetic \<open>value >> 63\<close> on \<open>i64\<close>.\<close>

definition zigzag_encode :: "i64 \<Rightarrow> u64" where
  "zigzag_encode value = push_bit 1 value XOR signed_drop_bit 63 value"

definition zigzag_decode :: "u64 \<Rightarrow> i64" where
  "zigzag_decode value = drop_bit 1 value XOR (- (value AND 1))"

definition encode_varint :: "i64 \<Rightarrow> bytes \<Rightarrow> bytes" where
  "encode_varint value out = encode_uvarint (zigzag_encode value) out"

definition decode_varint :: "bytes \<Rightarrow> (i64 \<times> nat) result" where
  "decode_varint input =
     bindr (decode_uvarint input) (\<lambda>(value, used). Ok (zigzag_decode value, used))"

section \<open>Interface\<close>

text \<open>An appending encoder and a prefix decoder that agree.\<close>

locale prefix_codec =
  fixes encode :: "'a \<Rightarrow> bytes \<Rightarrow> bytes"
    and decode :: "bytes \<Rightarrow> ('a \<times> nat) result"
  assumes encode_appends: "encode x out = out @ encode x []"
    and encode_nonempty: "encode x [] \<noteq> []"
    and decode_encode: "decode (encode x [] @ rest) = Ok (x, length (encode x []))"
    and decode_used: "decode bs = Ok (x, n) \<Longrightarrow> 0 < n \<and> n \<le> length bs"
begin

lemma decode_drop_encode:
  "decode (drop (length pre) (pre @ encode x [] @ rest)) = Ok (x, length (encode x []))"
  by (simp add: decode_encode)

lemma encode_inj: "encode x [] @ r = encode y [] @ s \<Longrightarrow> x = y \<and> r = s"
proof -
  assume eq: "encode x [] @ r = encode y [] @ s"
  then have "decode (encode x [] @ r) = decode (encode y [] @ s)" by simp
  then have "x = y" by (simp add: decode_encode)
  with eq show ?thesis by simp
qed

end

section \<open>Unsigned varints\<close>

lemma encode_uvarint_append: "encode_uvarint v out = out @ encode_uvarint v []"
proof (induction v arbitrary: out rule: measure_induct_rule [of unat])
  case (less v)
  show ?case
  proof (cases "0x80 \<le> v")
    case True
    note IH = less.IH [OF unat_drop_bit_7_less [OF True]]
    show ?thesis
      using True IH [of "out @ [ucast v OR 0x80]"] IH [of "[ucast v OR 0x80]"]
      by (simp add: encode_uvarint.simps [of v out] encode_uvarint.simps [of v "[]"])
  next
    case False
    then show ?thesis
      by (simp add: encode_uvarint.simps [of v out] encode_uvarint.simps [of v "[]"])
  qed
qed

lemma encode_uvarint_small: "v < 0x80 \<Longrightarrow> encode_uvarint v [] = [ucast v]"
  by (subst encode_uvarint.simps) (simp add: linorder_not_le [symmetric])

lemma encode_uvarint_large:
  "0x80 \<le> v \<Longrightarrow> encode_uvarint v [] = (ucast v OR 0x80) # encode_uvarint (drop_bit 7 v) []"
  using encode_uvarint_append [of "drop_bit 7 v" "[ucast v OR 0x80]"]
  by (simp add: encode_uvarint.simps [of v "[]"])

lemma bit_0x80: "bit (0x80 :: 'a::len word) n \<longleftrightarrow> n = 7 \<and> 7 < LENGTH('a)"
proof -
  have "(0x80 :: 'a word) = 2 ^ 7" by simp
  then show ?thesis by (auto simp only: bit_exp_iff possible_bit_word)
qed

lemma low7_take_bit: "(b :: u8) AND 0x7f = take_bit 7 b"
proof -
  have "(0x7f :: u8) = mask 7" by (simp add: mask_eq_exp_minus_1)
  then show ?thesis by (simp only: take_bit_eq_mask)
qed

lemma ucast_low7: "ucast (take_bit 7 (ucast v :: u8)) = (take_bit 7 v :: u64)"
  by (rule bit_word_eqI) (auto simp: bit_ucast_iff bit_take_bit_iff)

lemma byte_lt_128_iff: "(b :: u8) < 0x80 \<longleftrightarrow> \<not> bit b 7"
proof -
  have "unat b < 2 ^ LENGTH(8)" by (rule unsigned_less)
  then have "odd (unat b div 128) \<longleftrightarrow> 128 \<le> unat b"
    by (cases "128 \<le> unat b") (auto simp: div_nat_eqI [of 128 1])
  moreover have "bit b 7 \<longleftrightarrow> bit (unat b) 7"
    by (simp add: bit_unsigned_iff)
  moreover have "bit (unat b) 7 \<longleftrightarrow> odd (unat b div 128)"
    by (simp add: bit_iff_odd)
  ultimately show ?thesis by (simp add: word_less_nat_alt not_le)
qed

lemma low_bits_cont: "ucast ((ucast v OR 0x80 :: u8) AND 0x7f) = (take_bit 7 v :: u64)"
  by (simp only: low7_take_bit take_bit_or) (simp add: ucast_low7)

lemma take_bit_small: "(v :: u64) < 0x80 \<Longrightarrow> take_bit 7 v = v"
  by (simp add: take_bit_eq_mod unat_mod word_unat_eq_iff word_less_nat_alt)

lemma low_bits_last: "v < 0x80 \<Longrightarrow> ucast ((ucast v :: u8) AND 0x7f) = (v :: u64)"
  by (simp only: low7_take_bit ucast_low7 take_bit_small)

lemma last_byte_lt: "v < 0x80 \<Longrightarrow> (ucast (v :: u64) :: u8) < 0x80"
  using take_bit_small [of v]
  by (metis bit_take_bit_iff byte_lt_128_iff bit_ucast_iff less_irrefl)

lemma cont_byte_ge: "\<not> (ucast (v :: u64) OR 0x80 :: u8) < 0x80"
  by (simp add: byte_lt_128_iff bit_or_iff bit_0x80)

lemma split_low_7:
  "push_bit s (take_bit 7 v) OR push_bit (s + 7) (drop_bit 7 v) = push_bit s (v :: u64)"
proof (rule bit_word_eqI)
  fix n assume "n < LENGTH(64)"
  then show "bit (push_bit s (take_bit 7 v) OR push_bit (s + 7) (drop_bit 7 v)) n =
      bit (push_bit s v) n"
    by (cases "n - s < 7")
       (auto simp: bit_or_iff bit_push_bit_iff bit_take_bit_iff bit_drop_bit_eq add.commute
          not_less)
qed

text \<open>The decoder resumed at byte \<open>idx\<close> reads an encoded value that still fits: the bits
  left above position \<open>7 * idx\<close> bound it.\<close>

lemma decode_uvarint_from_encode:
  "idx \<le> 9 \<Longrightarrow> unat v < 2 ^ (64 - 7 * idx) \<Longrightarrow>
     decode_uvarint_from idx acc (encode_uvarint v [] @ rest) =
       Ok (acc OR push_bit (7 * idx) v, idx + length (encode_uvarint v []))"
proof (induction v arbitrary: idx acc rule: measure_induct_rule [of unat])
  case (less v)
  show ?case
  proof (cases "0x80 \<le> v")
    case True
    then have v: "128 \<le> unat v" by (simp add: word_le_nat_alt)
    have idx: "idx \<le> 8"
    proof (rule ccontr)
      assume "\<not> idx \<le> 8"
      with less.prems(1) have "idx = 9" by simp
      with less.prems(2) v show False by simp
    qed
    have "unat (drop_bit 7 v) < 2 ^ (64 - 7 * (idx + 1))"
    proof -
      have "(2::nat) ^ (64 - 7 * idx) = 2 ^ (64 - 7 * (idx + 1)) * 2 ^ 7"
        unfolding power_add [symmetric] using idx by simp
      with less.prems(2) have "unat v div 2 ^ 7 < 2 ^ (64 - 7 * (idx + 1))"
        by (simp add: less_mult_imp_div_less)
      then show ?thesis by (simp only: unat_drop_bit_eq drop_bit_nat_def)
    qed
    with less.IH [OF unat_drop_bit_7_less [OF True], of "idx + 1"] idx True show ?thesis
      by (simp add: encode_uvarint_large low_bits_cont cont_byte_ge Let_def or.assoc
          split_low_7 [of "idx * 7", unfolded add.commute [of "idx * 7"]] algebra_simps)
  next
    case False
    then have v: "v < 0x80" by simp
    have "v \<le> 1" if "idx = 9"
      using less.prems(2) that by (simp add: word_le_nat_alt)
    with v less.prems(1) show ?thesis
      by (auto simp: encode_uvarint_small low_bits_last last_byte_lt Let_def mult.commute)
  qed
qed

lemma decode_encode_uvarint:
  "decode_uvarint (encode_uvarint v [] @ rest) = Ok (v, length (encode_uvarint v []))"
  using decode_uvarint_from_encode [of 0 v 0 rest] unsigned_less [of v]
  by (simp add: decode_uvarint_def)

lemma decode_uvarint_from_used:
  "decode_uvarint_from idx acc bs = Ok (v, n) \<Longrightarrow> idx < n \<and> n \<le> idx + length bs \<and> (idx \<le> 10 \<longrightarrow> n \<le> 10)"
  by (induction bs arbitrary: idx acc)
     (fastforce simp: Let_def split: if_splits)+

interpretation uv: prefix_codec encode_uvarint decode_uvarint
proof unfold_locales
  show "encode_uvarint x out = out @ encode_uvarint x []" for x out
    by (rule encode_uvarint_append)
  show "encode_uvarint x [] \<noteq> []" for x
    by (cases "x < 0x80") (auto simp: encode_uvarint_small encode_uvarint_large not_less)
  show "decode_uvarint (encode_uvarint x [] @ rest) = Ok (x, length (encode_uvarint x []))" for x rest
    by (rule decode_encode_uvarint)
  show "0 < n \<and> n \<le> length bs" if "decode_uvarint bs = Ok (x, n)" for bs x n
    using decode_uvarint_from_used [of 0 0 bs x n] that by (simp add: decode_uvarint_def)
qed

lemma length_encode_uvarint: "unat v < 2 ^ (7 * k) \<Longrightarrow> 0 < k \<Longrightarrow> length (encode_uvarint v []) \<le> k"
proof (induction v arbitrary: k rule: measure_induct_rule [of unat])
  case (less v)
  show ?case
  proof (cases "0x80 \<le> v")
    case True
    then have v: "128 \<le> unat v" by (simp add: word_le_nat_alt)
    then have k: "1 < k" using less.prems by (cases "k = 1") auto
    have "(2::nat) ^ (7 * k) = 2 ^ (7 * (k - 1)) * 2 ^ 7"
      unfolding power_add [symmetric] using k by (simp add: algebra_simps)
    with less.prems(1) have "unat v div 2 ^ 7 < 2 ^ (7 * (k - 1))"
      by (simp add: less_mult_imp_div_less)
    then have "unat (drop_bit 7 v) < 2 ^ (7 * (k - 1))"
      by (simp only: unat_drop_bit_eq drop_bit_nat_def)
    with less.IH [OF unat_drop_bit_7_less [OF True], of "k - 1"] k True show ?thesis
      by (simp add: encode_uvarint_large)
  next
    case False
    then show ?thesis using less.prems by (simp add: encode_uvarint_small)
  qed
qed

section \<open>Zigzag\<close>

lemma bit_zigzag_encode:
  "n < 64 \<Longrightarrow> bit (zigzag_encode v) n \<longleftrightarrow> (0 < n \<and> bit v (n - 1)) \<noteq> bit v 63"
  unfolding zigzag_encode_def bit_xor_iff bit_push_bit_iff bit_signed_drop_bit_iff
  by (auto simp: Suc_le_eq)

lemma bit_minus_and_1: "n < 64 \<Longrightarrow> bit (- (u AND 1 :: u64)) n \<longleftrightarrow> bit u 0"
  by (cases "odd u") (simp_all add: and_one_eq odd_iff_mod_2_eq_one bit_0)

lemma zigzag_decode_encode: "zigzag_decode (zigzag_encode v) = v"
proof (rule bit_word_eqI)
  fix n assume n: "n < LENGTH(64)"
  show "bit (zigzag_decode (zigzag_encode v)) n = bit v n"
  proof (cases "n = 63")
    case True
    then show ?thesis
      using bit_imp_le_length [of "zigzag_encode v" 64]
      by (auto simp: zigzag_decode_def bit_xor_iff bit_drop_bit_eq bit_minus_and_1 bit_zigzag_encode)
  next
    case False
    with n show ?thesis
      by (auto simp: zigzag_decode_def bit_xor_iff bit_drop_bit_eq bit_minus_and_1 bit_zigzag_encode)
  qed
qed

lemma zigzag_encode_decode: "zigzag_encode (zigzag_decode u) = u"
proof (rule bit_word_eqI)
  fix n assume n: "n < LENGTH(64)"
  have b: "bit (zigzag_decode u) m \<longleftrightarrow> (bit u (Suc m) \<noteq> bit u 0)" if "m < 64" for m
    using that by (auto simp: zigzag_decode_def bit_xor_iff bit_drop_bit_eq bit_minus_and_1)
  have top: "\<not> bit u 64" using bit_imp_le_length [of u 64] by auto
  from n show "bit (zigzag_encode (zigzag_decode u)) n = bit u n"
    by (cases n) (auto simp: bit_zigzag_encode b top)
qed

lemma zigzag_zero [simp]: "zigzag_encode v = 0 \<longleftrightarrow> v = 0"
proof
  assume "zigzag_encode v = 0"
  then have "v = zigzag_decode 0" using zigzag_decode_encode [of v] by simp
  then show "v = 0" by (simp add: zigzag_decode_def)
qed (simp add: zigzag_encode_def)

interpretation sv: prefix_codec encode_varint decode_varint
proof unfold_locales
  show "encode_varint x out = out @ encode_varint x []" for x out
    by (simp add: encode_varint_def) (rule uv.encode_appends)
  show "encode_varint x [] \<noteq> []" for x
    by (simp add: encode_varint_def uv.encode_nonempty)
  show "decode_varint (encode_varint x [] @ rest) = Ok (x, length (encode_varint x []))" for x rest
    by (simp add: encode_varint_def decode_varint_def uv.decode_encode zigzag_decode_encode)
  show "0 < n \<and> n \<le> length bs" if "decode_varint bs = Ok (x, n)" for bs x n
    using that by (auto simp: decode_varint_def result_simps dest: uv.decode_used)
qed

section \<open>Further facts\<close>

lemma decode_uvarint_from_take:
  "decode_uvarint_from idx acc bs = Ok (v, n) \<Longrightarrow> decode_uvarint_from idx acc (take (n - idx) bs @ rest) = Ok (v, n)"
proof (induction bs arbitrary: idx acc)
  case (Cons b bs)
  have lt: "idx < n" using decode_uvarint_from_used [OF Cons.prems] by simp
  then obtain k where k: "n - idx = Suc k" "n - Suc idx = k" by (metis Suc_diff_Suc)
  show ?case
    using Cons.prems Cons.IH [of "idx + 1"] by (auto simp: k Let_def split: if_splits)
qed simp

lemma uint_zigzag_encode:
  "uint (zigzag_encode v) = (if 0 \<le> sint v then 2 * sint v else - 2 * sint v - 1)"
proof -
  have r: "- (2 ^ 63) \<le> sint v" "sint v < 2 ^ 63"
    using sint_i64_lower [of v] sint_i64_upper [of v] by simp_all
  have sh: "push_bit 1 v = 2 * v" by (simp add: push_bit_eq_mult)
  have v: "v = word_of_int (sint v)" by simp
  have sg: "signed_drop_bit 63 v = (if 0 \<le> sint v then 0 else - 1)"
  proof (rule bit_word_eqI)
    fix n assume "n < LENGTH(64)"
    moreover have "bit v 63 \<longleftrightarrow> sint v < 0" using bit_last_iff [of v] by simp
    ultimately show "bit (signed_drop_bit 63 v) n = bit (if 0 \<le> sint v then 0 else - 1 :: i64) n"
      by (cases n) (auto simp: bit_signed_drop_bit_iff)
  qed
  have "zigzag_encode v = word_of_int (if 0 \<le> sint v then 2 * sint v else - 2 * sint v - 1)"
  proof (cases "0 \<le> sint v")
    case True
    then have "zigzag_encode v = 2 * v" by (simp only: zigzag_encode_def sg sh if_True) simp
    also have "\<dots> = word_of_int (2 * sint v)" by (subst v) (simp only: of_int_mult of_int_numeral)
    finally show ?thesis using True by simp
  next
    case False
    then have "zigzag_encode v = NOT (2 * v)"
      by (simp only: zigzag_encode_def sg sh if_False) (simp add: bit.xor_one_right del: mult_cancel_left)
    also have "\<dots> = - (2 * v) - 1" by (simp add: not_eq_complement)
    also have "\<dots> = word_of_int (- 2 * sint v - 1)"
      by (subst v) (simp only: of_int_mult of_int_numeral of_int_minus of_int_diff of_int_1 mult_minus_left)
    finally show ?thesis using False by simp
  qed
  then show ?thesis using r by (auto simp: uint_word_of_int)
qed

section \<open>Properties\<close>

text \<open>An encoded \<open>u64\<close> followed by anything decodes to the value and the length of its
  encoding, which is between one and ten bytes.\<close>

theorem uvarint_roundtrip:
  "decode_uvarint (encode_uvarint v [] @ rest) = Ok (v, length (encode_uvarint v [])) \<and>
   1 \<le> length (encode_uvarint v []) \<and> length (encode_uvarint v []) \<le> 10"
proof -
  have "unat v < 2 ^ LENGTH(64)" by (rule unsigned_less)
  then have "unat v < 2 ^ (7 * 10)" by simp
  then show ?thesis
    using uv.decode_encode [of v rest] uv.encode_nonempty [of v] length_encode_uvarint [of v 10]
    by (simp add: Suc_le_eq)
qed

text \<open>Zigzag is a bijection between \<open>i64\<close> and \<open>u64\<close>, so signed varints round-trip, and it
  keeps small magnitudes small: a value and its zigzag image satisfy the documented
  \<open>0, -1, 1, -2, ...\<close> numbering.\<close>

theorem zigzag_numbering:
  "zigzag_decode (zigzag_encode v) = v \<and> zigzag_encode (zigzag_decode u) = u \<and>
   decode_varint (encode_varint v [] @ rest) = Ok (v, length (encode_varint v [])) \<and>
   uint (zigzag_encode v) = (if 0 \<le> sint v then 2 * sint v else - 2 * sint v - 1)"
  using sv.decode_encode [of v rest]
  by (simp add: zigzag_decode_encode zigzag_encode_decode uint_zigzag_encode)

text \<open>The decoder is total on hostile input: it reads at most ten bytes, never past the
  end, and a prefix it accepts is accepted with any continuation.\<close>

theorem uvarint_decoder_bounds:
  assumes "decode_uvarint bs = Ok (v, n)"
  shows "0 < n \<and> n \<le> length bs \<and> n \<le> 10 \<and> decode_uvarint (take n bs @ rest) = Ok (v, n)"
  using assms decode_uvarint_from_used [of 0 0 bs v n] decode_uvarint_from_take [of 0 0 bs v n rest]
  by (simp add: decode_uvarint_def)

theorem uvarint_decoder_bounds_witness:
  "0 < (2::nat) \<and> 2 \<le> length [0x80, 0x01 :: u8, 0xFF] \<and> (2::nat) \<le> 10 \<and>
   decode_uvarint (take 2 [0x80, 0x01, 0xFF] @ [0x05]) = Ok (0x80, 2)"
proof -
  have "decode_uvarint [0x80, 0x01, 0xFF] = Ok (0x80, 2)" by code_simp
  from uvarint_decoder_bounds [OF this, of "[0x05]"] show ?thesis .
qed

end
