(* ===== verification/Params.thy ===== *)
theory Params
  imports Varint
begin

text \<open>
  \<open>params.rs\<close>: the open parameters, their tag/varint encoding and the tolerant decoder that
  also reports which tags appeared. A \<open>String\<close> is the list of its UTF-8 bytes; the standard
  library's \<open>std::str::from_utf8\<close> is modelled by \<open>utf8_valid\<close>, the well-formed byte
  sequences of the Unicode standard. The decoder's \<open>while pos < input.len()\<close> loop is
  \<open>decode_params_from\<close>.
\<close>

section \<open>UTF-8\<close>

definition utf8_cont :: "u8 \<Rightarrow> bool" where
  "utf8_cont b \<longleftrightarrow> 0x80 \<le> b \<and> b \<le> 0xBF"

text \<open>The second byte admitted after a three- or four-byte lead: no overlong form, no
  surrogate, nothing above U+10FFFF.\<close>

definition utf8_second3 :: "u8 \<Rightarrow> u8 \<Rightarrow> bool" where
  "utf8_second3 lead b \<longleftrightarrow>
     (if lead = 0xE0 then 0xA0 \<le> b \<and> b \<le> 0xBF
      else if lead = 0xED then 0x80 \<le> b \<and> b \<le> 0x9F else utf8_cont b)"

definition utf8_second4 :: "u8 \<Rightarrow> u8 \<Rightarrow> bool" where
  "utf8_second4 lead b \<longleftrightarrow>
     (if lead = 0xF0 then 0x90 \<le> b \<and> b \<le> 0xBF
      else if lead = 0xF4 then 0x80 \<le> b \<and> b \<le> 0x8F else utf8_cont b)"

fun utf8_valid :: "bytes \<Rightarrow> bool" where
  "utf8_valid [] = True"
| "utf8_valid (b # rest) =
     (if b < 0x80 then utf8_valid rest
      else (case rest of [] \<Rightarrow> False | c # rest1 \<Rightarrow>
        if 0xC2 \<le> b \<and> b \<le> 0xDF then utf8_cont c \<and> utf8_valid rest1
        else (case rest1 of [] \<Rightarrow> False | d # rest2 \<Rightarrow>
          if 0xE0 \<le> b \<and> b \<le> 0xEF then utf8_second3 b c \<and> utf8_cont d \<and> utf8_valid rest2
          else (case rest2 of [] \<Rightarrow> False | e # rest3 \<Rightarrow>
            0xF0 \<le> b \<and> b \<le> 0xF4 \<and> utf8_second4 b c \<and> utf8_cont d \<and> utf8_cont e \<and>
            utf8_valid rest3))))"

section \<open>Data\<close>

definition MAX_SERVER_FILL_BYTES :: nat where
  "MAX_SERVER_FILL_BYTES = 32"

datatype received_stats = RsNone | RsCount | RsWindow | RsBoth

datatype stamp_at = StNone | StSend | StReceive | StBoth | StMidpoint

datatype clock = ClkUnspecified | ClkWall | ClkMonotonic | ClkBoth

fun has_count :: "received_stats \<Rightarrow> bool" where
  "has_count RsCount = True" | "has_count RsBoth = True" | "has_count _ = False"

fun has_window :: "received_stats \<Rightarrow> bool" where
  "has_window RsWindow = True" | "has_window RsBoth = True" | "has_window _ = False"

fun has_wall :: "clock \<Rightarrow> bool" where
  "has_wall ClkWall = True" | "has_wall ClkBoth = True" | "has_wall _ = False"

fun has_mono :: "clock \<Rightarrow> bool" where
  "has_mono ClkMonotonic = True" | "has_mono ClkBoth = True" | "has_mono _ = False"

text \<open>The \<open>repr(i64)\<close> discriminants and the fallible conversions back.\<close>

fun received_stats_i64 :: "received_stats \<Rightarrow> i64" where
  "received_stats_i64 RsNone = 0" | "received_stats_i64 RsCount = 1"
| "received_stats_i64 RsWindow = 2" | "received_stats_i64 RsBoth = 3"

fun stamp_at_i64 :: "stamp_at \<Rightarrow> i64" where
  "stamp_at_i64 StNone = 0" | "stamp_at_i64 StSend = 1" | "stamp_at_i64 StReceive = 2"
| "stamp_at_i64 StBoth = 3" | "stamp_at_i64 StMidpoint = 4"

fun clock_i64 :: "clock \<Rightarrow> i64" where
  "clock_i64 ClkUnspecified = 0" | "clock_i64 ClkWall = 1"
| "clock_i64 ClkMonotonic = 2" | "clock_i64 ClkBoth = 3"

definition received_stats_try_from :: "i64 \<Rightarrow> received_stats result" where
  "received_stats_try_from value =
     (if value = 0 then Ok RsNone else if value = 1 then Ok RsCount
      else if value = 2 then Ok RsWindow else if value = 3 then Ok RsBoth
      else Err (InvalidEnum ''ReceivedStats'' value))"

definition stamp_at_try_from :: "i64 \<Rightarrow> stamp_at result" where
  "stamp_at_try_from value =
     (if value = 0 then Ok StNone else if value = 1 then Ok StSend
      else if value = 2 then Ok StReceive else if value = 3 then Ok StBoth
      else if value = 4 then Ok StMidpoint
      else Err (InvalidEnum ''StampAt'' value))"

definition clock_try_from :: "i64 \<Rightarrow> clock result" where
  "clock_try_from value =
     (if value = 1 then Ok ClkWall else if value = 2 then Ok ClkMonotonic
      else if value = 3 then Ok ClkBoth
      else Err (InvalidEnum ''Clock'' value))"

record params =
  protocol_version :: i64
  duration_ns :: i64
  interval_ns :: i64
  length_param :: i64
  received_stats :: received_stats
  stamp_at :: stamp_at
  clock :: clock
  dscp :: i64
  server_fill :: "bytes option"

definition params_default :: params where
  "params_default =
     \<lparr>protocol_version = 0, duration_ns = 0, interval_ns = 0, length_param = 0,
      received_stats = RsNone, stamp_at = StNone, clock = ClkUnspecified, dscp = 0,
      server_fill = None\<rparr>"

definition with_protocol_defaults :: params where
  "with_protocol_defaults = params_default\<lparr>protocol_version := PROTOCOL_VERSION\<rparr>"

record param_presence =
  has_protocol_version :: bool
  has_duration_ns :: bool
  has_interval_ns :: bool
  has_length :: bool
  has_received_stats :: bool
  has_stamp_at :: bool
  has_clock :: bool
  has_dscp :: bool
  has_server_fill :: bool

definition presence_default :: param_presence where
  "presence_default =
     \<lparr>has_protocol_version = False, has_duration_ns = False, has_interval_ns = False,
      has_length = False, has_received_stats = False, has_stamp_at = False, has_clock = False,
      has_dscp = False, has_server_fill = False\<rparr>"

record decoded_params =
  dec_params :: params
  dec_presence :: param_presence

section \<open>Codec\<close>

definition push_int :: "u64 \<Rightarrow> i64 \<Rightarrow> bytes \<Rightarrow> bytes" where
  "push_int tag value out =
     (if value = 0 then out else encode_varint value (encode_uvarint tag out))"

text \<open>\<open>fill.value.len() as u64\<close>: exact for any real buffer.\<close>

definition push_fill :: "bytes option \<Rightarrow> bytes \<Rightarrow> bytes" where
  "push_fill fill out =
     (case fill of
        None \<Rightarrow> out
      | Some value \<Rightarrow> encode_uvarint (of_nat (length value)) (encode_uvarint 9 out) @ value)"

definition encode_params :: "params \<Rightarrow> bytes" where
  "encode_params p =
     (let out = push_int 1 (protocol_version p) [];
          out = push_int 2 (duration_ns p) out;
          out = push_int 3 (interval_ns p) out;
          out = push_int 4 (length_param p) out;
          out = push_int 5 (received_stats_i64 (received_stats p)) out;
          out = push_int 6 (stamp_at_i64 (stamp_at p)) out;
          out = push_int 7 (clock_i64 (clock p)) out;
          out = push_int 8 (dscp p) out
      in push_fill (server_fill p) out)"

definition read_int :: "bytes \<Rightarrow> nat \<Rightarrow> (i64 \<times> nat) result" where
  "read_int input pos =
     bindr (decode_varint (drop pos input)) (\<lambda>(value, used). Ok (value, pos + used))"

abbreviation set_param ::
  "(params \<Rightarrow> params) \<Rightarrow> (param_presence \<Rightarrow> param_presence) \<Rightarrow> decoded_params \<Rightarrow> decoded_params" where
  "set_param f g d \<equiv> d\<lparr>dec_params := f (dec_params d), dec_presence := g (dec_presence d)\<rparr>"

text \<open>Tag 9: the fill's length, its bound, its bytes and their encoding.\<close>

definition read_fill :: "u64 \<Rightarrow> bytes \<Rightarrow> nat \<Rightarrow> (bytes \<times> nat) result" where
  "read_fill tag input pos =
     bindr (decode_uvarint (drop pos input)) (\<lambda>(len64, used).
       let pos = pos + used; len = unat len64
       in if len > usize_max then Err (ParameterLengthTooLarge tag len64)
          else if len > MAX_SERVER_FILL_BYTES then Err (ParameterLengthTooLarge tag (of_nat len))
          else if length input - pos < len then Err MalformedParams
          else let value = slice_at pos len input
               in if \<not> utf8_valid value then Err InvalidUtf8
                  else Ok (value, pos + len))"

text \<open>One iteration's \<open>match tag\<close>: the updated parameters and the new position.\<close>

definition decode_tag :: "u64 \<Rightarrow> bytes \<Rightarrow> nat \<Rightarrow> decoded_params \<Rightarrow> (decoded_params \<times> nat) result" where
  "decode_tag tag input pos d =
     (if tag = 1 then bindr (read_int input pos) (\<lambda>(v, pos).
        Ok (set_param (protocol_version_update (\<lambda>_. v)) (has_protocol_version_update (\<lambda>_. True)) d, pos))
      else if tag = 2 then bindr (read_int input pos) (\<lambda>(v, pos).
        Ok (set_param (duration_ns_update (\<lambda>_. v)) (has_duration_ns_update (\<lambda>_. True)) d, pos))
      else if tag = 3 then bindr (read_int input pos) (\<lambda>(v, pos).
        Ok (set_param (interval_ns_update (\<lambda>_. v)) (has_interval_ns_update (\<lambda>_. True)) d, pos))
      else if tag = 4 then bindr (read_int input pos) (\<lambda>(v, pos).
        Ok (set_param (length_param_update (\<lambda>_. v)) (has_length_update (\<lambda>_. True)) d, pos))
      else if tag = 5 then bindr (read_int input pos) (\<lambda>(v, pos).
        bindr (received_stats_try_from v) (\<lambda>e.
        Ok (set_param (received_stats_update (\<lambda>_. e)) (has_received_stats_update (\<lambda>_. True)) d, pos)))
      else if tag = 6 then bindr (read_int input pos) (\<lambda>(v, pos).
        bindr (stamp_at_try_from v) (\<lambda>e.
        Ok (set_param (stamp_at_update (\<lambda>_. e)) (has_stamp_at_update (\<lambda>_. True)) d, pos)))
      else if tag = 7 then bindr (read_int input pos) (\<lambda>(v, pos).
        bindr (clock_try_from v) (\<lambda>e.
        Ok (set_param (clock_update (\<lambda>_. e)) (has_clock_update (\<lambda>_. True)) d, pos)))
      else if tag = 8 then bindr (read_int input pos) (\<lambda>(v, pos).
        Ok (set_param (dscp_update (\<lambda>_. v)) (has_dscp_update (\<lambda>_. True)) d, pos))
      else if tag = 9 then bindr (read_fill tag input pos) (\<lambda>(v, pos).
        Ok (set_param (server_fill_update (\<lambda>_. Some v)) (has_server_fill_update (\<lambda>_. True)) d, pos))
      else bindr (decode_uvarint (drop pos input)) (\<lambda>(_, used). Ok (d, pos + used)))"

lemma read_int_pos: "read_int input pos = Ok (v, pos') \<Longrightarrow> pos \<le> pos'"
  by (auto simp: read_int_def result_simps)

lemma read_fill_pos: "read_fill tag input pos = Ok (v, pos') \<Longrightarrow> pos \<le> pos'"
  by (auto simp: read_fill_def result_simps Let_def split: if_splits)

lemma decode_tag_pos: "decode_tag tag input pos d = Ok (d', pos') \<Longrightarrow> pos \<le> pos'"
  by (auto simp: decode_tag_def result_simps dest: read_int_pos read_fill_pos split: if_splits)

function decode_params_from :: "bytes \<Rightarrow> nat \<Rightarrow> decoded_params \<Rightarrow> decoded_params result" where
  "decode_params_from input pos d =
     (if pos < length input then
        bindr (decode_uvarint (drop pos input)) (\<lambda>(tag, used).
        bindr (decode_tag tag input (pos + used) d) (\<lambda>(d', pos').
        decode_params_from input pos' d'))
      else Ok d)"
  by pat_completeness auto
termination
  by (relation "measure (\<lambda>(input, pos, d). length input - pos)")
     (auto dest!: uv.decode_used decode_tag_pos)

declare decode_params_from.simps [simp del]

definition decoded_default :: decoded_params where
  "decoded_default = \<lparr>dec_params = params_default, dec_presence = presence_default\<rparr>"

definition decode_with_presence :: "bytes \<Rightarrow> decoded_params result" where
  "decode_with_presence input = decode_params_from input 0 decoded_default"

definition decode_params :: "bytes \<Rightarrow> params result" where
  "decode_params input = bindr (decode_with_presence input) (\<lambda>d. Ok (dec_params d))"

section \<open>Position independence\<close>

text \<open>Reading at an offset of a longer buffer is reading the suffix, with the position
  shifted.\<close>

definition shift_pos :: "nat \<Rightarrow> ('a \<times> nat) result \<Rightarrow> ('a \<times> nat) result" where
  "shift_pos k r = bindr r (\<lambda>(x, pos). Ok (x, k + pos))"

lemma shift_pos_simps [simp]:
  "shift_pos k (Err e) = Err e" "shift_pos k (Ok (x, n)) = Ok (x, k + n)"
  by (simp_all add: shift_pos_def)

lemma shift_pos_bindr:
  "shift_pos k (bindr m f) = bindr m (\<lambda>x. shift_pos k (f x))"
  by (cases m) auto

lemma bindr_shift_pos:
  "bindr (shift_pos k m) f = bindr m (\<lambda>(x, pos). f (x, k + pos))"
  by (cases m) (auto simp: shift_pos_def)

lemma read_int_shift: "read_int (pre @ bs) (length pre + pos) = shift_pos (length pre) (read_int bs pos)"
  by (cases "decode_varint (drop pos bs)") (auto simp: read_int_def)

lemma read_fill_shift:
  "read_fill tag (pre @ bs) (length pre + pos) = shift_pos (length pre) (read_fill tag bs pos)"
  by (cases "decode_uvarint (drop pos bs)")
     (auto simp: read_fill_def Let_def slice_at_def)

lemma decode_tag_shift:
  "decode_tag tag (pre @ bs) (length pre + pos) d = shift_pos (length pre) (decode_tag tag bs pos d)"
  by (simp add: decode_tag_def read_int_shift read_fill_shift bindr_shift_pos shift_pos_bindr
      case_prod_unfold add.assoc)

lemma decode_params_from_shift:
  "decode_params_from (pre @ bs) (length pre + pos) d = decode_params_from bs pos d"
proof (induction bs pos d rule: decode_params_from.induct)
  case (1 bs pos d)
  have tag: "bindr (decode_tag tag (pre @ bs) (length pre + pos + used) d)
        (\<lambda>(d', pos'). decode_params_from (pre @ bs) pos' d') =
      bindr (decode_tag tag bs (pos + used) d) (\<lambda>(d', pos'). decode_params_from bs pos' d')"
    if "pos < length bs" "decode_uvarint (drop pos bs) = Ok (tag, used)" for tag used
    using 1 [OF that(1) that(2) refl _ refl]
    by (auto simp: add.assoc decode_tag_shift bindr_shift_pos intro!: bindr_cong)
  show ?case
  proof (cases "pos < length bs")
    case True
    then show ?thesis
      by (cases "decode_uvarint (drop pos bs)")
         (auto simp: decode_params_from.simps [of "pre @ bs" "length pre + pos"]
            decode_params_from.simps [of bs pos] tag)
  qed (simp add: decode_params_from.simps [of "pre @ bs"] decode_params_from.simps [of bs])
qed

lemma decode_params_from_drop:
  "pos \<le> length bs \<Longrightarrow> decode_params_from bs pos d = decode_params_from (drop pos bs) 0 d"
  using decode_params_from_shift [of "take pos bs" "drop pos bs" 0 d] by simp

section \<open>Concatenation\<close>

text \<open>A decoder that succeeds on a prefix ignores what follows, so decoding two encodings in
  a row continues from the first result: a repeated tag's last value wins.\<close>

lemma decode_uvarint_from_extend:
  "decode_uvarint_from idx acc bs = Ok r \<Longrightarrow> decode_uvarint_from idx acc (bs @ c) = Ok r"
  by (induction bs arbitrary: idx acc) (auto simp: Let_def split: if_splits)

lemma decode_uvarint_extend: "decode_uvarint bs = Ok r \<Longrightarrow> decode_uvarint (bs @ c) = Ok r"
  by (simp add: decode_uvarint_def decode_uvarint_from_extend)

lemma read_int_extend:
  "read_int bs pos = Ok r \<Longrightarrow> pos \<le> length bs \<Longrightarrow> read_int (bs @ c) pos = Ok r"
  using decode_uvarint_extend [of "drop pos bs" _ c]
  by (cases "decode_uvarint (drop pos bs)") (auto simp: read_int_def decode_varint_def)

lemma read_fill_extend:
  "read_fill tag bs pos = Ok r \<Longrightarrow> pos \<le> length bs \<Longrightarrow> read_fill tag (bs @ c) pos = Ok r"
proof (cases "decode_uvarint (drop pos bs)")
  case (Inr q)
  assume r: "read_fill tag bs pos = Ok r" and pos: "pos \<le> length bs"
  obtain l u where q: "q = (l, u)" by (cases q)
  have "u \<le> length bs - pos" using uv.decode_used Inr q by fastforce
  with r pos decode_uvarint_extend [OF Inr, of c] show ?thesis
    by (auto simp: read_fill_def q Inr Let_def slice_at_def split: if_splits)
qed (simp add: read_fill_def)

lemma read_int_bound: "read_int bs pos = Ok (v, n) \<Longrightarrow> pos \<le> length bs \<Longrightarrow> n \<le> length bs"
  by (auto simp: read_int_def result_simps dest!: sv.decode_used)

lemma read_fill_bound: "read_fill tag bs pos = Ok (v, n) \<Longrightarrow> pos \<le> length bs \<Longrightarrow> n \<le> length bs"
  by (auto simp: read_fill_def result_simps Let_def split: if_splits dest!: uv.decode_used)

lemma decode_tag_bound:
  "decode_tag tag bs pos d = Ok (d', n) \<Longrightarrow> pos \<le> length bs \<Longrightarrow> n \<le> length bs"
  by (auto simp: decode_tag_def result_simps split: if_splits
      dest!: read_int_bound read_fill_bound uv.decode_used)

lemma decode_tag_extend:
  "decode_tag tag bs pos d = Ok r \<Longrightarrow> pos \<le> length bs \<Longrightarrow> decode_tag tag (bs @ c) pos d = Ok r"
  using read_int_extend [of bs pos _ c] read_fill_extend [of tag bs pos _ c]
    decode_uvarint_extend [of "drop pos bs" _ c]
  by (cases "read_int bs pos"; cases "read_fill tag bs pos"; cases "decode_uvarint (drop pos bs)")
     (simp_all add: decode_tag_def split: if_splits)

lemma decode_params_from_append:
  "decode_params_from a pos d = Ok d1 \<Longrightarrow> pos \<le> length a \<Longrightarrow>
     decode_params_from (a @ b) pos d = decode_params_from b 0 d1"
proof (induction a pos d rule: decode_params_from.induct)
  case (1 a pos d)
  show ?case
  proof (cases "pos < length a")
    case True
    with 1(2) obtain tag used d' pos' where
      u: "decode_uvarint (drop pos a) = Ok (tag, used)" and
      t: "decode_tag tag a (pos + used) d = Ok (d', pos')" and
      r: "decode_params_from a pos' d' = Ok d1"
      by (subst (asm) decode_params_from.simps) (auto simp: result_simps)
    have le: "pos + used \<le> length a" using uv.decode_used [OF u] True by auto
    have le': "pos' \<le> length a" by (rule decode_tag_bound [OF t le])
    from 1(1) [OF True u refl t refl r le'] True
    show ?thesis
      by (subst decode_params_from.simps)
         (simp add: decode_uvarint_extend [OF u] decode_tag_extend [OF t le])
  next
    case False
    with 1(2,3) have "pos = length a" "d = d1"
      by (auto simp: decode_params_from.simps [of a])
    then show ?thesis using decode_params_from_shift [of a b 0] by simp
  qed
qed

section \<open>Round trip\<close>

text \<open>What the encoder's caller must respect: the only field whose wire form the decoder
  restricts is the fill.\<close>

definition wf_params :: "params \<Rightarrow> bool" where
  "wf_params p \<longleftrightarrow>
     (case server_fill p of None \<Rightarrow> True
      | Some v \<Rightarrow> length v \<le> MAX_SERVER_FILL_BYTES \<and> utf8_valid v)"

definition presence_of :: "params \<Rightarrow> param_presence" where
  "presence_of p =
     \<lparr>has_protocol_version = (protocol_version p \<noteq> 0), has_duration_ns = (duration_ns p \<noteq> 0),
      has_interval_ns = (interval_ns p \<noteq> 0), has_length = (length_param p \<noteq> 0),
      has_received_stats = (received_stats p \<noteq> RsNone), has_stamp_at = (stamp_at p \<noteq> StNone),
      has_clock = (clock p \<noteq> ClkUnspecified), has_dscp = (dscp p \<noteq> 0),
      has_server_fill = (server_fill p \<noteq> None)\<rparr>"

lemma push_int_append: "push_int tag v out = out @ push_int tag v []"
  using sv.encode_appends [of v "encode_uvarint tag out"] sv.encode_appends [of v "encode_uvarint tag []"]
    uv.encode_appends [of tag out]
  by (simp add: push_int_def)

lemma push_fill_append: "push_fill f out = out @ push_fill f []"
proof (cases f)
  case (Some v)
  then show ?thesis
    using uv.encode_appends [of 9 out] uv.encode_appends [of "of_nat (length v)" "encode_uvarint 9 []"]
      uv.encode_appends [of "of_nat (length v)" "out @ encode_uvarint 9 []"]
    by (simp add: push_fill_def)
qed (simp add: push_fill_def)

text \<open>One encoded parameter, read at the start of the input.\<close>

lemma decode_push_int:
  "v \<noteq> 0 \<Longrightarrow>
     decode_params_from (push_int tag v [] @ rest) 0 d =
       bindr (decode_tag tag (push_int tag v [] @ rest) (length (encode_uvarint tag [])) d)
         (\<lambda>(d', pos'). decode_params_from (push_int tag v [] @ rest) pos' d')"
  using uv.encode_nonempty [of tag] sv.encode_appends [of v "encode_uvarint tag []"]
  by (subst decode_params_from.simps) (simp add: push_int_def uv.decode_encode)

lemma read_push_int:
  "v \<noteq> 0 \<Longrightarrow>
     read_int (push_int tag v [] @ rest) (length (encode_uvarint tag [])) =
       Ok (v, length (push_int tag v []))"
  using sv.encode_appends [of v "encode_uvarint tag []"]
  by (simp add: push_int_def read_int_def sv.decode_encode)

lemma read_push_fill:
  "length v \<le> MAX_SERVER_FILL_BYTES \<Longrightarrow> utf8_valid v \<Longrightarrow>
     read_fill 9 (push_fill (Some v) [] @ rest) (length (encode_uvarint 9 [])) =
       Ok (v, length (push_fill (Some v) []))"
  using uv.encode_appends [of "of_nat (length v)" "encode_uvarint 9 []"]
  by (simp add: push_fill_def read_fill_def uv.decode_encode Let_def slice_at_def
      MAX_SERVER_FILL_BYTES_def usize_max_def unat_of_nat take_bit_nat_eq_self)

lemma decode_after:
  "decode_params_from (xs @ rest) (length xs) d = decode_params_from rest 0 d"
  using decode_params_from_shift [of xs rest 0] by simp

lemma decode_push_fill:
  "length v \<le> MAX_SERVER_FILL_BYTES \<Longrightarrow> utf8_valid v \<Longrightarrow>
     decode_params_from (push_fill (Some v) []) 0 d =
       Ok (set_param (server_fill_update (\<lambda>_. Some v)) (has_server_fill_update (\<lambda>_. True)) d)"
proof -
  assume v: "length v \<le> MAX_SERVER_FILL_BYTES" "utf8_valid v"
  define bs where "bs = push_fill (Some v) []"
  have bs: "bs = encode_uvarint 9 [] @ encode_uvarint (of_nat (length v)) [] @ v"
    using uv.encode_appends [of "of_nat (length v)" "encode_uvarint 9 []"]
    by (simp add: bs_def push_fill_def)
  have "bs \<noteq> []" using bs uv.encode_nonempty [of 9] by simp
  moreover have "decode_uvarint bs = Ok (9, length (encode_uvarint 9 []))"
    using bs by (simp add: uv.decode_encode)
  moreover have "read_fill 9 bs (length (encode_uvarint 9 [])) = Ok (v, length bs)"
    using read_push_fill [OF v, of "[]"] by (simp add: bs_def)
  ultimately show ?thesis
    unfolding bs_def [symmetric]
    by (subst decode_params_from.simps)
       (simp add: decode_tag_def decode_params_from.simps [of bs "length bs"])
qed

lemma try_from_i64 [simp]:
  "received_stats_try_from (received_stats_i64 r) = Ok r"
  "stamp_at_try_from (stamp_at_i64 s) = Ok s"
  "c \<noteq> ClkUnspecified \<Longrightarrow> clock_try_from (clock_i64 c) = Ok c"
  subgoal by (cases r) (simp_all add: received_stats_try_from_def)
  subgoal by (cases s) (simp_all add: stamp_at_try_from_def)
  subgoal by (cases c) (simp_all add: clock_try_from_def)
  done

lemma enum_i64_zero [simp]:
  "received_stats_i64 r = 0 \<longleftrightarrow> r = RsNone" "stamp_at_i64 s = 0 \<longleftrightarrow> s = StNone"
  "clock_i64 c = 0 \<longleftrightarrow> c = ClkUnspecified"
  subgoal by (cases r) simp_all
  subgoal by (cases s) simp_all
  subgoal by (cases c) simp_all
  done

lemma push_int_zero [simp]: "push_int tag 0 [] = []"
  by (simp add: push_int_def)

lemmas decode_push_steps = decode_push_int decode_tag_def read_push_int decode_after

text \<open>Each chunk of the encoding sets its own field, whatever follows; an omitted zero
  leaves it.\<close>

lemma decode_chunk:
  "decode_params_from (push_int 1 v [] @ rest) 0 d = decode_params_from rest 0
     (set_param (\<lambda>p. p\<lparr>protocol_version := if v = 0 then protocol_version p else v\<rparr>)
        (\<lambda>q. q\<lparr>has_protocol_version := has_protocol_version q \<or> v \<noteq> 0\<rparr>) d)"
  "decode_params_from (push_int 2 v [] @ rest) 0 d = decode_params_from rest 0
     (set_param (\<lambda>p. p\<lparr>duration_ns := if v = 0 then duration_ns p else v\<rparr>)
        (\<lambda>q. q\<lparr>has_duration_ns := has_duration_ns q \<or> v \<noteq> 0\<rparr>) d)"
  "decode_params_from (push_int 3 v [] @ rest) 0 d = decode_params_from rest 0
     (set_param (\<lambda>p. p\<lparr>interval_ns := if v = 0 then interval_ns p else v\<rparr>)
        (\<lambda>q. q\<lparr>has_interval_ns := has_interval_ns q \<or> v \<noteq> 0\<rparr>) d)"
  "decode_params_from (push_int 4 v [] @ rest) 0 d = decode_params_from rest 0
     (set_param (\<lambda>p. p\<lparr>length_param := if v = 0 then length_param p else v\<rparr>)
        (\<lambda>q. q\<lparr>has_length := has_length q \<or> v \<noteq> 0\<rparr>) d)"
  "decode_params_from (push_int 5 (received_stats_i64 r) [] @ rest) 0 d = decode_params_from rest 0
     (set_param (\<lambda>p. p\<lparr>received_stats := if r = RsNone then received_stats p else r\<rparr>)
        (\<lambda>q. q\<lparr>has_received_stats := has_received_stats q \<or> r \<noteq> RsNone\<rparr>) d)"
  "decode_params_from (push_int 6 (stamp_at_i64 s) [] @ rest) 0 d = decode_params_from rest 0
     (set_param (\<lambda>p. p\<lparr>stamp_at := if s = StNone then stamp_at p else s\<rparr>)
        (\<lambda>q. q\<lparr>has_stamp_at := has_stamp_at q \<or> s \<noteq> StNone\<rparr>) d)"
  "decode_params_from (push_int 7 (clock_i64 c) [] @ rest) 0 d = decode_params_from rest 0
     (set_param (\<lambda>p. p\<lparr>clock := if c = ClkUnspecified then clock p else c\<rparr>)
        (\<lambda>q. q\<lparr>has_clock := has_clock q \<or> c \<noteq> ClkUnspecified\<rparr>) d)"
  "decode_params_from (push_int 8 v [] @ rest) 0 d = decode_params_from rest 0
     (set_param (\<lambda>p. p\<lparr>dscp := if v = 0 then dscp p else v\<rparr>)
        (\<lambda>q. q\<lparr>has_dscp := has_dscp q \<or> v \<noteq> 0\<rparr>) d)"
  by (simp_all add: decode_push_steps)

lemma encode_params_chunks:
  "encode_params p =
     push_int 1 (protocol_version p) [] @ push_int 2 (duration_ns p) [] @
     push_int 3 (interval_ns p) [] @ push_int 4 (length_param p) [] @
     push_int 5 (received_stats_i64 (received_stats p)) [] @
     push_int 6 (stamp_at_i64 (stamp_at p)) [] @ push_int 7 (clock_i64 (clock p)) [] @
     push_int 8 (dscp p) [] @ push_fill (server_fill p) []"
proof -
  have a: "push_int t v (x # xs) = (x # xs) @ push_int t v []" for t v x xs
    by (rule push_int_append)
  have b: "push_int t v (xs @ ys) = xs @ ys @ push_int t v []" for t v xs ys
    using push_int_append [of t v "xs @ ys"] by simp
  have c: "push_int t v (push_int t' v' []) = push_int t' v' [] @ push_int t v []" for t v t' v'
    by (rule push_int_append)
  show ?thesis
    unfolding encode_params_def Let_def
    by (simp only: c b append_assoc push_fill_append [of _ "_ @ _"])
qed

lemma decode_fill_chunk:
  "wf_params p \<Longrightarrow> decode_params_from (push_fill (server_fill p) []) 0 d =
     Ok (set_param (\<lambda>q. q\<lparr>server_fill := if server_fill p = None then server_fill q else server_fill p\<rparr>)
          (\<lambda>q. q\<lparr>has_server_fill := has_server_fill q \<or> server_fill p \<noteq> None\<rparr>) d)"
  by (cases "server_fill p")
     (simp_all add: wf_params_def decode_push_fill, simp add: push_fill_def decode_params_from.simps)

lemma decode_encode_params:
  assumes "wf_params p"
  shows "decode_with_presence (encode_params p) =
           Ok \<lparr>dec_params = p, dec_presence = presence_of p\<rparr>"
proof -
  have "(if v = 0 then 0 else v) = v" for v :: i64 by simp
  moreover have "(if r = RsNone then RsNone else r) = r" for r by simp
  moreover have "(if s = StNone then StNone else s) = s" for s by simp
  moreover have "(if c = ClkUnspecified then ClkUnspecified else c) = c" for c by simp
  moreover have "(if f = None then None else f) = f" for f :: "bytes option" by simp
  ultimately show ?thesis
    using assms
    by (simp add: decode_with_presence_def encode_params_chunks decode_chunk decode_fill_chunk
        decoded_default_def params_default_def presence_default_def presence_of_def)
qed

lemma decode_encode_params_plain: "wf_params p \<Longrightarrow> decode_params (encode_params p) = Ok p"
  by (simp add: decode_params_def decode_encode_params)

text \<open>Whatever bytes arrive, a successful decode yields parameters the encoder can carry.\<close>

lemma read_fill_wf:
  "read_fill tag bs pos = Ok (v, n) \<Longrightarrow> length v \<le> MAX_SERVER_FILL_BYTES \<and> utf8_valid v"
  by (auto simp: read_fill_def result_simps Let_def slice_at_def split: if_splits)

lemma decode_tag_wf:
  "decode_tag tag bs pos d = Ok (d', n) \<Longrightarrow> wf_params (dec_params d) \<Longrightarrow> wf_params (dec_params d')"
  by (auto simp: decode_tag_def result_simps wf_params_def dest: read_fill_wf split: if_splits)

lemma decode_params_from_wf:
  "decode_params_from bs pos d = Ok d' \<Longrightarrow> wf_params (dec_params d) \<Longrightarrow> wf_params (dec_params d')"
proof (induction bs pos d rule: decode_params_from.induct)
  case (1 bs pos d)
  show ?case
  proof (cases "pos < length bs")
    case True
    with 1(2) obtain tag used d1 n where
      u: "decode_uvarint (drop pos bs) = Ok (tag, used)" and
      t: "decode_tag tag bs (pos + used) d = Ok (d1, n)" and
      r: "decode_params_from bs n d1 = Ok d'"
      by (subst (asm) decode_params_from.simps) (auto simp: result_simps)
    show ?thesis using 1(1) [OF True u refl t refl r] decode_tag_wf [OF t 1(3)] .
  next
    case False
    with 1 show ?thesis by (simp add: decode_params_from.simps [of bs])
  qed
qed

lemma decode_with_presence_wf:
  "decode_with_presence bs = Ok d \<Longrightarrow> wf_params (dec_params d)"
  using decode_params_from_wf [of bs 0 decoded_default d]
  by (simp add: decode_with_presence_def wf_params_def decoded_default_def params_default_def)

lemma decode_params_wf: "decode_params bs = Ok p \<Longrightarrow> wf_params p"
  by (auto simp: decode_params_def result_simps dest: decode_with_presence_wf)

section \<open>Properties\<close>

text \<open>C38: encoded parameters decode to themselves, and the presence flags name exactly the
  fields that differ from the wire default.\<close>

theorem params_roundtrip:
  assumes "wf_params p"
  shows "decode_with_presence (encode_params p) = Ok \<lparr>dec_params = p, dec_presence = presence_of p\<rparr> \<and>
         decode_params (encode_params p) = Ok p"
  using decode_encode_params [OF assms] by (simp add: decode_params_def)

definition sample_params :: params where
  "sample_params = with_protocol_defaults\<lparr>duration_ns := 5000, length_param := - 3, dscp := 46,
     stamp_at := StMidpoint, clock := ClkWall, server_fill := Some [0x72, 0x61, 0x6e, 0x64]\<rparr>"

theorem params_roundtrip_witness:
  "decode_with_presence (encode_params sample_params) =
     Ok \<lparr>dec_params = sample_params, dec_presence = presence_of sample_params\<rparr> \<and>
   decode_params (encode_params sample_params) = Ok sample_params"
  by (rule params_roundtrip) code_simp

text \<open>Decoding a concatenation continues from the first part's result, so a tag repeated
  in the second part overrides the first, and an empty payload is the all-default request.\<close>

theorem params_concatenation:
  assumes "decode_with_presence a = Ok d"
  shows "decode_with_presence (a @ b) = decode_params_from b 0 d \<and>
         decode_with_presence [] = Ok decoded_default"
  using assms decode_params_from_append [of a 0 decoded_default d b]
  by (simp add: decode_with_presence_def decode_params_from.simps)

theorem params_concatenation_witness:
  "decode_with_presence ([2, 4] @ [2, 6]) =
     decode_params_from [2, 6] 0
       \<lparr>dec_params = params_default\<lparr>duration_ns := 2\<rparr>,
        dec_presence = presence_default\<lparr>has_duration_ns := True\<rparr>\<rparr> \<and>
   decode_with_presence [] = Ok decoded_default"
  by (rule params_concatenation) code_simp

text \<open>Whatever bytes a peer sends, decoded parameters respect the fill bound and its
  encoding, so they re-encode to a canonical form that decodes to the same parameters.\<close>

theorem decoded_params_canonical:
  assumes "decode_params bs = Ok p"
  shows "wf_params p \<and> decode_params (encode_params p) = Ok p"
  using decode_params_wf [OF assms] by (simp add: decode_encode_params_plain)

theorem decoded_params_canonical_witness:
  "wf_params (params_default\<lparr>server_fill := Some [0x41]\<rparr>) \<and>
   decode_params (encode_params (params_default\<lparr>server_fill := Some [0x41]\<rparr>)) =
     Ok (params_default\<lparr>server_fill := Some [0x41]\<rparr>)"
  by (rule decoded_params_canonical [of "[9, 1, 0x41, 77, 5]"]) code_simp

end
