(* ===== verification/Layout.thy ===== *)
theory Layout
  imports Params
begin

text \<open>
  \<open>layout.rs\<close>: which fields a packet carries under given parameters and how long a datagram
  is. A packet length is a natural number; the \<open>usize::try_from\<close> check of a positive \<open>i64\<close>
  length is written out.
\<close>

section \<open>Model\<close>

record packet_layout =
  lay_hmac :: bool
  lay_token :: bool
  lay_sequence :: bool
  lay_recv_count :: bool
  lay_recv_window :: bool
  lay_recv_wall :: bool
  lay_recv_mono :: bool
  lay_midpoint_wall :: bool
  lay_midpoint_mono :: bool
  lay_send_wall :: bool
  lay_send_mono :: bool

definition open_request_layout :: "bool \<Rightarrow> packet_layout" where
  "open_request_layout hmac =
     \<lparr>lay_hmac = hmac, lay_token = False, lay_sequence = False, lay_recv_count = False,
      lay_recv_window = False, lay_recv_wall = False, lay_recv_mono = False,
      lay_midpoint_wall = False, lay_midpoint_mono = False, lay_send_wall = False,
      lay_send_mono = False\<rparr>"

definition open_reply_layout :: "bool \<Rightarrow> packet_layout" where
  "open_reply_layout hmac = (open_request_layout hmac)\<lparr>lay_token := True\<rparr>"

definition echo_layout :: "bool \<Rightarrow> params \<Rightarrow> packet_layout" where
  "echo_layout hmac p =
     (let c = clock p; at = stamp_at p
      in \<lparr>lay_hmac = hmac, lay_token = True, lay_sequence = True,
          lay_recv_count = has_count (received_stats p),
          lay_recv_window = has_window (received_stats p),
          lay_recv_wall = ((at = StReceive \<or> at = StBoth) \<and> has_wall c),
          lay_recv_mono = ((at = StReceive \<or> at = StBoth) \<and> has_mono c),
          lay_midpoint_wall = (at = StMidpoint \<and> has_wall c),
          lay_midpoint_mono = (at = StMidpoint \<and> has_mono c),
          lay_send_wall = ((at = StSend \<or> at = StBoth) \<and> has_wall c),
          lay_send_mono = ((at = StSend \<or> at = StBoth) \<and> has_mono c)\<rparr>)"

definition close_request_layout :: "bool \<Rightarrow> packet_layout" where
  "close_request_layout hmac =
     \<lparr>lay_hmac = hmac, lay_token = True, lay_sequence = False, lay_recv_count = False,
      lay_recv_window = False, lay_recv_wall = False, lay_recv_mono = False,
      lay_midpoint_wall = False, lay_midpoint_mono = False, lay_send_wall = False,
      lay_send_mono = False\<rparr>"

definition timestamp_count :: "packet_layout \<Rightarrow> nat" where
  "timestamp_count l =
     length (filter (\<lambda>present. present)
       [lay_recv_wall l, lay_recv_mono l, lay_midpoint_wall l, lay_midpoint_mono l,
        lay_send_wall l, lay_send_mono l])"

definition header_len :: "packet_layout \<Rightarrow> nat" where
  "header_len l =
     HEADER_SIZE
     + (if lay_hmac l then HMAC_SIZE else 0)
     + (if lay_token l then TOKEN_SIZE else 0)
     + (if lay_sequence l then SEQ_SIZE else 0)
     + (if lay_recv_count l then RECV_COUNT_SIZE else 0)
     + (if lay_recv_window l then RECV_WINDOW_SIZE else 0)
     + timestamp_count l * TIMESTAMP_SIZE"

definition echo_header_len :: "bool \<Rightarrow> params \<Rightarrow> nat" where
  "echo_header_len hmac p = header_len (echo_layout hmac p)"

definition echo_packet_len :: "bool \<Rightarrow> params \<Rightarrow> nat result" where
  "echo_packet_len hmac p =
     (let header_len = echo_header_len hmac p
      in bindr (if sint (length_param p) \<le> 0 then Ok 0
                else if nat (sint (length_param p)) \<le> usize_max then Ok (nat (sint (length_param p)))
                else Err (PacketLengthUnrepresentable (length_param p)))
           (\<lambda>requested. Ok (max header_len requested)))"

section \<open>Lemmas\<close>

lemma echo_packet_len_eq:
  "echo_packet_len h p = Ok (max (echo_header_len h p) (nat (sint (length_param p))))"
  using sint_i64_upper [of "length_param p"]
  by (auto simp: echo_packet_len_def Let_def usize_max_def)

lemma timestamp_count_echo: "timestamp_count (echo_layout h p) \<le> 4"
  by (cases "stamp_at p"; cases "clock p") (simp_all add: timestamp_count_def echo_layout_def Let_def)

text \<open>The fields between the sequence number and the payload.\<close>

definition reply_fields_len :: "params \<Rightarrow> nat" where
  "reply_fields_len p =
     (if has_count (received_stats p) then 4 else 0) +
     (if has_window (received_stats p) then 8 else 0) + timestamp_count (echo_layout False p) * 8"

lemma echo_header_len_eq:
  "echo_header_len h p = 16 + (if h then 16 else 0) + reply_fields_len p"
  by (simp add: echo_header_len_def header_len_def reply_fields_len_def echo_layout_def Let_def
      proto_consts timestamp_count_def)

lemma echo_header_len_bound: "16 \<le> echo_header_len h p \<and> echo_header_len h p \<le> 76"
  using timestamp_count_echo [of False p]
  by (simp add: echo_header_len_eq reply_fields_len_def)

lemma fixed_header_lens:
  "header_len (open_request_layout h) = 4 + (if h then 16 else 0)"
  "header_len (open_reply_layout h) = 12 + (if h then 16 else 0)"
  "header_len (close_request_layout h) = 12 + (if h then 16 else 0)"
  by (simp_all add: header_len_def open_request_layout_def open_reply_layout_def
      close_request_layout_def proto_consts timestamp_count_def)

section \<open>Properties\<close>

text \<open>An echo datagram is as long as its field block or the negotiated length, whichever
  is larger; a zero or negative length asks for the field block alone, whose size is between
  16 and 76 bytes; the representability error is unreachable on a 64-bit target.\<close>

theorem echo_packet_len_floor:
  "\<exists>len. echo_packet_len h p = Ok len \<and>
     len = max (echo_header_len h p) (nat (sint (length_param p))) \<and>
     16 \<le> echo_header_len h p \<and> echo_header_len h p \<le> 76 \<and>
     (len = echo_header_len h p \<longleftrightarrow> sint (length_param p) \<le> int (echo_header_len h p))"
  using echo_packet_len_eq [of h p] echo_header_len_bound [of h p] by auto

end
