(* ===== verification/Request.thy ===== *)
theory Request
  imports Envelope Layout
begin

unbundle bit_operations_syntax

text \<open>
  \<open>request.rs\<close>: the sender-side request encoder and the receiver-side structural decoder.
  A buffer's reserved capacity is not observable and is left out.
\<close>

section \<open>Model\<close>

datatype request_to_encode =
    ReqOpen params bool
  | ReqClose u64
  | ReqEcho u64 u32 params bytes

datatype decoded_request_kind =
    KindOpen bool bytes
  | KindClose u64
  | KindEcho u64 u32 bytes

record decoded_request =
  req_hmac_present :: bool
  req_kind :: decoded_request_kind

definition encode_open :: "mac_fun \<Rightarrow> params \<Rightarrow> bool \<Rightarrow> bytes option \<Rightarrow> bytes result" where
  "encode_open mac p no_test hmac_key =
     (let flags = (if no_test then FLAG_OPEN OR FLAG_CLOSE else FLAG_OPEN);
          encoded = encode_params p
      in bindr (begin_packet flags hmac_key) (\<lambda>out. finish mac (out @ encoded) hmac_key))"

definition encode_close :: "mac_fun \<Rightarrow> u64 \<Rightarrow> bytes option \<Rightarrow> bytes result" where
  "encode_close mac token hmac_key =
     bindr (begin_packet FLAG_CLOSE hmac_key) (\<lambda>out.
       finish mac (out @ to_le_bytes 8 token) hmac_key)"

definition encode_echo ::
  "mac_fun \<Rightarrow> u64 \<Rightarrow> u32 \<Rightarrow> params \<Rightarrow> bytes \<Rightarrow> bytes option \<Rightarrow> bytes result" where
  "encode_echo mac token sequence p payload hmac_key =
     (let layout = echo_layout (hmac_key \<noteq> None) p
      in bindr (echo_packet_len (hmac_key \<noteq> None) p) (\<lambda>len.
         let payload_offset = header_len layout;
             available_payload_len = len - payload_offset
         in if length payload > available_payload_len
            then Err (PayloadTooLarge available_payload_len (length payload))
            else bindr (begin_packet 0 hmac_key) (\<lambda>out.
              let out = out @ to_le_bytes 8 token;
                  out = out @ to_le_bytes 4 sequence;
                  out = resize_zero len out;
                  out = copy_at payload_offset payload out
              in finish mac out hmac_key)))"

fun encode_request :: "mac_fun \<Rightarrow> request_to_encode \<Rightarrow> bytes option \<Rightarrow> bytes result" where
  "encode_request mac (ReqOpen p no_test) hmac_key = encode_open mac p no_test hmac_key"
| "encode_request mac (ReqClose token) hmac_key = encode_close mac token hmac_key"
| "encode_request mac (ReqEcho token sequence p payload) hmac_key =
     encode_echo mac token sequence p payload hmac_key"

definition require_len :: "bytes \<Rightarrow> nat \<Rightarrow> unit result" where
  "require_len packet needed =
     (if length packet < needed then Err (PacketTooShort needed (length packet)) else Ok ())"

definition read_token :: "bytes \<Rightarrow> nat \<Rightarrow> u64" where
  "read_token packet off = from_le_bytes (slice_at off TOKEN_SIZE packet)"

definition read_sequence :: "bytes \<Rightarrow> nat \<Rightarrow> u32" where
  "read_sequence packet off = from_le_bytes (slice_at off SEQ_SIZE packet)"

definition decode_request :: "bytes \<Rightarrow> decoded_request result" where
  "decode_request packet =
     bindr (decode_structural packet) (\<lambda>envelope.
       if has (env_flags envelope) FLAG_REPLY then Err (UnexpectedFlag FLAG_REPLY)
       else
         let body = env_body_offset envelope
         in bindr
             (if has (env_flags envelope) FLAG_OPEN then
                bindr (require_len packet body) (\<lambda>_.
                  Ok (KindOpen (has (env_flags envelope) FLAG_CLOSE) (drop body packet)))
              else if has (env_flags envelope) FLAG_CLOSE then
                bindr (require_len packet (body + TOKEN_SIZE)) (\<lambda>_.
                  Ok (KindClose (read_token packet body)))
              else
                let tail_offset = body + TOKEN_SIZE + SEQ_SIZE
                in bindr (require_len packet tail_offset) (\<lambda>_.
                  Ok (KindEcho (read_token packet body) (read_sequence packet (body + TOKEN_SIZE))
                        (drop tail_offset packet))))
             (\<lambda>kind. Ok \<lparr>req_hmac_present = env_hmac_present envelope, req_kind = kind\<rparr>))"

section \<open>Encoded packets\<close>

lemma bit_flags:
  "bit FLAG_OPEN n \<longleftrightarrow> n = 0" "bit FLAG_REPLY n \<longleftrightarrow> n = 1" "bit FLAG_CLOSE n \<longleftrightarrow> n = 2"
proof -
  have o: "FLAG_OPEN = 2 ^ 0" and r: "FLAG_REPLY = 2 ^ 1" and c: "FLAG_CLOSE = 2 ^ 2"
    by (simp_all add: proto_consts)
  show "bit FLAG_OPEN n \<longleftrightarrow> n = 0" unfolding o bit_exp_iff by auto
  show "bit FLAG_REPLY n \<longleftrightarrow> n = 1" unfolding r bit_exp_iff by auto
  show "bit FLAG_CLOSE n \<longleftrightarrow> n = 2" unfolding c bit_exp_iff by auto
qed

text \<open>The flag bytes the packets of the protocol carry, read bit by bit.\<close>

lemmas flag_bits = has_bit bit_flags bit_FLAG_HMAC bit_RESERVED bit_or_iff bit_and_iff bit_not_iff

lemma flags_reserved:
  "FLAG_OPEN AND RESERVED_FLAGS_MASK = 0" "FLAG_CLOSE AND RESERVED_FLAGS_MASK = 0"
  "(FLAG_OPEN OR FLAG_CLOSE) AND RESERVED_FLAGS_MASK = 0"
  "FLAG_REPLY AND RESERVED_FLAGS_MASK = 0"
  "(FLAG_OPEN OR FLAG_REPLY) AND RESERVED_FLAGS_MASK = 0"
  "(FLAG_OPEN OR FLAG_REPLY OR FLAG_CLOSE) AND RESERVED_FLAGS_MASK = 0"
  by (simp_all add: proto_consts)

lemma begin_packet_Ok:
  "f AND RESERVED_FLAGS_MASK = 0 \<Longrightarrow>
     begin_packet f k =
       Ok (MAGIC @ with_hmac_flag f (k \<noteq> None) # (if k = None then [] else replicate 16 0))"
  unfolding begin_packet_def
  by (rule begin_checked_Ok) (simp_all add: with_hmac_flag_reserved)

lemma finish_begun:
  "finish mac ((MAGIC @ f # (if k = None then [] else replicate 16 0)) @ body) k =
     Ok (sealed mac f k body)"
  using finish_sealed [of mac f k body] by simp

definition open_flags :: "bool \<Rightarrow> u8" where
  "open_flags no_test = (if no_test then FLAG_OPEN OR FLAG_CLOSE else FLAG_OPEN)"

lemma encode_open_sealed:
  "encode_open mac p no_test k =
     Ok (sealed mac (with_hmac_flag (open_flags no_test) (k \<noteq> None)) k (encode_params p))"
  unfolding encode_open_def Let_def open_flags_def
  by (simp add: begin_packet_Ok flags_reserved finish_sealed)

lemma encode_close_sealed:
  "encode_close mac token k =
     Ok (sealed mac (with_hmac_flag FLAG_CLOSE (k \<noteq> None)) k (to_le_bytes 8 token))"
  unfolding encode_close_def
  by (simp add: begin_packet_Ok flags_reserved finish_sealed)

text \<open>The opaque part of an ECHO request: zeroed reply fields, then the payload, then zeroes up
  to the negotiated length.\<close>

definition echo_tail :: "bool \<Rightarrow> params \<Rightarrow> bytes \<Rightarrow> bytes" where
  "echo_tail h p payload =
     replicate (reply_fields_len p) 0 @ payload @
     replicate (max (echo_header_len h p) (nat (sint (length_param p))) -
       echo_header_len h p - length payload) 0"

definition payload_room :: "bool \<Rightarrow> params \<Rightarrow> nat" where
  "payload_room h p = nat (sint (length_param p)) - echo_header_len h p"

lemma max_minus_header:
  "max (echo_header_len h p) (nat (sint (length_param p))) - echo_header_len h p = payload_room h p"
  by (simp add: payload_room_def)

lemma resize_copy:
  assumes "length hdr = a" "a + gap = off" "off + length payload \<le> n"
  shows "copy_at off payload (resize_zero n hdr) =
           hdr @ replicate gap 0 @ payload @ replicate (n - off - length payload) 0"
  using assms by (auto simp: copy_at_def resize_zero_def)

lemma encode_echo_sealed:
  assumes "length payload \<le> payload_room (k \<noteq> None) p"
  shows "encode_echo mac token sequence p payload k =
     Ok (sealed mac (with_hmac_flag 0 (k \<noteq> None)) k
          (to_le_bytes 8 token @ to_le_bytes 4 sequence @ echo_tail (k \<noteq> None) p payload))"
proof -
  define h where "h = (k \<noteq> None)"
  define n where "n = max (echo_header_len h p) (nat (sint (length_param p)))"
  define hdr where "hdr = (MAGIC @ with_hmac_flag 0 h # (if k = None then [] else replicate 16 0)) @
      to_le_bytes 8 token @ to_le_bytes 4 sequence"
  have room: "echo_header_len h p + length payload \<le> n" "length payload \<le> n - echo_header_len h p"
    using assms by (auto simp: n_def payload_room_def h_def)
  have "length hdr = 16 + (if h then 16 else 0)" by (simp add: hdr_def h_def)
  then have "copy_at (echo_header_len h p) payload (resize_zero n hdr) = hdr @ echo_tail h p payload"
    using resize_copy [of hdr _ "reply_fields_len p" "echo_header_len h p" payload n] room(1)
    by (simp add: echo_header_len_eq [of h p] echo_tail_def n_def)
  moreover have "finish mac (hdr @ body) k =
      Ok (sealed mac (with_hmac_flag 0 h) k (to_le_bytes 8 token @ to_le_bytes 4 sequence @ body))" for body
    unfolding hdr_def append_assoc by (rule finish_begun [unfolded append_assoc])
  moreover have "bindr (begin_packet 0 k) (\<lambda>out.
      finish mac (copy_at (echo_header_len h p) payload
        (resize_zero n ((out @ to_le_bytes 8 token) @ to_le_bytes 4 sequence))) k) =
      finish mac (copy_at (echo_header_len h p) payload (resize_zero n hdr)) k"
    by (simp add: begin_packet_Ok h_def hdr_def)
  ultimately show ?thesis
    using room(2)
    unfolding encode_echo_def h_def [symmetric] Let_def echo_packet_len_eq n_def [symmetric]
      echo_header_len_def [symmetric]
    by simp
qed

section \<open>Decoding\<close>

lemma drop_sealed_fields:
  "drop (12 + auth_len k) (sealed mac f k body) = drop 8 body"
  "drop (16 + auth_len k) (sealed mac f k body) = drop 12 body"
  using drop_sealed_add [of k 8 mac f body] drop_sealed_add [of k 12 mac f body] by simp_all

lemma decode_request_sealed:
  assumes f: "f AND RESERVED_FLAGS_MASK = 0" "has f FLAG_HMAC = (k \<noteq> None)" "\<not> has f FLAG_REPLY"
  shows "has f FLAG_OPEN \<Longrightarrow> decode_request (sealed mac f k body) =
           Ok \<lparr>req_hmac_present = (k \<noteq> None), req_kind = KindOpen (has f FLAG_CLOSE) body\<rparr>"
    and "\<not> has f FLAG_OPEN \<Longrightarrow> has f FLAG_CLOSE \<Longrightarrow>
           decode_request (sealed mac f k (to_le_bytes 8 token @ rest)) =
             Ok \<lparr>req_hmac_present = (k \<noteq> None), req_kind = KindClose token\<rparr>"
    and "\<not> has f FLAG_OPEN \<Longrightarrow> \<not> has f FLAG_CLOSE \<Longrightarrow>
           decode_request (sealed mac f k (to_le_bytes 8 token @ to_le_bytes 4 sequence @ tail)) =
             Ok \<lparr>req_hmac_present = (k \<noteq> None), req_kind = KindEcho token sequence tail\<rparr>"
  using f
  by (simp_all add: decode_request_def decode_structural_sealed require_len_def read_token_def
      read_sequence_def slice_at_def TOKEN_SIZE_def SEQ_SIZE_def Let_def drop_sealed_fields)

lemma with_hmac_flag_zero: "with_hmac_flag 0 a AND RESERVED_FLAGS_MASK = 0"
  "has (with_hmac_flag 0 a) FLAG_OPEN = False" "has (with_hmac_flag 0 a) FLAG_CLOSE = False"
  "has (with_hmac_flag 0 a) FLAG_REPLY = False"
  using with_hmac_flag_reserved [of 0 a] has_with_hmac_flag [of 0 a] by (simp_all add: has_def)

lemma open_flags_bits:
  "open_flags nt AND RESERVED_FLAGS_MASK = 0" "has (open_flags nt) FLAG_OPEN"
  "\<not> has (open_flags nt) FLAG_REPLY" "has (open_flags nt) FLAG_CLOSE = nt"
  "has FLAG_CLOSE FLAG_CLOSE" "\<not> has FLAG_CLOSE FLAG_OPEN" "\<not> has FLAG_CLOSE FLAG_REPLY"
  by (simp_all add: open_flags_def proto_consts has_def)

section \<open>Properties\<close>

text \<open>The request a receiver is expected to read.\<close>

fun request_kind :: "bytes option \<Rightarrow> request_to_encode \<Rightarrow> decoded_request_kind" where
  "request_kind k (ReqOpen p no_test) = KindOpen no_test (encode_params p)"
| "request_kind k (ReqClose token) = KindClose token"
| "request_kind k (ReqEcho token sequence p payload) =
     KindEcho token sequence (echo_tail (k \<noteq> None) p payload)"

lemma encoded_request_decodes:
  assumes "case req of ReqEcho _ _ p payload \<Rightarrow> length payload \<le> payload_room (k \<noteq> None) p | _ \<Rightarrow> True"
  shows "\<exists>packet. encode_request mac req k = Ok packet \<and>
     decode_request packet = Ok \<lparr>req_hmac_present = (k \<noteq> None), req_kind = request_kind k req\<rparr> \<and>
     verify_envelope mac packet k = Ok () \<and>
     (case req of ReqEcho _ _ p _ \<Rightarrow> Ok (length packet) = echo_packet_len (k \<noteq> None) p | _ \<Rightarrow> True)"
proof (cases req)
  case (ReqOpen p nt)
  then show ?thesis
    using open_flags_bits decode_request_sealed(1) [where f = "with_hmac_flag (open_flags nt) (k \<noteq> None)" and k = k]
    by (simp add: encode_open_sealed verify_envelope_sealed with_hmac_flag_reserved has_with_hmac_flag
        del: not_None_eq)
next
  case (ReqClose token)
  then show ?thesis
    using open_flags_bits flags_reserved
      decode_request_sealed(2) [where f = "with_hmac_flag FLAG_CLOSE (k \<noteq> None)" and k = k and rest = "[]"]
    by (simp add: encode_close_sealed verify_envelope_sealed with_hmac_flag_reserved has_with_hmac_flag
        del: not_None_eq)
next
  case (ReqEcho token sequence p payload)
  have "length (echo_tail (k \<noteq> None) p payload) + 16 + auth_len k =
      max (echo_header_len (k \<noteq> None) p) (nat (sint (length_param p)))"
    using assms ReqEcho
    by (cases k) (simp_all add: echo_tail_def auth_len_def echo_header_len_eq payload_room_def)
  with assms ReqEcho show ?thesis
    using with_hmac_flag_zero [of "k \<noteq> None"]
      decode_request_sealed(3) [where f = "with_hmac_flag 0 (k \<noteq> None)" and k = k]
    by (simp add: encode_echo_sealed verify_envelope_sealed has_with_hmac_flag echo_packet_len_eq
        add.commute del: not_None_eq)
qed

text \<open>C39: every request that encodes decodes structurally to what was asked for, whatever the
  key, and authenticates under it; opens and closes always encode, and an echo encodes exactly
  when its payload fits, into a datagram of the negotiated length.\<close>

theorem request_roundtrip:
  assumes "case req of ReqEcho _ _ p payload \<Rightarrow> length payload \<le> payload_room (k \<noteq> None) p | _ \<Rightarrow> True"
  shows "\<exists>packet. encode_request mac req k = Ok packet \<and>
     decode_request packet = Ok \<lparr>req_hmac_present = (k \<noteq> None), req_kind = request_kind k req\<rparr> \<and>
     verify_envelope mac packet k = Ok () \<and>
     (case req of ReqEcho _ _ p _ \<Rightarrow> Ok (length packet) = echo_packet_len (k \<noteq> None) p | _ \<Rightarrow> True)"
  using encoded_request_decodes [OF assms] .

theorem request_roundtrip_witness:
  "\<exists>packet. encode_request (\<lambda>_ _. 5) (ReqEcho 7 9 (params_default\<lparr>length_param := 40\<rparr>) [1, 2, 3]) (Some [1]) = Ok packet \<and>
     decode_request packet = Ok \<lparr>req_hmac_present = (Some [1] \<noteq> (None :: bytes option)),
       req_kind = request_kind (Some [1]) (ReqEcho 7 9 (params_default\<lparr>length_param := 40\<rparr>) [1, 2, 3])\<rparr> \<and>
     verify_envelope (\<lambda>_ _. 5) packet (Some [1]) = Ok () \<and>
     (case ReqEcho 7 9 (params_default\<lparr>length_param := 40\<rparr>) [1, 2, 3] of
        ReqEcho _ _ p _ \<Rightarrow> Ok (length packet) = echo_packet_len (Some [1] \<noteq> (None :: bytes option)) p | _ \<Rightarrow> True)"
  by (rule request_roundtrip) code_simp

text \<open>An echo payload that does not fit is refused with the room there was.\<close>

theorem echo_payload_too_large:
  assumes "payload_room (k \<noteq> None) p < length payload"
  shows "encode_request mac (ReqEcho token sequence p payload) k =
           Err (PayloadTooLarge (payload_room (k \<noteq> None) p) (length payload))"
  using assms
  by (simp add: encode_echo_def echo_packet_len_eq echo_header_len_def [symmetric] max_minus_header
      Let_def del: not_None_eq)

theorem echo_payload_too_large_witness:
  "encode_request (\<lambda>_ _. 0) (ReqEcho 1 2 (params_default\<lparr>length_param := 18\<rparr>) [1, 2, 3]) None =
     Err (PayloadTooLarge (payload_room (None \<noteq> (None :: bytes option)) (params_default\<lparr>length_param := 18\<rparr>))
       (length [1 :: u8, 2, 3]))"
  by (rule echo_payload_too_large) code_simp

text \<open>The structural decoder's classification. It accepts exactly the packets with the
  magic, no reserved flag, no reply flag and the minimum length of their kind, and open wins
  over close.\<close>

theorem decode_request_classifies:
  "decode_request packet = Ok r \<longleftrightarrow>
     (\<exists>flags. validate_header packet = Ok flags \<and> \<not> has flags FLAG_REPLY \<and>
       (let body = 4 + (if has flags FLAG_HMAC then 16 else 0)
        in req_hmac_present r = has flags FLAG_HMAC \<and>
           (if has flags FLAG_OPEN
            then body \<le> length packet \<and> req_kind r = KindOpen (has flags FLAG_CLOSE) (drop body packet)
            else if has flags FLAG_CLOSE
            then body + 8 \<le> length packet \<and> req_kind r = KindClose (from_le_bytes (slice_at body 8 packet))
            else body + 12 \<le> length packet \<and>
                 req_kind r = KindEcho (from_le_bytes (slice_at body 8 packet))
                   (from_le_bytes (slice_at (body + 8) 4 packet)) (drop (body + 12) packet))))"
  by (cases r; cases "validate_header packet")
     (auto simp: decode_request_def decode_structural_def Let_def require_len_def read_token_def
        read_sequence_def result_simps HEADER_SIZE_def HMAC_SIZE_def TOKEN_SIZE_def SEQ_SIZE_def
        not_less add.assoc split: if_splits)

text \<open>Authentication. A packet verifies under a key exactly when it carries the HMAC flag,
  is long enough, and its 16-byte field equals the MAC of the packet with that field zeroed.\<close>

theorem packet_hmac_iff:
  "verify_packet_hmac mac key packet = Ok () \<longleftrightarrow>
     (\<exists>flags. validate_header packet = Ok flags \<and> has flags FLAG_HMAC) \<and> 20 \<le> length packet \<and>
     slice_at 4 16 packet =
       to_le_bytes 16 (mac key (take 4 packet @ replicate 16 0 @ drop 20 packet))"
  by (cases "validate_header packet")
     (simp_all add: verify_packet_hmac_def decode_structural_def Let_def verify_hmac_iff
        hmac_offset_def HEADER_SIZE_def)

end
