(* ===== verification/Replies.thy ===== *)
theory Replies
  imports Request
begin

unbundle bit_operations_syntax

text \<open>
  \<open>open.rs\<close> and \<open>echo.rs\<close>: the two reply codecs, with the dual-midpoint compatibility form of
  the echo reply. The decoder's cursor \<open>pos\<close> is threaded explicitly.
\<close>

section \<open>Open replies (\<open>open.rs\<close>)\<close>

record open_reply =
  or_flags :: u8
  or_token :: u64
  or_params :: params

definition encode_open_reply :: "mac_fun \<Rightarrow> open_reply \<Rightarrow> bytes option \<Rightarrow> bytes result" where
  "encode_open_reply mac reply hmac_key =
     (let encoded = encode_params (or_params reply)
      in bindr (begin_checked (or_flags reply) hmac_key [Require FLAG_OPEN, Require FLAG_REPLY]) (\<lambda>out.
         if or_token reply = 0 \<and> \<not> has (or_flags reply) FLAG_CLOSE then Err ZeroToken
         else let out = out @ to_le_bytes 8 (or_token reply);
                  out = out @ encoded
              in finish mac out hmac_key))"

definition decode_open_reply :: "mac_fun \<Rightarrow> bytes \<Rightarrow> bytes option \<Rightarrow> open_reply result" where
  "decode_open_reply mac packet hmac_key =
     bindr (decode_envelope packet hmac_key [Require FLAG_OPEN, Require FLAG_REPLY]) (\<lambda>envelope.
     bindr (verify_envelope mac packet hmac_key) (\<lambda>_.
       let pos = env_body_offset envelope; needed = pos + TOKEN_SIZE
       in if length packet < needed then Err (PacketTooShort needed (length packet))
          else let token = (from_le_bytes (slice_at pos TOKEN_SIZE packet) :: u64);
                   pos = pos + TOKEN_SIZE
               in if token = 0 \<and> \<not> has (env_flags envelope) FLAG_CLOSE then Err ZeroToken
                  else bindr (decode_params (drop pos packet)) (\<lambda>p.
                    Ok \<lparr>or_flags = env_flags envelope, or_token = token, or_params = p\<rparr>)))"

section \<open>Echo replies (\<open>echo.rs\<close>)\<close>

definition MIDPOINT_COMPAT_EXTRA :: nat where
  "MIDPOINT_COMPAT_EXTRA = TIMESTAMP_SIZE"

definition is_midpoint_single_clock :: "params \<Rightarrow> bool" where
  "is_midpoint_single_clock p \<longleftrightarrow>
     stamp_at p = StMidpoint \<and> (clock p = ClkWall \<or> clock p = ClkMonotonic)"

definition midpoint_compat_packet_len :: "packet_layout \<Rightarrow> nat \<Rightarrow> nat" where
  "midpoint_compat_packet_len layout normal_len =
     max (header_len layout + MIDPOINT_COMPAT_EXTRA) normal_len"

record timestamp_fields =
  ts_recv_wall :: "i64 option"
  ts_recv_mono :: "i64 option"
  ts_midpoint_wall :: "i64 option"
  ts_midpoint_mono :: "i64 option"
  ts_send_wall :: "i64 option"
  ts_send_mono :: "i64 option"

record echo_reply =
  er_flags :: u8
  er_token :: u64
  er_sequence :: u32
  er_recv_count :: "u32 option"
  er_recv_window :: "u64 option"
  er_timestamps :: timestamp_fields
  er_payload :: bytes

fun field_value :: "bool \<Rightarrow> 'a option \<Rightarrow> string \<Rightarrow> 'a option result" where
  "field_value True (Some v) name = Ok (Some v)"
| "field_value True None name = Err (MissingField name)"
| "field_value False (Some v) name = Err (UnexpectedField name)"
| "field_value False None name = Ok None"

text \<open>\<open>if let Some(value) = ... { out.extend_from_slice(&value.to_le_bytes()) }\<close>, for an
  \<open>n\<close>-byte value.\<close>

definition extend_opt :: "nat \<Rightarrow> 'a::len word option \<Rightarrow> bytes \<Rightarrow> bytes" where
  "extend_opt n value out = (case value of Some v \<Rightarrow> out @ to_le_bytes n v | None \<Rightarrow> out)"

fun push_timestamps :: "(bool \<times> i64 option \<times> string) list \<Rightarrow> bytes \<Rightarrow> bytes result" where
  "push_timestamps [] out = Ok out"
| "push_timestamps ((present, value, name) # rest) out =
     bindr (field_value present value name) (\<lambda>v. push_timestamps rest (extend_opt 8 v out))"

definition push_echo_reply_tail :: "echo_reply \<Rightarrow> packet_layout \<Rightarrow> bytes \<Rightarrow> bytes result" where
  "push_echo_reply_tail reply layout out =
     bindr (field_value (lay_recv_count layout) (er_recv_count reply) ''recv_count'') (\<lambda>v.
     let out = extend_opt 4 v out
     in bindr (field_value (lay_recv_window layout) (er_recv_window reply) ''recv_window'') (\<lambda>v.
     let out = extend_opt 8 v out; timestamps = er_timestamps reply
     in push_timestamps
          [(lay_recv_wall layout, ts_recv_wall timestamps, ''recv_wall''),
           (lay_recv_mono layout, ts_recv_mono timestamps, ''recv_mono''),
           (lay_midpoint_wall layout, ts_midpoint_wall timestamps, ''midpoint_wall''),
           (lay_midpoint_mono layout, ts_midpoint_mono timestamps, ''midpoint_mono''),
           (lay_send_wall layout, ts_send_wall timestamps, ''send_wall''),
           (lay_send_mono layout, ts_send_mono timestamps, ''send_mono'')] out))"

definition encode_echo_reply :: "mac_fun \<Rightarrow> echo_reply \<Rightarrow> params \<Rightarrow> bytes option \<Rightarrow> bytes result" where
  "encode_echo_reply mac reply p hmac_key =
     (let layout = echo_layout (hmac_key \<noteq> None) p
      in bindr (echo_packet_len (hmac_key \<noteq> None) p) (\<lambda>len.
         let payload_offset = header_len layout;
             available_payload_len = len - payload_offset
         in if length (er_payload reply) > available_payload_len
            then Err (PayloadTooLarge available_payload_len (length (er_payload reply)))
            else bindr (begin_checked (er_flags reply) hmac_key [Reject FLAG_OPEN, Require FLAG_REPLY]) (\<lambda>out.
              let out = out @ to_le_bytes 8 (er_token reply);
                  out = out @ to_le_bytes 4 (er_sequence reply)
              in bindr (push_echo_reply_tail reply layout out) (\<lambda>out.
                 let out = resize_zero len out;
                     out = copy_at payload_offset (er_payload reply) out
                 in finish mac out hmac_key))))"

definition validate_echo_length :: "bytes \<Rightarrow> params \<Rightarrow> packet_layout \<Rightarrow> bool result" where
  "validate_echo_length packet p layout =
     (let hlen = header_len layout
      in if length packet < hlen then Err (PacketTooShort hlen (length packet))
         else bindr (echo_packet_len (lay_hmac layout) p) (\<lambda>expected_len.
           if length packet = expected_len then Ok False
           else if is_midpoint_single_clock p
                \<and> midpoint_compat_packet_len layout expected_len > expected_len
                \<and> length packet = midpoint_compat_packet_len layout expected_len
           then Ok True
           else Err (PacketLengthMismatch expected_len (length packet))))"

definition read_u32 :: "bytes \<Rightarrow> nat \<Rightarrow> u32 \<times> nat" where
  "read_u32 packet pos = (from_le_bytes (slice_at pos SEQ_SIZE packet), pos + SEQ_SIZE)"

definition read_u64 :: "bytes \<Rightarrow> nat \<Rightarrow> u64 \<times> nat" where
  "read_u64 packet pos = (from_le_bytes (slice_at pos TOKEN_SIZE packet), pos + TOKEN_SIZE)"

definition read_i64 :: "bytes \<Rightarrow> nat \<Rightarrow> i64 \<times> nat" where
  "read_i64 packet pos = (from_le_bytes (slice_at pos TIMESTAMP_SIZE packet), pos + TIMESTAMP_SIZE)"

text \<open>\<open>present.then(|| read(packet, &mut pos))\<close>.\<close>

definition then_read :: "bool \<Rightarrow> (bytes \<Rightarrow> nat \<Rightarrow> 'a \<times> nat) \<Rightarrow> bytes \<Rightarrow> nat \<Rightarrow> 'a option \<times> nat" where
  "then_read present rd packet pos =
     (if present then (let (v, pos') = rd packet pos in (Some v, pos')) else (None, pos))"

text \<open>The midpoint pair: both fields of the compatibility form, of which the negotiated clock's
  is kept, or the negotiated fields. The last two clocks are the source's \<open>unreachable!\<close>
  (\<open>compat_single_clock\<close> below).\<close>

definition read_midpoints :: "bool \<Rightarrow> params \<Rightarrow> packet_layout \<Rightarrow> bytes \<Rightarrow> nat \<Rightarrow> i64 option \<times> i64 option \<times> nat" where
  "read_midpoints midpoint_compat p layout packet pos =
     (if midpoint_compat then
        (let (wall, pos) = read_i64 packet pos; (mono, pos) = read_i64 packet pos
         in case clock p of
              ClkWall \<Rightarrow> (Some wall, None, pos)
            | ClkMonotonic \<Rightarrow> (None, Some mono, pos)
            | ClkUnspecified \<Rightarrow> (None, None, pos)
            | ClkBoth \<Rightarrow> (None, None, pos))
      else
        (let (mw, pos) = then_read (lay_midpoint_wall layout) read_i64 packet pos;
             (mm, pos) = then_read (lay_midpoint_mono layout) read_i64 packet pos
         in (mw, mm, pos)))"

definition decode_echo_reply :: "mac_fun \<Rightarrow> bytes \<Rightarrow> params \<Rightarrow> bytes option \<Rightarrow> echo_reply result" where
  "decode_echo_reply mac packet p hmac_key =
     bindr (decode_envelope packet hmac_key [Reject FLAG_OPEN, Require FLAG_REPLY]) (\<lambda>envelope.
     let layout = echo_layout (hmac_key \<noteq> None) p
     in bindr (validate_echo_length packet p layout) (\<lambda>midpoint_compat.
     bindr (verify_envelope mac packet hmac_key) (\<lambda>_.
     let hlen = header_len layout + (if midpoint_compat then MIDPOINT_COMPAT_EXTRA else 0);
         pos = env_body_offset envelope;
         (token, pos) = read_u64 packet pos;
         (sequence, pos) = read_u32 packet pos;
         (recv_count, pos) = then_read (lay_recv_count layout) read_u32 packet pos;
         (recv_window, pos) = then_read (lay_recv_window layout) read_u64 packet pos;
         (recv_wall, pos) = then_read (lay_recv_wall layout) read_i64 packet pos;
         (recv_mono, pos) = then_read (lay_recv_mono layout) read_i64 packet pos;
         (midpoint_wall, midpoint_mono, pos) = read_midpoints midpoint_compat p layout packet pos;
         (send_wall, pos) = then_read (lay_send_wall layout) read_i64 packet pos;
         (send_mono, pos) = then_read (lay_send_mono layout) read_i64 packet pos
     in Ok \<lparr>er_flags = env_flags envelope, er_token = token, er_sequence = sequence,
            er_recv_count = recv_count, er_recv_window = recv_window,
            er_timestamps =
              \<lparr>ts_recv_wall = recv_wall, ts_recv_mono = recv_mono,
               ts_midpoint_wall = midpoint_wall, ts_midpoint_mono = midpoint_mono,
               ts_send_wall = send_wall, ts_send_mono = send_mono\<rparr>,
            er_payload = drop hlen packet\<rparr>)))"

section \<open>Open replies: round trip\<close>

lemma encode_open_reply_sealed:
  assumes "or_flags r AND RESERVED_FLAGS_MASK = 0"
    and "has (or_flags r) FLAG_OPEN" "has (or_flags r) FLAG_REPLY"
    and "or_token r \<noteq> 0 \<or> has (or_flags r) FLAG_CLOSE"
  shows "encode_open_reply mac r k =
     Ok (sealed mac (with_hmac_flag (or_flags r) (k \<noteq> None)) k
          (to_le_bytes 8 (or_token r) @ encode_params (or_params r)))"
proof -
  have "begin_checked (or_flags r) k [Require FLAG_OPEN, Require FLAG_REPLY] =
      Ok (MAGIC @ with_hmac_flag (or_flags r) (k \<noteq> None) # (if k = None then [] else replicate 16 0))"
    using assms by (intro begin_checked_Ok) (simp_all add: with_hmac_flag_reserved has_with_hmac_flag)
  with assms show ?thesis
    using finish_begun [of mac "with_hmac_flag (or_flags r) (k \<noteq> None)" k
        "to_le_bytes 8 (or_token r) @ encode_params (or_params r)"]
    by (auto simp: encode_open_reply_def Let_def)
qed

lemma decode_open_reply_sealed:
  assumes "f AND RESERVED_FLAGS_MASK = 0" "has f FLAG_OPEN" "has f FLAG_REPLY"
    and "token \<noteq> 0 \<or> has f FLAG_CLOSE" "has f FLAG_HMAC = (k \<noteq> None)"
  shows "decode_open_reply mac (sealed mac f k (to_le_bytes 8 token @ bs)) k =
     bindr (decode_params bs) (\<lambda>p. Ok \<lparr>or_flags = f, or_token = token, or_params = p\<rparr>)"
  using assms
  by (auto simp: decode_open_reply_def decode_envelope_sealed verify_envelope_sealed Let_def
      TOKEN_SIZE_def slice_at_def drop_sealed_fields)

lemma decode_encoded_open_reply:
  assumes "or_flags r AND RESERVED_FLAGS_MASK = 0" "has (or_flags r) FLAG_OPEN" "has (or_flags r) FLAG_REPLY"
    and "or_token r \<noteq> 0 \<or> has (or_flags r) FLAG_CLOSE" "wf_params (or_params r)"
    and "encode_open_reply mac r k = Ok packet"
  shows "decode_open_reply mac packet k = Ok (r\<lparr>or_flags := with_hmac_flag (or_flags r) (k \<noteq> None)\<rparr>)"
  using assms(6) encode_open_reply_sealed [OF assms(1-4), of mac k] assms(1-5)
  by (auto simp: decode_open_reply_sealed with_hmac_flag_reserved has_with_hmac_flag decode_encode_params_plain)

text \<open>A token of zero without the close flag is refused by both ends.\<close>

lemma encode_open_reply_zero:
  assumes "or_flags r AND RESERVED_FLAGS_MASK = 0"
    and "has (or_flags r) FLAG_OPEN" "has (or_flags r) FLAG_REPLY"
    and "or_token r = 0" "\<not> has (or_flags r) FLAG_CLOSE"
  shows "encode_open_reply mac r k = Err ZeroToken"
proof -
  have "begin_checked (or_flags r) k [Require FLAG_OPEN, Require FLAG_REPLY] =
      Ok (MAGIC @ with_hmac_flag (or_flags r) (k \<noteq> None) # (if k = None then [] else replicate 16 0))"
    using assms by (intro begin_checked_Ok) (simp_all add: with_hmac_flag_reserved has_with_hmac_flag)
  with assms show ?thesis by (simp add: encode_open_reply_def Let_def)
qed

lemma decode_open_reply_Ok:
  assumes "decode_open_reply mac packet k = Ok r"
  shows "or_token r \<noteq> 0 \<or> has (or_flags r) FLAG_CLOSE" "wf_params (or_params r)"
    "has (or_flags r) FLAG_OPEN" "has (or_flags r) FLAG_REPLY" "verify_envelope mac packet k = Ok ()"
  using assms
  by (auto simp: decode_open_reply_def decode_envelope_def result_simps Let_def
      split: if_splits dest: decode_params_wf)

section \<open>Echo replies: round trip\<close>

definition opt_bytes :: "nat \<Rightarrow> 'a::len word option \<Rightarrow> bytes" where
  "opt_bytes n value = (case value of Some v \<Rightarrow> to_le_bytes n v | None \<Rightarrow> [])"

text \<open>The optional fields of a reply are exactly those of the layout.\<close>

definition fields_match :: "packet_layout \<Rightarrow> echo_reply \<Rightarrow> bool" where
  "fields_match l r \<longleftrightarrow>
     (er_recv_count r \<noteq> None) = lay_recv_count l \<and> (er_recv_window r \<noteq> None) = lay_recv_window l \<and>
     (ts_recv_wall (er_timestamps r) \<noteq> None) = lay_recv_wall l \<and>
     (ts_recv_mono (er_timestamps r) \<noteq> None) = lay_recv_mono l \<and>
     (ts_midpoint_wall (er_timestamps r) \<noteq> None) = lay_midpoint_wall l \<and>
     (ts_midpoint_mono (er_timestamps r) \<noteq> None) = lay_midpoint_mono l \<and>
     (ts_send_wall (er_timestamps r) \<noteq> None) = lay_send_wall l \<and>
     (ts_send_mono (er_timestamps r) \<noteq> None) = lay_send_mono l"

definition reply_fields :: "echo_reply \<Rightarrow> bytes" where
  "reply_fields r =
     opt_bytes 4 (er_recv_count r) @ opt_bytes 8 (er_recv_window r) @
     opt_bytes 8 (ts_recv_wall (er_timestamps r)) @ opt_bytes 8 (ts_recv_mono (er_timestamps r)) @
     opt_bytes 8 (ts_midpoint_wall (er_timestamps r)) @ opt_bytes 8 (ts_midpoint_mono (er_timestamps r)) @
     opt_bytes 8 (ts_send_wall (er_timestamps r)) @ opt_bytes 8 (ts_send_mono (er_timestamps r))"

lemma extend_opt_eq: "extend_opt n v out = out @ opt_bytes n v"
  by (cases v) (simp_all add: extend_opt_def opt_bytes_def)

lemma field_value_present: "b = (v \<noteq> None) \<Longrightarrow> field_value b v name = Ok v"
  by (cases v) simp_all

lemma field_value_Ok: "field_value b v name = Ok w \<longleftrightarrow> b = (v \<noteq> None) \<and> w = v"
  by (cases b; cases v) auto

lemma push_timestamps_match:
  "list_all (\<lambda>(b, v, _). b = (v \<noteq> None)) fs \<Longrightarrow>
     push_timestamps fs out = Ok (out @ concat (map (\<lambda>(_, v, _). opt_bytes 8 v) fs))"
  by (induction fs arbitrary: out) (auto simp: field_value_present extend_opt_eq simp del: not_None_eq)

lemma push_tail_match:
  "fields_match l r \<Longrightarrow> push_echo_reply_tail r l out = Ok (out @ reply_fields r)"
  by (simp add: push_echo_reply_tail_def fields_match_def field_value_present extend_opt_eq Let_def
      push_timestamps_match reply_fields_def del: not_None_eq push_timestamps.simps)

lemma push_timestamps_Ok:
  "push_timestamps fs out = Ok out' \<Longrightarrow> list_all (\<lambda>(b, v, _). b = (v \<noteq> None)) fs"
  by (induction fs arbitrary: out)
     (auto simp: result_simps field_value_Ok simp del: not_None_eq)

lemma push_tail_only_match: "push_echo_reply_tail r l out = Ok out' \<Longrightarrow> fields_match l r"
  by (auto simp: push_echo_reply_tail_def fields_match_def result_simps field_value_Ok Let_def
      simp del: not_None_eq push_timestamps.simps dest!: push_timestamps_Ok)

lemma length_opt_bytes: "length (opt_bytes n v) = (if v \<noteq> None then n else 0)"
  by (cases v) (simp_all add: opt_bytes_def)

lemma length_reply_fields:
  "fields_match (echo_layout h p) r \<Longrightarrow> length (reply_fields r) = reply_fields_len p"
  by (simp add: reply_fields_def length_opt_bytes fields_match_def reply_fields_len_def
      timestamp_count_def echo_layout_def Let_def del: not_None_eq)

definition pad_payload :: "bool \<Rightarrow> params \<Rightarrow> bytes \<Rightarrow> bytes" where
  "pad_payload h p payload = payload @ replicate (payload_room h p - length payload) 0"

lemma length_pad_payload [simp]:
  "length payload \<le> payload_room h p \<Longrightarrow> length (pad_payload h p payload) = payload_room h p"
  by (simp add: pad_payload_def)

definition echo_body :: "bool \<Rightarrow> params \<Rightarrow> echo_reply \<Rightarrow> bytes" where
  "echo_body h p r =
     to_le_bytes 8 (er_token r) @ to_le_bytes 4 (er_sequence r) @ reply_fields r @
     pad_payload h p (er_payload r)"

lemma encode_echo_reply_sealed:
  assumes flags: "er_flags r AND RESERVED_FLAGS_MASK = 0" "\<not> has (er_flags r) FLAG_OPEN"
      "has (er_flags r) FLAG_REPLY"
    and fields: "fields_match (echo_layout (k \<noteq> None) p) r"
    and room: "length (er_payload r) \<le> payload_room (k \<noteq> None) p"
  shows "encode_echo_reply mac r p k =
     Ok (sealed mac (with_hmac_flag (er_flags r) (k \<noteq> None)) k (echo_body (k \<noteq> None) p r))"
proof -
  define h where "h = (k \<noteq> None)"
  define n where "n = max (echo_header_len h p) (nat (sint (length_param p)))"
  define start where
    "start = MAGIC @ with_hmac_flag (er_flags r) h # (if k = None then [] else replicate 16 0)"
  define hdr where "hdr = start @ to_le_bytes 8 (er_token r) @ to_le_bytes 4 (er_sequence r) @ reply_fields r"
  note h = h_def [symmetric]
  have nroom: "n - echo_header_len h p = payload_room h p"
    by (simp add: n_def max_minus_header)
  have "length hdr = echo_header_len h p"
    using length_reply_fields [OF fields]
    by (simp add: hdr_def start_def h_def echo_header_len_eq)
  moreover have "echo_header_len h p + length (er_payload r) \<le> n" if "er_payload r \<noteq> []"
    using room that unfolding h n_def payload_room_def
    by (metis add.commute le_diff_conv2 le_zero_eq length_0_conv linorder_le_cases max.absorb2 diff_is_0_eq)
  moreover have "echo_header_len h p \<le> n" by (simp add: n_def)
  ultimately have copy: "copy_at (echo_header_len h p) (er_payload r) (resize_zero n hdr) =
      hdr @ pad_payload h p (er_payload r)"
    using resize_copy [of hdr _ 0 "echo_header_len h p" "er_payload r" n]
    by (cases "er_payload r = []") (simp_all add: pad_payload_def nroom)
  have start: "begin_checked (er_flags r) k [Reject FLAG_OPEN, Require FLAG_REPLY] = Ok start"
    unfolding start_def h_def using flags
    by (intro begin_checked_Ok) (simp_all add: with_hmac_flag_reserved has_with_hmac_flag)
  have fin: "finish mac (hdr @ pad_payload h p (er_payload r)) k =
      Ok (sealed mac (with_hmac_flag (er_flags r) h) k (echo_body h p r))"
    using finish_begun [of mac "with_hmac_flag (er_flags r) h" k "echo_body h p r"]
    by (simp add: hdr_def start_def echo_body_def)
  have tail: "push_echo_reply_tail r (echo_layout h p)
      ((start @ to_le_bytes 8 (er_token r)) @ to_le_bytes 4 (er_sequence r)) = Ok hdr"
    using push_tail_match [OF fields [folded h_def]] by (simp add: hdr_def)
  show ?thesis
    using room copy fin tail
    unfolding encode_echo_reply_def Let_def h echo_packet_len_eq n_def [symmetric]
      echo_header_len_def [symmetric] start
    by (simp add: nroom)
qed

text \<open>The cursor: when the field at \<open>pos\<close> is the next piece of the buffer, reading it returns
  the field and moves past it.\<close>

lemma read_at:
  "drop pos packet = to_le_bytes 8 w @ rest \<Longrightarrow> read_u64 packet pos = (w, pos + 8)"
  "drop pos packet = to_le_bytes 8 w @ rest \<Longrightarrow> read_i64 packet pos = (w, pos + 8)"
  "drop pos packet = to_le_bytes 4 v @ rest \<Longrightarrow> read_u32 packet pos = (v, pos + 4)"
  by (simp_all add: read_u64_def read_i64_def read_u32_def slice_at_def TOKEN_SIZE_def SEQ_SIZE_def
      TIMESTAMP_SIZE_def)

lemma then_read_at:
  "drop pos packet = opt_bytes 8 x @ rest \<Longrightarrow> b = (x \<noteq> None) \<Longrightarrow>
     then_read b read_i64 packet pos = (x, pos + length (opt_bytes 8 x))"
  "drop pos packet = opt_bytes 8 x @ rest \<Longrightarrow> b = (x \<noteq> None) \<Longrightarrow>
     then_read b read_u64 packet pos = (x, pos + length (opt_bytes 8 x))"
  "drop pos packet = opt_bytes 4 y @ rest \<Longrightarrow> b = (y \<noteq> None) \<Longrightarrow>
     then_read b read_u32 packet pos = (y, pos + length (opt_bytes 4 y))"
  subgoal by (cases x) (simp_all add: then_read_def opt_bytes_def read_at)
  subgoal by (cases x) (simp_all add: then_read_def opt_bytes_def read_at)
  subgoal by (cases y) (simp_all add: then_read_def opt_bytes_def read_at)
  done

lemma drop_past: "drop pos packet = xs @ rest \<Longrightarrow> drop (pos + length xs) packet = rest"
  by (metis add.commute append_eq_conv_conj drop_drop)

lemma read_midpoints_at:
  "drop pos packet = opt_bytes 8 x @ opt_bytes 8 y @ rest \<Longrightarrow>
   lay_midpoint_wall l = (x \<noteq> None) \<Longrightarrow> lay_midpoint_mono l = (y \<noteq> None) \<Longrightarrow>
     read_midpoints False p l packet pos =
       (x, y, pos + length (opt_bytes 8 x) + length (opt_bytes 8 y))"
  using then_read_at(1) [of pos packet x "opt_bytes 8 y @ rest"]
    then_read_at(1) [OF drop_past [of pos packet "opt_bytes 8 x" "opt_bytes 8 y @ rest"]]
  by (simp add: read_midpoints_def del: not_None_eq)

lemma read_midpoints_compat_at:
  "drop pos packet = to_le_bytes 8 wall @ to_le_bytes 8 mn @ rest \<Longrightarrow>
     read_midpoints True p l packet pos =
       (if clock p = ClkWall then Some wall else None,
        if clock p = ClkMonotonic then Some mn else None, pos + 16)"
  using read_at(2) [of pos packet wall "to_le_bytes 8 mn @ rest"]
    read_at(2) [OF drop_past [of pos packet "to_le_bytes 8 wall" "to_le_bytes 8 mn @ rest"]]
  by (cases "clock p") (simp_all add: read_midpoints_def)

lemma compat_single_clock:
  "validate_echo_length packet p l = Ok True \<Longrightarrow> clock p = ClkWall \<or> clock p = ClkMonotonic"
  by (auto simp: validate_echo_length_def Let_def result_simps is_midpoint_single_clock_def
      split: if_splits)

text \<open>The body of the decoder, after the checks: the cursor walks the fields in order.\<close>

lemma decode_echo_fields:
  assumes env: "decode_envelope packet k [Reject FLAG_OPEN, Require FLAG_REPLY] = Ok e"
    and ver: "verify_envelope mac packet k = Ok ()"
    and len: "validate_echo_length packet p (echo_layout (k \<noteq> None) p) = Ok c"
    and body: "drop (env_body_offset e) packet =
      to_le_bytes 8 (er_token r) @ to_le_bytes 4 (er_sequence r) @
      opt_bytes 4 (er_recv_count r) @ opt_bytes 8 (er_recv_window r) @
      opt_bytes 8 (ts_recv_wall (er_timestamps r)) @ opt_bytes 8 (ts_recv_mono (er_timestamps r)) @
      mid @ opt_bytes 8 (ts_send_wall (er_timestamps r)) @
      opt_bytes 8 (ts_send_mono (er_timestamps r)) @ rest"
    and mid: "\<And>pos tail. drop pos packet = mid @ tail \<Longrightarrow>
      read_midpoints c p (echo_layout (k \<noteq> None) p) packet pos =
        (ts_midpoint_wall (er_timestamps r), ts_midpoint_mono (er_timestamps r), pos + length mid)"
    and fields: "fields_match (echo_layout (k \<noteq> None) p) r"
  shows "decode_echo_reply mac packet p k =
     Ok (r\<lparr>er_flags := env_flags e,
           er_payload := drop (header_len (echo_layout (k \<noteq> None) p) + (if c then 8 else 0)) packet\<rparr>)"
proof -
  define l where "l = echo_layout (k \<noteq> None) p"
  define t where "t = er_timestamps r"
  note b1 = body [unfolded t_def [symmetric]]
  note b2 = drop_past [OF b1] note b3 = drop_past [OF b2] note b4 = drop_past [OF b3]
  note b5 = drop_past [OF b4] note b6 = drop_past [OF b5] note b7 = drop_past [OF b6]
  note b8 = drop_past [OF b7] note b9 = drop_past [OF b8]
  have f: "lay_recv_count l = (er_recv_count r \<noteq> None)" "lay_recv_window l = (er_recv_window r \<noteq> None)"
    "lay_recv_wall l = (ts_recv_wall t \<noteq> None)" "lay_recv_mono l = (ts_recv_mono t \<noteq> None)"
    "lay_send_wall l = (ts_send_wall t \<noteq> None)" "lay_send_mono l = (ts_send_mono t \<noteq> None)"
    using fields by (simp_all add: fields_match_def l_def t_def)
  note steps = read_at(1) [OF b1] read_at(3) [OF b2, simplified] then_read_at(3) [OF b3 f(1)]
    then_read_at(2) [OF b4 f(2)] then_read_at(1) [OF b5 f(3)] then_read_at(1) [OF b6 f(4)]
    mid [OF b7, folded l_def t_def] then_read_at(1) [OF b8 f(5)] then_read_at(1) [OF b9 f(6)]
  have rec: "r\<lparr>er_flags := f, er_payload := x\<rparr> =
      \<lparr>er_flags = f, er_token = er_token r, er_sequence = er_sequence r,
       er_recv_count = er_recv_count r, er_recv_window = er_recv_window r,
       er_timestamps =
         \<lparr>ts_recv_wall = ts_recv_wall t, ts_recv_mono = ts_recv_mono t,
          ts_midpoint_wall = ts_midpoint_wall t, ts_midpoint_mono = ts_midpoint_mono t,
          ts_send_wall = ts_send_wall t, ts_send_mono = ts_send_mono t\<rparr>,
       er_payload = x\<rparr>" for f x
    by (simp add: t_def)
  show ?thesis
    unfolding decode_echo_reply_def env bindr.simps Let_def len [folded l_def] ver l_def [symmetric]
      MIDPOINT_COMPAT_EXTRA_def TIMESTAMP_SIZE_def rec
    using steps by simp
qed

lemma echo_hdr_sealed:
  "header_len (echo_layout (k \<noteq> None) p) =
     16 + auth_len k + reply_fields_len p"
  using echo_header_len_eq [of "k \<noteq> None" p] by (simp add: echo_header_len_def auth_len_def)

lemma lay_hmac_echo [simp]: "lay_hmac (echo_layout h p) = h"
  by (simp add: echo_layout_def Let_def)

lemma payload_room_expected:
  "16 + (if h then 16 else 0) + reply_fields_len p + payload_room h p =
     max (echo_header_len h p) (nat (sint (length_param p)))"
  by (simp add: payload_room_def echo_header_len_eq)

lemma decode_echo_reply_sealed:
  assumes flags: "f AND RESERVED_FLAGS_MASK = 0" "\<not> has f FLAG_OPEN" "has f FLAG_REPLY"
      "has f FLAG_HMAC = (k \<noteq> None)"
    and fields: "fields_match (echo_layout (k \<noteq> None) p) r"
    and room: "length (er_payload r) \<le> payload_room (k \<noteq> None) p"
  shows "decode_echo_reply mac (sealed mac f k (echo_body (k \<noteq> None) p r)) p k =
     Ok (r\<lparr>er_flags := f, er_payload := pad_payload (k \<noteq> None) p (er_payload r)\<rparr>)"
proof -
  define h where "h = (k \<noteq> None)"
  define packet where "packet = sealed mac f k (echo_body h p r)"
  have len_fields: "length (reply_fields r) = reply_fields_len p"
    using fields by (rule length_reply_fields)
  have "length packet = 16 + (if h then 16 else 0) + reply_fields_len p + payload_room h p"
    using room by (simp add: packet_def echo_body_def len_fields h_def auth_len_def)
  then have plen: "length packet = max (echo_header_len h p) (nat (sint (length_param p)))"
    by (simp add: payload_room_expected)
  have env: "decode_envelope packet k [Reject FLAG_OPEN, Require FLAG_REPLY] =
      Ok \<lparr>env_flags = f, env_hmac_present = h, env_body_offset = 4 + auth_len k\<rparr>"
    unfolding packet_def h_def by (rule decode_envelope_sealed) (use flags in simp_all)
  have len: "validate_echo_length packet p (echo_layout h p) = Ok False"
    using plen echo_packet_len_eq [of h p]
    by (simp add: validate_echo_length_def Let_def echo_header_len_def echo_layout_def)
  have body: "drop (4 + auth_len k) packet = echo_body h p r"
    by (simp add: packet_def)
  have "decode_echo_reply mac packet p k =
      Ok (r\<lparr>er_flags := f, er_payload := drop (header_len (echo_layout h p)) packet\<rparr>)"
    using decode_echo_fields [OF env _ len [unfolded h_def], of mac r
        "opt_bytes 8 (ts_midpoint_wall (er_timestamps r)) @ opt_bytes 8 (ts_midpoint_mono (er_timestamps r))"
        "pad_payload h p (er_payload r)"] fields body
    by (simp add: packet_def verify_envelope_sealed echo_body_def reply_fields_def h_def
        read_midpoints_at fields_match_def)
  moreover have "drop (header_len (echo_layout h p)) packet = pad_payload h p (er_payload r)"
    using drop_past [of 0 packet "take (4 + auth_len k) packet" "echo_body h p r"]
      drop_sealed_add [of k "12 + reply_fields_len p" mac f "echo_body h p r"] len_fields
    by (simp add: echo_hdr_sealed h_def packet_def echo_body_def add.assoc del: not_None_eq)
  ultimately show ?thesis by (simp add: packet_def h_def)
qed

text \<open>The upstream form: both midpoint fields although one clock was negotiated. It is
  recognised when the larger header makes the datagram longer than the negotiated one.\<close>

lemma decode_echo_reply_compat:
  assumes flags: "f AND RESERVED_FLAGS_MASK = 0" "\<not> has f FLAG_OPEN" "has f FLAG_REPLY"
      "has f FLAG_HMAC = (k \<noteq> None)"
    and single: "is_midpoint_single_clock p"
    and room: "payload_room (k \<noteq> None) p < 8"
    and count: "(cnt \<noteq> None) = has_count (received_stats p)"
    and window: "(win \<noteq> None) = has_window (received_stats p)"
  shows "decode_echo_reply mac
       (sealed mac f k (to_le_bytes 8 token @ to_le_bytes 4 sequence @ opt_bytes 4 cnt @
          opt_bytes 8 win @ to_le_bytes 8 wall @ to_le_bytes 8 mn)) p k =
     Ok \<lparr>er_flags = f, er_token = token, er_sequence = sequence, er_recv_count = cnt,
         er_recv_window = win,
         er_timestamps =
           \<lparr>ts_recv_wall = None, ts_recv_mono = None,
            ts_midpoint_wall = (if clock p = ClkWall then Some wall else None),
            ts_midpoint_mono = (if clock p = ClkMonotonic then Some mn else None),
            ts_send_wall = None, ts_send_mono = None\<rparr>,
         er_payload = []\<rparr>"
proof -
  define h where "h = (k \<noteq> None)"
  define body where "body = to_le_bytes 8 token @ to_le_bytes 4 sequence @ opt_bytes 4 cnt @
          opt_bytes 8 win @ to_le_bytes 8 wall @ to_le_bytes 8 mn"
  define packet where "packet = sealed mac f k body"
  define r where "r = \<lparr>er_flags = f, er_token = token, er_sequence = sequence, er_recv_count = cnt,
         er_recv_window = win,
         er_timestamps =
           \<lparr>ts_recv_wall = None, ts_recv_mono = None,
            ts_midpoint_wall = (if clock p = ClkWall then Some wall else None),
            ts_midpoint_mono = (if clock p = ClkMonotonic then Some mn else None),
            ts_send_wall = None, ts_send_mono = None\<rparr>,
         er_payload = []\<rparr>"
  have at: "stamp_at p = StMidpoint" "clock p = ClkWall \<or> clock p = ClkMonotonic"
    using single by (auto simp: is_midpoint_single_clock_def)
  have "reply_fields_len p = (if cnt \<noteq> None then 4 else 0) + (if win \<noteq> None then 8 else 0) + 8"
    using at count window
    by (auto simp: reply_fields_len_def timestamp_count_def echo_layout_def Let_def)
  then have plen: "length packet = 8 + echo_header_len h p"
    by (simp add: packet_def body_def length_opt_bytes auth_len_def h_def echo_header_len_eq)
  have env: "decode_envelope packet k [Reject FLAG_OPEN, Require FLAG_REPLY] =
      Ok \<lparr>env_flags = f, env_hmac_present = h, env_body_offset = 4 + auth_len k\<rparr>"
    unfolding packet_def h_def by (rule decode_envelope_sealed) (use flags in simp_all)
  have len: "validate_echo_length packet p (echo_layout h p) = Ok True"
    using plen echo_packet_len_eq [of h p] room single
    by (simp add: validate_echo_length_def Let_def echo_header_len_def [symmetric] payload_room_def
        midpoint_compat_packet_len_def MIDPOINT_COMPAT_EXTRA_def TIMESTAMP_SIZE_def h_def [symmetric]
        del: not_None_eq) (arith)
  have drop_body: "drop (4 + auth_len k) packet = body" by (simp add: packet_def)
  have match: "fields_match (echo_layout h p) r"
    using at count window by (auto simp: fields_match_def echo_layout_def Let_def r_def)
  have "decode_echo_reply mac packet p k =
      Ok (r\<lparr>er_flags := f, er_payload := drop (header_len (echo_layout h p) + 8) packet\<rparr>)"
    using decode_echo_fields [OF env _ len [unfolded h_def], of mac r
        "to_le_bytes 8 wall @ to_le_bytes 8 mn" "[]"] match drop_body
    by (simp add: packet_def verify_envelope_sealed body_def h_def r_def
        read_midpoints_compat_at opt_bytes_def)
  then show ?thesis
    using plen by (simp add: packet_def [symmetric] body_def [symmetric] echo_header_len_def r_def)
qed

text \<open>What a successful decode says of a packet: it authenticated, it is a reply, and its fields
  are the negotiated ones.\<close>

lemma decode_echo_reply_Ok:
  assumes "decode_echo_reply mac packet p k = Ok r"
  shows "verify_envelope mac packet k = Ok ()"
    and "has (er_flags r) FLAG_REPLY" "\<not> has (er_flags r) FLAG_OPEN"
    and "echo_header_len (k \<noteq> None) p \<le> length packet"
proof -
  obtain e c where e: "decode_envelope packet k [Reject FLAG_OPEN, Require FLAG_REPLY] = Ok e"
    and c: "validate_echo_length packet p (echo_layout (k \<noteq> None) p) = Ok c"
    and v: "verify_envelope mac packet k = Ok ()" and f: "er_flags r = env_flags e"
    using assms unfolding decode_echo_reply_def Let_def case_prod_unfold bindr_eq_Ok
    by (auto simp del: not_None_eq)
  show "verify_envelope mac packet k = Ok ()" by (rule v)
  show "has (er_flags r) FLAG_REPLY" "\<not> has (er_flags r) FLAG_OPEN"
    using e by (auto simp: f decode_envelope_def result_simps split: if_splits)
  show "echo_header_len (k \<noteq> None) p \<le> length packet"
    using c by (simp add: validate_echo_length_def Let_def echo_header_len_def split: if_splits
        del: not_None_eq)
qed

section \<open>Properties\<close>

text \<open>An open reply decodes to the flags (with the authentication bit set by the key), the
  token and the parameters it was built from.\<close>

theorem open_reply_roundtrip:
  assumes "or_flags r AND RESERVED_FLAGS_MASK = 0" "has (or_flags r) FLAG_OPEN" "has (or_flags r) FLAG_REPLY"
    and "or_token r \<noteq> 0 \<or> has (or_flags r) FLAG_CLOSE" "wf_params (or_params r)"
  shows "\<exists>packet. encode_open_reply mac r k = Ok packet \<and>
     decode_open_reply mac packet k = Ok (r\<lparr>or_flags := with_hmac_flag (or_flags r) (k \<noteq> None)\<rparr>)"
  using encode_open_reply_sealed [OF assms(1-4)] decode_encoded_open_reply [OF assms] by simp

definition sample_open_reply :: open_reply where
  "sample_open_reply = \<lparr>or_flags = FLAG_OPEN OR FLAG_REPLY, or_token = 77, or_params = sample_params\<rparr>"

theorem open_reply_roundtrip_witness:
  "\<exists>packet. encode_open_reply (\<lambda>_ _. 3) sample_open_reply (Some [9]) = Ok packet \<and>
     decode_open_reply (\<lambda>_ _. 3) packet (Some [9]) =
       Ok (sample_open_reply\<lparr>or_flags := with_hmac_flag (or_flags sample_open_reply)
         (Some [9] \<noteq> (None :: bytes option))\<rparr>)"
  by (rule open_reply_roundtrip) code_simp+

text \<open>A zero token is refused unless the reply also closes, by the encoder and by the
  decoder; a decoded reply always has both packet-type flags, a usable token and carryable
  parameters, and passed authentication.\<close>

theorem decoded_open_reply_sound:
  assumes "decode_open_reply mac packet k = Ok r"
  shows "(or_token r \<noteq> 0 \<or> has (or_flags r) FLAG_CLOSE) \<and> wf_params (or_params r) \<and>
     has (or_flags r) FLAG_OPEN \<and> has (or_flags r) FLAG_REPLY \<and> verify_envelope mac packet k = Ok () \<and>
     (has (or_flags q) FLAG_OPEN \<and> has (or_flags q) FLAG_REPLY \<and> or_flags q AND RESERVED_FLAGS_MASK = 0 \<and>
      or_token q = 0 \<and> \<not> has (or_flags q) FLAG_CLOSE \<longrightarrow> encode_open_reply mac q k = Err ZeroToken)"
  using decode_open_reply_Ok [OF assms] encode_open_reply_zero [of q mac k] by blast

definition minimal_open_reply :: open_reply where
  "minimal_open_reply = \<lparr>or_flags = 3, or_token = 1, or_params = params_default\<rparr>"

theorem decoded_open_reply_sound_witness:
  "wf_params (or_params minimal_open_reply) \<and> has (or_flags minimal_open_reply) FLAG_OPEN \<and>
   has (or_flags minimal_open_reply) FLAG_REPLY \<and>
   verify_envelope (\<lambda>_ _. 0) [0x14, 0xA7, 0x5B, 0x03, 1, 0, 0, 0, 0, 0, 0, 0] None = Ok ()"
proof -
  have "decode_open_reply (\<lambda>_ _. 0) [0x14, 0xA7, 0x5B, 0x03, 1, 0, 0, 0, 0, 0, 0, 0] None =
      Ok minimal_open_reply" by code_simp
  from decoded_open_reply_sound [OF this, of minimal_open_reply] show ?thesis by (elim conjE) (intro conjI; assumption)
qed

text \<open>C40: an echo reply whose optional fields are those of the negotiated layout decodes to
  itself, with the payload padded by zeroes to the negotiated length.\<close>

theorem echo_reply_roundtrip:
  assumes "er_flags r AND RESERVED_FLAGS_MASK = 0" "\<not> has (er_flags r) FLAG_OPEN" "has (er_flags r) FLAG_REPLY"
    and "fields_match (echo_layout (k \<noteq> None) p) r" "length (er_payload r) \<le> payload_room (k \<noteq> None) p"
  shows "\<exists>packet. encode_echo_reply mac r p k = Ok packet \<and>
     decode_echo_reply mac packet p k =
       Ok (r\<lparr>er_flags := with_hmac_flag (er_flags r) (k \<noteq> None),
             er_payload := pad_payload (k \<noteq> None) p (er_payload r)\<rparr>)"
proof -
  have "decode_echo_reply mac (sealed mac (with_hmac_flag (er_flags r) (k \<noteq> None)) k
        (echo_body (k \<noteq> None) p r)) p k =
      Ok (r\<lparr>er_flags := with_hmac_flag (er_flags r) (k \<noteq> None),
            er_payload := pad_payload (k \<noteq> None) p (er_payload r)\<rparr>)"
    using assms
    by (intro decode_echo_reply_sealed) (simp_all add: with_hmac_flag_reserved has_with_hmac_flag)
  with encode_echo_reply_sealed [OF assms] show ?thesis by blast
qed

definition sample_echo_reply :: echo_reply where
  "sample_echo_reply =
     \<lparr>er_flags = FLAG_REPLY, er_token = 5, er_sequence = 8, er_recv_count = None,
      er_recv_window = None,
      er_timestamps = \<lparr>ts_recv_wall = None, ts_recv_mono = None, ts_midpoint_wall = Some 99,
        ts_midpoint_mono = None, ts_send_wall = None, ts_send_mono = None\<rparr>,
      er_payload = [1, 2]\<rparr>"

definition midpoint_params :: params where
  "midpoint_params = params_default\<lparr>stamp_at := StMidpoint, clock := ClkWall, length_param := 28\<rparr>"

theorem echo_reply_roundtrip_witness:
  "\<exists>packet. encode_echo_reply (\<lambda>_ _. 1) sample_echo_reply midpoint_params None = Ok packet \<and>
     decode_echo_reply (\<lambda>_ _. 1) packet midpoint_params None =
       Ok (sample_echo_reply\<lparr>er_flags := with_hmac_flag (er_flags sample_echo_reply)
             (None \<noteq> (None :: bytes option)),
           er_payload := pad_payload (None \<noteq> (None :: bytes option)) midpoint_params
             (er_payload sample_echo_reply)\<rparr>)"
  by (rule echo_reply_roundtrip) code_simp+

text \<open>The echo encoder succeeds exactly on replies that match the negotiation: the flags,
  the optional fields and the payload room.\<close>

theorem echo_reply_encodes_iff:
  "(\<exists>packet. encode_echo_reply mac r p k = Ok packet) \<longleftrightarrow>
     er_flags r AND RESERVED_FLAGS_MASK = 0 \<and> \<not> has (er_flags r) FLAG_OPEN \<and> has (er_flags r) FLAG_REPLY \<and>
     fields_match (echo_layout (k \<noteq> None) p) r \<and> length (er_payload r) \<le> payload_room (k \<noteq> None) p"
proof
  assume "\<exists>packet. encode_echo_reply mac r p k = Ok packet"
  then obtain start out where
    room: "length (er_payload r) \<le> payload_room (k \<noteq> None) p" and
    b: "begin_checked (er_flags r) k [Reject FLAG_OPEN, Require FLAG_REPLY] = Ok start" and
    t: "push_echo_reply_tail r (echo_layout (k \<noteq> None) p)
          ((start @ to_le_bytes 8 (er_token r)) @ to_le_bytes 4 (er_sequence r)) = Ok out"
    by (auto simp: encode_echo_reply_def echo_packet_len_eq echo_header_len_def [symmetric] Let_def
        max_minus_header result_simps not_less simp del: not_None_eq split: if_splits)
  have "er_flags r AND RESERVED_FLAGS_MASK = 0 \<and> \<not> has (er_flags r) FLAG_OPEN \<and> has (er_flags r) FLAG_REPLY"
    using b by (auto simp: begin_checked_def Let_def result_simps validate_flags_Ok
        with_hmac_flag_reserved has_with_hmac_flag split: if_splits)
  with room push_tail_only_match [OF t]
  show "er_flags r AND RESERVED_FLAGS_MASK = 0 \<and> \<not> has (er_flags r) FLAG_OPEN \<and> has (er_flags r) FLAG_REPLY \<and>
     fields_match (echo_layout (k \<noteq> None) p) r \<and> length (er_payload r) \<le> payload_room (k \<noteq> None) p" by blast
qed (use encode_echo_reply_sealed in blast)

text \<open>The upstream dual-midpoint form. When the extra field makes the datagram longer than
  negotiated, it is recognised and the negotiated clock's value is exposed, never the other.\<close>

theorem midpoint_compat_decodes:
  assumes "f AND RESERVED_FLAGS_MASK = 0" "\<not> has f FLAG_OPEN" "has f FLAG_REPLY"
      "has f FLAG_HMAC = (k \<noteq> None)"
    and "is_midpoint_single_clock p" "payload_room (k \<noteq> None) p < 8"
    and "(cnt \<noteq> None) = has_count (received_stats p)" "(win \<noteq> None) = has_window (received_stats p)"
  shows "\<exists>r. decode_echo_reply mac
       (sealed mac f k (to_le_bytes 8 token @ to_le_bytes 4 sequence @ opt_bytes 4 cnt @
          opt_bytes 8 win @ to_le_bytes 8 wall @ to_le_bytes 8 mn)) p k = Ok r \<and>
     er_token r = token \<and> er_sequence r = sequence \<and> er_recv_count r = cnt \<and> er_recv_window r = win \<and>
     ts_midpoint_wall (er_timestamps r) = (if clock p = ClkWall then Some wall else None) \<and>
     ts_midpoint_mono (er_timestamps r) = (if clock p = ClkMonotonic then Some mn else None)"
  using decode_echo_reply_compat [OF assms, of mac token sequence wall mn] by simp

theorem midpoint_compat_decodes_witness:
  "\<exists>r. decode_echo_reply (\<lambda>_ _. 0)
       (sealed (\<lambda>_ _. 0) FLAG_REPLY None (to_le_bytes 8 (5 :: u64) @ to_le_bytes 4 (6 :: u32) @
          opt_bytes 4 (None :: u32 option) @ opt_bytes 8 (None :: u64 option) @
          to_le_bytes 8 (11 :: i64) @ to_le_bytes 8 (12 :: i64))) midpoint_params None = Ok r \<and>
     er_token r = 5 \<and> er_sequence r = 6 \<and> er_recv_count r = None \<and> er_recv_window r = None \<and>
     ts_midpoint_wall (er_timestamps r) = (if clock midpoint_params = ClkWall then Some 11 else None) \<and>
     ts_midpoint_mono (er_timestamps r) = (if clock midpoint_params = ClkMonotonic then Some 12 else None)"
  by (rule midpoint_compat_decodes) code_simp+

end
