(* ===== verification/Server_Clock.thy ===== *)
theory Server_Clock
  imports Prelude
begin

text \<open>
  \<open>irtt-server/src/clock.rs\<close>: paired clock samples and the conversions between durations,
  wall instants and the wire's signed nanoseconds. Reading the host's clocks is the
  environment's part: a sample is built from the wall instant and the elapsed monotonic
  time it read.
\<close>

section \<open>Model\<close>

definition saturating_ns :: "duration \<Rightarrow> i64" where
  "saturating_ns d = (if int d \<le> i64_max then word_of_int (int d) else word_of_int i64_max)"

definition saturating_neg_i64 :: "i64 \<Rightarrow> i64" where
  "saturating_neg_i64 v = sat_i64 (- sint v)"

text \<open>The mean of two values through \<open>i128\<close>, whose division truncates toward zero.\<close>

definition mean_ns :: "i64 \<Rightarrow> i64 \<Rightarrow> i64" where
  "mean_ns a b =
     (let mean = quot_trunc (sint a + sint b) 2
      in if in_i64 mean then word_of_int mean
         else if mean < 0 then word_of_int i64_min else word_of_int i64_max)"

record clock_sample =
  wall_ns :: i64
  mono_ns :: i64

definition midpoint :: "clock_sample \<Rightarrow> clock_sample \<Rightarrow> clock_sample" where
  "midpoint a b =
     \<lparr>wall_ns = mean_ns (wall_ns a) (wall_ns b), mono_ns = mean_ns (mono_ns a) (mono_ns b)\<rparr>"

definition not_after :: "clock_sample \<Rightarrow> clock_sample \<Rightarrow> clock_sample" where
  "not_after a later =
     \<lparr>wall_ns = min_i64 (wall_ns a) (wall_ns later), mono_ns = min_i64 (mono_ns a) (mono_ns later)\<rparr>"

definition system_wall_ns :: "system_time \<Rightarrow> i64" where
  "system_wall_ns now =
     (if 0 \<le> now then saturating_ns (nat now)
      else saturating_neg_i64 (saturating_ns (nat (- now))))"

definition sample :: "system_time \<Rightarrow> duration \<Rightarrow> clock_sample" where
  "sample now elapsed = \<lparr>wall_ns = system_wall_ns now, mono_ns = saturating_ns elapsed\<rparr>"

definition wall_ns_of :: "system_time \<Rightarrow> i64 option" where
  "wall_ns_of at =
     (if 0 \<le> at then (if at \<le> i64_max then Some (word_of_int at) else None)
      else if - at \<le> i64_max then
        (if - at = i64_min then None else Some (word_of_int (- (- at))))
      else None)"

section \<open>Lemmas\<close>

lemma sint_saturating_ns [simp]: "sint (saturating_ns d) = min (int d) i64_max"
proof (cases "int d \<le> i64_max")
  case True
  then have "in_i64 (int d)" by (simp add: in_i64_def i64_min_def)
  with True show ?thesis
    unfolding saturating_ns_def by (simp only: sint_word_of_int_i64 if_True min_def)
next
  case False
  moreover have "in_i64 i64_max" by (simp add: in_i64_def i64_min_def i64_max_def)
  ultimately show ?thesis by (simp add: saturating_ns_def)
qed

lemma saturating_ns_nonneg: "0 \<le> sint (saturating_ns d)"
  by (simp add: i64_max_def)

lemma saturating_ns_mono: "d \<le> e \<Longrightarrow> sint (saturating_ns d) \<le> sint (saturating_ns e)"
  by simp

lemma quot_trunc_2:
  "quot_trunc s 2 = (if 0 \<le> s then s div 2 else - ((- s) div 2))"
  by (simp add: quot_trunc_def sgn_if)

lemma quot_trunc_2_between:
  "a \<le> b \<Longrightarrow> a \<le> quot_trunc (a + b) 2 \<and> quot_trunc (a + b) 2 \<le> (b :: int)"
  by (auto simp: quot_trunc_2)

text \<open>The mean never leaves the interval between its arguments, so the clamp is dead code.\<close>

lemma sint_mean_ns: "sint (mean_ns a b) = quot_trunc (sint a + sint b) 2"
proof -
  have "in_i64 (quot_trunc (sint a + sint b) 2)"
    using quot_trunc_2_between [of "sint a" "sint b"] quot_trunc_2_between [of "sint b" "sint a"]
      in_i64_sint [of a] in_i64_sint [of b]
    by (cases "sint a \<le> sint b") (auto simp: in_i64_def add.commute)
  then show ?thesis by (simp add: mean_ns_def Let_def)
qed

lemma mean_ns_between:
  "min (sint a) (sint b) \<le> sint (mean_ns a b) \<and> sint (mean_ns a b) \<le> max (sint a) (sint b)"
  using quot_trunc_2_between [of "sint a" "sint b"] quot_trunc_2_between [of "sint b" "sint a"]
  by (cases "sint a \<le> sint b") (auto simp: sint_mean_ns add.commute)

lemma not_after_le:
  "sint (wall_ns (not_after a b)) \<le> sint (wall_ns b)" "sint (mono_ns (not_after a b)) \<le> sint (mono_ns b)"
  by (simp_all add: not_after_def)

lemma wall_ns_of_exact: "wall_ns_of at = Some w \<Longrightarrow> sint w = at"
  by (auto simp: wall_ns_of_def in_i64_def i64_min_def i64_max_def split: if_splits)

lemma system_wall_ns_clamp:
  "sint (system_wall_ns now) = (if 0 \<le> now then min now i64_max else max now (- i64_max))"
  by (auto simp: system_wall_ns_def saturating_neg_i64_def clamp_i64_def i64_min_def i64_max_def)

end
