(* ===== verification/Server_Config.thy ===== *)
theory Server_Config
  imports Params Server_Clock
begin

text \<open>
  \<open>irtt-server/src/config.rs\<close> and \<open>negotiate.rs\<close>: the configuration with its consuming
  builders, and the negotiation of an open request's parameters under it.
\<close>

section \<open>Configuration\<close>

datatype timestamp_allowance = TaNone | TaSingle | TaDual

record server_config =
  cfg_hmac_key :: "bytes option"
  cfg_max_sessions :: nat
  cfg_max_packet_length :: nat
  cfg_min_send_interval :: duration
  cfg_burst_allowance :: u32
  cfg_idle_timeout :: duration
  cfg_max_test_duration :: "duration option"
  cfg_timestamp_allowance :: timestamp_allowance
  cfg_dscp_allowed :: bool

definition DEFAULT_MAX_SESSIONS :: nat where "DEFAULT_MAX_SESSIONS = 1024"
definition DEFAULT_MAX_PACKET_LENGTH :: nat where "DEFAULT_MAX_PACKET_LENGTH = 65507"
definition DEFAULT_MIN_SEND_INTERVAL :: duration where "DEFAULT_MIN_SEND_INTERVAL = 10 * 1000000"
definition DEFAULT_BURST_ALLOWANCE :: u32 where "DEFAULT_BURST_ALLOWANCE = 5"
definition DEFAULT_IDLE_TIMEOUT :: duration where "DEFAULT_IDLE_TIMEOUT = 60 * 1000000000"

definition config_default :: server_config where
  "config_default =
     \<lparr>cfg_hmac_key = None, cfg_max_sessions = DEFAULT_MAX_SESSIONS,
      cfg_max_packet_length = DEFAULT_MAX_PACKET_LENGTH,
      cfg_min_send_interval = DEFAULT_MIN_SEND_INTERVAL,
      cfg_burst_allowance = DEFAULT_BURST_ALLOWANCE, cfg_idle_timeout = DEFAULT_IDLE_TIMEOUT,
      cfg_max_test_duration = None, cfg_timestamp_allowance = TaDual, cfg_dscp_allowed = True\<rparr>"

definition with_hmac_key :: "bytes \<Rightarrow> server_config \<Rightarrow> server_config" where
  "with_hmac_key key c = c\<lparr>cfg_hmac_key := Some key\<rparr>"

definition with_max_sessions :: "nat \<Rightarrow> server_config \<Rightarrow> server_config" where
  "with_max_sessions n c = c\<lparr>cfg_max_sessions := n\<rparr>"

definition with_max_packet_length :: "nat \<Rightarrow> server_config \<Rightarrow> server_config" where
  "with_max_packet_length n c = c\<lparr>cfg_max_packet_length := n\<rparr>"

definition with_min_send_interval :: "duration \<Rightarrow> server_config \<Rightarrow> server_config" where
  "with_min_send_interval d c = c\<lparr>cfg_min_send_interval := d\<rparr>"

definition with_burst_allowance :: "u32 \<Rightarrow> server_config \<Rightarrow> server_config" where
  "with_burst_allowance n c = c\<lparr>cfg_burst_allowance := n\<rparr>"

definition with_idle_timeout :: "duration \<Rightarrow> server_config \<Rightarrow> server_config" where
  "with_idle_timeout d c = c\<lparr>cfg_idle_timeout := d\<rparr>"

definition with_max_test_duration :: "duration \<Rightarrow> server_config \<Rightarrow> server_config" where
  "with_max_test_duration d c = c\<lparr>cfg_max_test_duration := if d \<noteq> 0 then Some d else None\<rparr>"

definition without_max_test_duration :: "server_config \<Rightarrow> server_config" where
  "without_max_test_duration c = c\<lparr>cfg_max_test_duration := None\<rparr>"

definition with_timestamp_allowance :: "timestamp_allowance \<Rightarrow> server_config \<Rightarrow> server_config" where
  "with_timestamp_allowance a c = c\<lparr>cfg_timestamp_allowance := a\<rparr>"

definition with_dscp_allowed :: "bool \<Rightarrow> server_config \<Rightarrow> server_config" where
  "with_dscp_allowed b c = c\<lparr>cfg_dscp_allowed := b\<rparr>"

text \<open>The configurations the private fields and the builders admit: a zero maximum is never
  stored.\<close>

inductive built_config :: "server_config \<Rightarrow> bool" where
  built_default: "built_config config_default"
| built_hmac: "built_config c \<Longrightarrow> built_config (with_hmac_key key c)"
| built_sessions: "built_config c \<Longrightarrow> built_config (with_max_sessions n c)"
| built_length: "built_config c \<Longrightarrow> built_config (with_max_packet_length n c)"
| built_interval: "built_config c \<Longrightarrow> built_config (with_min_send_interval d c)"
| built_burst: "built_config c \<Longrightarrow> built_config (with_burst_allowance b c)"
| built_idle: "built_config c \<Longrightarrow> built_config (with_idle_timeout d c)"
| built_duration: "built_config c \<Longrightarrow> built_config (with_max_test_duration d c)"
| built_no_duration: "built_config c \<Longrightarrow> built_config (without_max_test_duration c)"
| built_allowance: "built_config c \<Longrightarrow> built_config (with_timestamp_allowance a c)"
| built_dscp: "built_config c \<Longrightarrow> built_config (with_dscp_allowed d c)"

definition config_ok :: "server_config \<Rightarrow> bool" where
  "config_ok c \<longleftrightarrow> cfg_max_test_duration c \<noteq> Some 0"

lemma built_config_ok: "built_config c \<Longrightarrow> config_ok c"
  by (induction rule: built_config.induct)
     (simp_all add: config_ok_def config_default_def with_hmac_key_def with_max_sessions_def
        with_max_packet_length_def with_min_send_interval_def with_burst_allowance_def
        with_idle_timeout_def with_max_test_duration_def without_max_test_duration_def
        with_timestamp_allowance_def with_dscp_allowed_def)

section \<open>Negotiation (\<open>negotiate.rs\<close>)\<close>

fun restrict_stamp_at :: "stamp_at \<Rightarrow> timestamp_allowance \<Rightarrow> stamp_at" where
  "restrict_stamp_at requested TaDual = requested"
| "restrict_stamp_at requested TaSingle = (case requested of StBoth \<Rightarrow> StMidpoint | other \<Rightarrow> other)"
| "restrict_stamp_at requested TaNone = StNone"

definition negotiate_params :: "params \<Rightarrow> server_config \<Rightarrow> params" where
  "negotiate_params requested config =
     (let requested = requested\<lparr>protocol_version := PROTOCOL_VERSION\<rparr>;
          max_length = (if int (cfg_max_packet_length config) \<le> i64_max
                        then word_of_int (int (cfg_max_packet_length config))
                        else word_of_int i64_max);
          requested = requested\<lparr>length_param :=
            (if sint (length_param requested) > sint max_length then max_length
             else length_param requested)\<rparr>;
          requested = requested\<lparr>duration_ns :=
            (case cfg_max_test_duration config of
               Some maximum \<Rightarrow>
                 let maximum = saturating_ns maximum
                 in if duration_ns requested = 0 \<or> sint (duration_ns requested) > sint maximum
                    then maximum else duration_ns requested
             | None \<Rightarrow> duration_ns requested)\<rparr>;
          minimum = saturating_ns (cfg_min_send_interval config);
          requested = requested\<lparr>interval_ns :=
            (if sint (interval_ns requested) < sint minimum then minimum else interval_ns requested)\<rparr>;
          idle_cap = saturating_ns (cfg_idle_timeout config div 4);
          requested = requested\<lparr>interval_ns :=
            (if sint idle_cap > 0 \<and> sint (interval_ns requested) > sint idle_cap then idle_cap
             else interval_ns requested)\<rparr>;
          requested = requested\<lparr>stamp_at :=
            restrict_stamp_at (stamp_at requested) (cfg_timestamp_allowance config)\<rparr>
      in requested\<lparr>dscp := (if \<not> cfg_dscp_allowed config then 0 else dscp requested)\<rparr>)"

section \<open>Lemmas\<close>

text \<open>Each field of the result, in closed form.\<close>

lemma negotiate_fields:
  "protocol_version (negotiate_params p c) = PROTOCOL_VERSION"
  "received_stats (negotiate_params p c) = received_stats p"
  "stamp_at (negotiate_params p c) = restrict_stamp_at (stamp_at p) (cfg_timestamp_allowance c)"
  "clock (negotiate_params p c) = clock p"
  "dscp (negotiate_params p c) = (if cfg_dscp_allowed c then dscp p else 0)"
  "server_fill (negotiate_params p c) = server_fill p"
  by (simp_all add: negotiate_params_def Let_def)

lemma negotiate_length:
  "sint (length_param (negotiate_params p c)) =
     min (sint (length_param p)) (min (int (cfg_max_packet_length c)) i64_max)"
proof -
  have "length_param (negotiate_params p c) =
      (if sint (length_param p) > sint (saturating_ns (cfg_max_packet_length c))
       then saturating_ns (cfg_max_packet_length c) else length_param p)"
    by (simp add: negotiate_params_def Let_def saturating_ns_def)
  then show ?thesis by (simp add: min_def)
qed

lemma negotiate_duration:
  "sint (duration_ns (negotiate_params p c)) =
     (case cfg_max_test_duration c of
        None \<Rightarrow> sint (duration_ns p)
      | Some m \<Rightarrow> if duration_ns p = 0 then min (int m) i64_max
                  else min (sint (duration_ns p)) (min (int m) i64_max))"
  by (auto simp: negotiate_params_def Let_def not_less min_absorb1 min_absorb2 less_imp_le
      split: option.splits)

lemma negotiate_interval:
  "sint (interval_ns (negotiate_params p c)) =
     (let floored = max (sint (interval_ns p)) (min (int (cfg_min_send_interval c)) i64_max);
          cap = min (int (cfg_idle_timeout c div 4)) i64_max
      in if 0 < cap then min floored cap else floored)"
  by (simp add: negotiate_params_def Let_def if_distrib [of sint] split del: if_split)
     (auto simp: min_def max_def)

lemma restrict_stamp_at_idem:
  "restrict_stamp_at (restrict_stamp_at s a) a = restrict_stamp_at s a"
  by (cases a; cases s) simp_all

lemma sint_eq_iff_word: "sint (a :: i64) = sint b \<longleftrightarrow> a = b"
  by (metis sat_i64_sint)

lemma negotiate_idempotent:
  assumes "config_ok c"
  shows "negotiate_params (negotiate_params p c) c = negotiate_params p c"
proof -
  define q where "q = negotiate_params p c"
  have l: "length_param (negotiate_params q c) = length_param q"
    by (simp add: sint_eq_iff_word [symmetric] negotiate_length q_def)
  have i: "interval_ns (negotiate_params q c) = interval_ns q"
    unfolding sint_eq_iff_word [symmetric] negotiate_interval q_def Let_def
    by (auto simp: min_def max_def)
  have d: "duration_ns (negotiate_params q c) = duration_ns q"
  proof (cases "cfg_max_test_duration c")
    case (Some m)
    have "duration_ns q \<noteq> 0"
      if "duration_ns p = 0"
      using that Some assms negotiate_duration [of p c]
      by (auto simp: q_def config_ok_def i64_max_def min_def split: if_splits)
    moreover have "duration_ns q \<noteq> 0" if "duration_ns p \<noteq> 0"
      using that Some assms negotiate_duration [of p c]
      by (auto simp: q_def config_ok_def i64_max_def min_def sint_eq_iff_word [symmetric] split: if_splits)
    ultimately have "duration_ns q \<noteq> 0" by blast
    then show ?thesis
      using Some negotiate_duration [of p c]
      by (auto simp: sint_eq_iff_word [symmetric] negotiate_duration [of q c] q_def [symmetric])
  qed (simp add: sint_eq_iff_word [symmetric] negotiate_duration)
  show ?thesis
    unfolding q_def [symmetric]
    by (rule params.equality)
       (use l i d in \<open>simp_all add: negotiate_fields q_def restrict_stamp_at_idem\<close>)
qed

lemma negotiate_wf_params: "wf_params (negotiate_params p c) = wf_params p"
  by (simp add: wf_params_def negotiate_fields)

section \<open>Properties\<close>

text \<open>What negotiation grants. The version is the server's; a positive length, the duration
  and the DSCP value are only ever reduced to the configured limits; a continuous request gets
  the configured maximum; the interval respects the floor unless the idle cap, which always
  holds when there is one, is lower; negative and zero lengths pass unchanged.\<close>

theorem negotiation_bounds:
  "protocol_version (negotiate_params p c) = PROTOCOL_VERSION \<and>
   sint (length_param (negotiate_params p c)) = min (sint (length_param p)) (min (int (cfg_max_packet_length c)) i64_max) \<and>
   sint (duration_ns (negotiate_params p c)) =
     (case cfg_max_test_duration c of
        None \<Rightarrow> sint (duration_ns p)
      | Some m \<Rightarrow> if duration_ns p = 0 then min (int m) i64_max
                  else min (sint (duration_ns p)) (min (int m) i64_max)) \<and>
   (let q = negotiate_params p c; cap = int (cfg_idle_timeout c div 4)
    in (0 < cap \<longrightarrow> sint (interval_ns q) \<le> cap) \<and>
       (min (int (cfg_min_send_interval c)) i64_max \<le> sint (interval_ns q) \<or> sint (interval_ns q) = cap) \<and>
       (dscp q = dscp p \<or> dscp q = 0 \<and> \<not> cfg_dscp_allowed c) \<and>
       clock q = clock p \<and> received_stats q = received_stats p \<and> server_fill q = server_fill p)"
proof -
  have "sint (interval_ns (negotiate_params p c)) \<le> int (cfg_idle_timeout c div 4)"
    if "0 < int (cfg_idle_timeout c div 4)"
    using that by (auto simp: negotiate_interval Let_def i64_max_def)
  moreover have "min (int (cfg_min_send_interval c)) i64_max \<le> sint (interval_ns (negotiate_params p c)) \<or>
      sint (interval_ns (negotiate_params p c)) = int (cfg_idle_timeout c div 4)"
    by (auto simp: negotiate_interval Let_def min_def max_def)
  ultimately show ?thesis
    by (simp add: negotiate_fields negotiate_length negotiate_duration Let_def)
qed

theorem negotiation_bounds_witness:
  "sint (interval_ns (negotiate_params (params_default\<lparr>interval_ns := 1, length_param := - 7\<rparr>) config_default))
     \<le> int (cfg_idle_timeout config_default div 4) \<and>
   sint (length_param (negotiate_params (params_default\<lparr>interval_ns := 1, length_param := - 7\<rparr>) config_default)) = - 7"
  using negotiation_bounds [of "params_default\<lparr>interval_ns := 1, length_param := - 7\<rparr>" config_default]
  by (simp add: Let_def params_default_def config_default_def DEFAULT_MAX_PACKET_LENGTH_def
      DEFAULT_IDLE_TIMEOUT_def i64_max_def)

text \<open>Negotiation is idempotent for every configuration the builders can produce: asking
  again for what was granted changes nothing.\<close>

theorem negotiation_idempotent:
  assumes "built_config c"
  shows "negotiate_params (negotiate_params p c) c = negotiate_params p c"
  by (rule negotiate_idempotent [OF built_config_ok [OF assms]])

theorem negotiation_idempotent_witness:
  "negotiate_params (negotiate_params params_default (with_max_test_duration 5 config_default))
     (with_max_test_duration 5 config_default) =
   negotiate_params params_default (with_max_test_duration 5 config_default)"
  by (rule negotiation_idempotent) (intro built_duration built_default)

end
