(* ===== verification/Fill.thy ===== *)
theory Fill
  imports Layout Server_Config
begin

unbundle bit_operations_syntax

text \<open>
  \<open>irtt-server/src/fill.rs\<close>: the meaning of a server-fill descriptor and the payload it puts
  in a reply. Descriptors are byte strings. The operating system's random source is the
  parameter of \<open>random_payload\<close>: a draw for a buffer of a given length fails, or gives the
  byte to write at each index.
\<close>

type_synonym random_source = "nat \<Rightarrow> (nat \<Rightarrow> u8) option"

section \<open>Model\<close>

text \<open>\<open>irtt\<close>, \<open>pattern:69727474\<close>, \<open>pattern:\<close>, \<open>none\<close> and \<open>rand\<close> in ASCII.\<close>

definition DEFAULT_FILL_PATTERN :: bytes where
  "DEFAULT_FILL_PATTERN = [0x69, 0x72, 0x74, 0x74]"

definition PATTERN_PREFIX :: bytes where
  "PATTERN_PREFIX = [0x70, 0x61, 0x74, 0x74, 0x65, 0x72, 0x6e, 0x3a]"

definition DEFAULT_FILL_DESCRIPTOR :: bytes where
  "DEFAULT_FILL_DESCRIPTOR =
     [0x70, 0x61, 0x74, 0x74, 0x65, 0x72, 0x6e, 0x3a,
      0x36, 0x39, 0x37, 0x32, 0x37, 0x34, 0x37, 0x34]"

datatype fill_mode = FillNone | FillRandom | FillPattern bytes

definition default_fill :: fill_mode where
  "default_fill = FillPattern DEFAULT_FILL_PATTERN"

definition hex_digit :: "u8 \<Rightarrow> u8 option" where
  "hex_digit digit =
     (if 0x30 \<le> digit \<and> digit \<le> 0x39 then Some (digit - 0x30)
      else if 0x61 \<le> digit \<and> digit \<le> 0x66 then Some (digit - 0x61 + 10)
      else if 0x41 \<le> digit \<and> digit \<le> 0x46 then Some (digit - 0x41 + 10)
      else None)"

text \<open>The mapped two-byte chunks, collected into an option; a trailing odd byte is the
  remainder \<open>as_chunks\<close> drops.\<close>

fun parse_hex_pairs :: "bytes \<Rightarrow> bytes option" where
  "parse_hex_pairs (a # b # rest) =
     (case hex_digit a of None \<Rightarrow> None | Some hi \<Rightarrow>
      case hex_digit b of None \<Rightarrow> None | Some lo \<Rightarrow>
      case parse_hex_pairs rest of None \<Rightarrow> None | Some bs \<Rightarrow>
        Some ((push_bit 4 hi OR lo) # bs))"
| "parse_hex_pairs _ = Some []"

definition parse_hex_pattern :: "bytes \<Rightarrow> bytes option" where
  "parse_hex_pattern digits =
     (if digits = [] \<or> length digits mod 2 \<noteq> 0 then None else parse_hex_pairs digits)"

definition strip_prefix :: "bytes \<Rightarrow> bytes \<Rightarrow> bytes option" where
  "strip_prefix pre s = (if take (length pre) s = pre then Some (drop (length pre) s) else None)"

definition parse_fill :: "bytes \<Rightarrow> fill_mode option" where
  "parse_fill descriptor =
     (if descriptor = [0x6e, 0x6f, 0x6e, 0x65] then Some FillNone
      else if descriptor = [0x72, 0x61, 0x6e, 0x64] then Some FillRandom
      else case strip_prefix PATTERN_PREFIX descriptor of
             None \<Rightarrow> None
           | Some body \<Rightarrow> map_option FillPattern (parse_hex_pattern body))"

definition random_payload :: "random_source \<Rightarrow> nat \<Rightarrow> bytes" where
  "random_payload rnd len =
     (if len > 0 then (case rnd len of Some f \<Rightarrow> map f [0..<len] | None \<Rightarrow> replicate len 0)
      else replicate len 0)"

text \<open>\<open>pattern.iter().copied().cycle().take(len)\<close>; cycling an empty iterator yields nothing.\<close>

definition cycle_take :: "bytes \<Rightarrow> nat \<Rightarrow> bytes" where
  "cycle_take pattern len =
     (if pattern = [] then [] else map (\<lambda>i. pattern ! (i mod length pattern)) [0..<len])"

fun payload :: "fill_mode \<Rightarrow> random_source \<Rightarrow> nat \<Rightarrow> bytes" where
  "payload FillNone rnd len = []"
| "payload FillRandom rnd len = random_payload rnd len"
| "payload (FillPattern pattern) rnd len = cycle_take pattern len"

definition negotiate_server_fill :: "params \<Rightarrow> params \<times> fill_mode" where
  "negotiate_server_fill p =
     (case server_fill p of
        None \<Rightarrow> (p, default_fill)
      | Some requested \<Rightarrow>
          if requested = [] then (p, default_fill)
          else (case parse_fill requested of
                  Some mode \<Rightarrow> (p, mode)
                | None \<Rightarrow> (p\<lparr>server_fill := Some DEFAULT_FILL_DESCRIPTOR\<rparr>, default_fill)))"

definition echo_payload_len :: "bool \<Rightarrow> params \<Rightarrow> nat" where
  "echo_payload_len hmac p =
     (let hlen = header_len (echo_layout hmac p)
      in case echo_packet_len hmac p of Ok len \<Rightarrow> len - hlen | Err _ \<Rightarrow> 0)"

section \<open>Lemmas\<close>

fun fill_ok :: "fill_mode \<Rightarrow> bool" where
  "fill_ok (FillPattern pattern) \<longleftrightarrow> pattern \<noteq> []"
| "fill_ok _ = True"

lemma length_payload_le: "length (payload m rnd len) \<le> len"
  by (cases m) (simp_all add: random_payload_def cycle_take_def split: option.splits)

lemma length_payload_eq: "fill_ok m \<Longrightarrow> m \<noteq> FillNone \<Longrightarrow> length (payload m rnd len) = len"
  by (cases m) (simp_all add: random_payload_def cycle_take_def split: option.splits)

lemma parse_hex_pattern_nonempty: "parse_hex_pattern digits = Some bs \<Longrightarrow> bs \<noteq> []"
  by (cases digits rule: parse_hex_pairs.cases)
     (auto simp: parse_hex_pattern_def split: if_splits option.splits)

lemma parse_fill_ok: "parse_fill d = Some m \<Longrightarrow> fill_ok m"
  by (auto simp: parse_fill_def dest: parse_hex_pattern_nonempty split: if_splits option.splits)

lemma negotiate_server_fill_ok: "negotiate_server_fill p = (q, m) \<Longrightarrow> fill_ok m"
  by (auto simp: negotiate_server_fill_def default_fill_def DEFAULT_FILL_PATTERN_def
      dest: parse_fill_ok split: option.splits if_splits)

lemma negotiate_server_fill_params:
  "negotiate_server_fill p = (q, m) \<Longrightarrow> q = p\<lparr>server_fill := server_fill q\<rparr>"
  by (auto simp: negotiate_server_fill_def split: option.splits if_splits)

lemma parse_default_descriptor: "parse_fill DEFAULT_FILL_DESCRIPTOR = Some default_fill"
  by (simp add: parse_fill_def DEFAULT_FILL_DESCRIPTOR_def strip_prefix_def PATTERN_PREFIX_def
      parse_hex_pattern_def hex_digit_def default_fill_def DEFAULT_FILL_PATTERN_def)

lemma utf8_default_descriptor:
  "utf8_valid DEFAULT_FILL_DESCRIPTOR \<and> length DEFAULT_FILL_DESCRIPTOR \<le> MAX_SERVER_FILL_BYTES"
  by (simp add: DEFAULT_FILL_DESCRIPTOR_def MAX_SERVER_FILL_BYTES_def)

lemma negotiate_server_fill_wf:
  "negotiate_server_fill p = (q, m) \<Longrightarrow> wf_params p \<Longrightarrow> wf_params q"
  using utf8_default_descriptor
  by (auto simp: negotiate_server_fill_def wf_params_def split: option.splits if_splits)

lemma echo_payload_len_room: "echo_payload_len h p = nat (sint (length_param p)) - echo_header_len h p"
  by (simp add: echo_payload_len_def echo_packet_len_eq echo_header_len_def [symmetric] Let_def)

section \<open>Hexadecimal patterns\<close>

text \<open>Reference printer: two lower-case digits per byte. Parsing inverts it, so every byte
  string up to the descriptor's size can be asked for.\<close>

definition hex_char :: "u8 \<Rightarrow> u8" where
  "hex_char n = (if n < 10 then 0x30 + n else 0x61 + (n - 10))"

definition hex_print :: "bytes \<Rightarrow> bytes" where
  "hex_print bs = concat (map (\<lambda>b. [hex_char (drop_bit 4 b), hex_char (b AND 0x0F)]) bs)"

lemma hex_digit_char_nat: "list_all (\<lambda>k. hex_digit (hex_char (of_nat k)) = Some (of_nat k)) [0..<16]"
  by (simp add: hex_digit_def hex_char_def upt_rec)

lemma hex_digit_char: "unat n < 16 \<Longrightarrow> hex_digit (hex_char n) = Some n"
proof -
  assume "unat n < 16"
  then have "hex_digit (hex_char (of_nat (unat n))) = Some (of_nat (unat n))"
    using hex_digit_char_nat unfolding list_all_iff by (metis atLeastLessThan_iff le0 set_upt)
  then show ?thesis by simp
qed

lemma hi_lo_bytes:
  "unat (drop_bit 4 b) < 16" "unat (b AND 0x0F) < 16" "push_bit 4 (drop_bit 4 b) OR (b AND 0x0F) = (b :: u8)"
proof -
  have m: "(0x0F :: u8) = mask 4" by (simp add: mask_eq_exp_minus_1)
  have lo: "b AND 0x0F = take_bit 4 b" unfolding m by (rule take_bit_eq_mask [symmetric])
  have "unat b < 2 ^ LENGTH(8)" by (rule unsigned_less)
  then show "unat (drop_bit 4 b) < 16"
    by (simp only: unat_drop_bit_eq drop_bit_nat_def) simp
  show "unat (b AND 0x0F) < 16"
    unfolding lo by (simp only: unsigned_take_bit_eq take_bit_nat_def) simp
  show "push_bit 4 (drop_bit 4 b) OR (b AND 0x0F) = b"
    unfolding lo
    by (rule bit_word_eqI) (auto simp: bit_or_iff bit_push_bit_iff bit_drop_bit_eq bit_take_bit_iff)
qed

lemma parse_hex_print: "parse_hex_pairs (hex_print bs) = Some bs"
  by (induction bs) (simp_all add: hex_print_def hex_digit_char hi_lo_bytes)

lemma length_hex_print: "length (hex_print bs) = 2 * length bs"
  by (induction bs) (simp_all add: hex_print_def)

lemma parse_pattern_descriptor:
  "bs \<noteq> [] \<Longrightarrow> parse_fill (PATTERN_PREFIX @ hex_print bs) = Some (FillPattern bs)"
proof -
  assume bs: "bs \<noteq> []"
  then have "hex_print bs \<noteq> []" using length_hex_print [of bs] by (cases bs) auto
  then have "parse_hex_pattern (hex_print bs) = Some bs"
    by (simp add: parse_hex_pattern_def parse_hex_print length_hex_print)
  then show ?thesis
    by (simp add: parse_fill_def strip_prefix_def PATTERN_PREFIX_def)
qed

section \<open>Properties\<close>

text \<open>The descriptor a client reads back always describes the fill it gets. An absent or
  empty one stays as it is and means the default; any other names the session's mode; it is
  rewritten only when the request could not be parsed. A non-\<open>none\<close> mode fills the whole
  region, and no mode overruns it.\<close>

theorem fill_negotiation_honest:
  assumes "negotiate_server_fill p = (q, m)"
  shows "q = p\<lparr>server_fill := server_fill q\<rparr> \<and>
     (case server_fill q of
        None \<Rightarrow> server_fill p = None \<and> m = default_fill
      | Some [] \<Rightarrow> server_fill p = Some [] \<and> m = default_fill
      | Some d \<Rightarrow> parse_fill d = Some m) \<and>
     (server_fill q = server_fill p \<or>
      Option.bind (server_fill p) parse_fill = None \<and> server_fill q = Some DEFAULT_FILL_DESCRIPTOR) \<and>
     length (payload m rnd len) = (if m = FillNone then 0 else len)"
proof -
  have "length (payload m rnd len) = (if m = FillNone then 0 else len)"
    using length_payload_eq [OF negotiate_server_fill_ok [OF assms]] by auto
  moreover have "DEFAULT_FILL_DESCRIPTOR \<noteq> []" by (simp add: DEFAULT_FILL_DESCRIPTOR_def)
  ultimately show ?thesis
    using assms parse_default_descriptor
    by (auto simp: negotiate_server_fill_def split: option.splits if_splits list.splits)
qed

theorem fill_negotiation_honest_witness:
  "let p = params_default\<lparr>server_fill := Some [0x58]\<rparr>;
       q = params_default\<lparr>server_fill := Some DEFAULT_FILL_DESCRIPTOR\<rparr>
   in Option.bind (server_fill p) parse_fill = None \<and>
      length (payload default_fill (\<lambda>_. None) 6) = (if default_fill = FillNone then 0 else 6)"
proof -
  have "negotiate_server_fill (params_default\<lparr>server_fill := Some [0x58]\<rparr>) =
      (params_default\<lparr>server_fill := Some DEFAULT_FILL_DESCRIPTOR\<rparr>, default_fill)" by code_simp
  from fill_negotiation_honest [OF this, of "\<lambda>_. None" 6] show ?thesis
    by (simp add: DEFAULT_FILL_DESCRIPTOR_def)
qed

text \<open>Every non-empty byte pattern can be asked for: the descriptor made of the prefix and
  its hexadecimal digits parses to exactly those bytes, and the payload repeats them from the
  first byte.\<close>

theorem pattern_descriptor_roundtrip:
  assumes "bs \<noteq> []"
  shows "parse_fill (PATTERN_PREFIX @ hex_print bs) = Some (FillPattern bs) \<and>
     (i < len \<longrightarrow> payload (FillPattern bs) rnd len ! i = bs ! (i mod length bs))"
  using parse_pattern_descriptor [OF assms] assms by (simp add: cycle_take_def)

theorem pattern_descriptor_roundtrip_witness:
  "parse_fill (PATTERN_PREFIX @ hex_print [0xAB, 0x07]) = Some (FillPattern [0xAB, 0x07]) \<and>
   payload (FillPattern [0xAB, 0x07]) (\<lambda>_. None) 5 ! 3 = [0xAB, 0x07] ! (3 mod length [0xAB :: u8, 0x07])"
  using pattern_descriptor_roundtrip [of "[0xAB, 0x07]" 3 5 "\<lambda>_. None"] by simp

end
