(* ===== verification/Session.thy ===== *)
theory Session
  imports Fill
begin

unbundle bit_operations_syntax

text \<open>
  \<open>irtt-server/src/session.rs\<close>: one session's receive statistics, its reply allowance and its
  lifetime. Monotonic instants are \<open>i64\<close> nanoseconds and every comparison is the signed one.
\<close>

section \<open>Receive state\<close>

record receive_state =
  rs_count :: u32
  rs_window :: u64
  rs_last_sequence :: "u32 option"

definition receive_default :: receive_state where
  "receive_default = \<lparr>rs_count = 0, rs_window = 0, rs_last_sequence = None\<rparr>"

definition accepted :: "receive_state \<Rightarrow> u32 \<Rightarrow> receive_state" where
  "accepted s sequence =
     (let window = (case rs_last_sequence s of
            None \<Rightarrow> 0x1
          | Some prev \<Rightarrow>
              let distance = unat (sequence - prev)
              in if distance = 0 then rs_window s OR 1
                 else if distance \<le> 63 then push_bit distance (rs_window s) OR 1
                 else 0x1)
      in \<lparr>rs_count = rs_count s + 1, rs_window = window, rs_last_sequence = Some sequence\<rparr>)"

section \<open>Reply allowance\<close>

record rate_state =
  rt_burst :: u32
  rt_interval_ns :: i64
  rt_allowance :: u32
  rt_refilled_at_ns :: i64

datatype rate_decision = Allowed rate_state | Limited rate_state

definition rate_new :: "server_config \<Rightarrow> params \<Rightarrow> i64 \<Rightarrow> rate_state" where
  "rate_new config p now_ns =
     (let configured = saturating_ns (cfg_min_send_interval config);
          interval = (if sint configured \<le> 0 \<or> sint (interval_ns p) \<le> 0 then configured
                      else min_i64 configured (interval_ns p))
      in \<lparr>rt_burst = cfg_burst_allowance config, rt_interval_ns = interval,
          rt_allowance = cfg_burst_allowance config, rt_refilled_at_ns = now_ns\<rparr>)"

definition saturating_add_u32 :: "u32 \<Rightarrow> u32 \<Rightarrow> u32" where
  "saturating_add_u32 a b = (if unat a + unat b < 2 ^ 32 then a + b else 0xFFFFFFFF)"

definition u32_of_i64_or_max :: "int \<Rightarrow> u32" where
  "u32_of_i64_or_max v = (if 0 \<le> v \<and> v < 2 ^ 32 then word_of_int v else 0xFFFFFFFF)"

definition replenish :: "rate_state \<Rightarrow> i64 \<Rightarrow> rate_state" where
  "replenish s now_ns =
     (if rt_allowance s \<ge> rt_burst s then s\<lparr>rt_allowance := rt_burst s, rt_refilled_at_ns := now_ns\<rparr>
      else
        let elapsed = saturating_sub_i64 now_ns (rt_refilled_at_ns s)
        in if sint elapsed < sint (rt_interval_ns s) then s
           else
             let gained = quot_trunc (sint elapsed) (sint (rt_interval_ns s));
                 allowance = min (saturating_add_u32 (rt_allowance s) (u32_of_i64_or_max gained))
                               (rt_burst s);
                 refilled = (if allowance = rt_burst s then now_ns
                             else saturating_add_i64 (rt_refilled_at_ns s)
                                    (saturating_mul_i64 (word_of_int gained) (rt_interval_ns s)))
             in s\<lparr>rt_refilled_at_ns := refilled, rt_allowance := allowance\<rparr>)"

definition charge :: "rate_state \<Rightarrow> i64 \<Rightarrow> rate_decision" where
  "charge s now_ns =
     (if rt_burst s = 0 then Limited s
      else if rt_interval_ns s = 0 then Allowed s
      else let s = replenish s now_ns
           in if rt_allowance s = 0 then Limited s
              else Allowed (s\<lparr>rt_allowance := rt_allowance s - 1\<rparr>))"

section \<open>Lifetime\<close>

definition MAX_DURATION_CLOSE_GRACE :: duration where
  "MAX_DURATION_CLOSE_GRACE = 2 * 1000000000"

record lifetime_state =
  lt_last_activity_ns :: i64
  lt_first_served_echo_ns :: "i64 option"

definition opened_at :: "i64 \<Rightarrow> lifetime_state" where
  "opened_at now_ns = \<lparr>lt_last_activity_ns = now_ns, lt_first_served_echo_ns = None\<rparr>"

definition lifetime_is_idle_expired :: "lifetime_state \<Rightarrow> i64 \<Rightarrow> i64 \<Rightarrow> bool" where
  "lifetime_is_idle_expired l now_ns idle_timeout_ns \<longleftrightarrow>
     sint (saturating_sub_i64 now_ns (lt_last_activity_ns l)) \<ge> sint idle_timeout_ns"

definition max_duration_reached :: "lifetime_state \<Rightarrow> i64 \<Rightarrow> i64 \<Rightarrow> bool" where
  "max_duration_reached l now_ns max_duration_ns =
     (case lt_first_served_echo_ns l of
        None \<Rightarrow> False
      | Some first \<Rightarrow>
          let deadline = saturating_add_i64 (saturating_add_i64 first max_duration_ns)
                           (saturating_ns MAX_DURATION_CLOSE_GRACE)
          in sint now_ns \<ge> sint deadline)"

definition refreshed :: "lifetime_state \<Rightarrow> i64 \<Rightarrow> lifetime_state" where
  "refreshed l now_ns = l\<lparr>lt_last_activity_ns := now_ns\<rparr>"

definition served :: "lifetime_state \<Rightarrow> i64 \<Rightarrow> lifetime_state" where
  "served l now_ns =
     l\<lparr>lt_last_activity_ns := now_ns,
       lt_first_served_echo_ns :=
         (case lt_first_served_echo_ns l of Some t \<Rightarrow> Some t | None \<Rightarrow> Some now_ns)\<rparr>"

section \<open>Sessions\<close>

record session =
  ss_peer :: socket_addr
  ss_params :: params
  ss_fill :: fill_mode
  ss_receive :: receive_state
  ss_rate :: rate_state
  ss_lifetime :: lifetime_state

definition session_new ::
  "socket_addr \<Rightarrow> params \<Rightarrow> fill_mode \<Rightarrow> server_config \<Rightarrow> i64 \<Rightarrow> session" where
  "session_new peer p fill config now_ns =
     \<lparr>ss_peer = peer, ss_params = p, ss_fill = fill, ss_receive = receive_default,
      ss_rate = rate_new config p now_ns, ss_lifetime = opened_at now_ns\<rparr>"

definition is_idle_expired :: "session \<Rightarrow> i64 \<Rightarrow> i64 \<Rightarrow> bool" where
  "is_idle_expired s now_ns idle_timeout_ns =
     lifetime_is_idle_expired (ss_lifetime s) now_ns idle_timeout_ns"

definition commit_receive_state :: "receive_state \<Rightarrow> session \<Rightarrow> session" where
  "commit_receive_state next s = s\<lparr>ss_receive := next\<rparr>"

definition commit_rate_state :: "rate_state \<Rightarrow> session \<Rightarrow> session" where
  "commit_rate_state next s = s\<lparr>ss_rate := next\<rparr>"

definition commit_lifetime_state :: "lifetime_state \<Rightarrow> session \<Rightarrow> session" where
  "commit_lifetime_state next s = s\<lparr>ss_lifetime := next\<rparr>"

section \<open>The received window\<close>

text \<open>Specification: with the accepted sequence numbers listed newest first, the forward
  displacements from each of them to the newest. The window is the set of displacements
  below 64.\<close>

fun displacements :: "u32 list \<Rightarrow> nat set" where
  "displacements [] = {}"
| "displacements [s] = {0}"
| "displacements (s # l # rest) = insert 0 ((\<lambda>d. unat (s - l) + d) ` displacements (l # rest))"

definition accept_all :: "u32 list \<Rightarrow> receive_state" where
  "accept_all newest_first = foldr (\<lambda>s st. accepted st s) newest_first receive_default"

lemma accept_all_simps [simp]:
  "accept_all [] = receive_default" "accept_all (s # rest) = accepted (accept_all rest) s"
  by (simp_all add: accept_all_def)

lemma accepted_fields [simp]:
  "rs_last_sequence (accepted st s) = Some s" "rs_count (accepted st s) = rs_count st + 1"
  by (simp_all add: accepted_def Let_def)

lemma bit_1_word: "bit (1 :: u64) k \<longleftrightarrow> k = 0"
  by (simp add: bit_1_iff)

lemma accepted_window_first:
  "rs_last_sequence st = None \<Longrightarrow> bit (rs_window (accepted st s)) k \<longleftrightarrow> k = 0"
  by (simp add: accepted_def Let_def bit_1_word)

lemma accepted_window_next:
  "rs_last_sequence st = Some l \<Longrightarrow> k < 64 \<Longrightarrow>
     bit (rs_window (accepted st s)) k \<longleftrightarrow>
       k = 0 \<or> unat (s - l) \<le> k \<and> bit (rs_window st) (k - unat (s - l))"
  by (cases "unat (s - l) = 0")
     (auto simp: accepted_def Let_def bit_1_word bit_or_iff bit_push_bit_iff)

lemma window_displacements:
  "k < 64 \<Longrightarrow> bit (rs_window (accept_all hist)) k \<longleftrightarrow> k \<in> displacements hist"
proof (induction hist arbitrary: k rule: displacements.induct)
  case 1
  show ?case by (simp add: receive_default_def)
next
  case (2 s)
  show ?case by (simp add: accepted_window_first receive_default_def)
next
  case (3 s l rest)
  have "rs_last_sequence (accept_all (l # rest)) = Some l" by simp
  then have "bit (rs_window (accept_all (s # l # rest))) k \<longleftrightarrow>
      k = 0 \<or> unat (s - l) \<le> k \<and> bit (rs_window (accept_all (l # rest))) (k - unat (s - l))"
    using accepted_window_next [of "accept_all (l # rest)" l k s] 3(2) by simp
  also have "\<dots> \<longleftrightarrow> k = 0 \<or> unat (s - l) \<le> k \<and> k - unat (s - l) \<in> displacements (l # rest)"
    using 3 by auto
  also have "\<dots> \<longleftrightarrow> k \<in> displacements (s # l # rest)"
    by (auto simp: image_iff intro!: bexI [of _ "k - unat (s - l)"])
  finally show ?case .
qed

text \<open>A displacement names a sequence number that was accepted.\<close>

lemma displacements_accepted: "k \<in> displacements (s # rest) \<Longrightarrow> s - of_nat k \<in> set (s # rest)"
proof (induction "s # rest" arbitrary: s rest k rule: displacements.induct)
  case (3 s l rest)
  show ?case
  proof (cases "k = 0")
    case False
    with 3(2) obtain d where d: "d \<in> displacements (l # rest)" "k = unat (s - l) + d" by auto
    then have "s - of_nat k = l - of_nat d" by simp
    with 3(1) [OF d(1)] show ?thesis by simp
  qed simp
qed simp

lemma accept_all_count: "rs_count (accept_all hist) = of_nat (length hist)"
  by (induction hist) (simp_all add: receive_default_def)

section \<open>The rate limiter\<close>

text \<open>Allowance never exceeds the burst, and with a positive interval the potential
  \<open>allowance * interval + (now - refilled)\<close> never grows: every reply pays one interval.\<close>

definition rate_ok :: "rate_state \<Rightarrow> bool" where
  "rate_ok s \<longleftrightarrow> rt_allowance s \<le> rt_burst s \<and> 0 \<le> sint (rt_interval_ns s)"

lemma rate_new_ok: "rate_ok (rate_new c p now)"
  using saturating_ns_nonneg [of "cfg_min_send_interval c"]
  by (auto simp: rate_ok_def rate_new_def Let_def min_i64_def)

lemma replenish_policy [simp]:
  "rt_burst (replenish s now) = rt_burst s" "rt_interval_ns (replenish s now) = rt_interval_ns s"
  by (simp_all add: replenish_def Let_def)

lemma replenish_le_burst: "rt_allowance s \<le> rt_burst s \<Longrightarrow> rt_allowance (replenish s now) \<le> rt_burst s"
  by (simp add: replenish_def Let_def)

lemma charge_policy:
  "charge s now = Allowed s' \<or> charge s now = Limited s' \<Longrightarrow>
     rt_burst s' = rt_burst s \<and> rt_interval_ns s' = rt_interval_ns s"
  by (auto simp: charge_def Let_def split: if_splits)

lemma unat_pred: "(a :: u32) \<noteq> 0 \<Longrightarrow> unat (a - 1) = unat a - 1"
  by (metis One_nat_def unat_minus_one)

lemma charge_ok:
  "charge s now = Allowed s' \<or> charge s now = Limited s' \<Longrightarrow> rate_ok s \<Longrightarrow> rate_ok s'"
  using replenish_le_burst [of s now]
  by (auto simp: charge_def Let_def rate_ok_def word_le_nat_alt unat_pred split: if_splits)

definition potential :: "rate_state \<Rightarrow> int \<Rightarrow> int" where
  "potential s now = int (unat (rt_allowance s)) * sint (rt_interval_ns s) + (now - sint (rt_refilled_at_ns s))"

lemma gained_bounds:
  assumes "0 < i" "r \<le> n" "in_i64 n" "in_i64 r" "in_i64 i" "clamp_i64 (n - r) \<ge> i"
  defines "g \<equiv> quot_trunc (clamp_i64 (n - r)) i"
  shows "1 \<le> g" "g * i \<le> n - r" "in_i64 g" "in_i64 (g * i)" "in_i64 (r + g * i)"
proof -
  define e where "e = clamp_i64 (n - r)"
  have e: "0 \<le> e" "e \<le> n - r" "e \<le> i64_max" "i \<le> e"
    using assms by (auto simp: e_def clamp_i64_def i64_max_def i64_min_def)
  have g: "g = e div i" using assms(1) e(1) by (simp add: g_def e_def [symmetric] quot_trunc_def sgn_if)
  have gi: "g * i \<le> e" using assms(1) by (simp add: g) (metis div_mult_mod_eq less_imp_le pos_mod_sign le_add_same_cancel1)
  show g1: "1 \<le> g" unfolding g using assms(1) e(4) by (simp add: pos_imp_zdiv_pos_iff int_one_le_iff_zero_less)
  show "g * i \<le> n - r" using gi e(2) by simp
  have "g * 1 \<le> g * i" using g1 assms(1) by (intro mult_left_mono) simp_all
  then have "g \<le> i64_max" using gi e(3) by linarith
  then show "in_i64 g" using g1 by (simp add: in_i64_def i64_min_def)
  have "0 \<le> g * i" using g1 assms(1) by simp
  then show "in_i64 (g * i)" using gi e(3) by (simp add: in_i64_def i64_min_def)
  show "in_i64 (r + g * i)" using \<open>0 \<le> g * i\<close> gi e(2) assms(3,4) by (simp add: in_i64_def)
qed

lemma u32_of_i64_or_max_le: "0 \<le> v \<Longrightarrow> int (unat (u32_of_i64_or_max v)) \<le> v"
proof (cases "v < 2 ^ 32")
  case True
  assume "0 \<le> v"
  then show ?thesis using True
    by (simp add: u32_of_i64_or_max_def unat_eq_nat_uint uint_word_of_int)
next
  case False
  then show ?thesis by (simp add: u32_of_i64_or_max_def)
qed

lemma u32_of_i64_or_max_pos: "1 \<le> v \<Longrightarrow> 1 \<le> unat (u32_of_i64_or_max v)"
proof (cases "v < 2 ^ 32")
  case True
  assume "1 \<le> v"
  then show ?thesis using True
    by (simp add: u32_of_i64_or_max_def unat_eq_nat_uint uint_word_of_int)
qed (simp add: u32_of_i64_or_max_def)

lemma unat_saturating_add_u32: "unat (saturating_add_u32 a b) = min (unat a + unat b) (2 ^ 32 - 1)"
proof (cases "unat a + unat b < 2 ^ 32")
  case True
  then show ?thesis by (simp add: saturating_add_u32_def unat_word_ariths)
next
  case False
  then show ?thesis by (simp add: saturating_add_u32_def)
qed

lemma unat_min_word: "unat (min a b) = min (unat a) (unat (b :: u32))"
  by (auto simp: min_def word_le_nat_alt)

lemma replenish_credit:
  assumes ok: "rate_ok s" and i: "0 < sint (rt_interval_ns s)"
    and r: "sint (rt_refilled_at_ns s) \<le> sint now"
  shows "potential (replenish s now) (sint now) \<le> potential s (sint now)"
    and "sint (rt_refilled_at_ns (replenish s now)) \<le> sint now"
proof -
  define n r0 iv where "n = sint now" and "r0 = sint (rt_refilled_at_ns s)" and "iv = sint (rt_interval_ns s)"
  note d = n_def [symmetric] r0_def [symmetric] iv_def [symmetric]
  consider (full) "rt_allowance s \<ge> rt_burst s"
    | (early) "\<not> rt_allowance s \<ge> rt_burst s" "clamp_i64 (n - r0) < iv"
    | (gain) "\<not> rt_allowance s \<ge> rt_burst s" "iv \<le> clamp_i64 (n - r0)"
    by linarith
  then have "potential (replenish s now) n \<le> potential s n \<and> sint (rt_refilled_at_ns (replenish s now)) \<le> n"
  proof cases
    case full
    with ok have "rt_allowance s = rt_burst s" by (simp add: rate_ok_def)
    with full r show ?thesis by (simp add: replenish_def potential_def n_def)
  next
    case early
    then show ?thesis using r by (simp add: replenish_def d potential_def del: linorder_not_le)
  next
    case gain
    define g where "g = quot_trunc (clamp_i64 (n - r0)) iv"
    define a where "a = min (saturating_add_u32 (rt_allowance s) (u32_of_i64_or_max g)) (rt_burst s)"
    have b: "1 \<le> g" "g * iv \<le> n - r0" "in_i64 g" "in_i64 (g * iv)" "in_i64 (r0 + g * iv)"
      using gained_bounds [of iv r0 n] i r gain(2) by (simp_all add: g_def n_def r0_def iv_def)
    have "unat a \<le> unat (rt_allowance s) + unat (u32_of_i64_or_max g)"
      by (simp add: a_def unat_min_word unat_saturating_add_u32)
    then have "int (unat a) \<le> int (unat (rt_allowance s)) + g"
      using u32_of_i64_or_max_le [of g] b(1) by linarith
    then have ai: "int (unat a) * iv \<le> int (unat (rt_allowance s)) * iv + g * iv"
      using mult_right_mono [of "int (unat a)" "int (unat (rt_allowance s)) + g" iv] i
      by (simp add: iv_def distrib_right)
    have rep: "replenish s now = s\<lparr>rt_refilled_at_ns :=
          (if a = rt_burst s then now
           else saturating_add_i64 (rt_refilled_at_ns s)
                  (saturating_mul_i64 (word_of_int g) (rt_interval_ns s))), rt_allowance := a\<rparr>"
      using gain by (simp add: replenish_def d Let_def g_def a_def)
    show ?thesis
      using ai b by (cases "a = rt_burst s") (simp_all add: rep potential_def d)
  qed
  then show "potential (replenish s now) (sint now) \<le> potential s (sint now)"
    "sint (rt_refilled_at_ns (replenish s now)) \<le> sint now" by (simp_all add: n_def)
qed

lemma charge_credit:
  assumes "rate_ok s" "0 < sint (rt_interval_ns s)" "sint (rt_refilled_at_ns s) \<le> sint now"
  shows "charge s now = Allowed s' \<Longrightarrow>
           potential s' (sint now) + sint (rt_interval_ns s) \<le> potential s (sint now) \<and>
           sint (rt_refilled_at_ns s') \<le> sint now"
    and "charge s now = Limited s' \<Longrightarrow>
           potential s' (sint now) \<le> potential s (sint now) \<and> sint (rt_refilled_at_ns s') \<le> sint now"
proof -
  note c = replenish_credit [OF assms]
  assume "charge s now = Allowed s'"
  moreover have "rt_interval_ns s \<noteq> 0" using assms(2) by auto
  ultimately have "rt_allowance (replenish s now) \<noteq> 0"
    "s' = (replenish s now)\<lparr>rt_allowance := rt_allowance (replenish s now) - 1\<rparr>"
    by (auto simp: charge_def Let_def split: if_splits)
  moreover from this(1) have "1 \<le> unat (rt_allowance (replenish s now))"
    by (simp add: unat_gt_0 Suc_le_eq)
  ultimately show "potential s' (sint now) + sint (rt_interval_ns s) \<le> potential s (sint now) \<and>
           sint (rt_refilled_at_ns s') \<le> sint now"
    using c by (simp add: potential_def unat_pred of_nat_diff algebra_simps)
next
  note c = replenish_credit [OF assms]
  assume "charge s now = Limited s'"
  then show "potential s' (sint now) \<le> potential s (sint now) \<and> sint (rt_refilled_at_ns s') \<le> sint now"
    using c assms(3) by (auto simp: charge_def Let_def split: if_splits)
qed

text \<open>The limiter over a sequence of arrivals: how many of them are answered.\<close>

fun answered :: "rate_state \<Rightarrow> i64 list \<Rightarrow> nat" where
  "answered s [] = 0"
| "answered s (t # ts) =
     (case charge s t of Allowed s' \<Rightarrow> Suc (answered s' ts) | Limited s' \<Rightarrow> answered s' ts)"

lemma potential_nonneg: "0 \<le> sint (rt_interval_ns s) \<Longrightarrow> sint (rt_refilled_at_ns s) \<le> now \<Longrightarrow> 0 \<le> potential s now"
  by (simp add: potential_def)

lemma potential_shift: "potential s t' = potential s t + (t' - t)"
  by (simp add: potential_def)

lemma answered_credit:
  "rate_ok s \<Longrightarrow> 0 < sint (rt_interval_ns s) \<Longrightarrow>
   sorted (map sint ts) \<Longrightarrow> list_all (\<lambda>t. sint (rt_refilled_at_ns s) \<le> sint t \<and> sint t \<le> limit) ts \<Longrightarrow>
   sint (rt_refilled_at_ns s) \<le> limit \<Longrightarrow>
     int (answered s ts) * sint (rt_interval_ns s) \<le> potential s limit"
proof (induction ts arbitrary: s)
  case Nil
  then show ?case by (simp add: potential_nonneg)
next
  case (Cons t ts)
  have r: "sint (rt_refilled_at_ns s) \<le> sint t" "sint t \<le> limit" using Cons.prems(4) by simp_all
  obtain s' where ch: "charge s t = Allowed s' \<or> charge s t = Limited s'"
    by (cases "charge s t") auto
  have pol: "rate_ok s'" "rt_interval_ns s' = rt_interval_ns s"
    using charge_ok [OF ch Cons.prems(1)] charge_policy [OF ch] by simp_all
  have cr: "sint (rt_refilled_at_ns s') \<le> sint t"
    using charge_credit [OF Cons.prems(1,2) r(1), of s'] ch by blast
  have all: "list_all (\<lambda>u. sint (rt_refilled_at_ns s') \<le> sint u \<and> sint u \<le> limit) ts"
    using cr Cons.prems(3,4) by (fastforce simp: list_all_iff)
  note IH = Cons.IH [OF pol(1) _ _ all, unfolded pol(2), OF Cons.prems(2)]
  from ch show ?case
  proof
    assume a: "charge s t = Allowed s'"
    with IH charge_credit(1) [OF Cons.prems(1,2) r(1) a] Cons.prems(3) cr r(2) show ?thesis
      using potential_shift [of s' limit "sint t"] potential_shift [of s limit "sint t"]
      by (simp add: distrib_right)
  next
    assume l: "charge s t = Limited s'"
    with IH charge_credit(2) [OF Cons.prems(1,2) r(1) l] Cons.prems(3) cr r(2) show ?thesis
      using potential_shift [of s' limit "sint t"] potential_shift [of s limit "sint t"]
      by simp
  qed
qed

text \<open>A client that leaves at least one interval between requests is never limited.\<close>

lemma charge_spaced:
  assumes "rate_ok s" "rt_burst s \<noteq> 0" "rt_interval_ns s \<noteq> 0"
    and "rt_allowance s \<noteq> 0 \<or> sint (rt_refilled_at_ns s) + sint (rt_interval_ns s) \<le> sint now"
  shows "\<exists>s'. charge s now = Allowed s'"
proof (cases "rt_allowance s \<ge> rt_burst s")
  case True
  then show ?thesis using assms(2,3) by (simp add: charge_def replenish_def)
next
  case False
  have i: "0 < sint (rt_interval_ns s)"
    using assms(1,3) sint_eq_iff_word [of "rt_interval_ns s" 0] by (auto simp: rate_ok_def order_le_less)
  define n r0 iv where "n = sint now" and "r0 = sint (rt_refilled_at_ns s)" and "iv = sint (rt_interval_ns s)"
  note d = n_def [symmetric] r0_def [symmetric] iv_def [symmetric]
  show ?thesis
  proof (cases "iv \<le> clamp_i64 (n - r0)")
    case gain: True
    then have "r0 \<le> n" using i by (auto simp: d clamp_i64_def i64_min_def i64_max_def split: if_splits)
    then have "1 \<le> quot_trunc (clamp_i64 (n - r0)) iv"
      using gained_bounds(1) [of iv r0 n] i gain by (simp add: n_def r0_def iv_def)
    then have "1 \<le> unat (min (saturating_add_u32 (rt_allowance s)
        (u32_of_i64_or_max (quot_trunc (clamp_i64 (n - r0)) iv))) (rt_burst s))"
      using u32_of_i64_or_max_pos assms(2)
      by (simp add: unat_min_word unat_saturating_add_u32 unat_gt_0 Suc_le_eq)
    then have "rt_allowance (replenish s now) \<noteq> 0"
      using False gain by (auto simp: replenish_def d Let_def)
    then show ?thesis using assms(2,3) by (simp add: charge_def Let_def)
  next
    case early: False
    then have same: "replenish s now = s" using False by (simp add: replenish_def d)
    have "in_i64 iv" by (simp add: iv_def)
    with early have "\<not> r0 + iv \<le> n" by (auto simp: clamp_i64_def in_i64_def i64_min_def i64_max_def)
    with assms(4) have "rt_allowance s \<noteq> 0" by (simp add: d)
    with same assms(2,3) show ?thesis by (simp add: charge_def Let_def)
  qed
qed

fun spaced :: "int \<Rightarrow> int \<Rightarrow> i64 list \<Rightarrow> bool" where
  "spaced gap prev [] = True"
| "spaced gap prev (t # ts) \<longleftrightarrow> prev + gap \<le> sint t \<and> spaced gap (sint t) ts"

lemma answered_spaced:
  "rate_ok s \<Longrightarrow> rt_burst s \<noteq> 0 \<Longrightarrow> 0 < sint (rt_interval_ns s) \<Longrightarrow>
   sint (rt_refilled_at_ns s) \<le> t0 \<Longrightarrow> spaced (sint (rt_interval_ns s)) t0 ts \<Longrightarrow>
     answered s ts = length ts"
proof (induction ts arbitrary: s t0)
  case (Cons t ts)
  have t: "sint (rt_refilled_at_ns s) + sint (rt_interval_ns s) \<le> sint t" using Cons.prems by simp
  then obtain s' where a: "charge s t = Allowed s'"
    using charge_spaced [of s t] Cons.prems by fastforce
  have r: "sint (rt_refilled_at_ns s) \<le> sint t" using t Cons.prems(3) by linarith
  have "answered s' ts = length ts"
    using Cons.IH [of s' "sint t"] charge_ok [of s t s'] charge_policy [of s t s'] a Cons.prems
      charge_credit(1) [OF Cons.prems(1,3) r a] by simp
  with a show ?case by simp
qed simp

section \<open>Lifetimes\<close>

lemma idle_expired_iff:
  "0 \<le> idle \<Longrightarrow> sint (lt_last_activity_ns l) \<le> sint now \<Longrightarrow> sint idle_w = min idle i64_max \<Longrightarrow>
     lifetime_is_idle_expired l now idle_w \<longleftrightarrow>
       min idle i64_max \<le> min (sint now - sint (lt_last_activity_ns l)) i64_max"
  by (auto simp: lifetime_is_idle_expired_def clamp_i64_def i64_min_def i64_max_def)

section \<open>Conforming clients\<close>

lemma spaced_mono: "spaced g t ts \<Longrightarrow> g' \<le> g \<Longrightarrow> spaced g' t ts"
  by (induction ts arbitrary: t) auto

lemma answered_unthrottled: "rt_burst s \<noteq> 0 \<Longrightarrow> rt_interval_ns s = 0 \<Longrightarrow> answered s ts = length ts"
  by (induction ts) (simp_all add: charge_def)

lemma rate_new_fields:
  "rt_burst (rate_new c p t) = cfg_burst_allowance c" "rt_allowance (rate_new c p t) = cfg_burst_allowance c"
  "rt_refilled_at_ns (rate_new c p t) = t"
  by (simp_all add: rate_new_def Let_def)

lemma rate_new_interval_le:
  "0 < sint (interval_ns p) \<Longrightarrow> sint (rt_interval_ns (rate_new c p t)) \<le> sint (interval_ns p)"
  using saturating_ns_nonneg [of "cfg_min_send_interval c"]
  by (auto simp: rate_new_def Let_def)

section \<open>Properties\<close>



text \<open>A late or far-ahead request resets the window: when the unsigned distance from the
  previous accepted sequence number is 64 or more, only the request itself is recorded.\<close>

theorem received_window_reset:
  assumes "64 \<le> unat (s - l)"
  shows "rs_window (accept_all (s # l # rest)) = 1"
  using assms by (simp add: accepted_def Let_def)

theorem received_window_reset_witness: "rs_window (accept_all [4, 5, 3]) = 1"
  by (rule received_window_reset) code_simp

text \<open>C18: the rate limiter's bound. However requests arrive, a session opened at \<open>t0\<close> is
  answered at most its burst plus one reply per elapsed refill interval.\<close>

theorem rate_limit_bound:
  assumes "0 < sint (rt_interval_ns (rate_new c p t0))" "sorted (map sint ts)"
    and "list_all (\<lambda>t. sint t0 \<le> sint t \<and> sint t \<le> limit) ts" "sint t0 \<le> limit"
  shows "int (answered (rate_new c p t0) ts) \<le>
     int (unat (cfg_burst_allowance c)) + (limit - sint t0) div sint (rt_interval_ns (rate_new c p t0))"
proof -
  define iv where "iv = sint (rt_interval_ns (rate_new c p t0))"
  have "int (answered (rate_new c p t0) ts) * iv \<le>
      int (unat (cfg_burst_allowance c)) * iv + (limit - sint t0)"
    using answered_credit [of "rate_new c p t0" ts limit] rate_new_ok [of c p t0] assms
    by (simp add: rate_new_fields potential_def iv_def)
  then have "(int (answered (rate_new c p t0) ts) - int (unat (cfg_burst_allowance c))) * iv \<le> limit - sint t0"
    by (simp add: left_diff_distrib)
  then have "int (answered (rate_new c p t0) ts) - int (unat (cfg_burst_allowance c)) \<le> (limit - sint t0) div iv"
    using assms(1) by (metis iv_def nonzero_mult_div_cancel_right zdiv_mono1 less_imp_neq)
  then show ?thesis by (simp add: iv_def)
qed

theorem rate_limit_bound_witness:
  "int (answered (rate_new config_default params_default 0) [1, 1, 2, 20000000]) \<le>
     int (unat (cfg_burst_allowance config_default)) +
     (20000000 - sint (0 :: i64)) div sint (rt_interval_ns (rate_new config_default params_default 0))"
  by (rule rate_limit_bound) code_simp+



text \<open>Lifetimes on a monotonic clock. Activity restarts the idle deadline, which is exact
  and inclusive; the maximum-duration deadline exists only after a served echo, is measured
  from the first one and later ones do not move it.\<close>

theorem lifetime_deadlines:
  assumes "0 \<le> sint t" "sint t \<le> sint now"
  shows "(lifetime_is_idle_expired (refreshed l t) now (saturating_ns idle) \<longleftrightarrow>
            min (int idle) i64_max \<le> sint now - sint t) \<and>
         (lifetime_is_idle_expired (served l t) now (saturating_ns idle) \<longleftrightarrow>
            min (int idle) i64_max \<le> sint now - sint t) \<and>
         \<not> max_duration_reached (refreshed (opened_at t') t) now (saturating_ns m) \<and>
         (max_duration_reached (served (served (opened_at t') t) t'') now (saturating_ns m) \<longleftrightarrow>
            min (sint t + int m + 2000000000) i64_max \<le> sint now)"
  using assms sint_i64_upper [of now] sint_i64_lower [of now]
  by (auto simp: lifetime_is_idle_expired_def refreshed_def served_def opened_at_def
      max_duration_reached_def MAX_DURATION_CLOSE_GRACE_def Let_def clamp_i64_def i64_min_def i64_max_def)

theorem lifetime_deadlines_witness:
  "lifetime_is_idle_expired (served (opened_at 0) 5) 12 (saturating_ns 7) \<and>
   max_duration_reached (served (served (opened_at 0) 5) 6) 2000000012 (saturating_ns 7)"
  using lifetime_deadlines [of 5 12 "opened_at 0" 7 0 7 6] lifetime_deadlines [of 5 2000000012 "opened_at 0" 7 0 7 6]
  by (simp add: i64_max_def)

end
