(* ===== verification/Server_Core.thy ===== *)
theory Server_Core
  imports Replies Session
begin

unbundle bit_operations_syntax

text \<open>
  \<open>irtt-server/src/core.rs\<close>: the datagram engine. What the core reads from its environment
  while it handles one datagram is the record \<open>core_inputs\<close>: the clock samples it takes, in
  order, the candidate tokens of the token source, in order, and the random source of a
  random fill. A handler returns the new core and the \<open>Result<Option<OutboundDatagram>>\<close>.
\<close>

section \<open>Model\<close>

datatype server_error =
    RandomSource string
  | TokenExhausted nat
  | ReplyEncoding proto_error

definition TOKEN_ATTEMPTS :: nat where
  "TOKEN_ATTEMPTS = 8"

record core_inputs =
  in_clock :: "nat \<Rightarrow> clock_sample"
  in_tokens :: "nat \<Rightarrow> server_error + u64"
  in_random :: random_source

record server_core =
  core_config :: server_config
  core_sessions :: "(u64, session) hash_table"

record outbound_datagram =
  out_bytes :: bytes
  out_traffic_class :: u8

type_synonym core_result = "server_core \<times> (server_error + outbound_datagram option)"

definition core_new :: "server_config \<Rightarrow> server_core" where
  "core_new config = \<lparr>core_config = config, core_sessions = []\<rparr>"

definition session_count :: "server_core \<Rightarrow> nat" where
  "session_count c = table_len (core_sessions c)"

definition unmarked :: "bytes \<Rightarrow> outbound_datagram" where
  "unmarked bs = \<lparr>out_bytes = bs, out_traffic_class = 0\<rparr>"

definition transport_traffic_class :: "params \<Rightarrow> u8" where
  "transport_traffic_class p =
     (if 0 \<le> sint (dscp p) \<and> sint (dscp p) \<le> 255 then word_of_int (sint (dscp p)) else 0)"

record echo_request =
  eq_token :: u64
  eq_sequence :: u32
  eq_datagram_len :: nat
  eq_received_at :: clock_sample
  eq_receive_wall_ns :: i64

datatype classified_kind = ClsOpen bool bytes | ClsClose u64 | ClsEcho echo_request

definition MAX_KERNEL_RX_LAG :: duration where
  "MAX_KERNEL_RX_LAG = 1000000000"

definition preferred_receive_wall_ns :: "system_time option \<Rightarrow> clock_sample \<Rightarrow> i64" where
  "preferred_receive_wall_ns kernel_rx_timestamp received_at =
     (let userspace_wall_ns = wall_ns received_at
      in case Option.bind kernel_rx_timestamp wall_ns_of of
           None \<Rightarrow> userspace_wall_ns
         | Some kernel_wall_ns \<Rightarrow>
             let lag_ns = sint userspace_wall_ns - sint kernel_wall_ns
             in if 0 \<le> lag_ns \<and> lag_ns \<le> sint (saturating_ns MAX_KERNEL_RX_LAG)
                then kernel_wall_ns else userspace_wall_ns)"

definition then_some :: "bool \<Rightarrow> 'a \<Rightarrow> 'a option" where
  "then_some b v = (if b then Some v else None)"

definition timestamp_fields_of :: "params \<Rightarrow> clock_sample \<Rightarrow> clock_sample \<Rightarrow> i64 \<Rightarrow> timestamp_fields" where
  "timestamp_fields_of p received sent receive_wall_ns =
     (let received = not_after received sent;
          receive_wall_ns = min_i64 receive_wall_ns (wall_ns sent);
          per_clock = (\<lambda>s. (then_some (has_wall (clock p)) (wall_ns s),
                            then_some (has_mono (clock p)) (mono_ns s)));
          arrival = (then_some (has_wall (clock p)) receive_wall_ns,
                     then_some (has_mono (clock p)) (mono_ns received));
          absent = (None, None);
          (recv, mid, send) = (case stamp_at p of
              StNone \<Rightarrow> (absent, absent, absent)
            | StReceive \<Rightarrow> (arrival, absent, absent)
            | StSend \<Rightarrow> (absent, absent, per_clock sent)
            | StBoth \<Rightarrow> (arrival, absent, per_clock sent)
            | StMidpoint \<Rightarrow> (absent, per_clock (midpoint received sent), absent))
      in \<lparr>ts_recv_wall = fst recv, ts_recv_mono = snd recv,
          ts_midpoint_wall = fst mid, ts_midpoint_mono = snd mid,
          ts_send_wall = fst send, ts_send_mono = snd send\<rparr>)"

fun same_endpoint :: "socket_addr \<Rightarrow> socket_addr \<Rightarrow> bool" where
  "same_endpoint (V6 ip port flow scope) (V6 ip' port' flow' scope') \<longleftrightarrow>
     ip = ip' \<and> port = port' \<and> scope = scope'"
| "same_endpoint s p \<longleftrightarrow> s = p"

definition open_params_are_admissible :: "decoded_params \<Rightarrow> bool" where
  "open_params_are_admissible d =
     (let admissible = (\<lambda>present value. \<not> present \<or> 0 < sint value)
      in admissible (has_duration_ns (dec_presence d)) (duration_ns (dec_params d))
         \<and> admissible (has_interval_ns (dec_presence d)) (interval_ns (dec_params d)))"

definition negotiated_params_are_admissible :: "params \<Rightarrow> server_config \<Rightarrow> bool" where
  "negotiated_params_are_admissible p config =
     (if stamp_at p \<noteq> StNone \<and> clock p = ClkUnspecified then False
      else case echo_packet_len (cfg_hmac_key config \<noteq> None) p of
             Ok len \<Rightarrow> len \<le> cfg_max_packet_length config
           | Err _ \<Rightarrow> False)"

definition release_expired_sessions :: "i64 \<Rightarrow> server_core \<Rightarrow> server_core" where
  "release_expired_sessions now_ns c =
     (let idle_timeout_ns = saturating_ns (cfg_idle_timeout (core_config c))
      in c\<lparr>core_sessions :=
           table_retain (\<lambda>_ s. \<not> is_idle_expired s now_ns idle_timeout_ns) (core_sessions c)\<rparr>)"

definition maintain :: "clock_sample \<Rightarrow> server_core \<Rightarrow> server_core" where
  "maintain now c = release_expired_sessions (mono_ns now) c"

text \<open>The first clock sample of an echo is taken here.\<close>

fun classify :: "core_inputs \<Rightarrow> decoded_request_kind \<Rightarrow> nat \<Rightarrow> system_time option \<Rightarrow> classified_kind" where
  "classify inp (KindOpen no_test encoded) len krx = ClsOpen no_test encoded"
| "classify inp (KindClose token) len krx = ClsClose token"
| "classify inp (KindEcho token sequence tail) len krx =
     (let received_at = in_clock inp 0
      in ClsEcho \<lparr>eq_token = token, eq_sequence = sequence, eq_datagram_len = len,
                  eq_received_at = received_at,
                  eq_receive_wall_ns = preferred_receive_wall_ns krx received_at\<rparr>)"

text \<open>\<open>for _ in 0..TOKEN_ATTEMPTS\<close>: \<open>attempt\<close> numbers the draws.\<close>

fun allocate_token_from :: "core_inputs \<Rightarrow> server_core \<Rightarrow> nat \<Rightarrow> nat \<Rightarrow> server_error + u64" where
  "allocate_token_from inp c attempt 0 = Err (TokenExhausted TOKEN_ATTEMPTS)"
| "allocate_token_from inp c attempt (Suc left) =
     bindr (in_tokens inp attempt) (\<lambda>token.
       if token \<noteq> 0 \<and> table_get (core_sessions c) token = None then Ok token
       else allocate_token_from inp c (Suc attempt) left)"

definition allocate_token :: "core_inputs \<Rightarrow> server_core \<Rightarrow> server_error + u64" where
  "allocate_token inp c = allocate_token_from inp c 0 TOKEN_ATTEMPTS"

definition encode_reply :: "mac_fun \<Rightarrow> server_core \<Rightarrow> open_reply \<Rightarrow> server_error + bytes" where
  "encode_reply mac c reply =
     map_err ReplyEncoding (encode_open_reply mac reply (cfg_hmac_key (core_config c)))"

definition handle_close :: "socket_addr \<Rightarrow> u64 \<Rightarrow> server_core \<Rightarrow> server_core" where
  "handle_close peer token c =
     (let owns_session = (case table_get (core_sessions c) token of
            None \<Rightarrow> False | Some s \<Rightarrow> same_endpoint (ss_peer s) peer)
      in if owns_session then c\<lparr>core_sessions := table_remove token (core_sessions c)\<rparr> else c)"

definition handle_open ::
  "mac_fun \<Rightarrow> core_inputs \<Rightarrow> socket_addr \<Rightarrow> bool \<Rightarrow> bytes \<Rightarrow> i64 \<Rightarrow> server_core \<Rightarrow> core_result" where
  "handle_open mac inp peer no_test encoded_params now_ns c =
     (case decode_with_presence encoded_params of
        Err _ \<Rightarrow> (c, Ok None)
      | Ok decoded \<Rightarrow>
          if \<not> open_params_are_admissible decoded then (c, Ok None)
          else
            let (p, fill) = negotiate_server_fill (negotiate_params (dec_params decoded) (core_config c))
            in if \<not> negotiated_params_are_admissible p (core_config c) then (c, Ok None)
               else if no_test then
                 (c, bindr (encode_reply mac c
                        \<lparr>or_flags = FLAG_OPEN OR FLAG_REPLY OR FLAG_CLOSE, or_token = 0, or_params = p\<rparr>)
                      (\<lambda>packet. Ok (Some (unmarked packet))))
               else if table_len (core_sessions c) \<ge> cfg_max_sessions (core_config c) then (c, Ok None)
               else case allocate_token inp c of
                      Err e \<Rightarrow> (c, Err e)
                    | Ok token \<Rightarrow>
                        (case encode_reply mac c
                               \<lparr>or_flags = FLAG_OPEN OR FLAG_REPLY, or_token = token, or_params = p\<rparr> of
                           Err e \<Rightarrow> (c, Err e)
                         | Ok packet \<Rightarrow>
                             (c\<lparr>core_sessions :=
                                  table_insert token (session_new peer p fill (core_config c) now_ns)
                                    (core_sessions c)\<rparr>,
                              Ok (Some (unmarked packet)))))"

text \<open>The reply an admitted and allowed echo is answered with, and whether it closes.\<close>

definition echo_closing :: "server_config \<Rightarrow> session \<Rightarrow> i64 \<Rightarrow> bool" where
  "echo_closing config s now_ns =
     (case cfg_max_test_duration config of
        None \<Rightarrow> False
      | Some maximum \<Rightarrow> max_duration_reached (ss_lifetime s) now_ns (saturating_ns maximum))"

definition build_echo_reply ::
  "core_inputs \<Rightarrow> server_config \<Rightarrow> session \<Rightarrow> echo_request \<Rightarrow> bool \<Rightarrow> receive_state \<Rightarrow> echo_reply" where
  "build_echo_reply inp config s request closing next =
     (let sent_at = in_clock inp 1;
          p = ss_params s;
          payload_len = echo_payload_len (cfg_hmac_key config \<noteq> None) p
      in \<lparr>er_flags = FLAG_REPLY OR (if closing then FLAG_CLOSE else 0),
          er_token = eq_token request, er_sequence = eq_sequence request,
          er_recv_count = then_some (has_count (received_stats p)) (rs_count next),
          er_recv_window = then_some (has_window (received_stats p)) (rs_window next),
          er_timestamps = timestamp_fields_of p (eq_received_at request) sent_at (eq_receive_wall_ns request),
          er_payload = payload (ss_fill s) (in_random inp) payload_len\<rparr>)"

definition handle_echo ::
  "mac_fun \<Rightarrow> core_inputs \<Rightarrow> socket_addr \<Rightarrow> echo_request \<Rightarrow> server_core \<Rightarrow> core_result" where
  "handle_echo mac inp peer request c =
     (if eq_datagram_len request > cfg_max_packet_length (core_config c) then (c, Ok None)
      else case table_get (core_sessions c) (eq_token request) of
        None \<Rightarrow> (c, Ok None)
      | Some s \<Rightarrow>
          if \<not> same_endpoint (ss_peer s) peer then (c, Ok None)
          else
            let now_ns = mono_ns (eq_received_at request)
            in case charge (ss_rate s) now_ns of
                 Limited next \<Rightarrow>
                   let s' = commit_lifetime_state (refreshed (ss_lifetime s) now_ns)
                              (commit_rate_state next s)
                   in (c\<lparr>core_sessions := table_insert (eq_token request) s' (core_sessions c)\<rparr>, Ok None)
               | Allowed next_rate \<Rightarrow>
                   let closing = echo_closing (core_config c) s now_ns;
                       next = accepted (ss_receive s) (eq_sequence request);
                       next_lifetime = served (ss_lifetime s) now_ns;
                       traffic_class = transport_traffic_class (ss_params s);
                       reply = build_echo_reply inp (core_config c) s request closing next
                   in case encode_echo_reply mac reply (ss_params s) (cfg_hmac_key (core_config c)) of
                        Err source \<Rightarrow> (c, Err (ReplyEncoding source))
                      | Ok packet \<Rightarrow>
                          (c\<lparr>core_sessions :=
                               (if closing then table_remove (eq_token request) (core_sessions c)
                                else table_insert (eq_token request)
                                       (commit_lifetime_state next_lifetime
                                         (commit_receive_state next (commit_rate_state next_rate s)))
                                       (core_sessions c))\<rparr>,
                           Ok (Some \<lparr>out_bytes = packet, out_traffic_class = traffic_class\<rparr>)))"

definition process ::
  "mac_fun \<Rightarrow> core_inputs \<Rightarrow> socket_addr \<Rightarrow> bytes \<Rightarrow> system_time option \<Rightarrow> server_core \<Rightarrow> core_result" where
  "process mac inp peer packet kernel_rx_timestamp c =
     (case decode_request packet of
        Err _ \<Rightarrow> (c, Ok None)
      | Ok request \<Rightarrow>
          let kind = classify inp (req_kind request) (length packet) kernel_rx_timestamp
          in if req_hmac_present request \<noteq> (cfg_hmac_key (core_config c) \<noteq> None) then (c, Ok None)
             else if (case cfg_hmac_key (core_config c) of
                        Some key \<Rightarrow> verify_packet_hmac mac key packet \<noteq> Ok ()
                      | None \<Rightarrow> False) then (c, Ok None)
             else
               let now_ns = (case kind of
                       ClsEcho echo \<Rightarrow> mono_ns (eq_received_at echo)
                     | _ \<Rightarrow> mono_ns (in_clock inp 0));
                   c = release_expired_sessions now_ns c
               in case kind of
                    ClsOpen no_test encoded \<Rightarrow> handle_open mac inp peer no_test encoded now_ns c
                  | ClsClose token \<Rightarrow> (handle_close peer token c, Ok None)
                  | ClsEcho echo \<Rightarrow> handle_echo mac inp peer echo c)"

definition handle_datagram ::
  "mac_fun \<Rightarrow> core_inputs \<Rightarrow> socket_addr \<Rightarrow> bytes \<Rightarrow> server_core \<Rightarrow> core_result" where
  "handle_datagram mac inp peer packet c = process mac inp peer packet None c"

definition handle_received_datagram ::
  "mac_fun \<Rightarrow> core_inputs \<Rightarrow> socket_addr \<Rightarrow> bytes \<Rightarrow> system_time option \<Rightarrow> server_core \<Rightarrow> core_result" where
  "handle_received_datagram mac inp peer packet kernel_rx_timestamp c =
     process mac inp peer packet kernel_rx_timestamp c"

section \<open>Admission\<close>

text \<open>The request a datagram carries, once it has passed the structural and authentication
  checks that precede every effect.\<close>

definition admitted :: "mac_fun \<Rightarrow> server_config \<Rightarrow> bytes \<Rightarrow> decoded_request option" where
  "admitted mac config packet =
     (case decode_request packet of
        Err _ \<Rightarrow> None
      | Ok request \<Rightarrow>
          if req_hmac_present request = (cfg_hmac_key config \<noteq> None) \<and>
             (\<forall>key \<in> set_option (cfg_hmac_key config). verify_packet_hmac mac key packet = Ok ())
          then Some request else None)"

text \<open>Every request's lifecycle instant is the first clock sample.\<close>

definition dispatch ::
  "mac_fun \<Rightarrow> core_inputs \<Rightarrow> socket_addr \<Rightarrow> decoded_request_kind \<Rightarrow> nat \<Rightarrow> system_time option \<Rightarrow>
     server_core \<Rightarrow> core_result" where
  "dispatch mac inp peer kind len krx c =
     (case classify inp kind len krx of
        ClsOpen no_test encoded \<Rightarrow> handle_open mac inp peer no_test encoded (mono_ns (in_clock inp 0)) c
      | ClsClose token \<Rightarrow> (handle_close peer token c, Ok None)
      | ClsEcho echo \<Rightarrow> handle_echo mac inp peer echo c)"

lemma process_rejected: "admitted mac (core_config c) packet = None \<Longrightarrow> process mac inp peer packet krx c = (c, Ok None)"
  by (auto simp: admitted_def process_def Let_def split: sum.splits option.splits if_splits)

lemma process_admitted:
  "admitted mac (core_config c) packet = Some r \<Longrightarrow>
     process mac inp peer packet krx c =
       dispatch mac inp peer (req_kind r) (length packet) krx
         (release_expired_sessions (mono_ns (in_clock inp 0)) c)"
  by (cases "req_kind r")
     (auto simp: admitted_def process_def dispatch_def Let_def split: sum.splits option.splits if_splits)

section \<open>Sweep\<close>

lemma sweep_config [simp]: "core_config (release_expired_sessions now c) = core_config c"
  by (simp add: release_expired_sessions_def Let_def)

lemma sweep_get:
  "table_wf (core_sessions c) \<Longrightarrow>
     table_get (core_sessions (release_expired_sessions now c)) t = Some s \<longleftrightarrow>
       table_get (core_sessions c) t = Some s \<and>
       \<not> is_idle_expired s now (saturating_ns (cfg_idle_timeout (core_config c)))"
  by (auto simp: release_expired_sessions_def Let_def tbl.get_retain split: option.splits)

section \<open>Replies encode\<close>

lemma then_some_None [simp]: "then_some b v = None \<longleftrightarrow> \<not> b"
  by (simp add: then_some_def)

lemma timestamp_fields_match:
  "fields_match (echo_layout h (ss_params s)) (build_echo_reply inp cfg s request closing next)"
  by (cases "stamp_at (ss_params s)")
     (simp_all add: fields_match_def build_echo_reply_def timestamp_fields_of_def echo_layout_def Let_def
        del: not_None_eq)

lemma echo_reply_room:
  "length (er_payload (build_echo_reply inp cfg s request closing next)) \<le>
     payload_room (cfg_hmac_key cfg \<noteq> None) (ss_params s)"
  by (simp add: build_echo_reply_def Let_def echo_payload_len_room payload_room_def length_payload_le
      del: not_None_eq)

lemma echo_flags_shape:
  "(FLAG_REPLY OR (if closing then FLAG_CLOSE else 0)) AND RESERVED_FLAGS_MASK = 0"
  "\<not> has (FLAG_REPLY OR (if closing then FLAG_CLOSE else 0)) FLAG_OPEN"
  "has (FLAG_REPLY OR (if closing then FLAG_CLOSE else 0)) FLAG_REPLY"
  "has (FLAG_REPLY OR (if closing then FLAG_CLOSE else 0)) FLAG_CLOSE = closing"
  by (simp_all add: proto_consts has_def)

lemma build_echo_reply_flags:
  "er_flags (build_echo_reply inp cfg s request closing next) =
     FLAG_REPLY OR (if closing then FLAG_CLOSE else 0)"
  by (simp add: build_echo_reply_def Let_def)

lemma encode_built_reply:
  "encode_echo_reply mac (build_echo_reply inp cfg s request closing next) (ss_params s) (cfg_hmac_key cfg) =
     Ok (sealed mac (with_hmac_flag (FLAG_REPLY OR (if closing then FLAG_CLOSE else 0))
                       (cfg_hmac_key cfg \<noteq> None)) (cfg_hmac_key cfg)
          (echo_body (cfg_hmac_key cfg \<noteq> None) (ss_params s)
             (build_echo_reply inp cfg s request closing next)))"
  using encode_echo_reply_sealed [of "build_echo_reply inp cfg s request closing next" "cfg_hmac_key cfg" "ss_params s" mac]
    echo_flags_shape [of closing] timestamp_fields_match echo_reply_room
  by (simp add: build_echo_reply_flags del: not_None_eq)

lemma open_flags_shape:
  "(FLAG_OPEN OR FLAG_REPLY) AND RESERVED_FLAGS_MASK = 0" "has (FLAG_OPEN OR FLAG_REPLY) FLAG_OPEN"
  "has (FLAG_OPEN OR FLAG_REPLY) FLAG_REPLY" "\<not> has (FLAG_OPEN OR FLAG_REPLY) FLAG_CLOSE"
  "(FLAG_OPEN OR FLAG_REPLY OR FLAG_CLOSE) AND RESERVED_FLAGS_MASK = 0"
  "has (FLAG_OPEN OR FLAG_REPLY OR FLAG_CLOSE) FLAG_OPEN"
  "has (FLAG_OPEN OR FLAG_REPLY OR FLAG_CLOSE) FLAG_REPLY"
  "has (FLAG_OPEN OR FLAG_REPLY OR FLAG_CLOSE) FLAG_CLOSE"
  by (simp_all add: proto_consts has_def)

lemma encode_reply_open:
  "token \<noteq> 0 \<Longrightarrow>
     encode_reply mac c \<lparr>or_flags = FLAG_OPEN OR FLAG_REPLY, or_token = token, or_params = p\<rparr> =
       Ok (sealed mac (with_hmac_flag (FLAG_OPEN OR FLAG_REPLY) (cfg_hmac_key (core_config c) \<noteq> None))
            (cfg_hmac_key (core_config c)) (to_le_bytes 8 token @ encode_params p))"
  using open_flags_shape by (simp add: encode_reply_def encode_open_reply_sealed)

lemma encode_reply_no_test:
  "encode_reply mac c \<lparr>or_flags = FLAG_OPEN OR FLAG_REPLY OR FLAG_CLOSE, or_token = 0, or_params = p\<rparr> =
     Ok (sealed mac (with_hmac_flag (FLAG_OPEN OR FLAG_REPLY OR FLAG_CLOSE) (cfg_hmac_key (core_config c) \<noteq> None))
          (cfg_hmac_key (core_config c)) (to_le_bytes 8 (0 :: u64) @ encode_params p))"
  using open_flags_shape by (simp add: encode_reply_def encode_open_reply_sealed)

section \<open>Tokens\<close>

lemma allocate_token_from_fresh:
  "allocate_token_from inp c i left = Ok token \<Longrightarrow> token \<noteq> 0 \<and> table_get (core_sessions c) token = None"
  by (induction left arbitrary: i) (auto simp: result_simps split: if_splits)

lemma allocate_token_fresh:
  "allocate_token inp c = Ok token \<Longrightarrow> token \<noteq> 0 \<and> table_get (core_sessions c) token = None"
  unfolding allocate_token_def by (rule allocate_token_from_fresh)

section \<open>Invariant\<close>

text \<open>What the table promises of every session: a usable token, parameters that are the
  result of negotiation under this configuration and that the server can execute, a fill
  that yields bytes, and an allowance within its burst.\<close>

definition session_ok :: "server_config \<Rightarrow> session \<Rightarrow> bool" where
  "session_ok config s \<longleftrightarrow>
     negotiated_params_are_admissible (ss_params s) config \<and>
     negotiate_params (ss_params s) config = ss_params s \<and>
     wf_params (ss_params s) \<and> fill_ok (ss_fill s) \<and> rate_ok (ss_rate s) \<and>
     rt_burst (ss_rate s) = cfg_burst_allowance config"

definition core_ok :: "server_core \<Rightarrow> bool" where
  "core_ok c \<longleftrightarrow>
     config_ok (core_config c) \<and> table_wf (core_sessions c) \<and>
     table_len (core_sessions c) \<le> cfg_max_sessions (core_config c) \<and>
     (\<forall>t s. table_get (core_sessions c) t = Some s \<longrightarrow> t \<noteq> 0 \<and> session_ok (core_config c) s)"

lemma core_ok_session:
  "core_ok c \<Longrightarrow> table_get (core_sessions c) t = Some s \<Longrightarrow> t \<noteq> 0 \<and> session_ok (core_config c) s"
  by (simp add: core_ok_def)

lemma session_ok_facts:
  assumes "session_ok config s"
  shows "negotiate_params (ss_params s) config = ss_params s" "wf_params (ss_params s)"
    "stamp_at (ss_params s) = StNone \<or> clock (ss_params s) \<noteq> ClkUnspecified"
    "max (echo_header_len (cfg_hmac_key config \<noteq> None) (ss_params s)) (nat (sint (length_param (ss_params s))))
       \<le> cfg_max_packet_length config"
    "rt_allowance (ss_rate s) \<le> cfg_burst_allowance config"
  using assms
  by (auto simp: session_ok_def rate_ok_def negotiated_params_are_admissible_def echo_packet_len_eq
      split: if_splits simp del: not_None_eq)

lemma core_new_ok: "config_ok config \<Longrightarrow> core_ok (core_new config)"
  by (simp add: core_ok_def core_new_def)

lemma sweep_ok: "core_ok c \<Longrightarrow> core_ok (release_expired_sessions now c)"
  using tbl.len_retain_le [of "core_sessions c"]
  by (auto simp: core_ok_def sweep_get)
     (auto simp: release_expired_sessions_def Let_def intro: order_trans)

lemma update_ok:
  "core_ok c \<Longrightarrow> table_get (core_sessions c) t = Some s \<Longrightarrow> session_ok (core_config c) s' \<Longrightarrow>
     core_ok (c\<lparr>core_sessions := table_insert t s' (core_sessions c)\<rparr>)"
  using tbl.len_insert_old [of "core_sessions c" t s s'] by (auto simp: core_ok_def)

lemma remove_ok: "core_ok c \<Longrightarrow> core_ok (c\<lparr>core_sessions := table_remove t (core_sessions c)\<rparr>)"
  using tbl.len_remove_le [of "core_sessions c" t]
  by (auto simp: core_ok_def tbl.get_remove split: if_splits)

lemma insert_new_ok:
  "core_ok c \<Longrightarrow> table_get (core_sessions c) t = None \<Longrightarrow> t \<noteq> 0 \<Longrightarrow>
   table_len (core_sessions c) < cfg_max_sessions (core_config c) \<Longrightarrow> session_ok (core_config c) s \<Longrightarrow>
     core_ok (c\<lparr>core_sessions := table_insert t s (core_sessions c)\<rparr>)"
  using tbl.len_insert_new [of "core_sessions c" t s] by (auto simp: core_ok_def)

lemma negotiate_server_fill_update:
  "negotiate_params (p\<lparr>server_fill := f\<rparr>) c = (negotiate_params p c)\<lparr>server_fill := f\<rparr>"
proof (rule params.equality)
  show "length_param (negotiate_params (p\<lparr>server_fill := f\<rparr>) c) =
      length_param ((negotiate_params p c)\<lparr>server_fill := f\<rparr>)"
    by (simp add: sint_eq_iff_word [symmetric] negotiate_length)
  show "duration_ns (negotiate_params (p\<lparr>server_fill := f\<rparr>) c) =
      duration_ns ((negotiate_params p c)\<lparr>server_fill := f\<rparr>)"
    by (simp add: sint_eq_iff_word [symmetric] negotiate_duration split: option.split)
  show "interval_ns (negotiate_params (p\<lparr>server_fill := f\<rparr>) c) =
      interval_ns ((negotiate_params p c)\<lparr>server_fill := f\<rparr>)"
    by (simp add: sint_eq_iff_word [symmetric] negotiate_interval)
qed (simp_all add: negotiate_fields)

lemma negotiated_session_ok:
  assumes "config_ok config" "wf_params d"
    and "negotiate_server_fill (negotiate_params d config) = (p, fill)"
    and "negotiated_params_are_admissible p config"
  shows "session_ok config (session_new peer p fill config now)"
proof -
  have "p = (negotiate_params d config)\<lparr>server_fill := server_fill p\<rparr>"
    using negotiate_server_fill_params [OF assms(3)] .
  then have "negotiate_params p config = p"
    using negotiate_idempotent [OF assms(1), of d]
      negotiate_server_fill_update [of "server_fill p" "negotiate_params d config" config]
    by simp
  moreover have "wf_params p"
    using negotiate_server_fill_wf [OF assms(3)] assms(2) by (simp add: negotiate_wf_params)
  ultimately show ?thesis
    using assms(4) negotiate_server_fill_ok [OF assms(3)] rate_new_ok
    by (simp add: session_ok_def session_new_def) (simp add: rate_new_def Let_def)
qed

text \<open>Everything an open can do, given by its result.\<close>

lemma handle_open_cases:
  assumes "handle_open mac inp peer no_test encoded now c = (c', r)"
  obtains (refused) "c' = c" "r = Ok None"
  | (no_test) d p fill where "no_test" "c' = c"
      "decode_with_presence encoded = Ok d" "open_params_are_admissible d"
      "negotiate_server_fill (negotiate_params (dec_params d) (core_config c)) = (p, fill)"
      "negotiated_params_are_admissible p (core_config c)"
      "r = Ok (Some (unmarked (sealed mac
         (with_hmac_flag (FLAG_OPEN OR FLAG_REPLY OR FLAG_CLOSE) (cfg_hmac_key (core_config c) \<noteq> None))
         (cfg_hmac_key (core_config c)) (to_le_bytes 8 (0 :: u64) @ encode_params p))))"
  | (token_error) e where "\<not> no_test" "c' = c" "r = Err e" "allocate_token inp c = Err e"
  | (created) d p fill token where "\<not> no_test" "decode_with_presence encoded = Ok d"
      "open_params_are_admissible d"
      "negotiate_server_fill (negotiate_params (dec_params d) (core_config c)) = (p, fill)"
      "negotiated_params_are_admissible p (core_config c)"
      "table_len (core_sessions c) < cfg_max_sessions (core_config c)"
      "allocate_token inp c = Ok token" "token \<noteq> 0" "table_get (core_sessions c) token = None"
      "c' = c\<lparr>core_sessions :=
          table_insert token (session_new peer p fill (core_config c) now) (core_sessions c)\<rparr>"
      "r = Ok (Some (unmarked (sealed mac
         (with_hmac_flag (FLAG_OPEN OR FLAG_REPLY) (cfg_hmac_key (core_config c) \<noteq> None))
         (cfg_hmac_key (core_config c)) (to_le_bytes 8 token @ encode_params p))))"
proof (cases "decode_with_presence encoded")
  case (Inl e)
  with assms refused show ?thesis by (simp add: handle_open_def)
next
  case (Inr d)
  obtain p fill where n: "negotiate_server_fill (negotiate_params (dec_params d) (core_config c)) = (p, fill)"
    by (cases "negotiate_server_fill (negotiate_params (dec_params d) (core_config c))")
  consider (bad) "\<not> open_params_are_admissible d \<or> \<not> negotiated_params_are_admissible p (core_config c) \<or>
        \<not> no_test \<and> table_len (core_sessions c) \<ge> cfg_max_sessions (core_config c)"
    | (nt) "open_params_are_admissible d" "negotiated_params_are_admissible p (core_config c)" "no_test"
    | (go) "open_params_are_admissible d" "negotiated_params_are_admissible p (core_config c)" "\<not> no_test"
        "table_len (core_sessions c) < cfg_max_sessions (core_config c)"
    by linarith
  then show ?thesis
  proof cases
    case bad
    with assms Inr n show ?thesis by (intro refused) (auto simp: handle_open_def split: if_splits)
  next
    case nt
    with assms Inr n show ?thesis
      by (intro no_test [of d p fill]) (auto simp: handle_open_def encode_reply_no_test)
  next
    case go
    show ?thesis
    proof (cases "allocate_token inp c")
      case (Inl e)
      with go assms Inr n show ?thesis by (intro token_error [of e]) (simp_all add: handle_open_def)
    next
      case (Inr token)
      with go assms \<open>decode_with_presence encoded = Ok d\<close> n allocate_token_fresh [OF Inr] show ?thesis
        by (intro created [of d p fill token]) (simp_all add: handle_open_def encode_reply_open)
    qed
  qed
qed

lemma handle_open_ok:
  assumes "core_ok c" "handle_open mac inp peer no_test encoded now c = (c', r)"
  shows "core_ok c' \<and> core_config c' = core_config c"
  using assms(2)
proof (cases rule: handle_open_cases)
  case (created d p fill token)
  then show ?thesis
    using insert_new_ok [OF assms(1) created(9,8,6)] assms(1)
      negotiated_session_ok [OF _ decode_with_presence_wf [OF created(2)] created(4,5), of peer now]
    by (auto simp: core_ok_def)
qed (use assms(1) in simp_all)

lemma handle_echo_allowed:
  assumes "eq_datagram_len q \<le> cfg_max_packet_length (core_config c)"
    "table_get (core_sessions c) (eq_token q) = Some s" "same_endpoint (ss_peer s) peer"
    "charge (ss_rate s) (mono_ns (eq_received_at q)) = Allowed nr"
    "closing = echo_closing (core_config c) s (mono_ns (eq_received_at q))"
    "reply = build_echo_reply inp (core_config c) s q closing (accepted (ss_receive s) (eq_sequence q))"
  shows "handle_echo mac inp peer q c =
     (c\<lparr>core_sessions :=
          (if closing then table_remove (eq_token q) (core_sessions c)
           else table_insert (eq_token q)
             (s\<lparr>ss_rate := nr, ss_receive := accepted (ss_receive s) (eq_sequence q),
                ss_lifetime := served (ss_lifetime s) (mono_ns (eq_received_at q))\<rparr>)
             (core_sessions c))\<rparr>,
      Ok (Some \<lparr>out_bytes = sealed mac
              (with_hmac_flag (FLAG_REPLY OR (if closing then FLAG_CLOSE else 0))
                 (cfg_hmac_key (core_config c) \<noteq> None))
              (cfg_hmac_key (core_config c))
              (echo_body (cfg_hmac_key (core_config c) \<noteq> None) (ss_params s) reply),
            out_traffic_class = transport_traffic_class (ss_params s)\<rparr>))"
proof -
  have "\<not> cfg_max_packet_length (core_config c) < eq_datagram_len q" using assms(1) by simp
  then show ?thesis
    unfolding handle_echo_def assms(5,6) using assms(2-4)
    by (simp add: Let_def encode_built_reply commit_rate_state_def
        commit_receive_state_def commit_lifetime_state_def del: not_None_eq)
qed

text \<open>Everything an echo can do.\<close>

lemma handle_echo_cases:
  assumes "handle_echo mac inp peer q c = (c', r)"
  obtains (refused) "c' = c" "r = Ok None"
      "cfg_max_packet_length (core_config c) < eq_datagram_len q \<or>
       table_get (core_sessions c) (eq_token q) = None \<or>
       (\<exists>s. table_get (core_sessions c) (eq_token q) = Some s \<and> \<not> same_endpoint (ss_peer s) peer)"
  | (limited) s nr where "table_get (core_sessions c) (eq_token q) = Some s"
      "same_endpoint (ss_peer s) peer" "charge (ss_rate s) (mono_ns (eq_received_at q)) = Limited nr"
      "r = Ok None"
      "c' = c\<lparr>core_sessions := table_insert (eq_token q)
          (s\<lparr>ss_rate := nr, ss_lifetime := refreshed (ss_lifetime s) (mono_ns (eq_received_at q))\<rparr>)
          (core_sessions c)\<rparr>"
  | (served) s nr closing reply where "table_get (core_sessions c) (eq_token q) = Some s"
      "same_endpoint (ss_peer s) peer" "charge (ss_rate s) (mono_ns (eq_received_at q)) = Allowed nr"
      "eq_datagram_len q \<le> cfg_max_packet_length (core_config c)"
      "closing = echo_closing (core_config c) s (mono_ns (eq_received_at q))"
      "reply = build_echo_reply inp (core_config c) s q closing (accepted (ss_receive s) (eq_sequence q))"
      "r = Ok (Some \<lparr>out_bytes = sealed mac
              (with_hmac_flag (FLAG_REPLY OR (if closing then FLAG_CLOSE else 0))
                 (cfg_hmac_key (core_config c) \<noteq> None))
              (cfg_hmac_key (core_config c))
              (echo_body (cfg_hmac_key (core_config c) \<noteq> None) (ss_params s) reply),
            out_traffic_class = transport_traffic_class (ss_params s)\<rparr>)"
      "c' = c\<lparr>core_sessions :=
          (if closing then table_remove (eq_token q) (core_sessions c)
           else table_insert (eq_token q)
             (s\<lparr>ss_rate := nr, ss_receive := accepted (ss_receive s) (eq_sequence q),
                ss_lifetime := served (ss_lifetime s) (mono_ns (eq_received_at q))\<rparr>)
             (core_sessions c))\<rparr>"
proof (cases "table_get (core_sessions c) (eq_token q)")
  case None
  with assms refused show ?thesis by (simp add: handle_echo_def split: if_splits)
next
  case (Some s)
  show ?thesis
  proof (cases "eq_datagram_len q \<le> cfg_max_packet_length (core_config c) \<and> same_endpoint (ss_peer s) peer")
    case False
    with assms Some show ?thesis by (intro refused) (auto simp: handle_echo_def split: if_splits)
  next
    case ok: True
    show ?thesis
    proof (cases "charge (ss_rate s) (mono_ns (eq_received_at q))")
      case (Allowed nr)
      from handle_echo_allowed [OF _ Some _ this refl refl, of peer mac inp] ok assms
      show ?thesis by (intro served [OF Some _ Allowed _ refl refl]) simp_all
    next
      case (Limited nr)
      with ok Some assms show ?thesis
        by (intro limited [of s nr])
           (simp_all add: handle_echo_def Let_def commit_rate_state_def commit_lifetime_state_def
             not_less [symmetric])
    qed
  qed
qed

lemma handle_echo_ok:
  assumes "core_ok c" "handle_echo mac inp peer q c = (c', r)"
  shows "core_ok c' \<and> core_config c' = core_config c"
  using assms(2)
proof (cases rule: handle_echo_cases)
  case (limited s nr)
  have "session_ok (core_config c) s" using core_ok_session [OF assms(1) limited(1)] by simp
  then have "session_ok (core_config c)
      (s\<lparr>ss_rate := nr, ss_lifetime := refreshed (ss_lifetime s) (mono_ns (eq_received_at q))\<rparr>)"
    using charge_ok [of "ss_rate s" _ nr] charge_policy [of "ss_rate s" _ nr] limited(3)
    by (auto simp: session_ok_def)
  then show ?thesis using limited assms(1) by (simp add: update_ok)
next
  case (served s nr closing reply)
  have "session_ok (core_config c) s" using core_ok_session [OF assms(1) served(1)] by simp
  then have "session_ok (core_config c)
      (s\<lparr>ss_rate := nr, ss_receive := rcv, ss_lifetime := lt\<rparr>)" for rcv lt
    using charge_ok [of "ss_rate s" _ nr] charge_policy [of "ss_rate s" _ nr] served(3)
    by (auto simp: session_ok_def)
  then show ?thesis using served assms(1) by (simp add: update_ok remove_ok)
qed (use assms(1) in simp)

lemma handle_close_ok: "core_ok c \<Longrightarrow> core_ok (handle_close peer token c) \<and> core_config (handle_close peer token c) = core_config c"
  by (simp add: handle_close_def Let_def remove_ok)

lemma process_ok:
  assumes "core_ok c" "process mac inp peer packet krx c = (c', r)"
  shows "core_ok c' \<and> core_config c' = core_config c"
proof (cases "admitted mac (core_config c) packet")
  case None
  with assms show ?thesis by (simp add: process_rejected)
next
  case (Some req)
  have sw: "core_ok (release_expired_sessions (mono_ns (in_clock inp 0)) c)"
    using assms(1) by (rule sweep_ok)
  show ?thesis
    using assms(2) Some handle_open_ok [OF sw] handle_echo_ok [OF sw] handle_close_ok [OF sw]
    by (cases "req_kind req") (fastforce simp: process_admitted dispatch_def Let_def)+
qed

section \<open>Behaviour\<close>

text \<open>Failure is internal only: the token source or its budget, and nothing but the sweep has
  happened.\<close>

lemma process_error:
  assumes "process mac inp peer packet krx c = (c', Err e)"
  shows "c' = release_expired_sessions (mono_ns (in_clock inp 0)) c \<and> allocate_token inp c' = Err e"
proof (cases "admitted mac (core_config c) packet")
  case None
  with assms show ?thesis by (simp add: process_rejected)
next
  case (Some req)
  define sw where "sw = release_expired_sessions (mono_ns (in_clock inp 0)) c"
  have d: "dispatch mac inp peer (req_kind req) (length packet) krx sw = (c', Err e)"
    using assms Some by (simp add: process_admitted sw_def)
  show ?thesis
  proof (cases "req_kind req")
    case (KindOpen no_test encoded)
    with d have "handle_open mac inp peer no_test encoded (mono_ns (in_clock inp 0)) sw = (c', Err e)"
      by (simp add: dispatch_def)
    then show ?thesis by (cases rule: handle_open_cases) (simp_all add: sw_def)
  next
    case (KindClose token)
    with d show ?thesis by (simp add: dispatch_def)
  next
    case (KindEcho token sequence tail)
    with d obtain q where "handle_echo mac inp peer q sw = (c', Err e)"
      by (simp add: dispatch_def Let_def)
    then show ?thesis by (cases rule: handle_echo_cases) simp_all
  qed
qed

lemma process_error_open:
  assumes "process mac inp peer packet krx c = (c', Err e)"
  shows "\<exists>r no_test encoded. decode_request packet = Ok r \<and> req_kind r = KindOpen no_test encoded"
proof (cases "admitted mac (core_config c) packet")
  case None
  with assms show ?thesis by (simp add: process_rejected)
next
  case (Some req)
  define sw where "sw = release_expired_sessions (mono_ns (in_clock inp 0)) c"
  have d: "dispatch mac inp peer (req_kind req) (length packet) krx sw = (c', Err e)"
    using assms Some by (simp add: process_admitted sw_def)
  have "decode_request packet = Ok req"
    using Some by (auto simp: admitted_def split: sum.splits if_splits)
  moreover have False if k: "req_kind req = KindEcho token sequence tail" for token sequence tail
  proof -
    obtain q where "handle_echo mac inp peer q sw = (c', Err e)"
      using d by (simp add: k dispatch_def Let_def)
    then show False by (cases rule: handle_echo_cases) simp_all
  qed
  moreover have False if "req_kind req = KindClose token" for token
    using d by (simp add: that dispatch_def)
  ultimately show ?thesis by (cases "req_kind req") blast+
qed

lemma allocate_token_error:
  "allocate_token inp c = Err e \<Longrightarrow> e = TokenExhausted TOKEN_ATTEMPTS \<or> (\<exists>i < TOKEN_ATTEMPTS. in_tokens inp i = Err e)"
proof -
  have "allocate_token_from inp c i n = Err e \<Longrightarrow>
      e = TokenExhausted TOKEN_ATTEMPTS \<or> (\<exists>j < i + n. i \<le> j \<and> in_tokens inp j = Err e)" for i n
  proof (induction n arbitrary: i)
    case (Suc n)
    then show ?case
      by (auto simp: result_simps split: if_splits)
         (metis Suc_leD add_Suc_right add_Suc)+
  qed simp
  from this [of 0 TOKEN_ATTEMPTS] show "allocate_token inp c = Err e \<Longrightarrow> ?thesis"
    by (simp add: allocate_token_def)
qed

text \<open>A good draw within the budget is enough.\<close>

lemma allocate_token_from_Ok:
  "k < n \<Longrightarrow> in_tokens inp (i + k) = Ok t \<Longrightarrow> t \<noteq> 0 \<Longrightarrow> table_get (core_sessions c) t = None \<Longrightarrow>
   (\<And>j. j < k \<Longrightarrow> \<exists>u. in_tokens inp (i + j) = Ok u) \<Longrightarrow> \<exists>u. allocate_token_from inp c i n = Ok u"
proof (induction n arbitrary: i k)
  case (Suc n)
  show ?case
  proof (cases k)
    case 0
    with Suc.prems show ?thesis by simp
  next
    case (Suc k')
    obtain u where u: "in_tokens inp i = Ok u" using Suc.prems(5) [of 0] Suc by auto
    have "\<exists>u. allocate_token_from inp c (Suc i) n = Ok u"
      using Suc.IH [of k' "Suc i"] Suc.prems Suc by (metis Suc_less_eq add_Suc_shift)
    with u show ?thesis by auto
  qed
qed simp

text \<open>Whatever changed about an unexpired session, the request named its token and came from
  its endpoint.\<close>

lemma process_isolation:
  assumes ok: "core_ok c" and s: "table_get (core_sessions c) t = Some s"
    and live: "\<not> is_idle_expired s (mono_ns (in_clock inp 0)) (saturating_ns (cfg_idle_timeout (core_config c)))"
    and p: "process mac inp peer packet krx c = (c', r)"
    and changed: "table_get (core_sessions c') t \<noteq> Some s"
  shows "\<exists>req. admitted mac (core_config c) packet = Some req \<and> same_endpoint (ss_peer s) peer \<and>
           (req_kind req = KindClose t \<or> (\<exists>sequence tail. req_kind req = KindEcho t sequence tail))"
proof (cases "admitted mac (core_config c) packet")
  case None
  with p changed s show ?thesis by (simp add: process_rejected)
next
  case (Some req)
  define sw where "sw = release_expired_sessions (mono_ns (in_clock inp 0)) c"
  have wf: "table_wf (core_sessions sw)" using sweep_ok [OF ok] by (simp add: sw_def core_ok_def)
  have sws: "table_get (core_sessions sw) t = Some s"
    using s live ok by (simp add: sw_def sweep_get core_ok_def)
  have d: "dispatch mac inp peer (req_kind req) (length packet) krx sw = (c', r)"
    using p Some by (simp add: process_admitted sw_def)
  show ?thesis
  proof (cases "req_kind req")
    case (KindOpen no_test encoded)
    with d have "handle_open mac inp peer no_test encoded (mono_ns (in_clock inp 0)) sw = (c', r)"
      by (simp add: dispatch_def)
    then show ?thesis by (cases rule: handle_open_cases) (use sws changed in \<open>auto split: if_splits\<close>)
  next
    case (KindClose token)
    with d changed sws Some wf show ?thesis
      by (auto simp: dispatch_def handle_close_def Let_def tbl.get_remove split: option.splits if_splits)
  next
    case (KindEcho token sequence tail)
    with d obtain q where q: "handle_echo mac inp peer q sw = (c', r)" "eq_token q = token"
      by (simp add: dispatch_def Let_def)
    from q(1) show ?thesis
      by (cases rule: handle_echo_cases)
         (use sws changed Some KindEcho wf q(2) in \<open>auto simp: tbl.get_remove split: if_splits\<close>)
  qed
qed

section \<open>Replies decode at the client\<close>

lemma echo_reply_decodes:
  fixes k :: "bytes option"
  assumes "reply = build_echo_reply inp cfg s q closing next" "k = cfg_hmac_key cfg"
  shows "decode_echo_reply mac
      (sealed mac (with_hmac_flag (FLAG_REPLY OR (if closing then FLAG_CLOSE else 0)) (k \<noteq> None)) k
        (echo_body (k \<noteq> None) (ss_params s) reply)) (ss_params s) k =
    Ok (reply\<lparr>er_flags := with_hmac_flag (FLAG_REPLY OR (if closing then FLAG_CLOSE else 0)) (k \<noteq> None),
              er_payload := pad_payload (k \<noteq> None) (ss_params s) (er_payload reply)\<rparr>)"
  unfolding assms
  by (rule decode_echo_reply_sealed)
     (use echo_flags_shape [of closing] timestamp_fields_match echo_reply_room in
       \<open>simp_all add: with_hmac_flag_reserved has_with_hmac_flag del: not_None_eq\<close>)

lemma echo_packet_length:
  assumes "fields_match (echo_layout h p) r" "length (er_payload r) \<le> payload_room h p" "h = (k \<noteq> None)"
  shows "length (sealed mac f k (echo_body h p r)) = max (echo_header_len h p) (nat (sint (length_param p)))"
  using assms length_reply_fields [OF assms(1)] payload_room_expected [of h p]
  by (cases k) (simp_all add: echo_body_def auth_len_def)

text \<open>A served echo, seen from outside: the packet decodes under the session's parameters to the
  request's token and sequence number, the advanced statistics and the negotiated stamps, and
  it never exceeds the configured length.\<close>

lemma served_reply:
  assumes ok: "core_ok c" and h: "handle_echo mac inp peer q c = (c', Ok (Some out))"
  shows "\<exists>s r. table_get (core_sessions c) (eq_token q) = Some s \<and> same_endpoint (ss_peer s) peer \<and>
     decode_echo_reply mac (out_bytes out) (ss_params s) (cfg_hmac_key (core_config c)) = Ok r \<and>
     er_token r = eq_token q \<and> er_sequence r = eq_sequence q \<and>
     er_recv_count r = then_some (has_count (received_stats (ss_params s))) (rs_count (ss_receive s) + 1) \<and>
     er_recv_window r = then_some (has_window (received_stats (ss_params s)))
        (rs_window (accepted (ss_receive s) (eq_sequence q))) \<and>
     er_timestamps r = timestamp_fields_of (ss_params s) (eq_received_at q) (in_clock inp 1) (eq_receive_wall_ns q) \<and>
     has (er_flags r) FLAG_CLOSE = (table_get (core_sessions c') (eq_token q) = None) \<and>
     length (out_bytes out) \<le> cfg_max_packet_length (core_config c) \<and>
     out_traffic_class out = transport_traffic_class (ss_params s)"
  using h
proof (cases rule: handle_echo_cases)
  case (served s nr closing reply)
  define k where "k = cfg_hmac_key (core_config c)"
  have wf: "table_wf (core_sessions c)" using ok by (simp add: core_ok_def)
  have dec: "decode_echo_reply mac (out_bytes out) (ss_params s) k =
      Ok (reply\<lparr>er_flags := with_hmac_flag (FLAG_REPLY OR (if closing then FLAG_CLOSE else 0)) (k \<noteq> None),
              er_payload := pad_payload (k \<noteq> None) (ss_params s) (er_payload reply)\<rparr>)"
    using echo_reply_decodes [OF served(6) refl, of mac] served(7) by (simp add: k_def)
  have "length (out_bytes out) = max (echo_header_len (k \<noteq> None) (ss_params s)) (nat (sint (length_param (ss_params s))))"
    using served(7)
      echo_packet_length [OF timestamp_fields_match echo_reply_room refl]
    by (simp add: k_def served(6) del: not_None_eq length_sealed)
  moreover have "max (echo_header_len (k \<noteq> None) (ss_params s)) (nat (sint (length_param (ss_params s))))
      \<le> cfg_max_packet_length (core_config c)"
    using core_ok_session [OF ok served(1)]
    by (simp add: session_ok_def negotiated_params_are_admissible_def echo_packet_len_eq k_def
        del: not_None_eq split: if_splits)
  ultimately have len: "length (out_bytes out) \<le> cfg_max_packet_length (core_config c)" by simp
  have cl: "has (with_hmac_flag (FLAG_REPLY OR (if closing then FLAG_CLOSE else 0)) (k \<noteq> None)) FLAG_CLOSE = closing"
    using echo_flags_shape(4) [of closing] by (simp add: has_with_hmac_flag)
  have gone: "(table_get (core_sessions c') (eq_token q) = None) = closing"
    using served(8) wf by (simp add: tbl.get_remove)
  show ?thesis
    by (rule exI [of _ s], rule exI, intro conjI, rule served(1), rule served(2), rule dec [unfolded k_def])
       (use served(6,7) len cl gone in \<open>simp_all add: build_echo_reply_def Let_def k_def del: not_None_eq\<close>)
qed simp_all

text \<open>An answered open: the client reads the parameters the session was created with.\<close>

lemma open_reply_decodes:
  assumes "wf_params p" "token \<noteq> 0 \<or> has f FLAG_CLOSE" "f AND RESERVED_FLAGS_MASK = 0"
    "has f FLAG_OPEN" "has f FLAG_REPLY"
  shows "decode_open_reply mac (sealed mac (with_hmac_flag f (k \<noteq> None)) k
      (to_le_bytes 8 token @ encode_params p)) k =
    Ok \<lparr>or_flags = with_hmac_flag f (k \<noteq> None), or_token = token, or_params = p\<rparr>"
  using assms
  by (subst decode_open_reply_sealed)
     (auto simp: with_hmac_flag_reserved has_with_hmac_flag decode_encode_params_plain)

lemma answered_open:
  assumes h: "handle_open mac inp peer no_test encoded now c = (c', Ok (Some out))"
  shows "\<exists>d p fill r. decode_with_presence encoded = Ok d \<and>
     negotiate_server_fill (negotiate_params (dec_params d) (core_config c)) = (p, fill) \<and>
     decode_open_reply mac (out_bytes out) (cfg_hmac_key (core_config c)) = Ok r \<and>
     or_params r = p \<and> has (or_flags r) FLAG_CLOSE = no_test \<and> out_traffic_class out = 0 \<and>
     (if no_test then or_token r = 0 \<and> c' = c
      else or_token r \<noteq> 0 \<and> table_get (core_sessions c) (or_token r) = None \<and>
        c' = c\<lparr>core_sessions := table_insert (or_token r)
               (session_new peer p fill (core_config c) now) (core_sessions c)\<rparr>)"
  using h
proof (cases rule: handle_open_cases)
  case (no_test d p fill)
  have "wf_params p"
    using negotiate_server_fill_wf [OF no_test(5)] decode_with_presence_wf [OF no_test(3)]
    by (simp add: negotiate_wf_params)
  with no_test open_flags_shape show ?thesis
    by (simp add: unmarked_def open_reply_decodes has_with_hmac_flag del: not_None_eq)
next
  case (created d p fill token)
  have "wf_params p"
    using negotiate_server_fill_wf [OF created(4)] decode_with_presence_wf [OF created(2)]
    by (simp add: negotiate_wf_params)
  with created open_flags_shape show ?thesis
    by (simp add: unmarked_def open_reply_decodes has_with_hmac_flag del: not_None_eq)
qed simp_all

section \<open>Reachable cores\<close>

text \<open>The server as a transition system: it starts empty, handles datagrams from any peer with
  any content and any environment, and runs the maintenance sweep.\<close>

inductive core_step :: "mac_fun \<Rightarrow> server_core \<Rightarrow> server_core \<Rightarrow> bool" for mac where
  step_datagram: "process mac inp peer packet krx c = (c', r) \<Longrightarrow> core_step mac c c'"
| step_maintain: "core_step mac c (maintain now c)"

inductive reachable :: "mac_fun \<Rightarrow> server_config \<Rightarrow> server_core \<Rightarrow> bool" for mac config where
  reach_new: "reachable mac config (core_new config)"
| reach_step: "reachable mac config c \<Longrightarrow> core_step mac c c' \<Longrightarrow> reachable mac config c'"

inductive_cases core_stepE: "core_step mac c c'"

lemma core_step_ok: "core_step mac c c' \<Longrightarrow> core_ok c \<Longrightarrow> core_ok c' \<and> core_config c' = core_config c"
  by (erule core_stepE) (auto dest: process_ok sweep_ok simp: maintain_def)

lemma reachable_ok:
  "reachable mac config c \<Longrightarrow> config_ok config \<Longrightarrow> core_ok c \<and> core_config c = config"
proof (induction rule: reachable.induct)
  case reach_new
  then show ?case by (simp add: core_new_ok) (simp add: core_new_def)
qed (auto dest: core_step_ok)

section \<open>Properties\<close>

text \<open>A concrete environment for the witnesses: a keyed server, an unkeyed one, a request of
  each kind.\<close>

definition plain_config :: server_config where
  "plain_config = with_idle_timeout 100 config_default"

definition keyed_config :: server_config where
  "keyed_config = with_hmac_key [1, 2] config_default"

definition zero_mac :: mac_fun where
  "zero_mac key msg = 0"

definition test_inputs :: core_inputs where
  "test_inputs =
     \<lparr>in_clock = (\<lambda>i. \<lparr>wall_ns = of_nat (1000 + i), mono_ns = of_nat (10 + i)\<rparr>),
      in_tokens = (\<lambda>_. Ok 7), in_random = (\<lambda>_. None)\<rparr>"

definition test_peer :: socket_addr where
  "test_peer = V4 1 2"

definition test_session :: session where
  "test_session = session_new test_peer (negotiate_params params_default plain_config) default_fill plain_config 0"

definition test_core :: server_core where
  "test_core = (core_new plain_config)\<lparr>core_sessions := [(7, test_session)]\<rparr>"

text \<open>An echo request for token 7, sequence 3; a close for token 7; an empty open.\<close>

definition echo_packet :: bytes where
  "echo_packet = MAGIC @ [0] @ [7, 0, 0, 0, 0, 0, 0, 0, 3, 0, 0, 0]"

definition close_packet :: bytes where
  "close_packet = MAGIC @ [4] @ [7, 0, 0, 0, 0, 0, 0, 0]"

definition open_packet :: bytes where
  "open_packet = MAGIC @ [1]"

lemma test_config_ok: "config_ok plain_config" "config_ok keyed_config"
  by code_simp+

lemma test_session_ok: "session_ok plain_config test_session"
  by code_simp

lemma test_core_ok: "core_ok test_core"
  using test_config_ok test_session_ok
  by (auto simp: core_ok_def test_core_def core_new_def table_wf_def table_len_def table_get_def
      plain_config_def with_idle_timeout_def config_default_def DEFAULT_MAX_SESSIONS_def split: if_splits)

text \<open>C3: the server's invariant. Whatever datagrams arrive, from whom and in what order, the
  table never exceeds the configured bound, every token is non-zero, and every session's
  parameters are a fixed point of negotiation, carry a clock when they ask for stamps, fit the
  configured packet length, and hold an allowance within the burst.\<close>

theorem server_invariant:
  assumes "reachable mac config c" "built_config config"
  shows "session_count c \<le> cfg_max_sessions config \<and> table_wf (core_sessions c) \<and>
     (\<forall>t s. table_get (core_sessions c) t = Some s \<longrightarrow>
        t \<noteq> 0 \<and> negotiate_params (ss_params s) config = ss_params s \<and> wf_params (ss_params s) \<and>
        (stamp_at (ss_params s) = StNone \<or> clock (ss_params s) \<noteq> ClkUnspecified) \<and>
        max (echo_header_len (cfg_hmac_key config \<noteq> None) (ss_params s)) (nat (sint (length_param (ss_params s))))
          \<le> cfg_max_packet_length config \<and>
        rt_allowance (ss_rate s) \<le> cfg_burst_allowance config)"
proof -
  have "core_ok c" "core_config c = config"
    using reachable_ok [OF assms(1) built_config_ok [OF assms(2)]] by simp_all
  then show ?thesis
    using core_ok_session [of c] session_ok_facts [of config]
    by (auto simp: core_ok_def session_count_def)
qed

theorem server_invariant_witness:
  "session_count (fst (process zero_mac test_inputs test_peer open_packet None (core_new plain_config)))
     \<le> cfg_max_sessions plain_config"
proof -
  have "reachable zero_mac plain_config
      (fst (process zero_mac test_inputs test_peer open_packet None (core_new plain_config)))"
    by (rule reach_step [OF reach_new step_datagram [OF prod.collapse [symmetric]]])
  moreover have "built_config plain_config"
    unfolding plain_config_def by (intro built_idle built_default)
  ultimately show ?thesis using server_invariant by blast
qed

text \<open>C27: handling a datagram fails only when the token source fails or its budget runs out,
  and then nothing but the expiry sweep has happened; in particular a reply this server
  builds always encodes.\<close>

theorem process_fails_only_on_tokens:
  assumes "process mac inp peer packet krx c = (c', Err e)"
  shows "c' = release_expired_sessions (mono_ns (in_clock inp 0)) c \<and>
     (e = TokenExhausted TOKEN_ATTEMPTS \<or> (\<exists>i < TOKEN_ATTEMPTS. in_tokens inp i = Err e)) \<and>
     (\<exists>r no_test encoded. decode_request packet = Ok r \<and> req_kind r = KindOpen no_test encoded)"
proof -
  have "\<exists>r no_test encoded. decode_request packet = Ok r \<and> req_kind r = KindOpen no_test encoded"
    using process_error_open [OF assms] .
  then show ?thesis
    using process_error [OF assms] allocate_token_error by blast
qed

theorem process_fails_only_on_tokens_witness:
  "\<exists>c'. c' = release_expired_sessions 10 (core_new plain_config) \<and>
     (RandomSource ''x'' = TokenExhausted TOKEN_ATTEMPTS \<or>
      (\<exists>i < TOKEN_ATTEMPTS. in_tokens (test_inputs\<lparr>in_tokens := \<lambda>_. Err (RandomSource ''x'')\<rparr>) i = Err (RandomSource ''x'')))"
proof -
  have "process zero_mac (test_inputs\<lparr>in_tokens := \<lambda>_. Err (RandomSource ''x'')\<rparr>) test_peer open_packet None (core_new plain_config) =
      (core_new plain_config, Err (RandomSource ''x''))" by code_simp
  from process_fails_only_on_tokens [OF this] show ?thesis by (simp add: test_inputs_def)
qed

text \<open>C26: authentication gates every effect. A keyed server ignores a packet that does not
  verify, an unkeyed one a packet that carries the authentication flag, and both ignore
  anything that is not a well-formed request: no reply and no change at all, not even the
  expiry sweep.\<close>

theorem unauthenticated_ignored:
  assumes "(\<exists>key. cfg_hmac_key (core_config c) = Some key \<and> verify_packet_hmac mac key packet \<noteq> Ok ()) \<or>
     (cfg_hmac_key (core_config c) = None \<and> (\<exists>r. decode_request packet = Ok r \<and> req_hmac_present r)) \<or>
     (\<exists>e. decode_request packet = Err e)"
  shows "process mac inp peer packet krx c = (c, Ok None)"
  by (rule process_rejected) (use assms in \<open>auto simp: admitted_def split: sum.splits\<close>)

theorem unauthenticated_ignored_witness:
  "process (\<lambda>_ _. 1) test_inputs test_peer (MAGIC @ [9] @ replicate 16 0) None (core_new keyed_config) =
     (core_new keyed_config, Ok None)"
proof (rule unauthenticated_ignored)
  have "cfg_hmac_key (core_config (core_new keyed_config)) = Some [1, 2] \<and>
      verify_packet_hmac (\<lambda>_ _. 1) [1, 2] (MAGIC @ [9] @ replicate 16 0) \<noteq> Ok ()" by code_simp
  then show "(\<exists>key. cfg_hmac_key (core_config (core_new keyed_config)) = Some key \<and>
        verify_packet_hmac (\<lambda>_ _. 1) key (MAGIC @ [9] @ replicate 16 0) \<noteq> Ok ()) \<or>
     (cfg_hmac_key (core_config (core_new keyed_config)) = None \<and>
        (\<exists>r. decode_request (MAGIC @ [9] @ replicate 16 0) = Ok r \<and> req_hmac_present r)) \<or>
     (\<exists>e. decode_request (MAGIC @ [9] @ replicate 16 0) = Err e)" by blast
qed

text \<open>C4: isolation. A session that has not idled out is changed or removed only by an admitted
  close or echo that names its token and comes from its own endpoint; opens, foreign traffic
  and other sessions' requests leave it as it was.\<close>

theorem session_isolation:
  assumes "core_ok c" "table_get (core_sessions c) t = Some s"
    and "\<not> is_idle_expired s (mono_ns (in_clock inp 0)) (saturating_ns (cfg_idle_timeout (core_config c)))"
    and "process mac inp peer packet krx c = (c', r)" "table_get (core_sessions c') t \<noteq> Some s"
  shows "\<exists>req. admitted mac (core_config c) packet = Some req \<and> same_endpoint (ss_peer s) peer \<and>
           (req_kind req = KindClose t \<or> (\<exists>sequence tail. req_kind req = KindEcho t sequence tail))"
  by (rule process_isolation [OF assms])

theorem session_isolation_witness:
  "\<exists>req. admitted zero_mac (core_config test_core) close_packet = Some req \<and>
     same_endpoint (ss_peer test_session) test_peer \<and>
     (req_kind req = KindClose 7 \<or> (\<exists>sequence tail. req_kind req = KindEcho 7 sequence tail))"
proof (rule session_isolation [OF test_core_ok])
  show "process zero_mac test_inputs test_peer close_packet None test_core = (core_new plain_config, Ok None)"
    by code_simp
  show "table_get (core_sessions test_core) 7 = Some test_session" by code_simp
  show "\<not> is_idle_expired test_session (mono_ns (in_clock test_inputs 0))
      (saturating_ns (cfg_idle_timeout (core_config test_core)))" by code_simp
  show "table_get (core_sessions (core_new plain_config)) 7 \<noteq> Some test_session"
    by (simp add: core_new_def)
qed

text \<open>C9: a served echo from outside. The reply decodes under the session's negotiated
  parameters to the request's token and sequence number, the advanced count and window and the
  negotiated timestamps; it carries Close exactly when the session is released; it never
  exceeds the configured length and carries the session's traffic class.\<close>

theorem echo_reply_correct:
  assumes "core_ok c" "handle_echo mac inp peer q c = (c', Ok (Some out))"
  shows "\<exists>s r. table_get (core_sessions c) (eq_token q) = Some s \<and> same_endpoint (ss_peer s) peer \<and>
     decode_echo_reply mac (out_bytes out) (ss_params s) (cfg_hmac_key (core_config c)) = Ok r \<and>
     er_token r = eq_token q \<and> er_sequence r = eq_sequence q \<and>
     er_recv_count r = then_some (has_count (received_stats (ss_params s))) (rs_count (ss_receive s) + 1) \<and>
     er_recv_window r = then_some (has_window (received_stats (ss_params s)))
        (rs_window (accepted (ss_receive s) (eq_sequence q))) \<and>
     er_timestamps r = timestamp_fields_of (ss_params s) (eq_received_at q) (in_clock inp 1) (eq_receive_wall_ns q) \<and>
     has (er_flags r) FLAG_CLOSE = (table_get (core_sessions c') (eq_token q) = None) \<and>
     length (out_bytes out) \<le> cfg_max_packet_length (core_config c) \<and>
     out_traffic_class out = transport_traffic_class (ss_params s)"
  by (rule served_reply [OF assms])

definition test_echo :: echo_request where
  "test_echo = \<lparr>eq_token = 7, eq_sequence = 3, eq_datagram_len = 16,
     eq_received_at = \<lparr>wall_ns = 1000, mono_ns = 10\<rparr>, eq_receive_wall_ns = 1000\<rparr>"

theorem echo_reply_correct_witness:
  "\<exists>(out :: outbound_datagram) s r. table_get (core_sessions test_core) 7 = Some s \<and>
     decode_echo_reply zero_mac (out_bytes out) (ss_params s) None = Ok r \<and> er_sequence r = 3"
proof -
  obtain out where "handle_echo zero_mac test_inputs test_peer test_echo test_core =
      (fst (handle_echo zero_mac test_inputs test_peer test_echo test_core), Ok (Some out))"
  proof -
    have "case snd (handle_echo zero_mac test_inputs test_peer test_echo test_core) of
        Ok (Some _) \<Rightarrow> True | _ \<Rightarrow> False" by code_simp
    then show ?thesis
      using that by (cases "handle_echo zero_mac test_inputs test_peer test_echo test_core")
        (auto split: sum.splits option.splits)
  qed
  then obtain s r where "table_get (core_sessions test_core) (eq_token test_echo) = Some s"
    "decode_echo_reply zero_mac (out_bytes out) (ss_params s) (cfg_hmac_key (core_config test_core)) = Ok r"
    "er_sequence r = eq_sequence test_echo"
    using echo_reply_correct [OF test_core_ok] by blast
  moreover have "eq_token test_echo = 7" "eq_sequence test_echo = 3" "cfg_hmac_key (core_config test_core) = None"
    by code_simp+
  ultimately show ?thesis by auto
qed

text \<open>C17: an answered open from outside. The client reads back exactly the parameters the
  server negotiated; a no-test open gets a zero token, the Close flag and no state; any other
  gets a fresh non-zero token under which those parameters and the requesting endpoint are
  stored.\<close>

theorem open_reply_correct:
  assumes "handle_open mac inp peer no_test encoded now c = (c', Ok (Some out))"
  shows "\<exists>d p fill r. decode_with_presence encoded = Ok d \<and>
     negotiate_server_fill (negotiate_params (dec_params d) (core_config c)) = (p, fill) \<and>
     decode_open_reply mac (out_bytes out) (cfg_hmac_key (core_config c)) = Ok r \<and>
     or_params r = p \<and> has (or_flags r) FLAG_CLOSE = no_test \<and> out_traffic_class out = 0 \<and>
     (if no_test then or_token r = 0 \<and> c' = c
      else or_token r \<noteq> 0 \<and> table_get (core_sessions c) (or_token r) = None \<and>
        c' = c\<lparr>core_sessions := table_insert (or_token r)
               (session_new peer p fill (core_config c) now) (core_sessions c)\<rparr>)"
  by (rule answered_open [OF assms])

theorem open_reply_correct_witness:
  "\<exists>(out :: outbound_datagram) r. decode_open_reply zero_mac (out_bytes out) None = Ok r \<and> or_token r \<noteq> 0"
proof -
  obtain out where "handle_open zero_mac test_inputs test_peer False [] 5 (core_new plain_config) =
      (fst (handle_open zero_mac test_inputs test_peer False [] 5 (core_new plain_config)), Ok (Some out))"
  proof -
    have "case snd (handle_open zero_mac test_inputs test_peer False [] 5 (core_new plain_config)) of
        Ok (Some _) \<Rightarrow> True | _ \<Rightarrow> False" by code_simp
    then show ?thesis
      using that by (cases "handle_open zero_mac test_inputs test_peer False [] 5 (core_new plain_config)")
        (auto split: sum.splits option.splits)
  qed
  from open_reply_correct [OF this] obtain r where
    "decode_open_reply zero_mac (out_bytes out) (cfg_hmac_key (core_config (core_new plain_config))) = Ok r"
    "or_token r \<noteq> 0" by (simp split: if_splits) blast
  moreover have "cfg_hmac_key (core_config (core_new plain_config)) = None" by code_simp
  ultimately show ?thesis by auto
qed

text \<open>Releasing sessions. Maintenance keeps exactly the sessions that have not idled out,
  and a close removes its session exactly when it comes from the session's endpoint.\<close>

theorem release_exact:
  assumes "table_wf (core_sessions c)"
  shows "(table_get (core_sessions (maintain now c)) t = Some s \<longleftrightarrow>
            table_get (core_sessions c) t = Some s \<and>
            \<not> is_idle_expired s (mono_ns now) (saturating_ns (cfg_idle_timeout (core_config c)))) \<and>
         (table_get (core_sessions (handle_close peer token c)) t = Some s \<longleftrightarrow>
            table_get (core_sessions c) t = Some s \<and> \<not> (t = token \<and> same_endpoint (ss_peer s) peer))"
  using assms
  by (auto simp: maintain_def sweep_get handle_close_def Let_def tbl.get_remove split: option.splits if_splits)

theorem release_exact_witness:
  "table_get (core_sessions (maintain \<lparr>wall_ns = 0, mono_ns = 99\<rparr> test_core)) 7 = Some test_session"
proof -
  have "table_wf (core_sessions test_core)" using test_core_ok by (simp add: core_ok_def)
  moreover have "table_get (core_sessions test_core) 7 = Some test_session \<and>
      \<not> is_idle_expired test_session 99 (saturating_ns (cfg_idle_timeout (core_config test_core)))"
    by code_simp
  ultimately show ?thesis using release_exact [of test_core "\<lparr>wall_ns = 0, mono_ns = 99\<rparr>" 7 test_session] by simp
qed

text \<open>A rate-limited echo is silent and moves no statistic: only the allowance's accounting
  and the idle deadline change.\<close>

theorem rate_limited_silent:
  assumes "table_get (core_sessions c) (eq_token q) = Some s" "same_endpoint (ss_peer s) peer"
    and "eq_datagram_len q \<le> cfg_max_packet_length (core_config c)"
    and "charge (ss_rate s) (mono_ns (eq_received_at q)) = Limited next"
  shows "\<exists>c'. handle_echo mac inp peer q c = (c', Ok None) \<and>
     table_get (core_sessions c') (eq_token q) =
       Some (s\<lparr>ss_rate := next, ss_lifetime := refreshed (ss_lifetime s) (mono_ns (eq_received_at q))\<rparr>) \<and>
     (rt_allowance next = 0 \<or> rt_burst next = 0)"
proof -
  have "\<not> cfg_max_packet_length (core_config c) < eq_datagram_len q" using assms(3) by simp
  then have "handle_echo mac inp peer q c =
      (c\<lparr>core_sessions := table_insert (eq_token q)
          (s\<lparr>ss_rate := next, ss_lifetime := refreshed (ss_lifetime s) (mono_ns (eq_received_at q))\<rparr>)
          (core_sessions c)\<rparr>, Ok None)"
    using assms by (simp add: handle_echo_def Let_def commit_rate_state_def commit_lifetime_state_def)
  moreover have "rt_allowance next = 0 \<or> rt_burst next = 0"
    using assms(4) by (auto simp: charge_def Let_def split: if_splits)
  ultimately show ?thesis by auto
qed

definition spent_session :: session where
  "spent_session = test_session\<lparr>ss_rate := (ss_rate test_session)\<lparr>rt_allowance := 0, rt_refilled_at_ns := 9\<rparr>\<rparr>"

definition spent_core :: server_core where
  "spent_core = (core_new plain_config)\<lparr>core_sessions := [(7, spent_session)]\<rparr>"

theorem rate_limited_silent_witness:
  "\<exists>c'. handle_echo zero_mac test_inputs test_peer test_echo spent_core = (c', Ok None) \<and>
     table_get (core_sessions c') (eq_token test_echo) =
       Some (spent_session\<lparr>ss_rate := ss_rate spent_session,
         ss_lifetime := refreshed (ss_lifetime spent_session) (mono_ns (eq_received_at test_echo))\<rparr>) \<and>
     (rt_allowance (ss_rate spent_session) = 0 \<or> rt_burst (ss_rate spent_session) = 0)"
  by (rule rate_limited_silent) code_simp+

end
