(* ===== verification/Server_Runtime.thy ===== *)
theory Server_Runtime
  imports Server_Core
begin

unbundle bit_operations_syntax

text \<open>
  The server's listener (\<open>irtt-server/src/runtime.rs\<close>), its receive and send paths on Linux
  (\<open>socket_io.rs\<close>, \<open>socket_io/ancillary.rs\<close>), the traffic class of replies
  (\<open>socket_options.rs\<close>) and the supervision of several listeners (\<open>set.rs\<close>). What the operating
  system and the scheduler do is an input: a script of what each \<open>select!\<close> resolved to, the
  messages \<open>recvmsg\<close> delivered, the answers to option calls and sends. The script of a run may end
  while the server is still serving.
\<close>

section \<open>Addresses\<close>

definition to_ipv4_mapped :: "128 word \<Rightarrow> 32 word option" where
  "to_ipv4_mapped address = (if drop_bit 32 address = 0xFFFF then Some (ucast address) else None)"

definition to_ipv6_mapped :: "32 word \<Rightarrow> 128 word" where
  "to_ipv6_mapped address = 0xFFFF00000000 OR ucast address"

fun is_wildcard :: "socket_addr \<Rightarrow> bool" where
  "is_wildcard (V4 address port) \<longleftrightarrow> address = 0"
| "is_wildcard (V6 address port flow scope) \<longleftrightarrow> address = 0 \<or> to_ipv4_mapped address = Some 0"

fun serves_ipv4 :: "socket_addr \<Rightarrow> bool" where
  "serves_ipv4 (V4 address port) \<longleftrightarrow> True"
| "serves_ipv4 (V6 address port flow scope) \<longleftrightarrow> to_ipv4_mapped address \<noteq> None"

fun marks_with_ipv4_option :: "socket_addr \<Rightarrow> bool" where
  "marks_with_ipv4_option (V4 address port) \<longleftrightarrow> True"
| "marks_with_ipv4_option (V6 address port flow scope) \<longleftrightarrow> to_ipv4_mapped address \<noteq> None"

fun is_ipv6 :: "socket_addr \<Rightarrow> bool" where
  "is_ipv6 (V4 _ _) = False"
| "is_ipv6 (V6 _ _ _ _) = True"

fun port_of :: "socket_addr \<Rightarrow> 16 word" where
  "port_of (V4 _ port) = port"
| "port_of (V6 _ port _ _) = port"

definition is_genuine_ipv6 :: "socket_addr \<Rightarrow> bool" where
  "is_genuine_ipv6 addr \<longleftrightarrow> is_ipv6 addr \<and> \<not> serves_ipv4 addr"

definition needs_ipv6_only :: "socket_addr \<Rightarrow> socket_addr list \<Rightarrow> bool" where
  "needs_ipv6_only addr requested \<longleftrightarrow>
     is_genuine_ipv6 addr \<and> port_of addr \<noteq> 0 \<and>
     list_ex (\<lambda>other. port_of other = port_of addr \<and> serves_ipv4 other) requested"

section \<open>Receiving\<close>

datatype reply_source = Bound | SourceV4 "32 word" | SourceV6 "128 word" u32

record received_datagram =
  rd_payload :: bytes
  rd_peer :: socket_addr
  rd_reply_source :: reply_source
  rd_kernel_rx_timestamp :: "system_time option"

datatype control_message =
    Ipv4PacketInfo "32 word"
  | Ipv6PacketInfo "128 word" u32
  | ScmTimestampns int int
  | OtherControl

text \<open>One message of \<open>recvmsg\<close>: the bytes that fit the buffer, the truncation flags, the source
  address when it is an internet one, and the control messages.\<close>

record recv_message =
  msg_payload :: bytes
  msg_trunc :: bool
  msg_ctrunc :: bool
  msg_address :: "socket_addr option"
  msg_control :: "control_message list"

record receive_metadata =
  md_reply_source :: "reply_source option"
  md_kernel_rx_timestamp :: "system_time option"

definition is_unusable :: "recv_message \<Rightarrow> bool \<Rightarrow> bool" where
  "is_unusable m require_destination \<longleftrightarrow> msg_trunc m \<or> require_destination \<and> msg_ctrunc m"

definition ipv4_reply_source :: "32 word \<Rightarrow> reply_source option" where
  "ipv4_reply_source address = (if address \<noteq> 0 then Some (SourceV4 address) else None)"

definition ipv6_reply_source :: "128 word \<Rightarrow> u32 \<Rightarrow> reply_source option" where
  "ipv6_reply_source address interface_index =
     (if address \<noteq> 0 then Some (SourceV6 address interface_index) else None)"

text \<open>\<open>UNIX_EPOCH.checked_add\<close> fails when the second count leaves 64-bit signed range.\<close>

definition system_time_from_timespec :: "int \<Rightarrow> int \<Rightarrow> system_time option" where
  "system_time_from_timespec tv_sec tv_nsec =
     (if tv_sec < 0 \<or> tv_nsec < 0 \<or> 2 ^ 32 \<le> tv_nsec then None
      else if 1000000000 \<le> tv_nsec then None
      else if tv_sec < 2 ^ 63 then Some (tv_sec * 1000000000 + tv_nsec) else None)"

fun record_control :: "control_message \<Rightarrow> receive_metadata \<Rightarrow> receive_metadata" where
  "record_control (Ipv4PacketInfo address) md = md\<lparr>md_reply_source := ipv4_reply_source address\<rparr>"
| "record_control (Ipv6PacketInfo address index) md = md\<lparr>md_reply_source := ipv6_reply_source address index\<rparr>"
| "record_control (ScmTimestampns tv_sec tv_nsec) md =
     md\<lparr>md_kernel_rx_timestamp := system_time_from_timespec tv_sec tv_nsec\<rparr>"
| "record_control OtherControl md = md"

text \<open>\<open>cmsgs\<close> refuses a control buffer that the kernel truncated.\<close>

definition receive_metadata_of :: "recv_message \<Rightarrow> receive_metadata" where
  "receive_metadata_of m =
     (let metadata = \<lparr>md_reply_source = None, md_kernel_rx_timestamp = None\<rparr>
      in if msg_ctrunc m then metadata else fold record_control (msg_control m) metadata)"

definition resolved_reply_source :: "reply_source option \<Rightarrow> bool \<Rightarrow> reply_source option" where
  "resolved_reply_source recovered require_destination =
     (if require_destination then recovered else Some Bound)"

definition received_datagram_of :: "recv_message \<Rightarrow> bool \<Rightarrow> received_datagram option" where
  "received_datagram_of m require_destination =
     (if is_unusable m require_destination then None
      else
        let metadata = receive_metadata_of m
        in case msg_address m of
             None \<Rightarrow> None
           | Some peer \<Rightarrow>
               map_option (\<lambda>source.
                 \<lparr>rd_payload = msg_payload m, rd_peer = peer, rd_reply_source = source,
                  rd_kernel_rx_timestamp = md_kernel_rx_timestamp metadata\<rparr>)
                 (resolved_reply_source (md_reply_source metadata) require_destination))"

text \<open>The readiness loop: \<open>WouldBlock\<close> and \<open>Interrupted\<close> retry (the yield after many interruptions
  only lets other tasks run); anything else is the result.\<close>

fun receive_ancillary ::
  "(io_error + recv_message) list \<Rightarrow> bool \<Rightarrow> (io_error + received_datagram option) poll" where
  "receive_ancillary [] require_destination = Pending"
| "receive_ancillary (Inl e # script) require_destination =
     (if is_would_block e \<or> is_interrupted e then receive_ancillary script require_destination
      else Ready (Err e))"
| "receive_ancillary (Inr m # script) require_destination = Ready (Ok (received_datagram_of m require_destination))"

text \<open>A datagram that fills the buffer may have been cut, so it is dropped.\<close>

definition receive ::
  "(io_error + recv_message) list \<Rightarrow> nat \<Rightarrow> bool \<Rightarrow> (io_error + received_datagram option) poll" where
  "receive script capacity select_reply_source =
     (case receive_ancillary script select_reply_source of
        Pending \<Rightarrow> Pending
      | Ready (Inl e) \<Rightarrow> Ready (Err e)
      | Ready (Inr received) \<Rightarrow>
          Ready (Ok (Option.bind received (\<lambda>d. if length (rd_payload d) < capacity then Some d else None))))"

section \<open>Sending\<close>

text \<open>What leaves the host: the reply, the socket's traffic class at that moment, the destination
  and the source the send asked for, with the interface of a link-local source.\<close>

record sent_datagram =
  sd_reply :: outbound_datagram
  sd_class :: u8
  sd_peer :: socket_addr
  sd_destination :: socket_addr
  sd_source :: reply_source

definition is_unicast_link_local :: "128 word \<Rightarrow> bool" where
  "is_unicast_link_local address \<longleftrightarrow> drop_bit 118 address = 0x3FA"

definition egress_interface_index :: "128 word \<Rightarrow> u32 \<Rightarrow> u32" where
  "egress_interface_index address interface_index =
     (if is_unicast_link_local address then interface_index else 0)"

fun as_ipv6_endpoint :: "socket_addr \<Rightarrow> socket_addr" where
  "as_ipv6_endpoint (V6 address port flow scope) = V6 address port flow scope"
| "as_ipv6_endpoint (V4 address port) = V6 (to_ipv6_mapped address) port 0 0"

text \<open>\<open>send_once\<close>: the destination and the control message of the \<open>sendmsg\<close> call.\<close>

fun send_arguments :: "socket_addr \<Rightarrow> reply_source \<Rightarrow> socket_addr \<times> reply_source" where
  "send_arguments peer Bound = (peer, Bound)"
| "send_arguments peer (SourceV4 address) = (peer, SourceV4 address)"
| "send_arguments peer (SourceV6 address interface_index) =
     (as_ipv6_endpoint peer, SourceV6 address (egress_interface_index address interface_index))"

section \<open>The listener\<close>

definition RECEIVE_BUFFER_LEN :: nat where "RECEIVE_BUFFER_LEN = 65536"

record listener_socket =
  ls_tos :: u8
  ls_tclass :: u8
  ls_sent :: "sent_datagram list"

record server =
  sv_socket :: listener_socket
  sv_core :: server_core
  sv_recv_buffer_len :: nat
  sv_listener_is_ipv4 :: bool
  sv_select_reply_source :: bool
  sv_socket_is_marked :: bool

datatype server_runtime_error =
    RtBind socket_addr io_error
  | RtLocalAddr io_error
  | RtWildcardSourceSelectionUnsupported socket_addr
  | RtSourceSelectionSetup socket_addr io_error
  | RtReceive io_error
  | RtCore server_error

definition with_core ::
  "io_error + socket_addr \<Rightarrow> io_answer \<Rightarrow> listener_socket \<Rightarrow> server_core \<Rightarrow> server_runtime_error + server" where
  "with_core local_addr configured socket core =
     bindr (map_err RtLocalAddr local_addr) (\<lambda>addr.
     bindr (if is_wildcard addr
            then case configured of None \<Rightarrow> Ok () | Some e \<Rightarrow> Err (RtSourceSelectionSetup addr e)
            else Ok ()) (\<lambda>_.
       Ok \<lparr>sv_socket = socket, sv_core = core, sv_recv_buffer_len = RECEIVE_BUFFER_LEN,
           sv_listener_is_ipv4 = marks_with_ipv4_option addr,
           sv_select_reply_source = is_wildcard addr, sv_socket_is_marked = False\<rparr>))"

definition from_socket ::
  "io_error + socket_addr \<Rightarrow> io_answer \<Rightarrow> listener_socket \<Rightarrow> server_config \<Rightarrow> server_runtime_error + server" where
  "from_socket local_addr configured socket config = with_core local_addr configured socket (core_new config)"

definition server_bind ::
  "socket_addr \<Rightarrow> io_error + listener_socket \<Rightarrow> io_error + socket_addr \<Rightarrow> io_answer \<Rightarrow> server_config \<Rightarrow>
     server_runtime_error + server" where
  "server_bind addr bound local_addr configured config =
     bindr (map_err (RtBind addr) bound) (\<lambda>socket. from_socket local_addr configured socket config)"

definition set_reply_traffic_class ::
  "bool \<Rightarrow> u8 \<Rightarrow> io_answer \<Rightarrow> listener_socket \<Rightarrow> (io_error + unit) \<times> listener_socket" where
  "set_reply_traffic_class is_ipv4 traffic_class answer s =
     (case answer of
        Some e \<Rightarrow> (Err e, s)
      | None \<Rightarrow> (Ok (), if is_ipv4 then s\<lparr>ls_tos := traffic_class\<rparr> else s\<lparr>ls_tclass := traffic_class\<rparr>))"

definition socket_class :: "server \<Rightarrow> u8" where
  "socket_class s = (if sv_listener_is_ipv4 s then ls_tos (sv_socket s) else ls_tclass (sv_socket s))"

definition may_send_unappliable :: "u8 \<Rightarrow> bool \<Rightarrow> bool" where
  "may_send_unappliable traffic_class socket_is_marked \<longleftrightarrow> traffic_class = 0 \<and> \<not> socket_is_marked"

definition prepare_reply_traffic_class :: "io_answer \<Rightarrow> u8 \<Rightarrow> server \<Rightarrow> server \<times> bool" where
  "prepare_reply_traffic_class answer traffic_class s =
     (case set_reply_traffic_class (sv_listener_is_ipv4 s) traffic_class answer (sv_socket s) of
        (Inr _, socket) \<Rightarrow> (s\<lparr>sv_socket := socket, sv_socket_is_marked := traffic_class \<noteq> 0\<rparr>, True)
      | (Inl _, socket) \<Rightarrow> (s\<lparr>sv_socket := socket\<rparr>, may_send_unappliable traffic_class (sv_socket_is_marked s)))"

text \<open>While a send is waiting, ticks run maintenance; the send completes or shutdown wins.\<close>

datatype send_end = SendShutdown | SendDone "io_error + nat"

record datagram_io =
  di_script :: "(io_error + recv_message) list"
  di_core :: core_inputs
  di_apply :: io_answer
  di_ticks :: "clock_sample list"
  di_end :: send_end

datatype select = SelShutdown | SelTick clock_sample | SelReceive datagram_io

definition server_send :: "outbound_datagram \<Rightarrow> socket_addr \<Rightarrow> reply_source \<Rightarrow> server \<Rightarrow> server" where
  "server_send reply peer source s =
     (let (destination, from) = send_arguments peer source
      in s\<lparr>sv_socket := (sv_socket s)\<lparr>ls_sent := ls_sent (sv_socket s) @
             [\<lparr>sd_reply = reply, sd_class = socket_class s, sd_peer = peer, sd_destination = destination,
               sd_source = from\<rparr>]\<rparr>\<rparr>)"

text \<open>One iteration of the loop: \<open>None\<close> continues, \<open>Some\<close> returns. A send that failed put nothing on
  the wire; a short one is treated as lost and changes nothing else.\<close>

fun run_step :: "mac_fun \<Rightarrow> select \<Rightarrow> server \<Rightarrow> server \<times> (server_runtime_error + unit) option" where
  "run_step mac SelShutdown s = (s, Some (Ok ()))"
| "run_step mac (SelTick now) s = (s\<lparr>sv_core := maintain now (sv_core s)\<rparr>, None)"
| "run_step mac (SelReceive io) s =
     (case receive (di_script io) (sv_recv_buffer_len s) (sv_select_reply_source s) of
        Pending \<Rightarrow> (s, None)
      | Ready (Inl e) \<Rightarrow> if is_interrupted e then (s, None) else (s, Some (Err (RtReceive e)))
      | Ready (Inr None) \<Rightarrow> (s, None)
      | Ready (Inr (Some received)) \<Rightarrow>
          (case handle_received_datagram mac (di_core io) (rd_peer received) (rd_payload received)
                  (rd_kernel_rx_timestamp received) (sv_core s) of
             (core, Inl e) \<Rightarrow> (s\<lparr>sv_core := core\<rparr>, Some (Err (RtCore e)))
           | (core, Inr None) \<Rightarrow> (s\<lparr>sv_core := core\<rparr>, None)
           | (core, Inr (Some reply)) \<Rightarrow>
               (case prepare_reply_traffic_class (di_apply io) (out_traffic_class reply) (s\<lparr>sv_core := core\<rparr>) of
                  (s1, False) \<Rightarrow> (s1, None)
                | (s1, True) \<Rightarrow>
                    let s2 = s1\<lparr>sv_core := fold maintain (di_ticks io) (sv_core s1)\<rparr>
                    in case di_end io of
                         SendShutdown \<Rightarrow> (s2, Some (Ok ()))
                       | SendDone (Inl e) \<Rightarrow> (s2, None)
                       | SendDone (Inr n) \<Rightarrow> (server_send reply (rd_peer received) (rd_reply_source received) s2, None))))"

fun server_run ::
  "mac_fun \<Rightarrow> select list \<Rightarrow> server \<Rightarrow> server \<times> (server_runtime_error + unit) option" where
  "server_run mac [] s = (s, None)"
| "server_run mac (sel # script) s =
     (case run_step mac sel s of (s', None) \<Rightarrow> server_run mac script s' | (s', Some r) \<Rightarrow> (s', Some r))"

section \<open>What a listener keeps\<close>

lemma record_control_source: "md_reply_source md \<noteq> Some Bound \<Longrightarrow> md_reply_source (record_control m md) \<noteq> Some Bound"
  by (cases m) (simp_all add: ipv4_reply_source_def ipv6_reply_source_def)

lemma metadata_source: "md_reply_source (receive_metadata_of m) \<noteq> Some Bound"
proof -
  have "md_reply_source (fold record_control ms md) \<noteq> Some Bound" if "md_reply_source md \<noteq> Some Bound" for ms md
    using that by (induction ms arbitrary: md) (auto simp: record_control_source)
  then show ?thesis by (simp add: receive_metadata_of_def Let_def)
qed

text \<open>An accepted datagram names the local address its reply leaves from exactly when the listener
  is a wildcard one, and was neither truncated nor missing its metadata.\<close>

lemma received_source:
  "received_datagram_of m select = Some d \<Longrightarrow> (rd_reply_source d = Bound) = (\<not> select) \<and> \<not> msg_trunc m \<and>
     rd_payload d = msg_payload m \<and> (select \<longrightarrow> \<not> msg_ctrunc m)"
  using metadata_source [of m]
  by (auto simp: received_datagram_of_def is_unusable_def resolved_reply_source_def Let_def
      split: option.split_asm if_split_asm)

lemma receive_ancillary_Ready:
  "receive_ancillary script select = Ready (Ok r) \<Longrightarrow> \<exists>m. Inr m \<in> set script \<and> r = received_datagram_of m select"
  by (induction script select rule: receive_ancillary.induct) (auto split: if_splits)

lemma receive_source:
  assumes "receive script capacity select = Ready (Ok (Some d))"
  shows "(rd_reply_source d = Bound) = (\<not> select) \<and> length (rd_payload d) < capacity"
proof -
  obtain r where r: "receive_ancillary script select = Ready (Ok r)"
      "Option.bind r (\<lambda>d. if length (rd_payload d) < capacity then Some d else None) = Some d"
    using assms by (auto simp: receive_def split: poll.split_asm sum.split_asm)
  obtain m where "r = received_datagram_of m select" using receive_ancillary_Ready [OF r(1)] by blast
  with r(2) received_source [of m select d] show ?thesis by (auto simp: bind_eq_Some_conv split: if_split_asm)
qed

definition reply_sound :: "bool \<Rightarrow> sent_datagram \<Rightarrow> bool" where
  "reply_sound select d \<longleftrightarrow> sd_class d = out_traffic_class (sd_reply d) \<and> (sd_source d = Bound) = (\<not> select)"

definition listener_ok :: "mac_fun \<Rightarrow> server_config \<Rightarrow> server \<Rightarrow> bool" where
  "listener_ok mac config s \<longleftrightarrow> reachable mac config (sv_core s) \<and>
     (sv_socket_is_marked s \<or> socket_class s = 0) \<and>
     list_all (reply_sound (sv_select_reply_source s)) (ls_sent (sv_socket s))"

lemma reachable_process:
  "reachable mac config c \<Longrightarrow> handle_received_datagram mac inp peer packet krx c = (c', r) \<Longrightarrow> reachable mac config c'"
  unfolding handle_received_datagram_def by (blast intro: reach_step step_datagram)

lemma reachable_tick: "reachable mac config c \<Longrightarrow> reachable mac config (maintain now c)"
  by (rule reach_step [OF _ step_maintain])

lemma reachable_maintain:
  "reachable mac config c \<Longrightarrow> reachable mac config (fold maintain ticks c)"
  by (induction ticks arbitrary: c) (auto intro: reachable_tick)

lemma prepare_class:
  assumes "prepare_reply_traffic_class answer tc s = (s', go)" "sv_socket_is_marked s \<or> socket_class s = 0"
  shows "sv_core s' = sv_core s \<and> sv_select_reply_source s' = sv_select_reply_source s \<and>
     sv_recv_buffer_len s' = sv_recv_buffer_len s \<and> sv_listener_is_ipv4 s' = sv_listener_is_ipv4 s \<and>
     ls_sent (sv_socket s') = ls_sent (sv_socket s) \<and>
     (sv_socket_is_marked s' \<or> socket_class s' = 0) \<and> (go \<longrightarrow> socket_class s' = tc)"
  using assms
  by (auto simp: prepare_reply_traffic_class_def set_reply_traffic_class_def may_send_unappliable_def socket_class_def
      split: option.split_asm if_split_asm)

lemma send_arguments_source: "(snd (send_arguments peer source) = Bound) = (source = Bound)"
  by (cases source) simp_all

lemma listener_core:
  "listener_ok mac config s \<Longrightarrow> reachable mac config core \<Longrightarrow> listener_ok mac config (s\<lparr>sv_core := core\<rparr>)"
  by (auto simp: listener_ok_def socket_class_def)

lemma listener_send:
  assumes "listener_ok mac config s" "socket_class s = out_traffic_class reply"
    "(source = Bound) = (\<not> sv_select_reply_source s)"
  shows "listener_ok mac config (server_send reply peer source s)"
  using assms send_arguments_source [of peer source]
  by (auto simp: listener_ok_def server_send_def socket_class_def reply_sound_def split_beta)

lemma listener_prepare:
  "listener_ok mac config s \<Longrightarrow> prepare_reply_traffic_class answer tc s = (s', go) \<Longrightarrow> listener_ok mac config s'"
  using prepare_class [of answer tc s s' go] by (simp add: listener_ok_def)

definition sends :: "server \<Rightarrow> nat" where
  "sends s = length (ls_sent (sv_socket s))"

fun is_receive :: "select \<Rightarrow> bool" where
  "is_receive (SelReceive _) = True"
| "is_receive _ = False"

lemma run_step_keeps:
  assumes "run_step mac sel s = (s', r)" "listener_ok mac config s"
  shows "listener_ok mac config s' \<and> sv_select_reply_source s' = sv_select_reply_source s \<and>
     sends s' \<le> sends s + of_bool (is_receive sel)"
proof (cases sel)
  case (SelReceive io)
  show ?thesis
  proof (cases "\<exists>d. receive (di_script io) (sv_recv_buffer_len s) (sv_select_reply_source s) = Ready (Ok (Some d))")
    case False
    with assms SelReceive show ?thesis
      by (auto split: poll.split_asm sum.split_asm option.split_asm if_split_asm)
  next
    case True
    then obtain d where d: "receive (di_script io) (sv_recv_buffer_len s) (sv_select_reply_source s) = Ready (Ok (Some d))"
      by blast
    obtain core q where core: "handle_received_datagram mac (di_core io) (rd_peer d) (rd_payload d)
        (rd_kernel_rx_timestamp d) (sv_core s) = (core, q)" by fastforce
    define s1 where "s1 = s\<lparr>sv_core := core\<rparr>"
    have ok1: "listener_ok mac config s1"
      using assms(2) reachable_process core by (auto simp: s1_def listener_ok_def socket_class_def)
    have s1: "sv_select_reply_source s1 = sv_select_reply_source s" "sends s1 = sends s" by (simp_all add: s1_def sends_def)
    show ?thesis
    proof (cases "\<exists>reply. q = Ok (Some reply)")
      case False
      with assms(1) SelReceive d core ok1 s1 show ?thesis by (auto simp: s1_def split: sum.split_asm option.split_asm)
    next
      case True
      then obtain reply where q: "q = Ok (Some reply)" by blast
      obtain s2 go where s2: "prepare_reply_traffic_class (di_apply io) (out_traffic_class reply) s1 = (s2, go)" by fastforce
      define s3 where "s3 = s2\<lparr>sv_core := fold maintain (di_ticks io) (sv_core s2)\<rparr>"
      note ok2 = listener_prepare [OF ok1 s2]
      have "reachable mac config (sv_core s2)" using ok2 by (simp add: listener_ok_def)
      from listener_core [OF ok2 reachable_maintain [OF this]] have ok3: "listener_ok mac config s3" by (simp add: s3_def)
      have marked: "go \<longrightarrow> socket_class s3 = out_traffic_class reply"
        and s3: "sv_select_reply_source s3 = sv_select_reply_source s" "sends s3 = sends s" "sends s2 = sends s"
          "sv_select_reply_source s2 = sv_select_reply_source s"
        using prepare_class [OF s2] ok1 s1 by (auto simp: s3_def sends_def listener_ok_def socket_class_def)
      have "(rd_reply_source d = Bound) = (\<not> sv_select_reply_source s3)" using receive_source [OF d] s3 by simp
      with ok3 marked have send: "go \<Longrightarrow> listener_ok mac config (server_send reply (rd_peer d) (rd_reply_source d) s3)"
        by (auto intro: listener_send)
      have sent: "sends (server_send reply peer src s3) = Suc (sends s)"
          "sv_select_reply_source (server_send reply peer src s3) = sv_select_reply_source s" for peer src
        using s3 by (simp_all add: server_send_def sends_def split_beta)
      have "(s', r) = (if \<not> go then (s2, None) else case di_end io of SendShutdown \<Rightarrow> (s3, Some (Ok ()))
          | SendDone (Inl e) \<Rightarrow> (s3, None)
          | SendDone (Inr n) \<Rightarrow> (server_send reply (rd_peer d) (rd_reply_source d) s3, None))"
        using assms(1) unfolding s3_def
        by (cases go) (simp_all add: SelReceive d core q s1_def [symmetric] s2 Let_def)
      with ok2 ok3 send sent s3 SelReceive show ?thesis by (auto split: if_split_asm send_end.split_asm sum.split_asm)
    qed
  qed
qed (use assms in \<open>auto simp: listener_ok_def socket_class_def sends_def intro: reachable_tick\<close>)

lemma server_run_keeps:
  "server_run mac script s = (s', r) \<Longrightarrow> listener_ok mac config s \<Longrightarrow>
     listener_ok mac config s' \<and> sv_select_reply_source s' = sv_select_reply_source s \<and>
     sends s' \<le> sends s + length (filter is_receive script)"
proof (induction script arbitrary: s)
  case (Cons sel script)
  obtain s1 r1 where s1: "run_step mac sel s = (s1, r1)" by fastforce
  note step = run_step_keeps [OF s1 Cons.prems(2)]
  show ?case
  proof (cases r1)
    case None
    with Cons.prems(1) s1 Cons.IH [of s1] step show ?thesis by (auto split: if_splits)
  next
    case (Some q)
    with Cons.prems(1) s1 step show ?thesis by (auto split: if_splits)
  qed
qed (simp add: sends_def)

section \<open>Several listeners\<close>

datatype server_set_error =
    NoListeners
  | ListenerSetup socket_addr server_runtime_error
  | ListenerRun socket_addr server_runtime_error
  | ListenerStopped socket_addr
  | ListenerTask "socket_addr option"

record server_set =
  st_servers :: "server list"
  st_local_addrs :: "socket_addr list"

text \<open>The operating system's part in one bind: the socket (IPv6-only or not), its address, the
  answer to the metadata option and the address asked for again.\<close>

record listener_io =
  li_bound :: "bool \<Rightarrow> io_error + listener_socket"
  li_local_addr :: "io_error + socket_addr"
  li_configured :: io_answer
  li_reported :: "io_error + socket_addr"

definition bind_listener ::
  "listener_io \<Rightarrow> socket_addr \<Rightarrow> server_config \<Rightarrow> bool \<Rightarrow> server_runtime_error + server" where
  "bind_listener io addr config ipv6_only =
     (if \<not> ipv6_only then server_bind addr (li_bound io False) (li_local_addr io) (li_configured io) config
      else bindr (map_err (RtBind addr) (li_bound io True))
             (\<lambda>socket. from_socket (li_local_addr io) (li_configured io) socket config))"

fun bind_all ::
  "socket_addr list \<Rightarrow> server_config \<Rightarrow> (socket_addr \<times> listener_io) list \<Rightarrow>
     server_set_error + (server list \<times> socket_addr list)" where
  "bind_all requested config [] = Ok ([], [])"
| "bind_all requested config ((addr, io) # rest) =
     bindr (map_err (ListenerSetup addr) (bind_listener io addr config (needs_ipv6_only addr requested))) (\<lambda>server.
     bindr (map_err (\<lambda>e. ListenerSetup addr (RtLocalAddr e)) (li_reported io)) (\<lambda>local_addr.
     bindr (bind_all requested config rest) (\<lambda>(servers, addrs).
       Ok (server # servers, local_addr # addrs))))"

definition set_bind ::
  "(socket_addr \<times> listener_io) list \<Rightarrow> server_config \<Rightarrow> server_set_error + server_set" where
  "set_bind listeners config =
     (if listeners = [] then Err NoListeners
      else bindr (bind_all (map fst listeners) config listeners)
             (\<lambda>(servers, addrs). Ok \<lparr>st_servers = servers, st_local_addrs = addrs\<rparr>))"

definition or_first :: "'a option \<Rightarrow> 'a \<Rightarrow> 'a option" where
  "or_first current new = (case current of None \<Rightarrow> Some new | Some x \<Rightarrow> Some x)"

text \<open>The supervision loop: what each \<open>select!\<close> resolved to. A joined task returned its address and
  outcome, or did not complete.\<close>

datatype joined = JoinedOutcome socket_addr "server_runtime_error + unit" | JoinedFailure "socket_addr option"

datatype set_select = SetShutdown | SetJoined joined

record supervision =
  sup_listeners :: nat
  sup_shutting_down :: bool
  sup_failure :: "server_set_error option"
  sup_shutdown_sent :: bool

fun listener_failure :: "bool \<Rightarrow> joined \<Rightarrow> server_set_error option" where
  "listener_failure shutting_down (JoinedOutcome addr (Inr _)) =
     (if shutting_down then None else Some (ListenerStopped addr))"
| "listener_failure shutting_down (JoinedOutcome addr (Inl source)) = Some (ListenerRun addr source)"
| "listener_failure shutting_down (JoinedFailure addr) = Some (ListenerTask addr)"

text \<open>One iteration: a shutdown branch that is disabled, and a join of an empty set (which breaks the
  loop instead), cannot be chosen.\<close>

fun set_step :: "set_select \<Rightarrow> supervision \<Rightarrow> supervision option" where
  "set_step SetShutdown s =
     (if sup_shutting_down s then None else Some (s\<lparr>sup_shutting_down := True, sup_shutdown_sent := True\<rparr>))"
| "set_step (SetJoined joined) s =
     (case sup_listeners s of
        0 \<Rightarrow> None
      | Suc n \<Rightarrow> Some
          (let s = s\<lparr>sup_listeners := n\<rparr>
           in case listener_failure (sup_shutting_down s) joined of
                None \<Rightarrow> s
              | Some failure \<Rightarrow>
                  s\<lparr>sup_failure := or_first (sup_failure s) failure, sup_shutting_down := True,
                    sup_shutdown_sent := sup_shutdown_sent s \<or> \<not> sup_shutting_down s\<rparr>))"

fun set_run :: "set_select list \<Rightarrow> supervision \<Rightarrow> (supervision \<times> (server_set_error + unit) option) option" where
  "set_run [] s =
     Some (s, if sup_listeners s = 0 then Some (case sup_failure s of None \<Rightarrow> Ok () | Some e \<Rightarrow> Err e) else None)"
| "set_run (sel # script) s = Option.bind (set_step sel s) (set_run script)"

definition supervise :: "nat \<Rightarrow> supervision" where
  "supervise n = \<lparr>sup_listeners = n, sup_shutting_down = False, sup_failure = None, sup_shutdown_sent = False\<rparr>"

text \<open>The failures of a script, in the order they are joined.\<close>

fun failures :: "bool \<Rightarrow> set_select list \<Rightarrow> server_set_error list" where
  "failures shutting_down [] = []"
| "failures shutting_down (SetShutdown # script) = failures True script"
| "failures shutting_down (SetJoined joined # script) =
     (case listener_failure shutting_down joined of
        None \<Rightarrow> failures shutting_down script
      | Some e \<Rightarrow> e # failures True script)"

fun is_joined :: "set_select \<Rightarrow> bool" where
  "is_joined (SetJoined _) = True"
| "is_joined SetShutdown = False"

lemma clean_join: "listener_failure False joined \<noteq> None"
  by (cases "(False, joined)" rule: listener_failure.cases) auto

lemma set_run_spec:
  "set_run script s = Some (s', r) \<Longrightarrow> sup_shutting_down s = sup_shutdown_sent s \<Longrightarrow>
     sup_listeners s = length (filter is_joined script) + sup_listeners s' \<and>
     sup_shutting_down s' = sup_shutdown_sent s' \<and>
     (sup_shutting_down s \<or> list_ex is_joined script \<longrightarrow> sup_shutdown_sent s') \<and>
     sup_failure s' = (case sup_failure s of
         None \<Rightarrow> (case failures (sup_shutting_down s) script of [] \<Rightarrow> None | e # _ \<Rightarrow> Some e) | Some e \<Rightarrow> Some e) \<and>
     r = (if sup_listeners s' = 0 then Some (case sup_failure s' of None \<Rightarrow> Ok () | Some e \<Rightarrow> Err e) else None)"
proof (induction script arbitrary: s)
  case Nil
  then show ?case by (auto split: option.split)
next
  case (Cons sel script)
  then obtain s1 where s1: "set_step sel s = Some s1" "set_run script s1 = Some (s', r)"
    by (auto simp: bind_eq_Some_conv)
  show ?case
  proof (cases sel)
    case SetShutdown
    with s1(1) have "s1 = s\<lparr>sup_shutting_down := True, sup_shutdown_sent := True\<rparr>" "\<not> sup_shutting_down s"
      by (auto split: if_splits)
    with Cons.IH [OF s1(2)] SetShutdown show ?thesis by (cases "sup_failure s") simp_all
  next
    case (SetJoined joined)
    then obtain n where n: "sup_listeners s = Suc n" using s1(1) by (cases "sup_listeners s") auto
    show ?thesis
    proof (cases "listener_failure (sup_shutting_down s) joined")
      case None
      with clean_join [of joined] have "sup_shutting_down s" by (cases "sup_shutting_down s") auto
      moreover have "s1 = s\<lparr>sup_listeners := n\<rparr>" using s1(1) SetJoined n None by (simp add: Let_def)
      ultimately show ?thesis using Cons.IH [OF s1(2)] Cons.prems(2) SetJoined n None
        by (cases "sup_failure s") simp_all
    next
      case (Some e)
      have "s1 = s\<lparr>sup_listeners := n, sup_failure := or_first (sup_failure s) e, sup_shutting_down := True,
          sup_shutdown_sent := True\<rparr>"
        using s1(1) SetJoined n Some Cons.prems(2) by (simp add: Let_def)
      then show ?thesis using Cons.IH [OF s1(2)] SetJoined n Some
        by (cases "sup_failure s") (simp_all add: or_first_def)
    qed
  qed
qed

section \<open>Properties\<close>

definition fresh_socket :: listener_socket where
  "fresh_socket = \<lparr>ls_tos = 0, ls_tclass = 0, ls_sent = []\<rparr>"


text \<open>A wildcard listener that answered an open request on one of its addresses.\<close>

definition listener_test_io :: datagram_io where
  "listener_test_io =
     \<lparr>di_script = [Err 11, Ok \<lparr>msg_payload = open_packet, msg_trunc = False, msg_ctrunc = False,
        msg_address = Some test_peer, msg_control = [ScmTimestampns 5 7, Ipv4PacketInfo 3232235777]\<rparr>],
      di_core = test_inputs, di_apply = None, di_ticks = [], di_end = SendDone (Ok 40)\<rparr>"

definition listener_test_start :: server where
  "listener_test_start = projr (server_bind (V4 0 2112) (Ok fresh_socket) (Ok (V4 0 2112)) None plain_config)"

definition listener_test_run :: "server \<times> (server_runtime_error + unit) option" where
  "listener_test_run = server_run zero_mac [SelReceive listener_test_io, SelTick \<lparr>wall_ns = 0, mono_ns = 5\<rparr>] listener_test_start"

lemma listener_test_bound:
  "server_bind (V4 0 2112) (Ok fresh_socket) (Ok (V4 0 2112)) None plain_config = Ok listener_test_start"
  by (simp add: listener_test_start_def server_bind_def from_socket_def with_core_def)


fun ends_run :: "mac_fun \<Rightarrow> server \<Rightarrow> select \<Rightarrow> server_runtime_error + unit \<Rightarrow> bool" where
  "ends_run mac s SelShutdown r \<longleftrightarrow> r = Ok ()"
| "ends_run mac s (SelTick _) r \<longleftrightarrow> False"
| "ends_run mac s (SelReceive io) r \<longleftrightarrow>
     (case receive (di_script io) (sv_recv_buffer_len s) (sv_select_reply_source s) of
        Ready (Inl e) \<Rightarrow> \<not> is_interrupted e \<and> r = Err (RtReceive e)
      | Ready (Inr (Some d)) \<Rightarrow>
          (case snd (handle_received_datagram mac (di_core io) (rd_peer d) (rd_payload d)
                       (rd_kernel_rx_timestamp d) (sv_core s)) of
             Inl e \<Rightarrow> r = Err (RtCore e)
           | Inr reply \<Rightarrow> reply \<noteq> None \<and> di_end io = SendShutdown \<and> r = Ok ())
      | _ \<Rightarrow> False)"

lemma run_step_ends: "run_step mac sel s = (s', Some r) \<Longrightarrow> ends_run mac s sel r"
  by (cases sel)
     (auto simp: Let_def split: poll.split_asm sum.split_asm option.split_asm if_split_asm prod.split_asm bool.split_asm
       send_end.split_asm)

text \<open>The end of a listener. The loop ends only because shutdown was requested, because a
  receive failed with an error that is not an interruption, or because the core failed; a failed or
  short send, a refused traffic class or a dropped datagram never ends it.\<close>

theorem listener_ends:
  assumes "server_run mac script s0 = (s', Some r)"
  shows "\<exists>before sel after s. script = before @ sel # after \<and> server_run mac before s0 = (s, None) \<and> ends_run mac s sel r"
  using assms
proof (induction script arbitrary: s0)
  case (Cons sel script)
  obtain s1 r1 where s1: "run_step mac sel s0 = (s1, r1)" by fastforce
  show ?case
  proof (cases r1)
    case None
    with Cons.prems s1 Cons.IH [of s1] obtain before sel' after s where
      "script = before @ sel' # after" "server_run mac before s1 = (s, None)" "ends_run mac s sel' r" by auto
    with s1 None show ?thesis
      by - (rule exI [of _ "sel # before"], rule exI [of _ sel'], rule exI [of _ after], rule exI [of _ s], simp)
  next
    case (Some q)
    with Cons.prems s1 run_step_ends [of mac sel s0 s1 q] show ?thesis
      by - (rule exI [of _ "[]"], rule exI [of _ sel], rule exI [of _ script], rule exI [of _ s0], simp)
  qed
qed simp

theorem listener_ends_witness:
  "\<exists>before sel after s. [SelTick \<lparr>wall_ns = 0, mono_ns = 5\<rparr>, SelShutdown] = before @ sel # after \<and>
     server_run zero_mac before listener_test_start = (s, None) \<and> ends_run zero_mac s sel (Ok ())"
  by (rule listener_ends) simp

text \<open>C28: supervision. A set of listeners returns only after every listener task was joined; it
  returns success exactly when none failed and none stopped before shutdown was asked for, and the
  first failure otherwise; in either case every listener was told to shut down.\<close>

theorem set_supervision:
  assumes "set_run script (supervise n) = Some (s, Some r)"
  shows "length (filter is_joined script) = n \<and> (sup_shutdown_sent s \<or> n = 0) \<and>
     r = (case failures False script of [] \<Rightarrow> Ok () | e # _ \<Rightarrow> Err e)"
proof -
  note spec = set_run_spec [OF assms, unfolded supervise_def, simplified]
  then have done_all: "sup_listeners s = 0" by (auto split: if_splits)
  have "list_ex is_joined script \<longleftrightarrow> n \<noteq> 0"
    using spec done_all by (auto simp: list_ex_iff filter_empty_conv simp flip: length_greater_0_conv)
  with spec done_all show ?thesis by (auto split: list.splits)
qed

theorem set_supervision_witness:
  "length (filter is_joined [SetJoined (JoinedOutcome (V4 1 2) (Ok ())),
     SetJoined (JoinedOutcome (V4 1 3) (Err (RtReceive 5)))]) = 2 \<and>
   (case failures False [SetJoined (JoinedOutcome (V4 1 2) (Ok ())), SetJoined (JoinedOutcome (V4 1 3) (Err (RtReceive 5)))] of
      [] \<Rightarrow> Ok () | e # _ \<Rightarrow> Err e) = Err (ListenerStopped (V4 1 2))"
proof -
  have "set_run [SetJoined (JoinedOutcome (V4 1 2) (Ok ())), SetJoined (JoinedOutcome (V4 1 3) (Err (RtReceive 5)))] (supervise 2) =
      Some (\<lparr>sup_listeners = 0, sup_shutting_down = True, sup_failure = Some (ListenerStopped (V4 1 2)), sup_shutdown_sent = True\<rparr>,
        Some (Err (ListenerStopped (V4 1 2))))"
    by code_simp
  from set_supervision [OF this] show ?thesis by auto
qed

end
