(* ===== verification/Client_Config.thy ===== *)
theory Client_Config
  imports Params
begin

unbundle bit_operations_syntax

text \<open>
  The static part of \<open>irtt-client\<close>: its error type (\<open>error.rs\<close>), authentication
  (\<open>auth.rs\<close>), configuration (\<open>config.rs\<close>) and the translation of a validated request into
  wire parameters (\<open>params_from_request\<close> and its helpers in \<open>session/machine.rs\<close>,
  \<open>dscp_codepoint_to_traffic_class\<close> of \<open>socket_options.rs\<close>). Operating-system errors are kept
  as their code; socket fields are those of a Linux build.
\<close>

section \<open>Text\<close>

text \<open>\<open>format!\<close> of integers: \<open>{}\<close> is base ten, \<open>{:#x}\<close> base sixteen with a prefix.\<close>

definition digit :: "nat \<Rightarrow> char" where
  "digit d = char_of (if d < 10 then 48 + d else 87 + d)"

function in_base :: "nat \<Rightarrow> nat \<Rightarrow> string" where
  "in_base b n = (if b < 2 \<or> n < b then [digit n] else in_base b (n div b) @ [digit (n mod b)])"
  by pat_completeness auto

termination in_base
  by (relation "measure snd") auto

declare in_base.simps [simp del]

abbreviation decimal :: "nat \<Rightarrow> string" where
  "decimal \<equiv> in_base 10"

definition hex_prefixed :: "nat \<Rightarrow> string" where
  "hex_prefixed n = ''0x'' @ in_base 16 n"

section \<open>Errors (\<open>error.rs\<close>)\<close>

datatype client_error =
    NoTokioRuntime
  | Resolve string
  | Socket io_error
  | SocketOption string socket_addr io_error
  | ReadTimeoutRestore io_error
  | Protocol proto_error
  | OpenTimeout
  | OpenTimeoutTooSmall duration duration
  | NoOpenTimeouts
  | ServerRejected
  | UnexpectedNoTestReply
  | NonZeroNoTestToken u64
  | ProtocolVersionMismatch i64 i64
  | ClientZeroToken
  | NegotiationRejected string
  | NotOpen
  | AlreadyOpen
  | AlreadyCompleted
  | AlreadyClosed
  | DurationOverflow
  | CounterOverflow string
  | PendingLimitExceeded nat
  | PendingSequenceCollision u32
  | StalePreparedProbe u32 u32
  | AllocationFailed string
  | DatagramLengthMismatch nat nat
  | InvalidConfig string

section \<open>Authentication and configuration (\<open>auth.rs\<close>, \<open>config.rs\<close>)\<close>

datatype authentication = Unauthenticated | Hmac bytes

fun auth_hmac_key :: "authentication \<Rightarrow> bytes option" where
  "auth_hmac_key Unauthenticated = None"
| "auth_hmac_key (Hmac key) = Some key"

definition MAX_DSCP_CODEPOINT :: u8 where "MAX_DSCP_CODEPOINT = 63"
definition MAX_UDP_PAYLOAD_LENGTH :: u32 where "MAX_UDP_PAYLOAD_LENGTH = 65507"
definition DEFAULT_DURATION :: duration where "DEFAULT_DURATION = 3 * 1000000000"
definition DEFAULT_INTERVAL :: duration where "DEFAULT_INTERVAL = 1000000000"
definition DEFAULT_OPEN_TIMEOUTS :: "duration list" where
  "DEFAULT_OPEN_TIMEOUTS = [1000000000, 2 * 1000000000, 4 * 1000000000, 8 * 1000000000]"
definition MIN_OPEN_TIMEOUT :: duration where "MIN_OPEN_TIMEOUT = 200 * 1000000"
definition DEFAULT_PROBE_TIMEOUT :: duration where "DEFAULT_PROBE_TIMEOUT = 4 * 1000000000"
definition DEFAULT_MAX_PENDING :: nat where "DEFAULT_MAX_PENDING = 4096"

datatype address_family = AfAny | AfIpv4 | AfIpv6
datatype negotiation_policy = Strict | Loose
datatype run_mode = RunNormal | RunNoTest

record session_request =
  rq_duration :: "duration option"
  rq_interval :: duration
  rq_length :: u32
  rq_received_stats :: received_stats
  rq_stamp_at :: stamp_at
  rq_clock :: clock
  rq_dscp :: u8
  rq_server_fill :: "bytes option"
  rq_run_mode :: run_mode

definition session_request_default :: session_request where
  "session_request_default =
     \<lparr>rq_duration = Some DEFAULT_DURATION, rq_interval = DEFAULT_INTERVAL, rq_length = 0,
      rq_received_stats = RsBoth, rq_stamp_at = StBoth, rq_clock = ClkBoth, rq_dscp = 0,
      rq_server_fill = None, rq_run_mode = RunNormal\<rparr>"

record open_policy =
  op_timeouts :: "duration list"
  op_negotiation :: negotiation_policy

definition open_policy_default :: open_policy where
  "open_policy_default = \<lparr>op_timeouts = DEFAULT_OPEN_TIMEOUTS, op_negotiation = Strict\<rparr>"

fun validate_timeouts :: "duration list \<Rightarrow> client_error + unit" where
  "validate_timeouts [] = Ok ()"
| "validate_timeouts (timeout # rest) =
     (if timeout < MIN_OPEN_TIMEOUT then Err (OpenTimeoutTooSmall timeout MIN_OPEN_TIMEOUT)
      else validate_timeouts rest)"

definition validate_open_policy :: "open_policy \<Rightarrow> client_error + unit" where
  "validate_open_policy p =
     (if op_timeouts p = [] then Err NoOpenTimeouts else validate_timeouts (op_timeouts p))"

record socket_config =
  sc_bind_addr :: "socket_addr option"
  sc_bind_to_device :: "string option"
  sc_mark :: "u32 option"
  sc_ttl :: "u32 option"

definition socket_config_default :: socket_config where
  "socket_config_default =
     \<lparr>sc_bind_addr = None, sc_bind_to_device = None, sc_mark = None, sc_ttl = None\<rparr>"

record client_config =
  cc_address_family :: address_family
  cc_socket :: socket_config
  cc_request :: session_request
  cc_open :: open_policy
  cc_auth :: authentication
  cc_probe_timeout :: duration
  cc_max_pending_probes :: nat

definition client_config_default :: client_config where
  "client_config_default =
     \<lparr>cc_address_family = AfAny, cc_socket = socket_config_default,
      cc_request = session_request_default, cc_open = open_policy_default,
      cc_auth = Unauthenticated, cc_probe_timeout = DEFAULT_PROBE_TIMEOUT,
      cc_max_pending_probes = DEFAULT_MAX_PENDING\<rparr>"

section \<open>From a request to wire parameters\<close>

definition dscp_codepoint_to_traffic_class :: "u8 \<Rightarrow> client_error + u32" where
  "dscp_codepoint_to_traffic_class codepoint =
     (if codepoint > MAX_DSCP_CODEPOINT
      then Err (InvalidConfig (''dscp must be <= '' @ decimal (unat MAX_DSCP_CODEPOINT)))
      else Ok (push_bit 2 (ucast codepoint)))"

definition validate_request :: "session_request \<Rightarrow> client_error + unit" where
  "validate_request r =
     (if rq_duration r = Some 0 then
        Err (InvalidConfig ''duration must be greater than zero; use None for continuous mode'')
      else if rq_interval r = 0 then Err (InvalidConfig ''interval must be greater than zero'')
      else if rq_clock r = ClkUnspecified then
        Err (InvalidConfig ''clock must be wall, monotonic, or both'')
      else if rq_dscp r > MAX_DSCP_CODEPOINT then
        Err (InvalidConfig (''dscp must be <= '' @ decimal (unat MAX_DSCP_CODEPOINT)))
      else if rq_length r > MAX_UDP_PAYLOAD_LENGTH then
        Err (InvalidConfig (''packet length must be <= '' @ decimal (unat MAX_UDP_PAYLOAD_LENGTH)))
      else
        (case rq_server_fill r of
           Some fill \<Rightarrow>
             let len = length fill
             in if len = 0 then Err (InvalidConfig ''server_fill must not be empty'')
                else if len > MAX_SERVER_FILL_BYTES then
                  Err (InvalidConfig (''server_fill must be <= '' @ decimal MAX_SERVER_FILL_BYTES @
                         '' bytes, got '' @ decimal len))
                else Ok ()
         | None \<Rightarrow> Ok ()))"

definition config_duration_to_ns :: "string \<Rightarrow> duration \<Rightarrow> client_error + i64" where
  "config_duration_to_ns field d =
     (if int d \<le> i64_max then Ok (word_of_int (int d))
      else Err (InvalidConfig (field @ '' is too large to encode as nanoseconds'')))"

definition params_from_request :: "session_request \<Rightarrow> client_error + params" where
  "params_from_request r =
     bindr (validate_request r) (\<lambda>_.
     bindr (case rq_duration r of Some d \<Rightarrow> config_duration_to_ns ''duration'' d | None \<Rightarrow> Ok 0) (\<lambda>duration.
     bindr (config_duration_to_ns ''interval'' (rq_interval r)) (\<lambda>interval.
     bindr (dscp_codepoint_to_traffic_class (rq_dscp r)) (\<lambda>traffic_class.
       Ok \<lparr>protocol_version = PROTOCOL_VERSION, duration_ns = duration, interval_ns = interval,
           length_param = ucast (rq_length r), received_stats = rq_received_stats r,
           stamp_at = rq_stamp_at r, clock = rq_clock r, dscp = ucast traffic_class,
           server_fill = rq_server_fill r\<rparr>))))"

section \<open>Lemmas\<close>

text \<open>The wire parameters a client can ask for.\<close>

definition requestable :: "params \<Rightarrow> bool" where
  "requestable p \<longleftrightarrow>
     protocol_version p = PROTOCOL_VERSION \<and> 0 \<le> sint (duration_ns p) \<and> 0 < sint (interval_ns p) \<and>
     0 \<le> sint (length_param p) \<and> sint (length_param p) \<le> 65507 \<and> clock p \<noteq> ClkUnspecified \<and>
     0 \<le> sint (dscp p) \<and> sint (dscp p) \<le> 252 \<and> sint (dscp p) mod 4 = 0 \<and>
     (case server_fill p of None \<Rightarrow> True | Some f \<Rightarrow> f \<noteq> [] \<and> length f \<le> MAX_SERVER_FILL_BYTES)"

lemma sint_ucast_u32: "sint (ucast (x :: u32) :: i64) = uint x"
proof -
  have "uint x < 4294967296" "0 \<le> uint x" using uint_lt2p [of x] by simp_all
  moreover have "i64_min = - 9223372036854775808" "i64_max = 9223372036854775807"
    by (simp_all add: i64_min_def i64_max_def)
  ultimately have "in_i64 (uint x)" unfolding in_i64_def by linarith
  then have "sint (word_of_int (uint x) :: i64) = uint x" by (rule sint_word_of_int_i64)
  then show ?thesis by (simp only: ucast_eq)
qed

lemma uint_shifted_dscp:
  assumes "(d :: u8) \<le> 63"
  shows "uint (push_bit 2 (ucast d) :: u32) = 4 * uint d"
proof -
  have "uint d \<le> 63" using assms by (simp add: word_le_def)
  then show ?thesis
    by (simp add: push_bit_eq_mult uint_word_ariths uint_up_ucast is_up_def source_size_def
        target_size_def word_size mult.commute)
qed

lemma config_duration_Ok:
  assumes "config_duration_to_ns f d = Ok n"
  shows "sint n = int d"
proof -
  have "int d \<le> i64_max" and n: "n = word_of_int (int d)"
    using assms by (auto simp: config_duration_to_ns_def split: if_splits)
  then have "in_i64 (int d)" by (simp add: in_i64_def i64_min_def)
  then show ?thesis unfolding n by (rule sint_word_of_int_i64)
qed

lemma config_duration_Err:
  "config_duration_to_ns f d = Err e \<Longrightarrow> int d > i64_max \<and> (\<exists>reason. e = InvalidConfig reason)"
  by (auto simp: config_duration_to_ns_def split: if_splits)

lemma validate_request_Ok:
  "validate_request r = Ok u \<Longrightarrow>
     rq_duration r \<noteq> Some 0 \<and> rq_interval r \<noteq> 0 \<and> rq_clock r \<noteq> ClkUnspecified \<and>
     rq_dscp r \<le> 63 \<and> rq_length r \<le> 65507 \<and>
     (case rq_server_fill r of None \<Rightarrow> True | Some f \<Rightarrow> f \<noteq> [] \<and> length f \<le> MAX_SERVER_FILL_BYTES)"
  by (auto simp: validate_request_def MAX_DSCP_CODEPOINT_def MAX_UDP_PAYLOAD_LENGTH_def not_less Let_def
      split: if_splits option.splits)

lemma validate_request_Err:
  "validate_request r = Err e \<Longrightarrow>
     (\<exists>reason. e = InvalidConfig reason) \<and>
     (rq_duration r = Some 0 \<or> rq_interval r = 0 \<or> rq_clock r = ClkUnspecified \<or> rq_dscp r > 63 \<or>
      rq_length r > 65507 \<or>
      (\<exists>f. rq_server_fill r = Some f \<and> (f = [] \<or> length f > MAX_SERVER_FILL_BYTES)))"
  by (auto simp: validate_request_def MAX_DSCP_CODEPOINT_def MAX_UDP_PAYLOAD_LENGTH_def not_less Let_def
      split: if_splits option.splits)

lemma dscp_class_Ok: "d \<le> 63 \<Longrightarrow> dscp_codepoint_to_traffic_class d = Ok (push_bit 2 (ucast d))"
  by (simp add: dscp_codepoint_to_traffic_class_def MAX_DSCP_CODEPOINT_def not_less [symmetric])

lemma params_from_request_fields:
  assumes "params_from_request r = Ok p"
  shows "validate_request r = Ok ()"
    "sint (duration_ns p) = (case rq_duration r of None \<Rightarrow> 0 | Some d \<Rightarrow> int d)"
    "sint (interval_ns p) = int (rq_interval r)"
    "sint (length_param p) = uint (rq_length r)"
    "sint (dscp p) = 4 * uint (rq_dscp r)"
    "protocol_version p = PROTOCOL_VERSION" "received_stats p = rq_received_stats r"
    "stamp_at p = rq_stamp_at r" "clock p = rq_clock r" "server_fill p = rq_server_fill r"
proof -
  show v: "validate_request r = Ok ()" using assms by (auto simp: params_from_request_def result_simps)
  have dscp: "rq_dscp r \<le> 63" using validate_request_Ok [OF v] by simp
  obtain du iv where du: "(case rq_duration r of Some d \<Rightarrow> config_duration_to_ns ''duration'' d | None \<Rightarrow> Ok 0) = Ok du"
    and iv: "config_duration_to_ns ''interval'' (rq_interval r) = Ok iv"
    and p: "p = \<lparr>protocol_version = PROTOCOL_VERSION, duration_ns = du, interval_ns = iv,
           length_param = ucast (rq_length r), received_stats = rq_received_stats r,
           stamp_at = rq_stamp_at r, clock = rq_clock r, dscp = ucast (push_bit 2 (ucast (rq_dscp r)) :: u32),
           server_fill = rq_server_fill r\<rparr>"
    using assms v dscp_class_Ok [OF dscp] by (auto simp: params_from_request_def result_simps)
  show "sint (duration_ns p) = (case rq_duration r of None \<Rightarrow> 0 | Some d \<Rightarrow> int d)"
    using du config_duration_Ok by (auto simp: p split: option.splits)
  show "sint (interval_ns p) = int (rq_interval r)" using config_duration_Ok [OF iv] by (simp add: p)
  show "sint (dscp p) = 4 * uint (rq_dscp r)" using uint_shifted_dscp [OF dscp] by (simp add: p sint_ucast_u32)
  show "sint (length_param p) = uint (rq_length r)" "protocol_version p = PROTOCOL_VERSION"
    "received_stats p = rq_received_stats r" "stamp_at p = rq_stamp_at r" "clock p = rq_clock r"
    "server_fill p = rq_server_fill r"
    by (simp_all add: p sint_ucast_u32)
qed

lemma params_from_request_requestable:
  assumes "params_from_request r = Ok p"
  shows "requestable p"
proof -
  note f = params_from_request_fields [OF assms] and v = validate_request_Ok [OF f(1)]
  have "uint (rq_length r) \<le> 65507" "uint (rq_dscp r) \<le> 63" using v by (simp_all add: word_le_def)
  with f v show ?thesis
    by (simp add: requestable_def split: option.splits)
qed

section \<open>Properties\<close>

text \<open>Building wire parameters. A request is accepted exactly when its durations are positive
  and fit in 63 bits, its clock is specified, its codepoint, length and fill are in range; the
  parameters then carry the requested values, the codepoint moved to the upper six bits of the
  traffic class and continuous mode as a zero duration. Errors name the configuration.\<close>

theorem params_from_request_spec:
  "case params_from_request r of
     Inr p \<Rightarrow>
       requestable p \<and> rq_duration r \<noteq> Some 0 \<and>
       sint (duration_ns p) = (case rq_duration r of None \<Rightarrow> 0 | Some d \<Rightarrow> int d) \<and>
       sint (interval_ns p) = int (rq_interval r) \<and>
       sint (length_param p) = uint (rq_length r) \<and>
       sint (dscp p) = 4 * uint (rq_dscp r) \<and>
       received_stats p = rq_received_stats r \<and> stamp_at p = rq_stamp_at r \<and>
       clock p = rq_clock r \<and> server_fill p = rq_server_fill r
   | Inl e \<Rightarrow>
       (\<exists>reason. e = InvalidConfig reason) \<and>
       (rq_duration r = Some 0 \<or> rq_interval r = 0 \<or> rq_clock r = ClkUnspecified \<or> rq_dscp r > 63 \<or>
        rq_length r > 65507 \<or>
        (\<exists>f. rq_server_fill r = Some f \<and> (f = [] \<or> length f > MAX_SERVER_FILL_BYTES)) \<or>
        (\<exists>d. rq_duration r = Some d \<and> int d > i64_max) \<or> int (rq_interval r) > i64_max)"
proof (cases "params_from_request r")
  case (Inr p)
  from params_from_request_requestable [OF Inr] params_from_request_fields [OF Inr]
    validate_request_Ok [OF params_from_request_fields(1) [OF Inr]]
  show ?thesis by (simp add: Inr)
next
  case (Inl e)
  then consider "validate_request r = Err e"
    | "validate_request r = Ok ()" "\<exists>d. rq_duration r = Some d \<and> config_duration_to_ns ''duration'' d = Err e"
    | "validate_request r = Ok ()" "config_duration_to_ns ''interval'' (rq_interval r) = Err e"
    | "validate_request r = Ok ()" "dscp_codepoint_to_traffic_class (rq_dscp r) = Err e"
    by (auto simp: params_from_request_def result_simps split: option.splits)
  then show ?thesis
  proof cases
    case 1
    from validate_request_Err [OF 1] show ?thesis by (auto simp: Inl)
  next
    case 4
    from validate_request_Ok [OF 4(1)] dscp_class_Ok 4(2) show ?thesis by (auto simp: Inl)
  qed (auto simp: Inl dest: config_duration_Err)
qed

end
