(* ===== verification/Client_Negotiation.thy ===== *)
theory Client_Negotiation
  imports Client_Config
begin

text \<open>
  \<open>irtt-client/src/session/negotiation.rs\<close>: the client's check of the parameters a server
  returned, under the strict or the loose policy, with the change messages. The conversions
  that the source \<open>expect\<close>s to succeed are partial here (\<open>None\<close> is the panic), and every use is
  shown to be safe.
\<close>

section \<open>Data\<close>

record accepted_session_parameters =
  ap_duration :: "duration option"
  ap_interval :: duration
  ap_length :: u32
  ap_received_stats :: received_stats
  ap_stamp_at :: stamp_at
  ap_clock :: clock
  ap_dscp :: u8
  ap_server_fill :: "bytes option"

datatype negotiation_change =
    DurationReduced "duration option" duration
  | IntervalIncreased duration duration
  | IntervalReduced duration duration
  | LengthReduced u32 u32
  | ReceivedStatsChanged received_stats received_stats
  | StampAtChanged stamp_at stamp_at
  | ClockChanged clock clock
  | DscpChanged u8 u8
  | ServerFillChanged "bytes option" "bytes option"

record negotiation_result =
  ng_accepted :: accepted_session_parameters
  ng_peer_params :: params
  ng_changes :: "negotiation_change list"

text \<open>The derived \<open>Debug\<close> names of the protocol's enums.\<close>

fun received_stats_debug :: "received_stats \<Rightarrow> string" where
  "received_stats_debug RsNone = ''None''"
| "received_stats_debug RsCount = ''Count''"
| "received_stats_debug RsWindow = ''Window''"
| "received_stats_debug RsBoth = ''Both''"

fun stamp_at_debug :: "stamp_at \<Rightarrow> string" where
  "stamp_at_debug StNone = ''None''"
| "stamp_at_debug StSend = ''Send''"
| "stamp_at_debug StReceive = ''Receive''"
| "stamp_at_debug StBoth = ''Both''"
| "stamp_at_debug StMidpoint = ''Midpoint''"

fun clock_debug :: "clock \<Rightarrow> string" where
  "clock_debug ClkUnspecified = ''Unspecified''"
| "clock_debug ClkWall = ''Wall''"
| "clock_debug ClkMonotonic = ''Monotonic''"
| "clock_debug ClkBoth = ''Both''"

fun change_message :: "negotiation_change \<Rightarrow> string" where
  "change_message (DurationReduced None negotiated) =
     ''server limited continuous duration to '' @ decimal negotiated @ '' ns''"
| "change_message (DurationReduced (Some requested) negotiated) =
     ''server reduced duration from '' @ decimal requested @ '' ns to '' @ decimal negotiated @ '' ns''"
| "change_message (IntervalIncreased requested negotiated) =
     ''server increased interval from '' @ decimal requested @ '' ns to '' @ decimal negotiated @ '' ns''"
| "change_message (IntervalReduced requested negotiated) =
     ''server reduced interval from '' @ decimal requested @ '' ns to '' @ decimal negotiated @ '' ns''"
| "change_message (LengthReduced requested negotiated) =
     ''server reduced packet length from '' @ decimal (unat requested) @ '' bytes to '' @
     decimal (unat negotiated) @ '' bytes''"
| "change_message (ReceivedStatsChanged requested negotiated) =
     ''server changed received-stats from '' @ received_stats_debug requested @ '' to '' @
     received_stats_debug negotiated"
| "change_message (StampAtChanged requested negotiated) =
     ''server changed stamp-at from '' @ stamp_at_debug requested @ '' to '' @ stamp_at_debug negotiated"
| "change_message (ClockChanged requested negotiated) =
     ''server changed clock from '' @ clock_debug requested @ '' to '' @ clock_debug negotiated"
| "change_message (DscpChanged requested negotiated) =
     ''server changed DSCP from '' @ decimal (unat requested) @ '' to '' @ decimal (unat negotiated)"
| "change_message (ServerFillChanged requested negotiated) = ''server changed payload fill behavior''"

section \<open>Conversions that panic out of range\<close>

definition positive_duration :: "i64 \<Rightarrow> duration option" where
  "positive_duration nanos = (if 0 \<le> sint nanos then Some (nat (sint nanos)) else None)"

definition finite_duration :: "i64 \<Rightarrow> duration option option" where
  "finite_duration nanos = (if nanos \<noteq> 0 then map_option Some (positive_duration nanos) else Some None)"

definition u32_try_from :: "i64 \<Rightarrow> u32 option" where
  "u32_try_from v = (if 0 \<le> sint v \<and> sint v < 2 ^ 32 then Some (ucast v) else None)"

text \<open>\<open>u8::try_from(dscp >> 2)\<close>: the shift of an \<open>i64\<close> is arithmetic.\<close>

definition codepoint_of :: "i64 \<Rightarrow> u8 option" where
  "codepoint_of v =
     (let s = sint v div 4 in if 0 \<le> s \<and> s < 2 ^ 8 then Some (word_of_int s) else None)"

section \<open>Negotiation\<close>

definition validate_duration_restriction :: "i64 \<Rightarrow> i64 \<Rightarrow> client_error + unit" where
  "validate_duration_restriction requested returned =
     (if sint returned < 0 then Err (NegotiationRejected ''duration must be non-negative'')
      else if sint requested > 0 \<and> returned = 0 then
        Err (NegotiationRejected ''server returned continuous duration for finite request'')
      else if sint requested > 0 \<and> sint returned > sint requested then
        Err (NegotiationRejected ''duration increased'')
      else Ok ())"

definition validate_dscp_restriction :: "i64 \<Rightarrow> client_error + unit" where
  "validate_dscp_restriction returned =
     (if \<not> (0 \<le> sint returned \<and> sint returned \<le> 255)
      then Err (NegotiationRejected ''dscp must be in range 0..=255'') else Ok ())"

definition record_change ::
  "negotiation_policy \<Rightarrow> negotiation_change list \<Rightarrow> negotiation_change \<Rightarrow> client_error + negotiation_change list" where
  "record_change policy changes change =
     (if policy = Strict then Err (NegotiationRejected (change_message change))
      else Ok (changes @ [change]))"

text \<open>\<open>if differs { record_change(policy, &mut changes, change)?; }\<close>, where building the change
  may panic.\<close>

definition changed_if ::
  "bool \<Rightarrow> negotiation_policy \<Rightarrow> negotiation_change option \<Rightarrow> negotiation_change list \<Rightarrow>
     (client_error, negotiation_change list) outcome" where
  "changed_if differs policy change changes =
     (if differs then map_option (record_change policy changes) change else Some (Ok changes))"

definition duration_change :: "params \<Rightarrow> params \<Rightarrow> negotiation_change option" where
  "duration_change requested returned =
     Option.bind (finite_duration (duration_ns requested)) (\<lambda>a.
       map_option (DurationReduced a) (positive_duration (duration_ns returned)))"

definition interval_change ::
  "(duration \<Rightarrow> duration \<Rightarrow> negotiation_change) \<Rightarrow> params \<Rightarrow> params \<Rightarrow> negotiation_change option" where
  "interval_change con requested returned =
     Option.bind (positive_duration (interval_ns requested)) (\<lambda>a.
       map_option (con a) (positive_duration (interval_ns returned)))"

definition length_change :: "params \<Rightarrow> params \<Rightarrow> negotiation_change option" where
  "length_change requested returned =
     Option.bind (u32_try_from (length_param requested)) (\<lambda>a.
       map_option (LengthReduced a) (u32_try_from (length_param returned)))"

definition dscp_change :: "params \<Rightarrow> params \<Rightarrow> negotiation_change option" where
  "dscp_change requested returned =
     Option.bind (codepoint_of (dscp requested)) (\<lambda>a.
       map_option (DscpChanged a) (codepoint_of (dscp returned)))"

definition accepted_parameters :: "params \<Rightarrow> accepted_session_parameters option" where
  "accepted_parameters returned =
     Option.bind (finite_duration (duration_ns returned)) (\<lambda>duration.
     Option.bind (positive_duration (interval_ns returned)) (\<lambda>interval.
     Option.bind (u32_try_from (length_param returned)) (\<lambda>len.
     map_option (\<lambda>codepoint.
       \<lparr>ap_duration = duration, ap_interval = interval, ap_length = len,
        ap_received_stats = received_stats returned, ap_stamp_at = stamp_at returned,
        ap_clock = clock returned, ap_dscp = codepoint, ap_server_fill = server_fill returned\<rparr>)
       (codepoint_of (dscp returned)))))"

definition client_negotiate_params ::
  "params \<Rightarrow> params \<Rightarrow> negotiation_policy \<Rightarrow> (client_error, negotiation_result) outcome" where
  "client_negotiate_params requested returned policy =
     (if protocol_version returned \<noteq> PROTOCOL_VERSION then
        Some (Err (ProtocolVersionMismatch PROTOCOL_VERSION (protocol_version returned)))
      else
      bindp (Some (validate_duration_restriction (duration_ns requested) (duration_ns returned))) (\<lambda>_.
      if sint (length_param returned) < 0 then
        Some (Err (NegotiationRejected ''length must be non-negative''))
      else if sint (length_param returned) > sint (length_param requested) then
        Some (Err (NegotiationRejected ''length increased''))
      else if sint (interval_ns returned) \<le> 0 then
        Some (Err (NegotiationRejected ''interval must be positive''))
      else
      bindp (Some (validate_dscp_restriction (dscp returned))) (\<lambda>_.
      bindp (changed_if (sint (duration_ns returned) < sint (duration_ns requested) \<or>
               duration_ns requested = 0 \<and> sint (duration_ns returned) > 0)
               policy (duration_change requested returned) []) (\<lambda>changes.
      bindp (changed_if (sint (interval_ns returned) > sint (interval_ns requested))
               policy (interval_change IntervalIncreased requested returned) changes) (\<lambda>changes.
      bindp (changed_if (sint (interval_ns returned) < sint (interval_ns requested))
               policy (interval_change IntervalReduced requested returned) changes) (\<lambda>changes.
      bindp (changed_if (sint (length_param returned) < sint (length_param requested))
               policy (length_change requested returned) changes) (\<lambda>changes.
      bindp (changed_if (received_stats returned \<noteq> received_stats requested) policy
               (Some (ReceivedStatsChanged (received_stats requested) (received_stats returned))) changes) (\<lambda>changes.
      bindp (changed_if (stamp_at returned \<noteq> stamp_at requested) policy
               (Some (StampAtChanged (stamp_at requested) (stamp_at returned))) changes) (\<lambda>changes.
      bindp (changed_if (clock returned \<noteq> clock requested) policy
               (Some (ClockChanged (clock requested) (clock returned))) changes) (\<lambda>changes.
      if dscp returned \<noteq> dscp requested \<and> dscp returned \<noteq> 0 then
        Some (Err (NegotiationRejected ''server returned unsupported DSCP change''))
      else
      bindp (changed_if (dscp returned = 0 \<and> dscp requested \<noteq> 0)
               policy (dscp_change requested returned) changes) (\<lambda>changes.
      bindp (changed_if (server_fill returned \<noteq> server_fill requested) policy
               (Some (ServerFillChanged (server_fill requested) (server_fill returned))) changes) (\<lambda>changes.
        map_option (\<lambda>accepted.
          Ok \<lparr>ng_accepted = accepted, ng_peer_params = returned, ng_changes = changes\<rparr>)
          (accepted_parameters returned)))))))))))))"

section \<open>Lemmas\<close>

text \<open>What a server may return: the documented restrictions of a request.\<close>

definition restricts :: "params \<Rightarrow> params \<Rightarrow> bool" where
  "restricts requested returned \<longleftrightarrow>
     protocol_version returned = PROTOCOL_VERSION \<and>
     (if duration_ns requested = 0 then 0 \<le> sint (duration_ns returned)
      else 0 < sint (duration_ns returned) \<and> sint (duration_ns returned) \<le> sint (duration_ns requested)) \<and>
     0 \<le> sint (length_param returned) \<and> sint (length_param returned) \<le> sint (length_param requested) \<and>
     0 < sint (interval_ns returned) \<and> (dscp returned = dscp requested \<or> dscp returned = 0)"

text \<open>The changes the loose policy reports, in the order of the source.\<close>

definition changes_of :: "params \<Rightarrow> params \<Rightarrow> negotiation_change list" where
  "changes_of q p =
     (let ns = (\<lambda>v. nat (sint v)); cp = (\<lambda>v. word_of_int (sint v div 4)) in
     (if duration_ns p \<noteq> duration_ns q
      then [DurationReduced (if duration_ns q = 0 then None else Some (ns (duration_ns q))) (ns (duration_ns p))] else []) @
     (if sint (interval_ns p) > sint (interval_ns q) then [IntervalIncreased (ns (interval_ns q)) (ns (interval_ns p))]
      else if interval_ns p \<noteq> interval_ns q then [IntervalReduced (ns (interval_ns q)) (ns (interval_ns p))] else []) @
     (if length_param p \<noteq> length_param q then [LengthReduced (ucast (length_param q)) (ucast (length_param p))] else []) @
     (if received_stats p \<noteq> received_stats q then [ReceivedStatsChanged (received_stats q) (received_stats p)] else []) @
     (if stamp_at p \<noteq> stamp_at q then [StampAtChanged (stamp_at q) (stamp_at p)] else []) @
     (if clock p \<noteq> clock q then [ClockChanged (clock q) (clock p)] else []) @
     (if dscp p \<noteq> dscp q then [DscpChanged (cp (dscp q)) (cp (dscp p))] else []) @
     (if server_fill p \<noteq> server_fill q then [ServerFillChanged (server_fill q) (server_fill p)] else []))"

definition accepted_of :: "params \<Rightarrow> accepted_session_parameters" where
  "accepted_of p =
     \<lparr>ap_duration = (if duration_ns p = 0 then None else Some (nat (sint (duration_ns p)))),
      ap_interval = nat (sint (interval_ns p)), ap_length = ucast (length_param p),
      ap_received_stats = received_stats p, ap_stamp_at = stamp_at p, ap_clock = clock p,
      ap_dscp = word_of_int (sint (dscp p) div 4), ap_server_fill = server_fill p\<rparr>"

lemma sint_i64_zero_iff: "sint (x :: i64) = 0 \<longleftrightarrow> x = 0"
  by (metis sat_i64_sint sint_0)

lemma sint_i64_eq_iff: "sint (x :: i64) = sint y \<longleftrightarrow> x = y"
  by (metis sat_i64_sint)

lemma changes_empty_iff:
  "changes_of q p = [] \<longleftrightarrow>
     duration_ns p = duration_ns q \<and> interval_ns p = interval_ns q \<and> length_param p = length_param q \<and>
     received_stats p = received_stats q \<and> stamp_at p = stamp_at q \<and> clock p = clock q \<and>
     dscp p = dscp q \<and> server_fill p = server_fill q"
  by (auto simp: changes_of_def Let_def)

text \<open>No conversion panics on values a request and a restriction of it can have.\<close>

lemma conversions_ok:
  "0 \<le> sint n \<Longrightarrow> positive_duration n = Some (nat (sint n))"
  "0 \<le> sint n \<Longrightarrow> finite_duration n = Some (if n = 0 then None else Some (nat (sint n)))"
  "0 \<le> sint n \<Longrightarrow> sint n \<le> 65507 \<Longrightarrow> u32_try_from n = Some (ucast n)"
  "0 \<le> sint n \<Longrightarrow> sint n \<le> 255 \<Longrightarrow> codepoint_of n = Some (word_of_int (sint n div 4))"
  by (simp_all add: positive_duration_def finite_duration_def u32_try_from_def codepoint_of_def Let_def)
     linarith

lemma accepted_parameters_ok:
  assumes "requestable q" "restricts q p"
  shows "accepted_parameters p = Some (accepted_of p)"
  using assms
  by (auto simp: accepted_parameters_def accepted_of_def conversions_ok restricts_def requestable_def
      split: if_splits)

text \<open>The chain of change checks reports all changes or rejects the first one.\<close>

definition report ::
  "negotiation_policy \<Rightarrow> negotiation_change list \<Rightarrow> negotiation_change list \<Rightarrow> client_error + negotiation_change list" where
  "report policy changes found =
     (if policy = Strict \<and> found \<noteq> [] then Err (NegotiationRejected (change_message (hd found)))
      else Ok (changes @ found))"

lemma changed_step:
  assumes "g \<Longrightarrow> c = Some d"
    and "\<And>cs. f cs = Some (bindr (report policy cs rest) h)"
  shows "bindp (changed_if g policy c cs) f =
     Some (bindr (report policy cs ((if g then [d] else []) @ rest)) h)"
  using assms by (cases policy) (auto simp: changed_if_def record_change_def report_def)

lemma changed_last:
  assumes "g \<Longrightarrow> c = Some d" and "\<And>cs. f cs = Some (h cs)"
  shows "bindp (changed_if g policy c cs) f = Some (bindr (report policy cs (if g then [d] else [])) h)"
  using assms by (cases policy) (auto simp: changed_if_def record_change_def report_def)

lemma negotiate_restriction:
  assumes q: "requestable q" and p: "restricts q p"
  shows "client_negotiate_params q p policy =
     Some (bindr (report policy [] (changes_of q p)) (\<lambda>cs.
        Ok \<lparr>ng_accepted = accepted_of p, ng_peer_params = p, ng_changes = cs\<rparr>))"
proof -
  have dom: "0 \<le> sint (duration_ns q)" "0 \<le> sint (duration_ns p)" "0 \<le> sint (interval_ns q)"
    "0 \<le> sint (interval_ns p)" "0 \<le> sint (length_param q)" "sint (length_param q) \<le> 65507"
    "0 \<le> sint (length_param p)" "sint (length_param p) \<le> 65507" "0 \<le> sint (dscp q)" "sint (dscp q) \<le> 255"
    "0 \<le> sint (dscp p)" "sint (dscp p) \<le> 255"
    using q p by (auto simp: requestable_def restricts_def split: if_splits)
  have checks: "validate_duration_restriction (duration_ns q) (duration_ns p) = Ok ()"
    "validate_dscp_restriction (dscp p) = Ok ()"
    "protocol_version p = PROTOCOL_VERSION" "\<not> sint (length_param p) < 0"
    "\<not> sint (length_param q) < sint (length_param p)" "\<not> sint (interval_ns p) \<le> 0"
    "\<not> (dscp p \<noteq> dscp q \<and> dscp p \<noteq> 0)"
    using p q dom by (auto simp: restricts_def requestable_def validate_duration_restriction_def
        validate_dscp_restriction_def split: if_splits)
  have guards: "(sint (duration_ns p) < sint (duration_ns q) \<or> duration_ns q = 0 \<and> 0 < sint (duration_ns p))
      \<longleftrightarrow> duration_ns p \<noteq> duration_ns q"
    "sint (length_param p) < sint (length_param q) \<longleftrightarrow> length_param p \<noteq> length_param q"
    "dscp p = 0 \<and> dscp q \<noteq> 0 \<longleftrightarrow> dscp p \<noteq> dscp q"
    "sint (interval_ns p) < sint (interval_ns q) \<longleftrightarrow>
       \<not> sint (interval_ns q) < sint (interval_ns p) \<and> interval_ns p \<noteq> interval_ns q"
    using p by (auto simp: restricts_def sint_i64_eq_iff [symmetric] split: if_splits)
  note conv = conversions_ok(1) [OF dom(2)] conversions_ok(1) [OF dom(3)] conversions_ok(1) [OF dom(4)]
    conversions_ok(2) [OF dom(1)] conversions_ok(3) [OF dom(5,6)] conversions_ok(3) [OF dom(7,8)]
    conversions_ok(4) [OF dom(9,10)] conversions_ok(4) [OF dom(11,12)]
  have split: "(if sint (interval_ns q) < sint (interval_ns p) then [a] else
        if interval_ns p \<noteq> interval_ns q then [b] else []) =
      (if sint (interval_ns q) < sint (interval_ns p) then [a] else []) @
      (if \<not> sint (interval_ns q) < sint (interval_ns p) \<and> interval_ns p \<noteq> interval_ns q then [b] else [])" for a b :: negotiation_change
    by simp
  show ?thesis
    unfolding client_negotiate_params_def guards changes_of_def Let_def split append_assoc
    apply (simp only: checks if_False if_True not_True_eq_False bindp_simps simp_thms)
    apply (rule changed_step)
    apply (simp only: duration_change_def conv bind.simps option.map)
    apply (rule changed_step)
    apply (simp only: interval_change_def conv bind.simps option.map)
    apply (rule changed_step)
    apply (simp only: interval_change_def conv bind.simps option.map)
    apply (rule changed_step)
    apply (simp only: length_change_def conv bind.simps option.map)
    apply (rule changed_step, rule refl)+
    apply (rule changed_step)
    apply (simp only: dscp_change_def conv bind.simps option.map)
    apply (rule changed_last, rule refl)
    apply (simp only: accepted_parameters_ok [OF q p] option.map)
    done
qed

lemma changed_err:
  assumes "g \<Longrightarrow> c = Some d" and "\<And>cs. \<exists>e. f cs = Some (Err e)"
  shows "\<exists>e. bindp (changed_if g policy c cs) f = Some (Err e)"
  using assms by (cases policy) (auto simp: changed_if_def record_change_def)

lemma negotiate_not_restriction:
  assumes q: "requestable q" and p: "\<not> restricts q p"
  shows "\<exists>e. client_negotiate_params q p policy = Some (Err e)"
proof (cases "protocol_version p = PROTOCOL_VERSION \<and>
    validate_duration_restriction (duration_ns q) (duration_ns p) = Ok () \<and> 0 \<le> sint (length_param p) \<and>
    sint (length_param p) \<le> sint (length_param q) \<and> 0 < sint (interval_ns p) \<and>
    validate_dscp_restriction (dscp p) = Ok ()")
  case False
  then show ?thesis
    by (auto simp: client_negotiate_params_def validate_duration_restriction_def
        validate_dscp_restriction_def not_le not_less)
next
  case True
  then have dom: "0 \<le> sint (duration_ns q)" "0 \<le> sint (duration_ns p)" "0 \<le> sint (interval_ns q)"
    "0 \<le> sint (interval_ns p)" "0 \<le> sint (length_param q)" "sint (length_param q) \<le> 65507"
    "0 \<le> sint (length_param p)" "sint (length_param p) \<le> 65507"
    using q by (auto simp: requestable_def validate_duration_restriction_def split: if_splits)
  have pos: "0 < sint (duration_ns q)" if "duration_ns q \<noteq> 0"
    using that dom(1) sint_i64_zero_iff [of "duration_ns q"] by linarith
  have "0 < sint (duration_ns p) \<and> sint (duration_ns p) \<le> sint (duration_ns q)" if "duration_ns q \<noteq> 0"
    using True pos [OF that] dom(2) sint_i64_zero_iff [of "duration_ns p"]
    by (auto simp: validate_duration_restriction_def split: if_splits)
  then have bad: "dscp p \<noteq> dscp q \<and> dscp p \<noteq> 0"
    using p True dom(2) by (auto simp: restricts_def split: if_splits)
  have checks: "\<not> sint (length_param p) < 0" "\<not> sint (length_param q) < sint (length_param p)"
    "\<not> sint (interval_ns p) \<le> 0" using True by simp_all
  note conv = conversions_ok(1) [OF dom(2)] conversions_ok(1) [OF dom(3)] conversions_ok(1) [OF dom(4)]
    conversions_ok(2) [OF dom(1)] conversions_ok(3) [OF dom(5,6)] conversions_ok(3) [OF dom(7,8)]
  show ?thesis
    unfolding client_negotiate_params_def
    by (simp only: checks conjunct1 [OF True] True [THEN conjunct2, THEN conjunct1]
          True [THEN conjunct2, THEN conjunct2, THEN conjunct2, THEN conjunct2, THEN conjunct2]
          if_False if_True not_True_eq_False bindp_simps simp_thms)
       ((rule changed_err | simp only: bad duration_change_def interval_change_def length_change_def
          conv bind.simps option.map simp_thms if_True)+, blast?)
qed

lemma restricts_refl: "requestable q \<Longrightarrow> restricts q q"
  using sint_i64_zero_iff [of "duration_ns q"] by (auto simp: requestable_def restricts_def)

lemma restricts_unchanged:
  assumes "requestable q" "restricts q p" "changes_of q p = []"
  shows "p = q"
  using assms by (intro params.equality) (auto simp: changes_empty_iff restricts_def requestable_def)

lemma negotiate_Ok_restricts:
  assumes "requestable q" "client_negotiate_params q p policy = Some (Ok r)"
  shows "restricts q p \<and> ng_peer_params r = p \<and> ng_accepted r = accepted_of p"
proof (cases "restricts q p")
  case True
  from negotiate_restriction [OF assms(1) True, of policy] assms(2) True show ?thesis
    by (auto simp: report_def split: if_splits)
qed (use negotiate_not_restriction [OF assms(1), of p policy] assms(2) in auto)

lemma negotiate_total: "requestable q \<Longrightarrow> client_negotiate_params q p policy \<noteq> None"
  using negotiate_restriction [of q p policy] negotiate_not_restriction [of q p policy]
  by (cases "restricts q p") auto

section \<open>Properties\<close>


definition test_request_params :: params where
  "test_request_params = params_default\<lparr>protocol_version := PROTOCOL_VERSION, interval_ns := 1000,
     length_param := 100, clock := ClkBoth\<rparr>"

lemma test_request_requestable: "requestable test_request_params"
  by (simp add: requestable_def test_request_params_def params_default_def)


end
