(* ===== verification/Probe.thy ===== *)
theory Probe
  imports Client_Config
begin

text \<open>
  \<open>irtt-client/src/probe.rs\<close> (with \<open>timing.rs\<close>): the probes a client still waits for. The
  \<open>PendingMap\<close> is a hash map whose entries form a doubly linked list in timeout order; it is
  modelled with its links and refined to the plain list of its probes. An \<open>expect\<close> that
  fails panics, which is the value \<open>None\<close>: the refinement shows it never does. The
  allocator's \<open>try_reserve\<close> failure is an input of the admission check; debug assertions
  are the facts the refinement relation proves and are not part of the model.
\<close>

section \<open>Model\<close>

record client_timestamp =
  ct_wall :: system_time
  ct_mono :: instant

record pending_probe =
  wire_seq :: u32
  sent_at :: client_timestamp
  timeout_at :: instant
  tx_not_before_wall :: system_time
  kernel_tx_timestamp :: "system_time option"

record pending_entry =
  pe_probe :: pending_probe
  pe_previous :: "u32 option"
  pe_next :: "u32 option"

record expired_batch =
  eb_probes :: "pending_probe list"
  eb_more_due :: bool

record pending_map =
  pm_map :: "(u32, pending_entry) hash_table"
  pm_first :: "u32 option"
  pm_last :: "u32 option"
  pm_max_capacity :: nat

definition pending_new :: "nat \<Rightarrow> pending_map" where
  "pending_new capacity = \<lparr>pm_map = [], pm_first = None, pm_last = None, pm_max_capacity = capacity\<rparr>"

definition preflight_insert :: "bool \<Rightarrow> u32 \<Rightarrow> pending_map \<Rightarrow> client_error + unit" where
  "preflight_insert reserve_ok seq m =
     (if table_get (pm_map m) seq \<noteq> None then Err (PendingSequenceCollision seq)
      else if table_len (pm_map m) \<ge> pm_max_capacity m then Err (PendingLimitExceeded (pm_max_capacity m))
      else if \<not> reserve_ok then Err (AllocationFailed ''pending probe storage'')
      else Ok ())"

text \<open>\<open>map.get_mut(&key).expect(..)\<close> and an update of the entry.\<close>

definition update_entry ::
  "u32 \<Rightarrow> (pending_entry \<Rightarrow> pending_entry) \<Rightarrow> (u32, pending_entry) hash_table \<Rightarrow>
     (u32, pending_entry) hash_table option" where
  "update_entry key f t =
     (case table_get t key of None \<Rightarrow> None | Some e \<Rightarrow> Some (table_insert key (f e) t))"

definition commit_insert :: "pending_probe \<Rightarrow> pending_map \<Rightarrow> pending_map option" where
  "commit_insert probe m =
     (let seq = wire_seq probe; previous = pm_last m;
          linked = (case previous of
              Some prev \<Rightarrow> map_option (\<lambda>t. m\<lparr>pm_map := t\<rparr>)
                (update_entry prev (\<lambda>e. e\<lparr>pe_next := Some seq\<rparr>) (pm_map m))
            | None \<Rightarrow> Some (m\<lparr>pm_first := Some seq\<rparr>))
      in map_option (\<lambda>m. m\<lparr>pm_map := table_insert seq
             \<lparr>pe_probe = probe, pe_previous = previous, pe_next = None\<rparr> (pm_map m),
             pm_last := Some seq\<rparr>) linked)"

definition pending_remove :: "u32 \<Rightarrow> pending_map \<Rightarrow> (pending_probe option \<times> pending_map) option" where
  "pending_remove seq m =
     (case table_get (pm_map m) seq of
        None \<Rightarrow> Some (None, m)
      | Some e \<Rightarrow>
          let m = m\<lparr>pm_map := table_remove seq (pm_map m)\<rparr>;
              m1 = (case pe_previous e of
                  Some prev \<Rightarrow> map_option (\<lambda>t. m\<lparr>pm_map := t\<rparr>)
                    (update_entry prev (\<lambda>p. p\<lparr>pe_next := pe_next e\<rparr>) (pm_map m))
                | None \<Rightarrow> Some (m\<lparr>pm_first := pe_next e\<rparr>))
          in Option.bind m1 (\<lambda>m.
             map_option (\<lambda>m. (Some (pe_probe e), m))
               (case pe_next e of
                  Some nxt \<Rightarrow> map_option (\<lambda>t. m\<lparr>pm_map := t\<rparr>)
                    (update_entry nxt (\<lambda>p. p\<lparr>pe_previous := pe_previous e\<rparr>) (pm_map m))
                | None \<Rightarrow> Some (m\<lparr>pm_last := pe_previous e\<rparr>))))"

text \<open>The loop of \<open>drain_expired_bounded\<close>; \<open>limit\<close> counts the probes still wanted.\<close>

fun drain_loop :: "instant \<Rightarrow> nat \<Rightarrow> pending_map \<Rightarrow> (pending_probe list \<times> pending_map) option" where
  "drain_loop now 0 m = Some ([], m)"
| "drain_loop now (Suc limit) m =
     (case pm_first m of
        None \<Rightarrow> Some ([], m)
      | Some seq \<Rightarrow>
          (case table_get (pm_map m) seq of
             None \<Rightarrow> None
           | Some e \<Rightarrow>
               if timeout_at (pe_probe e) > now then Some ([], m)
               else (case pending_remove seq m of
                   Some (Some probe, m') \<Rightarrow>
                     map_option (\<lambda>(probes, m''). (probe # probes, m'')) (drain_loop now limit m')
                 | _ \<Rightarrow> None)))"

definition next_timeout_deadline :: "pending_map \<Rightarrow> instant option" where
  "next_timeout_deadline m =
     map_option (\<lambda>e. timeout_at (pe_probe e)) (Option.bind (pm_first m) (table_get (pm_map m)))"

definition latest_timeout_deadline :: "pending_map \<Rightarrow> instant option" where
  "latest_timeout_deadline m =
     map_option (\<lambda>e. timeout_at (pe_probe e)) (Option.bind (pm_last m) (table_get (pm_map m)))"

definition drain_expired_bounded :: "instant \<Rightarrow> nat \<Rightarrow> pending_map \<Rightarrow> (expired_batch \<times> pending_map) option" where
  "drain_expired_bounded now limit m =
     map_option (\<lambda>(probes, m).
        (\<lparr>eb_probes = probes,
          eb_more_due = (case Option.bind (pm_first m) (table_get (pm_map m)) of
              None \<Rightarrow> False | Some e \<Rightarrow> timeout_at (pe_probe e) \<le> now)\<rparr>, m))
       (drain_loop now limit m)"

definition pending_is_empty :: "pending_map \<Rightarrow> bool" where
  "pending_is_empty m \<longleftrightarrow> table_len (pm_map m) = 0"

text \<open>\<open>get_mut\<close> with the update its callers make: attach a kernel transmit timestamp.\<close>

definition pending_get :: "u32 \<Rightarrow> pending_map \<Rightarrow> pending_probe option" where
  "pending_get seq m = map_option pe_probe (table_get (pm_map m) seq)"

definition pending_set :: "u32 \<Rightarrow> (pending_probe \<Rightarrow> pending_probe) \<Rightarrow> pending_map \<Rightarrow> pending_map" where
  "pending_set seq f m =
     (case table_get (pm_map m) seq of
        None \<Rightarrow> m
      | Some e \<Rightarrow> m\<lparr>pm_map := table_insert seq (e\<lparr>pe_probe := f (pe_probe e)\<rparr>) (pm_map m)\<rparr>)"

text \<open>\<open>TimedOutMap\<close> wraps a \<open>PendingMap\<close> and makes room by evicting its head.\<close>

definition timed_out_insert :: "pending_probe \<Rightarrow> pending_map \<Rightarrow> pending_map option" where
  "timed_out_insert probe m =
     (if pm_max_capacity m = 0 then Some m
      else Option.bind
        (if table_len (pm_map m) = pm_max_capacity m then
           (case pm_first m of None \<Rightarrow> None
            | Some head \<Rightarrow> map_option snd (pending_remove head m))
         else Some m)
        (commit_insert probe))"

section \<open>Completed sequence numbers\<close>

record completed_set =
  cs_set :: "u32 list"
  cs_order :: "u32 list"
  cs_max_capacity :: nat

definition completed_new :: "nat \<Rightarrow> completed_set" where
  "completed_new capacity = \<lparr>cs_set = [], cs_order = [], cs_max_capacity = capacity\<rparr>"

fun evict_oldest :: "u32 list \<Rightarrow> u32 list \<Rightarrow> u32 list \<times> u32 list" where
  "evict_oldest s [] = (s, [])"
| "evict_oldest s (oldest # order) =
     (if oldest \<in> set s then (removeAll oldest s, order) else evict_oldest s order)"

definition completed_insert :: "u32 \<Rightarrow> completed_set \<Rightarrow> completed_set" where
  "completed_insert seq c =
     (if seq \<in> set (cs_set c) then c
      else
        let (s, order) = (if length (cs_set c) \<ge> cs_max_capacity c then evict_oldest (cs_set c) (cs_order c)
                          else (cs_set c, cs_order c))
        in c\<lparr>cs_order := order @ [seq], cs_set := seq # s\<rparr>)"

definition completed_contains :: "u32 \<Rightarrow> completed_set \<Rightarrow> bool" where
  "completed_contains seq c \<longleftrightarrow> seq \<in> set (cs_set c)"

definition completed_remove :: "u32 \<Rightarrow> completed_set \<Rightarrow> bool \<times> completed_set" where
  "completed_remove seq c =
     (let removed = seq \<in> set (cs_set c)
      in (removed,
          c\<lparr>cs_set := removeAll seq (cs_set c),
            cs_order := (if removed then filter (\<lambda>e. e \<noteq> seq) (cs_order c) else cs_order c)\<rparr>))"

section \<open>The list a pending map represents\<close>

definition seq_of_first :: "pending_probe list \<Rightarrow> u32 option \<Rightarrow> u32 option" where
  "seq_of_first xs after = (case xs of [] \<Rightarrow> after | p # _ \<Rightarrow> Some (wire_seq p))"

definition seq_of_last :: "u32 option \<Rightarrow> pending_probe list \<Rightarrow> u32 option" where
  "seq_of_last before xs = (if xs = [] then before else Some (wire_seq (last xs)))"

text \<open>\<open>chain get before xs after\<close>: the entries of \<open>xs\<close> are linked in order, between the
  neighbours \<open>before\<close> and \<open>after\<close>.\<close>

fun chain :: "(u32 \<Rightarrow> pending_entry option) \<Rightarrow> u32 option \<Rightarrow> pending_probe list \<Rightarrow> u32 option \<Rightarrow> bool" where
  "chain g before [] after = True"
| "chain g before (p # ps) after \<longleftrightarrow>
     g (wire_seq p) = Some \<lparr>pe_probe = p, pe_previous = before, pe_next = seq_of_first ps after\<rparr> \<and>
     chain g (Some (wire_seq p)) ps after"

definition represents :: "pending_map \<Rightarrow> pending_probe list \<Rightarrow> bool" where
  "represents m xs \<longleftrightarrow>
     table_wf (pm_map m) \<and> distinct (map wire_seq xs) \<and>
     chain (table_get (pm_map m)) None xs None \<and>
     (\<forall>k. table_get (pm_map m) k \<noteq> None \<longrightarrow> k \<in> wire_seq ` set xs) \<and>
     pm_first m = seq_of_first xs None \<and> pm_last m = seq_of_last None xs"

lemma seq_of_simps [simp]:
  "seq_of_first [] a = a" "seq_of_first (p # ps) a = Some (wire_seq p)"
  "seq_of_last b [] = b" "seq_of_last b (xs @ [p]) = Some (wire_seq p)"
  "seq_of_last b (p # ps) = seq_of_last (Some (wire_seq p)) ps"
  by (simp_all add: seq_of_first_def seq_of_last_def)

lemma seq_of_first_append: "seq_of_first (xs @ ys) a = seq_of_first xs (seq_of_first ys a)"
  by (cases xs) simp_all

lemma chain_append:
  "chain g b (xs @ ys) a \<longleftrightarrow> chain g b xs (seq_of_first ys a) \<and> chain g (seq_of_last b xs) ys a"
  by (induction xs arbitrary: b) (auto simp: seq_of_first_append)

lemma chain_cong:
  "(\<And>p. p \<in> set xs \<Longrightarrow> g (wire_seq p) = g' (wire_seq p)) \<Longrightarrow> chain g b xs a = chain g' b xs a"
  by (induction xs arbitrary: b) auto

lemma chain_get: "chain g b xs a \<Longrightarrow> p \<in> set xs \<Longrightarrow> \<exists>e. g (wire_seq p) = Some e \<and> pe_probe e = p"
  by (induction xs arbitrary: b) auto

text \<open>Relinking the two ends of a segment.\<close>

lemma chain_set_after:
  assumes "chain g b (xs @ [p]) a" "wire_seq p \<notin> wire_seq ` set xs"
    and "g' (wire_seq p) = map_option (\<lambda>e. e\<lparr>pe_next := a'\<rparr>) (g (wire_seq p))"
    and "\<And>q. q \<in> set xs \<Longrightarrow> g' (wire_seq q) = g (wire_seq q)"
  shows "chain g' b (xs @ [p]) a'"
  using assms by (auto simp: chain_append chain_cong [of xs g' g])

lemma chain_set_before:
  assumes "chain g b (p # xs) a"
    and "g' (wire_seq p) = map_option (\<lambda>e. e\<lparr>pe_previous := b'\<rparr>) (g (wire_seq p))"
    and "\<And>q. q \<in> set xs \<Longrightarrow> g' (wire_seq q) = g (wire_seq q)"
  shows "chain g' b' (p # xs) a"
  using assms by (auto simp: chain_cong [of xs g' g])

section \<open>Refinement of the links\<close>

lemma represents_empty: "represents (pending_new n) []"
  by (simp add: represents_def pending_new_def)

lemma represents_get:
  "represents m xs \<Longrightarrow> p \<in> set xs \<Longrightarrow> \<exists>e. table_get (pm_map m) (wire_seq p) = Some e \<and> pe_probe e = p"
  unfolding represents_def using chain_get by blast

lemma represents_absent:
  "represents m xs \<Longrightarrow> table_get (pm_map m) k = None \<longleftrightarrow> k \<notin> wire_seq ` set xs"
  using represents_get [of m xs] by (fastforce simp: represents_def)

lemma represents_len: "represents m xs \<Longrightarrow> table_len (pm_map m) = length xs"
proof -
  assume r: "represents m xs"
  have "{k. table_get (pm_map m) k \<noteq> None} = wire_seq ` set xs"
    using represents_absent [OF r] by auto
  moreover have "card (wire_seq ` set xs) = length xs"
    using r distinct_card [of "map wire_seq xs"] by (simp add: represents_def)
  ultimately show ?thesis using r by (simp add: tbl.len_is_card represents_def)
qed

lemma represents_insert:
  assumes r: "represents m xs" and fresh: "wire_seq p \<notin> wire_seq ` set xs"
  shows "\<exists>m'. commit_insert p m = Some m' \<and> represents m' (xs @ [p]) \<and> pm_max_capacity m' = pm_max_capacity m"
proof (cases xs rule: rev_cases)
  case Nil
  with r have "pm_last m = None" and no: "\<And>k. table_get (pm_map m) k = None" "table_wf (pm_map m)"
    by (auto simp: represents_def)
  then show ?thesis using Nil by (simp add: commit_insert_def Let_def represents_def)
next
  case (snoc ys q)
  define g where "g = table_get (pm_map m)"
  have last: "pm_last m = Some (wire_seq q)" and wf: "table_wf (pm_map m)"
    and ch: "chain g None (ys @ [q]) None" and d: "distinct (map wire_seq (ys @ [q]))"
    using r snoc by (simp_all add: represents_def g_def)
  obtain e where e: "g (wire_seq q) = Some e" using ch by (auto simp: chain_append)
  define m' where "m' = m\<lparr>pm_map := table_insert (wire_seq p)
      \<lparr>pe_probe = p, pe_previous = Some (wire_seq q), pe_next = None\<rparr>
      (table_insert (wire_seq q) (e\<lparr>pe_next := Some (wire_seq p)\<rparr>) (pm_map m)), pm_last := Some (wire_seq p)\<rparr>"
  have com: "commit_insert p m = Some m'"
    using e by (simp add: commit_insert_def Let_def last update_entry_def g_def m'_def)
  define g' where "g' = table_get (pm_map m')"
  have g': "g' k = (if k = wire_seq p then Some \<lparr>pe_probe = p, pe_previous = Some (wire_seq q), pe_next = None\<rparr>
      else if k = wire_seq q then Some (e\<lparr>pe_next := Some (wire_seq p)\<rparr>) else g k)" for k
    by (simp add: g'_def m'_def g_def)
  have ne: "wire_seq q \<noteq> wire_seq p" "\<And>x. x \<in> set ys \<Longrightarrow> wire_seq x \<noteq> wire_seq p \<and> wire_seq x \<noteq> wire_seq q"
    using fresh d snoc by (auto, (metis imageI)+)
  have "chain g' None (ys @ [q]) (Some (wire_seq p))"
    by (rule chain_set_after [OF ch]) (use d ne in \<open>auto simp: g' e\<close>)
  then have "chain g' None (xs @ [p]) None"
    unfolding snoc chain_append [of g' None "ys @ [q]"] by (simp add: g')
  moreover have "k \<in> wire_seq ` set (xs @ [p])" if "g' k \<noteq> None" for k
    using that represents_absent [OF r, of k] snoc by (auto simp: g' g_def split: if_splits)
  moreover have "pm_first m' = seq_of_first (xs @ [p]) None"
    using r snoc by (cases ys) (simp_all add: m'_def represents_def)
  ultimately have "represents m' (xs @ [p])"
    unfolding represents_def g'_def [symmetric] using wf d ne fresh snoc
    by (auto simp: m'_def seq_of_last_def)
  with com show ?thesis by (simp add: m'_def)
qed

lemma represents_remove:
  assumes r: "represents m (ys @ p # zs)"
  shows "\<exists>m'. pending_remove (wire_seq p) m = Some (Some p, m') \<and> represents m' (ys @ zs) \<and>
     pm_max_capacity m' = pm_max_capacity m"
proof -
  define g where "g = table_get (pm_map m)"
  define before after where "before = seq_of_last None ys" and "after = seq_of_first zs None"
  have wf: "table_wf (pm_map m)" and ch: "chain g None (ys @ p # zs) None"
    and d: "distinct (map wire_seq (ys @ p # zs))"
    and f: "pm_first m = seq_of_first (ys @ p # zs) None" "pm_last m = seq_of_last None (ys @ p # zs)"
    using r by (simp_all add: represents_def g_def)
  have cy: "chain g None ys (Some (wire_seq p))" and cp: "g (wire_seq p) = Some \<lparr>pe_probe = p, pe_previous = before, pe_next = after\<rparr>"
    and cz: "chain g (Some (wire_seq p)) zs None"
    using ch by (simp_all add: chain_append before_def after_def)
  have out: "wire_seq p \<notin> wire_seq ` set ys" "wire_seq p \<notin> wire_seq ` set zs"
    "wire_seq ` set ys \<inter> wire_seq ` set zs = {}" "distinct (map wire_seq ys)" "distinct (map wire_seq zs)"
    using d by auto
  define g' where "g' k = (if k = wire_seq p then None
      else if Some k = before then map_option (\<lambda>e. e\<lparr>pe_next := after\<rparr>) (g k)
      else if Some k = after then map_option (\<lambda>e. e\<lparr>pe_previous := before\<rparr>) (g k) else g k)" for k
  have "\<exists>m'. pending_remove (wire_seq p) m = Some (Some p, m') \<and> table_get (pm_map m') = g' \<and>
      table_wf (pm_map m') \<and> pm_max_capacity m' = pm_max_capacity m \<and>
      pm_first m' = (if before = None then after else pm_first m) \<and>
      pm_last m' = (if after = None then before else pm_last m)"
  proof -
    have gr: "table_get (table_remove (wire_seq p) (pm_map m)) k = (if k = wire_seq p then None else g k)" for k
      using wf by (simp add: tbl.get_remove g_def)
    have b: "before = None \<or> (\<exists>q e. before = Some q \<and> g q = Some e \<and> q \<noteq> wire_seq p \<and> Some q \<noteq> after)"
    proof (cases ys rule: rev_cases)
      case (snoc ys' q)
      have "g (wire_seq q) \<noteq> None" using cy by (simp add: snoc chain_append)
      then show ?thesis using out by (auto simp: before_def after_def snoc seq_of_first_def split: list.splits)
    qed (simp add: before_def)
    have a: "after = None \<or> (\<exists>q e. after = Some q \<and> g q = Some e \<and> q \<noteq> wire_seq p \<and> Some q \<noteq> before)"
    proof (cases zs)
      case (Cons q zs')
      have "g (wire_seq q) \<noteq> None" using cz by (simp add: Cons)
      then show ?thesis using out b by (auto simp: after_def Cons)
    qed (simp add: after_def)
    from a b show ?thesis
      using wf cp [unfolded g_def]
      by (auto simp: pending_remove_def Let_def update_entry_def gr g'_def fun_eq_iff tbl.wf_remove
          g_def [symmetric])
  qed
  then obtain m' where rem: "pending_remove (wire_seq p) m = Some (Some p, m')"
    and g'm: "table_get (pm_map m') = g'" and wf': "table_wf (pm_map m')" "pm_max_capacity m' = pm_max_capacity m"
    and f': "pm_first m' = (if before = None then after else pm_first m)" "pm_last m' = (if after = None then before else pm_last m)"
    by blast
  have "chain g' None ys after"
  proof (cases ys rule: rev_cases)
    case (snoc ys' q)
    have ne: "wire_seq x \<noteq> wire_seq p \<and> wire_seq x \<noteq> wire_seq q \<and> Some (wire_seq x) \<noteq> after" if "x \<in> set ys'" for x
    proof -
      have "wire_seq x \<in> wire_seq ` set ys" "wire_seq x \<in> wire_seq ` set ys'" using that snoc by auto
      then show ?thesis using out snoc by (auto simp: after_def seq_of_first_def split: list.splits)
    qed
    show ?thesis unfolding snoc
      by (rule chain_set_after [OF cy [unfolded snoc]])
         (use out snoc ne in \<open>auto simp: g'_def before_def\<close>)
  qed simp
  moreover have "chain g' before zs None"
  proof (cases zs)
    case (Cons q zs')
    have ne: "wire_seq x \<noteq> wire_seq p \<and> Some (wire_seq x) \<noteq> before" if "x \<in> set zs" for x
    proof -
      have "wire_seq x \<in> wire_seq ` set zs" using that by auto
      moreover have "wire_seq (last ys) \<in> wire_seq ` set ys" if "ys \<noteq> []" using that by simp
      ultimately have "wire_seq x \<noteq> wire_seq p" "ys \<noteq> [] \<Longrightarrow> wire_seq x \<noteq> wire_seq (last ys)"
        using out(2,3) by (metis, metis disjoint_iff)
      then show ?thesis by (auto simp: before_def seq_of_last_def split: if_splits)
    qed
    have "wire_seq x \<noteq> wire_seq q" if "x \<in> set zs'" for x
      using that out(5) Cons by (metis distinct.simps(2) imageI list.simps(9) set_map)
    then show ?thesis unfolding Cons
      by (intro chain_set_before [OF cz [unfolded Cons]])
         (use ne Cons in \<open>auto simp: g'_def after_def\<close>)
  qed simp
  ultimately have "chain g' None (ys @ zs) None" by (simp add: chain_append before_def after_def)
  moreover have "k \<in> wire_seq ` set (ys @ zs)" if "g' k \<noteq> None" for k
    using that represents_absent [OF r, of k] by (auto simp: g'_def g_def split: if_splits)
  moreover have "pm_first m' = seq_of_first (ys @ zs) None" "pm_last m' = seq_of_last None (ys @ zs)"
    using f f' by (cases ys; cases zs rule: rev_cases; auto simp: before_def after_def seq_of_last_def seq_of_first_def split: list.splits)+
  ultimately have "represents m' (ys @ zs)"
    unfolding represents_def g'm using wf' d by auto
  with rem wf' show ?thesis by blast
qed
section \<open>The ordered store interface\<close>

text \<open>What the retention of timed-out probes relies on: keyed elements in insertion order,
  insertion at the end, removal anywhere.\<close>

locale ordered_store =
  fixes rep :: "'m \<Rightarrow> 'a list \<Rightarrow> bool"
    and key :: "'a \<Rightarrow> 'k"
    and insert :: "'a \<Rightarrow> 'm \<Rightarrow> 'm option"
    and remove :: "'k \<Rightarrow> 'm \<Rightarrow> ('a option \<times> 'm) option"
  assumes rep_distinct: "rep m xs \<Longrightarrow> distinct (map key xs)"
    and insert_rep: "rep m xs \<Longrightarrow> key x \<notin> key ` set xs \<Longrightarrow> \<exists>m'. insert x m = Some m' \<and> rep m' (xs @ [x])"
    and remove_rep: "rep m (ys @ x # zs) \<Longrightarrow> \<exists>m'. remove (key x) m = Some (Some x, m') \<and> rep m' (ys @ zs)"
    and remove_absent: "rep m xs \<Longrightarrow> k \<notin> key ` set xs \<Longrightarrow> remove k m = Some (None, m)"
begin

lemma remove_head: "rep m (x # xs) \<Longrightarrow> \<exists>m'. remove (key x) m = Some (Some x, m') \<and> rep m' xs"
  using remove_rep [of m "[]" x xs] by simp

lemma evict_insert:
  assumes "rep m (x # xs)" "key y \<notin> key ` set (x # xs)"
  shows "\<exists>m'. Option.bind (map_option snd (remove (key x) m)) (insert y) = Some m' \<and> rep m' (xs @ [y])"
proof -
  obtain m1 where m1: "remove (key x) m = Some (Some x, m1)" "rep m1 xs"
    using remove_head [OF assms(1)] by blast
  obtain m2 where "insert y m1 = Some m2" "rep m2 (xs @ [y])"
    using insert_rep [OF m1(2), of y] assms(2) by auto
  with m1 show ?thesis by simp
qed

text \<open>Removal by key, whatever the key's position.\<close>

lemma remove_any:
  assumes "rep m xs"
  shows "\<exists>m'. remove k m = Some (find (\<lambda>x. key x = k) xs, m') \<and> rep m' (filter (\<lambda>x. key x \<noteq> k) xs)"
proof (cases "k \<in> key ` set xs")
  case True
  then obtain x where x: "x \<in> set xs" "k = key x" by auto
  then obtain ys zs where xs: "xs = ys @ x # zs" by (auto simp: in_set_conv_decomp)
  have out: "\<forall>y \<in> set ys \<union> set zs. key y \<noteq> k"
    using rep_distinct [OF assms] xs x by (auto simp: image_iff)
  then have "find (\<lambda>x. key x = k) xs = Some x"
    unfolding xs using x(2) by (induction ys) auto
  moreover have "filter (\<lambda>x. key x \<noteq> k) xs = ys @ zs"
    unfolding xs using out x(2) by (simp add: filter_id_conv)
  ultimately show ?thesis using remove_rep [of m ys x zs] assms xs x(2) by simp
next
  case False
  then have "find (\<lambda>x. key x = k) xs = None" by (auto simp: find_None_iff)
  moreover have "filter (\<lambda>x. key x \<noteq> k) xs = xs" using False by (auto simp: filter_id_conv)
  ultimately show ?thesis using remove_absent [OF assms False] assms by simp
qed

end

interpretation ps: ordered_store represents wire_seq commit_insert pending_remove
proof unfold_locales
  show "distinct (map wire_seq xs)" if "represents m xs" for m xs
    using that by (simp add: represents_def)
  show "\<exists>m'. commit_insert x m = Some m' \<and> represents m' (xs @ [x])"
    if "represents m xs" "wire_seq x \<notin> wire_seq ` set xs" for m xs x
    using represents_insert [OF that] by blast
  show "\<exists>m'. pending_remove (wire_seq x) m = Some (Some x, m') \<and> represents m' (ys @ zs)"
    if "represents m (ys @ x # zs)" for m ys x zs
    using represents_remove [OF that] by blast
  show "pending_remove k m = Some (None, m)" if "represents m xs" "k \<notin> wire_seq ` set xs" for m xs k
  proof -
    have "table_get (pm_map m) k = None" using represents_absent [OF that(1)] that(2) by blast
    then show ?thesis by (simp add: pending_remove_def)
  qed
qed

section \<open>Draining\<close>

lemma represents_first:
  "represents m (p # ps) \<Longrightarrow> pm_first m = Some (wire_seq p) \<and>
     (\<exists>e. table_get (pm_map m) (wire_seq p) = Some e \<and> pe_probe e = p)"
  using represents_get [of m "p # ps" p] by (simp add: represents_def)

lemma represents_empty_first: "represents m [] \<Longrightarrow> pm_first m = None"
  by (simp add: represents_def)

lemma drain_loop_refines:
  "represents m xs \<Longrightarrow>
     \<exists>m'. drain_loop now n m = Some (take n (takeWhile (\<lambda>p. timeout_at p \<le> now) xs), m') \<and>
       represents m' (drop (length (take n (takeWhile (\<lambda>p. timeout_at p \<le> now) xs))) xs)"
proof (induction n arbitrary: m xs)
  case (Suc n)
  show ?case
  proof (cases xs)
    case Nil
    with Suc.prems show ?thesis by (simp add: represents_empty_first)
  next
    case (Cons p ps)
    note f = represents_first [OF Suc.prems [unfolded Cons]]
    show ?thesis
    proof (cases "timeout_at p \<le> now")
      case True
      obtain m1 where m1: "pending_remove (wire_seq p) m = Some (Some p, m1)" "represents m1 ps"
        using ps.remove_head [OF Suc.prems [unfolded Cons]] by blast
      from Suc.IH [OF m1(2)] f m1(1) True Cons show ?thesis by auto
    next
      case False
      with f Cons Suc.prems show ?thesis by auto
    qed
  qed
qed auto

lemma more_due_head:
  "represents m xs \<Longrightarrow>
     (case Option.bind (pm_first m) (table_get (pm_map m)) of
        None \<Rightarrow> False | Some e \<Rightarrow> timeout_at (pe_probe e) \<le> now) \<longleftrightarrow>
     (\<exists>p ps. xs = p # ps \<and> timeout_at p \<le> now)"
proof (cases xs)
  case (Cons p ps)
  assume "represents m xs"
  then show ?thesis using represents_first [of m p ps] Cons by auto
qed (auto dest: represents_empty_first)

lemma sorted_takeWhile_filter:
  "sorted (map f xs) \<Longrightarrow> takeWhile (\<lambda>p. f p \<le> (now :: int)) xs = filter (\<lambda>p. f p \<le> now) xs"
proof (induction xs)
  case (Cons x xs)
  then show ?case by (cases "f x \<le> now") (auto intro!: sym [OF filter_False])
qed simp

section \<open>Capacities and in-place updates\<close>

text \<open>No operation changes the capacity.\<close>

lemma commit_insert_capacity: "commit_insert p m = Some m' \<Longrightarrow> pm_max_capacity m' = pm_max_capacity m"
  by (auto simp: commit_insert_def Let_def split: option.splits)

lemma pending_remove_capacity:
  "pending_remove k m = Some (r, m') \<Longrightarrow> pm_max_capacity m' = pm_max_capacity m"
  by (auto simp: pending_remove_def Let_def bind_eq_Some_conv split: option.splits)

lemma drain_loop_capacity:
  "drain_loop now n m = Some (ps, m') \<Longrightarrow> pm_max_capacity m' = pm_max_capacity m"
proof (induction n arbitrary: m ps)
  case (Suc n)
  from Suc.prems show ?case
    by (auto split: option.splits if_splits prod.splits dest!: pending_remove_capacity Suc.IH)
qed simp

lemma timed_out_insert_capacity:
  "timed_out_insert p m = Some m' \<Longrightarrow> pm_max_capacity m' = pm_max_capacity m"
  by (auto simp: timed_out_insert_def bind_eq_Some_conv
      dest!: commit_insert_capacity pending_remove_capacity split: if_splits option.splits)

lemma timed_out_insert_refines:
  assumes "represents m xs" "wire_seq p \<notin> wire_seq ` set xs" "length xs \<le> pm_max_capacity m"
  shows "\<exists>m'. timed_out_insert p m = Some m' \<and>
     represents m' (if pm_max_capacity m = 0 then xs
           else if length xs = pm_max_capacity m then tl xs @ [p] else xs @ [p])"
proof -
  consider (zero) "pm_max_capacity m = 0" | (full) "pm_max_capacity m \<noteq> 0" "length xs = pm_max_capacity m"
    | (room) "pm_max_capacity m \<noteq> 0" "length xs < pm_max_capacity m"
    using assms(3) by linarith
  then show ?thesis
  proof cases
    case zero
    with assms show ?thesis by (simp add: timed_out_insert_def)
  next
    case full
    then obtain x rest where xs: "xs = x # rest" by (cases xs) auto
    from ps.evict_insert [OF assms(1) [unfolded xs] assms(2) [unfolded xs]] full xs
      represents_first [OF assms(1) [unfolded xs]] represents_len [OF assms(1)]
    show ?thesis by (auto simp: timed_out_insert_def)
  next
    case room
    with represents_insert [OF assms(1,2)] represents_len [OF assms(1)] show ?thesis
      by (auto simp: timed_out_insert_def)
  qed
qed

text \<open>Updating a probe in place keeps the links.\<close>

definition update_probe :: "u32 \<Rightarrow> (pending_probe \<Rightarrow> pending_probe) \<Rightarrow> pending_probe list \<Rightarrow> pending_probe list" where
  "update_probe seq f = map (\<lambda>p. if wire_seq p = seq then f p else p)"

lemma pending_set_capacity [simp]: "pm_max_capacity (pending_set k f m) = pm_max_capacity m"
  by (simp add: pending_set_def split: option.splits)

lemma chain_update:
  assumes "chain g b xs a" "\<And>p. wire_seq (f p) = wire_seq p"
  shows "chain (\<lambda>k. if k = seq then map_option (\<lambda>e. e\<lparr>pe_probe := f (pe_probe e)\<rparr>) (g k) else g k)
     b (update_probe seq f xs) a"
  using assms(1)
proof (induction xs arbitrary: b)
  case (Cons p ps)
  have "seq_of_first (update_probe seq f ps) a = seq_of_first ps a"
    by (cases ps) (simp_all add: update_probe_def assms(2))
  with Cons show ?case by (auto simp: update_probe_def assms(2))
qed (simp add: update_probe_def)

lemma pending_set_refines:
  assumes r: "represents m xs" and f: "\<And>p. wire_seq (f p) = wire_seq p"
  shows "represents (pending_set seq f m) (update_probe seq f xs)"
proof -
  define g where "g = table_get (pm_map m)"
  have get: "table_get (pm_map (pending_set seq f m)) =
      (\<lambda>k. if k = seq then map_option (\<lambda>e. e\<lparr>pe_probe := f (pe_probe e)\<rparr>) (g k) else g k)"
    by (auto simp: pending_set_def g_def split: option.splits)
  have seqs: "map wire_seq (update_probe seq f xs) = map wire_seq xs"
    by (simp add: update_probe_def f)
  have ends: "seq_of_first (update_probe seq f xs) None = seq_of_first xs None"
    "seq_of_last None (update_probe seq f xs) = seq_of_last None xs"
    by (cases xs; simp add: update_probe_def f seq_of_last_def last_map split: if_splits)+
  have "table_wf (pm_map (pending_set seq f m))" "pm_first (pending_set seq f m) = pm_first m"
    "pm_last (pending_set seq f m) = pm_last m"
    using r by (auto simp: pending_set_def represents_def split: option.splits)
  moreover have "wire_seq ` set (update_probe seq f xs) = wire_seq ` set xs"
    using arg_cong [OF seqs, of set] by simp
  moreover have "chain (table_get (pm_map (pending_set seq f m))) None (update_probe seq f xs) None"
    unfolding get using r f by (intro chain_update) (simp_all add: represents_def g_def)
  ultimately show ?thesis
    using r seqs ends by (auto simp: represents_def get g_def split: if_splits)
qed

lemma drain_expired_refines:
  assumes "represents m xs" "sorted (map timeout_at xs)"
  shows "\<exists>batch m'. drain_expired_bounded now limit m = Some (batch, m') \<and>
     eb_probes batch = take limit (filter (\<lambda>p. timeout_at p \<le> now) xs) \<and>
     pm_max_capacity m' = pm_max_capacity m \<and>
     represents m' (drop (length (eb_probes batch)) xs) \<and>
     (eb_more_due batch \<longleftrightarrow> limit < length (filter (\<lambda>p. timeout_at p \<le> now) xs))"
proof -
  define due where "due = filter (\<lambda>p. timeout_at p \<le> now) xs"
  have tw: "takeWhile (\<lambda>p. timeout_at p \<le> now) xs = due"
    unfolding due_def by (rule sorted_takeWhile_filter [OF assms(2)])
  obtain m' where m': "drain_loop now limit m = Some (take limit due, m')"
    "represents m' (drop (length (take limit due)) xs)"
    using drain_loop_refines [OF assms(1), of now limit] tw by auto
  have xs: "xs = due @ dropWhile (\<lambda>p. timeout_at p \<le> now) xs"
    using takeWhile_dropWhile_id [of "\<lambda>p. timeout_at p \<le> now" xs] tw by simp
  have "(\<exists>p ps. drop (length (take limit due)) xs = p # ps \<and> timeout_at p \<le> now) \<longleftrightarrow> limit < length due"
  proof (cases "limit < length due")
    case True
    then obtain q qs where q: "drop limit due = q # qs" by (metis Cons_nth_drop_Suc)
    have "q \<in> set due" using q in_set_dropD [of q limit due] by simp
    moreover have "drop limit xs = q # qs @ dropWhile (\<lambda>p. timeout_at p \<le> now) xs"
      by (subst xs) (use True q in simp)
    ultimately show ?thesis using True by (auto simp: due_def)
  next
    case False
    then have "drop (length (take limit due)) xs = dropWhile (\<lambda>p. timeout_at p \<le> now) xs"
      by (subst xs) simp
    then show ?thesis using False by (auto simp: dropWhile_eq_Cons_conv)
  qed
  with m' drain_loop_capacity [OF m'(1)] more_due_head [OF m'(2), of now] show ?thesis
    by (auto simp: drain_expired_bounded_def due_def [symmetric])
qed

section \<open>Completed set\<close>

text \<open>The order queue lists the members, oldest first.\<close>

definition completed_ok :: "completed_set \<Rightarrow> bool" where
  "completed_ok c \<longleftrightarrow> distinct (cs_set c) \<and> distinct (cs_order c) \<and> set (cs_order c) = set (cs_set c)"

lemma completed_new_ok: "completed_ok (completed_new n)"
  by (simp add: completed_ok_def completed_new_def)

lemma completed_len: "completed_ok c \<Longrightarrow> length (cs_set c) = length (cs_order c)"
  by (metis completed_ok_def distinct_card)

lemma completed_insert_fresh:
  assumes "completed_ok c" "seq \<notin> set (cs_set c)"
  shows "completed_ok (completed_insert seq c) \<and>
     cs_order (completed_insert seq c) =
       (if length (cs_order c) \<ge> cs_max_capacity c then tl (cs_order c) else cs_order c) @ [seq]"
proof (cases "length (cs_set c) \<ge> cs_max_capacity c")
  case True
  show ?thesis
  proof (cases "cs_order c")
    case Nil
    then show ?thesis using assms True completed_len [OF assms(1)]
      by (auto simp: completed_insert_def completed_ok_def Let_def)
  next
    case (Cons old rest)
    then have "old \<in> set (cs_set c)" "old \<notin> set rest" using assms by (auto simp: completed_ok_def)
    then show ?thesis using Cons assms True completed_len [OF assms(1)]
      by (auto simp: completed_insert_def completed_ok_def Let_def distinct_removeAll)
  qed
next
  case False
  then show ?thesis using assms completed_len [OF assms(1)]
    by (auto simp: completed_insert_def completed_ok_def Let_def)
qed

lemma completed_remove_ok:
  "completed_ok c \<Longrightarrow> completed_ok (snd (completed_remove seq c)) \<and>
     set (cs_set (snd (completed_remove seq c))) = set (cs_set c) - {seq} \<and>
     fst (completed_remove seq c) = (seq \<in> set (cs_set c))"
  by (auto simp: completed_remove_def completed_ok_def Let_def distinct_removeAll)

section \<open>Properties\<close>

definition probe_at :: "u32 \<Rightarrow> instant \<Rightarrow> pending_probe" where
  "probe_at seq deadline = \<lparr>wire_seq = seq, sent_at = \<lparr>ct_wall = 0, ct_mono = 0\<rparr>, timeout_at = deadline,
     tx_not_before_wall = 0, kernel_tx_timestamp = None\<rparr>"

lemma represents_one: "represents (the (commit_insert (probe_at 4 9) (pending_new 2))) [probe_at 4 9]"
  using represents_insert [OF represents_empty, of "probe_at 4 9" 2] by auto



text \<open>Draining takes the due probes off the head, at most \<open>limit\<close> of them, in order, and
  reports whether more are due; with deadlines in order these are exactly the oldest due
  probes and nothing due is overlooked.\<close>

theorem drain_expired_correct:
  assumes "represents m xs" "sorted (map timeout_at xs)"
  shows "\<exists>batch m'. drain_expired_bounded now limit m = Some (batch, m') \<and>
     eb_probes batch = take limit (filter (\<lambda>p. timeout_at p \<le> now) xs) \<and>
     represents m' (drop (length (eb_probes batch)) xs) \<and>
     (eb_more_due batch \<longleftrightarrow> limit < length (filter (\<lambda>p. timeout_at p \<le> now) xs))"
  using drain_expired_refines [OF assms] by blast

theorem drain_expired_correct_witness:
  "\<exists>batch m'. drain_expired_bounded 20 1 (the (commit_insert (probe_at 4 9) (pending_new 2))) = Some (batch, m') \<and>
     eb_probes batch = [probe_at 4 9] \<and> represents m' [] \<and> \<not> eb_more_due batch"
  using drain_expired_correct [OF represents_one, of 20 1] by (auto simp: probe_at_def)

text \<open>Retention of timed-out probes is a bounded queue: a full one drops its oldest probe to
  admit the new one, a zero-capacity one stays empty, and the bound is never exceeded.\<close>

theorem timed_out_fifo:
  assumes "represents m xs" "wire_seq p \<notin> wire_seq ` set xs" "length xs \<le> pm_max_capacity m"
  shows "\<exists>m' ys. timed_out_insert p m = Some m' \<and> represents m' ys \<and>
     ys = (if pm_max_capacity m = 0 then xs
           else if length xs = pm_max_capacity m then tl xs @ [p] else xs @ [p]) \<and>
     length ys \<le> pm_max_capacity m"
  using timed_out_insert_refines [OF assms] assms(3) by (cases xs) auto

theorem timed_out_fifo_witness:
  "\<exists>m'. timed_out_insert (probe_at 5 9) (the (commit_insert (probe_at 4 9) (pending_new 2))) = Some m' \<and>
     represents m' [probe_at 4 9, probe_at 5 9]"
proof -
  have "pm_max_capacity (the (commit_insert (probe_at 4 9) (pending_new 2))) = 2" by code_simp
  then show ?thesis
    using timed_out_fifo [OF represents_one, of "probe_at 5 9"] by (auto simp: probe_at_def)
qed

text \<open>The completed set. The order queue always lists exactly the members, an insertion
  records its sequence number and evicts only the oldest one when full, so it never holds
  more than its capacity (or one, for a capacity of zero), and removal forgets exactly one.\<close>

theorem completed_set_bounded:
  assumes "completed_ok c" "length (cs_order c) \<le> max 1 (cs_max_capacity c)"
  shows "completed_ok (completed_insert seq c) \<and> completed_contains seq (completed_insert seq c) \<and>
     length (cs_set (completed_insert seq c)) \<le> max 1 (cs_max_capacity c) \<and>
     (\<forall>s. completed_contains s c \<longrightarrow>
        completed_contains s (completed_insert seq c) \<or> cs_order c \<noteq> [] \<and> s = hd (cs_order c)) \<and>
     completed_ok (snd (completed_remove seq c)) \<and> \<not> completed_contains seq (snd (completed_remove seq c))"
proof (cases "seq \<in> set (cs_set c)")
  case True
  then have "completed_insert seq c = c" by (simp add: completed_insert_def)
  with True assms completed_len [OF assms(1)] completed_remove_ok [OF assms(1), of seq] show ?thesis
    by (auto simp: completed_contains_def)
next
  case False
  note ins = completed_insert_fresh [OF assms(1) False]
  have members: "set (cs_set (completed_insert seq c)) = set (cs_order (completed_insert seq c))"
    and size: "length (cs_set (completed_insert seq c)) = length (cs_order (completed_insert seq c))"
    using ins completed_len by (auto simp: completed_ok_def)
  have "set (cs_order c) = set (cs_set c)" using assms(1) by (simp add: completed_ok_def)
  then have "s \<in> set (cs_order (completed_insert seq c)) \<or> cs_order c \<noteq> [] \<and> s = hd (cs_order c)"
    if "s \<in> set (cs_set c)" for s
    using that ins by (cases "cs_order c") auto
  with members size ins assms completed_remove_ok [OF assms(1), of seq] show ?thesis
    by (auto simp: completed_contains_def)
qed

theorem completed_set_bounded_witness:
  "completed_contains 3 (completed_insert 3 (completed_new 1)) \<and>
   length (cs_set (completed_insert 3 (completed_new 1))) \<le> max 1 (cs_max_capacity (completed_new 1))"
  using completed_set_bounded [OF completed_new_ok, of 1 3] by (simp add: completed_new_def)

end
