(* ===== verification/Client_Timing.thy ===== *)
theory Client_Timing
  imports Client_Negotiation Probe Replies
begin

unbundle bit_operations_syntax

text \<open>
  The event vocabulary of \<open>irtt-client\<close> (\<open>event.rs\<close>), the receive metadata (\<open>metadata.rs\<close>) and
  the measurements the session machine derives from one reply (the timing functions of
  \<open>session/machine.rs\<close>). An \<open>i128\<close> nanosecond count is an \<open>int\<close>: the values are differences of
  \<open>Duration\<close>s and \<open>i64\<close>s, far inside its range, and the saturating conversion from a
  \<open>Duration\<close> keeps its bound.
\<close>

section \<open>Events (\<open>event.rs\<close>)\<close>

type_synonym signed_duration = int

definition i128_max :: int where
  "i128_max = 2 ^ 127 - 1"

text \<open>\<open>SignedDuration::from_duration\<close>, and \<open>duration_ns_i128\<close> of the machine.\<close>

definition duration_ns_i128 :: "duration \<Rightarrow> signed_duration" where
  "duration_ns_i128 d = min (int d) i128_max"

definition as_micros :: "signed_duration \<Rightarrow> int" where
  "as_micros d = quot_trunc d 1000"

definition as_millis :: "signed_duration \<Rightarrow> int" where
  "as_millis d = quot_trunc d 1000000"

record rtt_sample =
  rtt_raw :: duration
  rtt_adjusted :: "signed_duration option"
  rtt_effective :: signed_duration

record server_timing =
  st_receive_wall_ns :: "i64 option"
  st_receive_mono_ns :: "i64 option"
  st_send_wall_ns :: "i64 option"
  st_send_mono_ns :: "i64 option"
  st_midpoint_wall_ns :: "i64 option"
  st_midpoint_mono_ns :: "i64 option"
  st_processing :: "duration option"

record one_way_delay_sample =
  client_to_server :: "signed_duration option"
  server_to_client :: "signed_duration option"

record received_stats_sample =
  rss_count :: "u32 option"
  rss_window :: "u64 option"

record packet_meta =
  pk_traffic_class :: "u8 option"
  pk_dscp :: "u8 option"
  pk_ecn :: "u8 option"
  pk_kernel_rx_timestamp :: "system_time option"

datatype warning_kind = MalformedOrUnrelatedPacket | WrongToken | UntrackedReply

record session_started =
  ev_remote :: socket_addr
  ev_token :: u64
  ev_negotiation :: negotiation_result
  ev_at :: client_timestamp

record no_test_completed =
  nt_remote :: socket_addr
  nt_negotiation :: negotiation_result
  nt_at :: client_timestamp

datatype open_outcome = Started session_started | NoTestOutcome no_test_completed

text \<open>The named fields of the event variants, in the order of the source.\<close>

datatype client_event =
    SessionStarted session_started
  | NoTestCompletedEvent no_test_completed
  | SessionClosed socket_addr u64 client_timestamp
  | EchoSent u32 socket_addr "instant option" client_timestamp nat duration "duration option"
  | EchoReply (reply_seq: u32) socket_addr client_timestamp client_timestamp (reply_rtt: rtt_sample)
      "server_timing option" "one_way_delay_sample option" "received_stats_sample option" nat packet_meta
  | EchoLoss u32 client_timestamp instant
  | DuplicateReply u32 socket_addr client_timestamp nat
  | LateReply u32 u32 socket_addr "client_timestamp option" client_timestamp "rtt_sample option"
      "server_timing option" "one_way_delay_sample option" "received_stats_sample option" nat packet_meta
  | Warning warning_kind string client_timestamp

section \<open>Receive metadata (\<open>metadata.rs\<close>)\<close>

definition CLIENT_MAX_KERNEL_RX_LAG :: duration where
  "CLIENT_MAX_KERNEL_RX_LAG = 1000000000"

record receive_meta =
  rm_traffic_class :: "u8 option"
  rm_kernel_rx_timestamp :: "system_time option"

definition preferred_receive_wall :: "receive_meta \<Rightarrow> system_time \<Rightarrow> system_time" where
  "preferred_receive_wall meta userspace_wall =
     (case rm_kernel_rx_timestamp meta of
        None \<Rightarrow> userspace_wall
      | Some kernel_wall \<Rightarrow>
          (case checked_duration_since userspace_wall kernel_wall of
             Some lag \<Rightarrow> if lag \<le> CLIENT_MAX_KERNEL_RX_LAG then kernel_wall else userspace_wall
           | None \<Rightarrow> userspace_wall))"

definition packet_meta_of :: "receive_meta \<Rightarrow> packet_meta" where
  "packet_meta_of meta =
     \<lparr>pk_traffic_class = rm_traffic_class meta,
      pk_dscp = map_option (drop_bit 2) (rm_traffic_class meta),
      pk_ecn = map_option (\<lambda>tc. tc AND 3) (rm_traffic_class meta),
      pk_kernel_rx_timestamp = rm_kernel_rx_timestamp meta\<rparr>"

section \<open>Sequence numbers\<close>

definition sequence_is_after :: "u32 \<Rightarrow> u32 \<Rightarrow> bool" where
  "sequence_is_after candidate current \<longleftrightarrow> candidate \<noteq> current \<and> candidate - current < 2 ^ 31"

definition sequence_is_before :: "u32 \<Rightarrow> u32 \<Rightarrow> bool" where
  "sequence_is_before candidate current = sequence_is_after current candidate"

definition update_highest_received :: "u32 option \<Rightarrow> u32 \<Rightarrow> u32 option" where
  "update_highest_received highest seq =
     Some (case highest of None \<Rightarrow> seq | Some h \<Rightarrow> if sequence_is_after seq h then seq else h)"

section \<open>Round trips and delays\<close>

definition nonneg_duration :: "i64 \<Rightarrow> duration option" where
  "nonneg_duration d = (if 0 \<le> sint d then Some (nat (sint d)) else None)"

definition compute_server_processing :: "timestamp_fields \<Rightarrow> duration option" where
  "compute_server_processing ts =
     (case (ts_recv_mono ts, ts_send_mono ts) of
        (Some recv, Some send) \<Rightarrow> Option.bind (checked_sub_i64 send recv) nonneg_duration
      | _ \<Rightarrow>
        (case (ts_recv_wall ts, ts_send_wall ts) of
           (Some recv, Some send) \<Rightarrow> Option.bind (checked_sub_i64 send recv) nonneg_duration
         | _ \<Rightarrow> None))"

definition compute_rtt :: "client_timestamp \<Rightarrow> client_timestamp \<Rightarrow> timestamp_fields \<Rightarrow> rtt_sample" where
  "compute_rtt sent received_at ts =
     (let raw = (case checked_duration_since (ct_mono received_at) (ct_mono sent) of
                   Some d \<Rightarrow> d | None \<Rightarrow> 0);
          adjusted = map_option (\<lambda>sp. duration_ns_i128 raw - duration_ns_i128 sp) (compute_server_processing ts);
          effective = (case adjusted of Some a \<Rightarrow> a | None \<Rightarrow> duration_ns_i128 raw)
      in \<lparr>rtt_raw = raw, rtt_adjusted = adjusted, rtt_effective = effective\<rparr>)"

definition build_server_timing :: "timestamp_fields \<Rightarrow> server_timing option" where
  "build_server_timing ts =
     (if ts_recv_wall ts = None \<and> ts_recv_mono ts = None \<and> ts_send_wall ts = None \<and>
         ts_send_mono ts = None \<and> ts_midpoint_wall ts = None \<and> ts_midpoint_mono ts = None
      then None
      else Some
        \<lparr>st_receive_wall_ns = ts_recv_wall ts, st_receive_mono_ns = ts_recv_mono ts,
         st_send_wall_ns = ts_send_wall ts, st_send_mono_ns = ts_send_mono ts,
         st_midpoint_wall_ns = ts_midpoint_wall ts, st_midpoint_mono_ns = ts_midpoint_mono ts,
         st_processing = compute_server_processing ts\<rparr>)"

definition preferred_send_wall ::
  "system_time \<Rightarrow> system_time \<Rightarrow> system_time option \<Rightarrow> system_time \<Rightarrow> system_time" where
  "preferred_send_wall not_before sent_at_wall kernel_tx received_at =
     (case kernel_tx of
        Some k \<Rightarrow> if not_before \<le> k \<and> k \<le> received_at then k else sent_at_wall
      | None \<Rightarrow> sent_at_wall)"

definition unix_epoch_ns_i64 :: "system_time \<Rightarrow> i64 option" where
  "unix_epoch_ns_i64 time = (if 0 \<le> time \<and> time \<le> i64_max then Some (word_of_int time) else None)"

definition or_else :: "'a option \<Rightarrow> 'a option \<Rightarrow> 'a option" where
  "or_else a b = (case a of None \<Rightarrow> b | Some x \<Rightarrow> Some x)"

text \<open>\<open>a.zip(b).and_then(|(a, b)| a.checked_sub(b)).map(SignedDuration::from_nanos)\<close>\<close>

definition delay_between :: "i64 option \<Rightarrow> i64 option \<Rightarrow> signed_duration option" where
  "delay_between a b =
     (case (a, b) of (Some later, Some earlier) \<Rightarrow> map_option sint (checked_sub_i64 later earlier)
      | _ \<Rightarrow> None)"

definition compute_one_way ::
  "client_timestamp \<Rightarrow> system_time \<Rightarrow> client_timestamp \<Rightarrow> system_time option \<Rightarrow> receive_meta \<Rightarrow>
     timestamp_fields \<Rightarrow> one_way_delay_sample option" where
  "compute_one_way sent not_before received_at kernel_tx meta ts =
     (let server_recv_wall = or_else (ts_recv_wall ts) (ts_midpoint_wall ts);
          server_send_wall = or_else (ts_send_wall ts) (ts_midpoint_wall ts);
          client_send_wall = preferred_send_wall not_before (ct_wall sent) kernel_tx (ct_wall received_at);
          client_send_ns = unix_epoch_ns_i64 client_send_wall;
          client_recv_ns = unix_epoch_ns_i64 (preferred_receive_wall meta (ct_wall received_at));
          c2s = delay_between server_recv_wall client_send_ns;
          s2c = delay_between client_recv_ns server_send_wall
      in if c2s = None \<and> s2c = None then None
         else Some \<lparr>client_to_server = c2s, server_to_client = s2c\<rparr>)"

definition build_received_stats :: "echo_reply \<Rightarrow> received_stats_sample option" where
  "build_received_stats reply =
     (if er_recv_count reply = None \<and> er_recv_window reply = None then None
      else Some \<lparr>rss_count = er_recv_count reply, rss_window = er_recv_window reply\<rparr>)"

section \<open>Lemmas\<close>

text \<open>Serial number arithmetic: asymmetric, and total except at distance \<open>2 ^ 31\<close>.\<close>

lemma after_asym: "sequence_is_after a b \<Longrightarrow> \<not> sequence_is_after b a"
  by (auto simp: sequence_is_after_def word_less_nat_alt unat_sub_if' word_unat_eq_iff split: if_splits)

lemma after_total:
  "a \<noteq> b \<Longrightarrow> a - b \<noteq> 2 ^ 31 \<Longrightarrow> sequence_is_after a b \<or> sequence_is_before a b"
  using word_unat_eq_iff [of "a - b" 2147483648] word_unat_eq_iff [of a b]
    unsigned_less [of a, where 'a = nat] unsigned_less [of b, where 'a = nat]
  by (auto simp: sequence_is_after_def sequence_is_before_def word_less_nat_alt unat_sub_if' split: if_splits)

lemma update_highest_ge:
  "update_highest_received h s = Some h' \<Longrightarrow> h' = s \<or> (h = Some h' \<and> \<not> sequence_is_after s h')"
  by (auto simp: update_highest_received_def split: option.splits if_splits)

lemma unix_epoch_exact: "unix_epoch_ns_i64 t = Some w \<Longrightarrow> sint w = t"
  by (auto simp: unix_epoch_ns_i64_def in_i64_def i64_min_def i64_max_def split: if_splits)

lemma delay_between_Some:
  "delay_between a b = Some d \<Longrightarrow> \<exists>x y. a = Some x \<and> b = Some y \<and> d = sint x - sint y"
  by (auto simp: delay_between_def split: option.splits dest: checked_sub_i64_Some)

lemma preferred_receive_wall_bounds:
  "preferred_receive_wall meta w \<le> w \<and> w - preferred_receive_wall meta w \<le> int CLIENT_MAX_KERNEL_RX_LAG \<and>
     (preferred_receive_wall meta w = w \<or> rm_kernel_rx_timestamp meta = Some (preferred_receive_wall meta w))"
  by (auto simp: preferred_receive_wall_def checked_duration_since_def CLIENT_MAX_KERNEL_RX_LAG_def
      split: option.splits)

lemma preferred_send_wall_cases:
  "preferred_send_wall nb s k r = s \<or> k = Some (preferred_send_wall nb s k r) \<and>
     nb \<le> preferred_send_wall nb s k r \<and> preferred_send_wall nb s k r \<le> r"
  by (auto simp: preferred_send_wall_def split: option.splits)

lemma processing_cases:
  assumes "compute_server_processing ts = Some d"
  shows "(\<exists>a b. ts_recv_mono ts = Some a \<and> ts_send_mono ts = Some b \<and> int d = sint b - sint a) \<or>
     ((ts_recv_mono ts = None \<or> ts_send_mono ts = None) \<and>
      (\<exists>a b. ts_recv_wall ts = Some a \<and> ts_send_wall ts = Some b \<and> int d = sint b - sint a))"
proof -
  have pick: "int d = sint b - sint a"
    if "Option.bind (checked_sub_i64 b a) nonneg_duration = Some d" for a b
    using that checked_sub_i64_Some
    by (auto simp: bind_eq_Some_conv nonneg_duration_def split: if_splits)
  show ?thesis
    using assms pick unfolding compute_server_processing_def
    by (cases "ts_recv_mono ts"; cases "ts_send_mono ts"; cases "ts_recv_wall ts"; cases "ts_send_wall ts") auto
qed

section \<open>Properties\<close>

text \<open>Round-trip times. The raw round trip is the monotonic time between send and receipt,
  never negative; it is corrected by the server's processing time exactly when the server
  reported a non-negative one, taken from its monotonic pair, or from the wall pair when the
  monotonic pair is incomplete.\<close>

theorem reply_measurements:
  "rtt_raw (compute_rtt s r ts) = nat (ct_mono r - ct_mono s) \<and>
   (rtt_adjusted (compute_rtt s r ts) =
      map_option (\<lambda>p. duration_ns_i128 (rtt_raw (compute_rtt s r ts)) - duration_ns_i128 p)
        (compute_server_processing ts)) \<and>
   (case compute_server_processing ts of
      None \<Rightarrow> rtt_effective (compute_rtt s r ts) = duration_ns_i128 (rtt_raw (compute_rtt s r ts))
    | Some p \<Rightarrow> rtt_adjusted (compute_rtt s r ts) = Some (rtt_effective (compute_rtt s r ts)) \<and>
        ((\<exists>a b. ts_recv_mono ts = Some a \<and> ts_send_mono ts = Some b \<and> int p = sint b - sint a) \<or>
         ((ts_recv_mono ts = None \<or> ts_send_mono ts = None) \<and>
          (\<exists>a b. ts_recv_wall ts = Some a \<and> ts_send_wall ts = Some b \<and> int p = sint b - sint a))))"
  using processing_cases [of ts]
  by (auto simp: compute_rtt_def Let_def checked_duration_since_def split: option.split)

text \<open>One-way delays. When both directions are measured from the server's receive and send
  wall timestamps, each is the exact difference of its endpoints, the client's endpoints are its
  own wall samples or kernel timestamps inside their plausibility bounds, and the two delays add
  up to the client's wall round trip less the server's residence time.\<close>

theorem one_way_delays_sum:
  assumes "compute_one_way s nb r k meta ts = Some d"
    and "client_to_server d = Some up" "server_to_client d = Some down"
    and "ts_recv_wall ts = Some a" "ts_send_wall ts = Some b"
  shows "\<exists>send recv. up = sint a - send \<and> down = recv - sint b \<and>
     up + down = (recv - send) - (sint b - sint a) \<and>
     (send = ct_wall s \<or> k = Some send \<and> nb \<le> send \<and> send \<le> ct_wall r) \<and>
     (recv = ct_wall r \<or> rm_kernel_rx_timestamp meta = Some recv \<and> recv \<le> ct_wall r \<and>
        ct_wall r - recv \<le> int CLIENT_MAX_KERNEL_RX_LAG)"
proof -
  define send where "send = preferred_send_wall nb (ct_wall s) k (ct_wall r)"
  define recv where "recv = preferred_receive_wall meta (ct_wall r)"
  have "delay_between (Some a) (unix_epoch_ns_i64 send) = Some up"
    "delay_between (unix_epoch_ns_i64 recv) (Some b) = Some down"
    using assms by (auto simp: compute_one_way_def Let_def or_else_def send_def recv_def split: if_splits)
  then have "up = sint a - send" "down = recv - sint b"
    by (auto dest!: delay_between_Some unix_epoch_exact)
  with preferred_send_wall_cases [of nb "ct_wall s" k "ct_wall r"] preferred_receive_wall_bounds [of meta "ct_wall r"]
  show ?thesis unfolding send_def [symmetric] recv_def [symmetric]
    by (intro exI [of _ send] exI [of _ recv]) auto
qed

theorem one_way_delays_sum_witness:
  "\<exists>send recv. (30 :: int) = sint (130 :: i64) - send \<and> (25 :: int) = recv - sint (140 :: i64) \<and> send = 100 \<and> recv = 165"
  using one_way_delays_sum [of "\<lparr>ct_wall = 100, ct_mono = 0\<rparr>" 99 "\<lparr>ct_wall = 165, ct_mono = 65\<rparr>" None
      "\<lparr>rm_traffic_class = None, rm_kernel_rx_timestamp = None\<rparr>"
      "\<lparr>ts_recv_wall = Some 130, ts_recv_mono = None, ts_midpoint_wall = None, ts_midpoint_mono = None,
        ts_send_wall = Some 140, ts_send_mono = None\<rparr>"
      "\<lparr>client_to_server = Some 30, server_to_client = Some 25\<rparr>" 30 25 130 140]
  by (simp add: compute_one_way_def Let_def or_else_def preferred_send_wall_def preferred_receive_wall_def
      unix_epoch_ns_i64_def i64_max_def delay_between_def checked_sub_i64_def in_i64_def i64_min_def)

end
