(* ===== verification/Machine.thy ===== *)
theory Machine
  imports Client_Timing Request
begin

unbundle bit_operations_syntax

text \<open>
  \<open>irtt-client/src/session/machine.rs\<close>: the session machine, the I/O-free core both client
  adapters drive. Timestamps, received bytes and the allocator's answer are inputs. An
  \<open>expect\<close>, an \<open>unwrap\<close> or \<open>unreachable!\<close> that fails is the value \<open>None\<close> of an operation's
  result; the invariant shows that none does. Debug assertions are not part of the model.
\<close>

section \<open>State\<close>

definition MAX_OPEN_PACKET_SIZE :: nat where "MAX_OPEN_PACKET_SIZE = 512"
definition MIN_RECV_BUFFER_SIZE :: nat where "MIN_RECV_BUFFER_SIZE = 2048"

datatype close_source = CloseLocal | ClosePeer

record active_session =
  as_token :: u64
  as_negotiated :: negotiation_result
  as_local_close_packet :: bytes
  as_next_wire_seq :: u32
  as_highest_received_seq :: "u32 option"
  as_packets_sent :: u64
  as_pending :: pending_map
  as_timed_out :: pending_map
  as_completed :: completed_set
  as_kernel_tx_correlation_valid :: bool

datatype machine_state =
    MsConnected
  | MsOpen active_session
  | MsNoTestCompleted
  | MsClosed close_source u64

record session_machine =
  sm_config :: client_config
  sm_remote :: socket_addr
  sm_requested :: params
  sm_state :: machine_state

datatype open_datagram_disposition = OpenIgnore | OpenTrusted open_reply

record prepared_open_acceptance =
  po_next_state :: machine_state
  po_outcome :: open_outcome

record close_commit =
  cm_packets_sent :: u64
  cm_token :: u64

record open_acceptance_failure =
  of_primary :: client_error
  of_cleanup_close :: "bytes option"

record prepared_probe =
  pp_bytes :: bytes
  pp_seq :: u32

record probe_commit_preflight =
  pf_seq :: u32
  pf_next_wire_seq :: u32
  pf_next_packets_sent :: u64

record probe_commit =
  pc_wire_seq :: u32
  pc_timeout_at :: instant
  pc_tx_not_before_wall :: system_time
  pc_next_wire_seq :: u32
  pc_next_packets_sent :: u64

record timeout_batch =
  tb_events :: "client_event list"
  tb_more_due :: bool

record probe_sent =
  psent_seq :: u32
  psent_at :: client_timestamp
  psent_bytes :: nat

section \<open>Lifecycle checks and queries\<close>

definition validate_config :: "client_config \<Rightarrow> client_error + unit" where
  "validate_config config =
     (if cc_max_pending_probes config = 0 then
        Err (InvalidConfig ''max_pending_probes must be greater than zero'')
      else if cc_probe_timeout config = 0 then
        Err (InvalidConfig ''probe_timeout must be greater than zero'')
      else bindr (params_from_request (cc_request config)) (\<lambda>_. Ok ()))"

definition machine_new :: "client_config \<Rightarrow> socket_addr \<Rightarrow> client_error + session_machine" where
  "machine_new config remote =
     bindr (validate_config config) (\<lambda>_.
     bindr (params_from_request (cc_request config)) (\<lambda>requested.
       Ok \<lparr>sm_config = config, sm_remote = remote, sm_requested = requested, sm_state = MsConnected\<rparr>))"

definition machine_hmac_key :: "session_machine \<Rightarrow> bytes option" where
  "machine_hmac_key m = auth_hmac_key (cc_auth (sm_config m))"

definition has_hmac :: "session_machine \<Rightarrow> bool" where
  "has_hmac m \<longleftrightarrow> machine_hmac_key m \<noteq> None"

fun open_session_of :: "machine_state \<Rightarrow> client_error + active_session" where
  "open_session_of (MsOpen s) = Ok s"
| "open_session_of (MsClosed _ _) = Err AlreadyClosed"
| "open_session_of MsConnected = Err NotOpen"
| "open_session_of MsNoTestCompleted = Err AlreadyCompleted"

definition open_session :: "session_machine \<Rightarrow> client_error + active_session" where
  "open_session m = open_session_of (sm_state m)"

fun ensure_connected_of :: "machine_state \<Rightarrow> client_error + unit" where
  "ensure_connected_of MsConnected = Ok ()"
| "ensure_connected_of (MsOpen _) = Err AlreadyOpen"
| "ensure_connected_of (MsClosed _ _) = Err AlreadyClosed"
| "ensure_connected_of MsNoTestCompleted = Err AlreadyCompleted"

definition ensure_connected :: "session_machine \<Rightarrow> client_error + unit" where
  "ensure_connected m = ensure_connected_of (sm_state m)"

definition ensure_open :: "session_machine \<Rightarrow> client_error + unit" where
  "ensure_open m = bindr (open_session m) (\<lambda>_. Ok ())"

definition negotiation :: "session_machine \<Rightarrow> negotiation_result option" where
  "negotiation m = (case sm_state m of MsOpen s \<Rightarrow> Some (as_negotiated s) | _ \<Rightarrow> None)"

definition machine_pending_is_empty :: "session_machine \<Rightarrow> bool" where
  "machine_pending_is_empty m = (case sm_state m of MsOpen s \<Rightarrow> pending_is_empty (as_pending s) | _ \<Rightarrow> True)"

definition is_peer_closed :: "session_machine \<Rightarrow> bool" where
  "is_peer_closed m = (case sm_state m of MsClosed ClosePeer _ \<Rightarrow> True | _ \<Rightarrow> False)"

definition packets_sent :: "session_machine \<Rightarrow> u64" where
  "packets_sent m =
     (case sm_state m of MsOpen s \<Rightarrow> as_packets_sent s | MsClosed _ n \<Rightarrow> n | _ \<Rightarrow> 0)"

definition next_probe_timeout_deadline :: "session_machine \<Rightarrow> instant option" where
  "next_probe_timeout_deadline m =
     (case sm_state m of MsOpen s \<Rightarrow> next_timeout_deadline (as_pending s) | _ \<Rightarrow> None)"

definition max_option :: "instant option \<Rightarrow> instant option \<Rightarrow> instant option" where
  "max_option a b =
     (case (a, b) of (None, y) \<Rightarrow> y | (x, None) \<Rightarrow> x | (Some x, Some y) \<Rightarrow> Some (max x y))"

definition latest_probe_timeout_deadline :: "session_machine \<Rightarrow> instant option" where
  "latest_probe_timeout_deadline m =
     (case sm_state m of
        MsOpen s \<Rightarrow> max_option (latest_timeout_deadline (as_pending s)) (latest_timeout_deadline (as_timed_out s))
      | _ \<Rightarrow> None)"

definition recv_buffer_size :: "bool \<Rightarrow> negotiation_result option \<Rightarrow> client_error + nat" where
  "recv_buffer_size hmac negotiated =
     (case negotiated of
        Some n \<Rightarrow> bindr (map_err Protocol (echo_packet_len hmac (ng_peer_params n)))
          (\<lambda>len. Ok (max (min (len + 1) usize_max) MIN_RECV_BUFFER_SIZE))
      | None \<Rightarrow> Ok MIN_RECV_BUFFER_SIZE)"

section \<open>Opening\<close>

definition prepare_open_request :: "mac_fun \<Rightarrow> session_machine \<Rightarrow> client_error + bytes" where
  "prepare_open_request mac m =
     bindr (ensure_connected m) (\<lambda>_.
       map_err Protocol (encode_request mac
         (ReqOpen (sm_requested m) (rq_run_mode (cc_request (sm_config m)) = RunNoTest))
         (machine_hmac_key m)))"

text \<open>The protocol errors that are terminal for an open attempt; others are ignored datagrams.\<close>

fun terminal_open_error :: "proto_error \<Rightarrow> bool" where
  "terminal_open_error ZeroToken = True"
| "terminal_open_error TruncatedVarint = True"
| "terminal_open_error VarintOverflow = True"
| "terminal_open_error InvalidUtf8 = True"
| "terminal_open_error (InvalidEnum _ _) = True"
| "terminal_open_error (ParameterLengthTooLarge _ _) = True"
| "terminal_open_error MalformedParams = True"
| "terminal_open_error _ = False"

definition inspect_open_datagram ::
  "mac_fun \<Rightarrow> bytes \<Rightarrow> session_machine \<Rightarrow> client_error + open_datagram_disposition" where
  "inspect_open_datagram mac packet m =
     bindr (ensure_connected m) (\<lambda>_.
       case decode_open_reply mac packet (machine_hmac_key m) of
         Inr reply \<Rightarrow> Ok (OpenTrusted reply)
       | Inl error \<Rightarrow> if terminal_open_error error then Err (Protocol error) else Ok OpenIgnore)"

definition prepare_normal_open ::
  "open_reply \<Rightarrow> client_timestamp \<Rightarrow> bytes option \<Rightarrow> session_machine \<Rightarrow>
     (open_acceptance_failure, prepared_open_acceptance) outcome" where
  "prepare_normal_open reply now cleanup_close m =
     (case client_negotiate_params (sm_requested m) (or_params reply) (op_negotiation (cc_open (sm_config m))) of
        None \<Rightarrow> None
      | Some (Inl primary) \<Rightarrow> Some (Err \<lparr>of_primary = primary, of_cleanup_close = cleanup_close\<rparr>)
      | Some (Inr negotiated) \<Rightarrow>
          (case cleanup_close of
             None \<Rightarrow> None
           | Some local_close_packet \<Rightarrow>
               let capacity = cc_max_pending_probes (sm_config m)
               in Some (Ok
                 \<lparr>po_next_state = MsOpen
                    \<lparr>as_token = or_token reply, as_negotiated = negotiated,
                     as_local_close_packet = local_close_packet, as_next_wire_seq = 0,
                     as_highest_received_seq = None, as_packets_sent = 0,
                     as_pending = pending_new capacity, as_timed_out = pending_new capacity,
                     as_completed = completed_new capacity, as_kernel_tx_correlation_valid = True\<rparr>,
                  po_outcome = Started
                    \<lparr>ev_remote = sm_remote m, ev_token = or_token reply, ev_negotiation = negotiated,
                     ev_at = now\<rparr>\<rparr>)))"

definition prepare_no_test_open ::
  "open_reply \<Rightarrow> client_timestamp \<Rightarrow> session_machine \<Rightarrow>
     (open_acceptance_failure, prepared_open_acceptance) outcome" where
  "prepare_no_test_open reply now m =
     map_option (\<lambda>r. case r of
         Inl primary \<Rightarrow> Err \<lparr>of_primary = primary, of_cleanup_close = None\<rparr>
       | Inr negotiated \<Rightarrow> Ok
           \<lparr>po_next_state = MsNoTestCompleted,
            po_outcome = NoTestOutcome
              \<lparr>nt_remote = sm_remote m, nt_negotiation = negotiated, nt_at = now\<rparr>\<rparr>)
       (client_negotiate_params (sm_requested m) (or_params reply) (op_negotiation (cc_open (sm_config m))))"

definition prepare_open_acceptance ::
  "mac_fun \<Rightarrow> open_reply \<Rightarrow> client_timestamp \<Rightarrow> session_machine \<Rightarrow>
     (open_acceptance_failure, prepared_open_acceptance) outcome" where
  "prepare_open_acceptance mac reply now m =
     bindp (Some (map_err (\<lambda>e. \<lparr>of_primary = e, of_cleanup_close = None\<rparr>) (ensure_connected m))) (\<lambda>_.
     let reply_is_close = has (or_flags reply) FLAG_CLOSE
     in bindp (Some
          (if \<not> reply_is_close \<and> or_token reply \<noteq> 0 then
             map_err (\<lambda>e. \<lparr>of_primary = Protocol e, of_cleanup_close = None\<rparr>)
               (bindr (encode_request mac (ReqClose (or_token reply)) (machine_hmac_key m)) (\<lambda>b. Ok (Some b)))
           else Ok None)) (\<lambda>cleanup_close.
        if protocol_version (or_params reply) \<noteq> PROTOCOL_VERSION then
          Some (Err \<lparr>of_primary = ProtocolVersionMismatch PROTOCOL_VERSION (protocol_version (or_params reply)),
            of_cleanup_close = cleanup_close\<rparr>)
        else
          (case rq_run_mode (cc_request (sm_config m)) of
             RunNormal \<Rightarrow>
               if reply_is_close then
                 Some (Err \<lparr>of_primary = ServerRejected, of_cleanup_close = cleanup_close\<rparr>)
               else if or_token reply = 0 then
                 Some (Err \<lparr>of_primary = ClientZeroToken, of_cleanup_close = cleanup_close\<rparr>)
               else prepare_normal_open reply now cleanup_close m
           | RunNoTest \<Rightarrow>
               if \<not> reply_is_close then
                 Some (Err \<lparr>of_primary = UnexpectedNoTestReply, of_cleanup_close = cleanup_close\<rparr>)
               else if or_token reply \<noteq> 0 then
                 Some (Err \<lparr>of_primary = NonZeroNoTestToken (or_token reply), of_cleanup_close = cleanup_close\<rparr>)
               else prepare_no_test_open reply now m)))"

definition normal_negotiated :: "prepared_open_acceptance \<Rightarrow> negotiation_result option" where
  "normal_negotiated p = (case po_next_state p of MsOpen s \<Rightarrow> Some (as_negotiated s) | _ \<Rightarrow> None)"

definition cleanup_close_packet :: "prepared_open_acceptance \<Rightarrow> bytes option" where
  "cleanup_close_packet p = (case po_next_state p of MsOpen s \<Rightarrow> Some (as_local_close_packet s) | _ \<Rightarrow> None)"

definition commit_open :: "prepared_open_acceptance \<Rightarrow> session_machine \<Rightarrow> session_machine \<times> open_outcome" where
  "commit_open prepared m = (m\<lparr>sm_state := po_next_state prepared\<rparr>, po_outcome prepared)"

section \<open>Sending\<close>

definition prepare_probe :: "mac_fun \<Rightarrow> session_machine \<Rightarrow> client_error + prepared_probe" where
  "prepare_probe mac m =
     bindr (open_session m) (\<lambda>s.
     bindr (map_err Protocol (encode_request mac
         (ReqEcho (as_token s) (as_next_wire_seq s) (ng_peer_params (as_negotiated s)) [])
         (machine_hmac_key m))) (\<lambda>packet.
       Ok \<lparr>pp_bytes = packet, pp_seq = as_next_wire_seq s\<rparr>))"

definition preflight_probe_commit ::
  "bool \<Rightarrow> prepared_probe \<Rightarrow> session_machine \<Rightarrow> client_error + probe_commit_preflight" where
  "preflight_probe_commit reserve_ok prepared m =
     bindr (open_session m) (\<lambda>s.
       if pp_seq prepared \<noteq> as_next_wire_seq s then
         Err (StalePreparedProbe (pp_seq prepared) (as_next_wire_seq s))
       else
         bindr (preflight_insert reserve_ok (pp_seq prepared) (as_pending s)) (\<lambda>_.
           if as_packets_sent s = - 1 then Err (CounterOverflow ''packets_sent'')
           else Ok \<lparr>pf_seq = pp_seq prepared, pf_next_wire_seq = pp_seq prepared + 1,
                    pf_next_packets_sent = as_packets_sent s + 1\<rparr>))"

definition finalize_probe_commit ::
  "probe_commit_preflight \<Rightarrow> client_timestamp \<Rightarrow> session_machine \<Rightarrow> client_error + probe_commit" where
  "finalize_probe_commit preflight send_anchor m =
     (case instant_checked_add (ct_mono send_anchor) (cc_probe_timeout (sm_config m)) of
        None \<Rightarrow> Err DurationOverflow
      | Some deadline \<Rightarrow> Ok
          \<lparr>pc_wire_seq = pf_seq preflight, pc_timeout_at = deadline,
           pc_tx_not_before_wall = ct_wall send_anchor,
           pc_next_wire_seq = pf_next_wire_seq preflight,
           pc_next_packets_sent = pf_next_packets_sent preflight\<rparr>)"

text \<open>The session after a committed send, and the whole commit on the machine.\<close>

definition session_commit_sent ::
  "probe_commit \<Rightarrow> client_timestamp \<Rightarrow> active_session \<Rightarrow> active_session option" where
  "session_commit_sent commit sent s =
     (let seq = pc_wire_seq commit;
          pending = \<lparr>wire_seq = seq, sent_at = sent, timeout_at = pc_timeout_at commit,
            tx_not_before_wall = pc_tx_not_before_wall commit, kernel_tx_timestamp = None\<rparr>
      in Option.bind (pending_remove seq (as_timed_out s)) (\<lambda>(_, timed_out).
         map_option (\<lambda>inserted.
           s\<lparr>as_timed_out := timed_out,
             as_completed := snd (completed_remove seq (as_completed s)),
             as_pending := inserted,
             as_next_wire_seq := pc_next_wire_seq commit,
             as_packets_sent := pc_next_packets_sent commit\<rparr>)
           (commit_insert pending (as_pending s))))"

definition commit_probe_sent ::
  "probe_commit \<Rightarrow> client_timestamp \<Rightarrow> nat \<Rightarrow> session_machine \<Rightarrow> (session_machine \<times> probe_sent) option" where
  "commit_probe_sent commit sent len m =
     (case sm_state m of
        MsOpen s \<Rightarrow>
          map_option (\<lambda>s'. (m\<lparr>sm_state := MsOpen s'\<rparr>,
              \<lparr>psent_seq = pc_wire_seq commit, psent_at = sent, psent_bytes = len\<rparr>))
            (session_commit_sent commit sent s)
      | _ \<Rightarrow> None)"

definition invalidate_kernel_tx_correlation :: "session_machine \<Rightarrow> session_machine" where
  "invalidate_kernel_tx_correlation m =
     (case sm_state m of
        MsOpen s \<Rightarrow> m\<lparr>sm_state := MsOpen (s\<lparr>as_kernel_tx_correlation_valid := False\<rparr>)\<rparr>
      | _ \<Rightarrow> m)"

definition attach_timestamp :: "system_time \<Rightarrow> pending_probe \<Rightarrow> pending_probe" where
  "attach_timestamp timestamp probe =
     (case kernel_tx_timestamp probe of
        None \<Rightarrow> probe\<lparr>kernel_tx_timestamp := Some timestamp\<rparr> | Some _ \<Rightarrow> probe)"

definition session_record_tx :: "u32 \<Rightarrow> system_time \<Rightarrow> active_session \<Rightarrow> active_session" where
  "session_record_tx seq timestamp s =
     (if \<not> as_kernel_tx_correlation_valid s then s
      else if pending_get seq (as_pending s) \<noteq> None then
        s\<lparr>as_pending := pending_set seq (attach_timestamp timestamp) (as_pending s)\<rparr>
      else s\<lparr>as_timed_out := pending_set seq (attach_timestamp timestamp) (as_timed_out s)\<rparr>)"

definition record_kernel_tx_timestamp :: "u32 \<Rightarrow> system_time \<Rightarrow> session_machine \<Rightarrow> session_machine" where
  "record_kernel_tx_timestamp seq timestamp m =
     (case sm_state m of
        MsOpen s \<Rightarrow> m\<lparr>sm_state := MsOpen (session_record_tx seq timestamp s)\<rparr>
      | _ \<Rightarrow> m)"

section \<open>Receiving\<close>

definition is_late :: "u32 option \<Rightarrow> u32 \<Rightarrow> bool" where
  "is_late highest seq = (case highest of None \<Rightarrow> False | Some h \<Rightarrow> sequence_is_before seq h)"

text \<open>The late reply of a probe that is still retained.\<close>

definition measured_late_reply ::
  "socket_addr \<Rightarrow> echo_reply \<Rightarrow> nat \<Rightarrow> client_timestamp \<Rightarrow> receive_meta \<Rightarrow> u32 \<Rightarrow> pending_probe \<Rightarrow> client_event" where
  "measured_late_reply remote reply packet_len now meta highest_seen probe =
     LateReply (er_sequence reply) highest_seen remote (Some (sent_at probe)) now
       (Some (compute_rtt (sent_at probe) now (er_timestamps reply)))
       (build_server_timing (er_timestamps reply))
       (compute_one_way (sent_at probe) (tx_not_before_wall probe) now (kernel_tx_timestamp probe) meta
          (er_timestamps reply))
       (build_received_stats reply) packet_len (packet_meta_of meta)"

definition classify_reply ::
  "socket_addr \<Rightarrow> echo_reply \<Rightarrow> nat \<Rightarrow> client_timestamp \<Rightarrow> receive_meta \<Rightarrow> active_session \<Rightarrow>
     (active_session \<times> client_event) option" where
  "classify_reply remote reply packet_len now meta s =
     (let seq = er_sequence reply; ts = er_timestamps reply; highest = as_highest_received_seq s;
          highest_seen = (case highest of None \<Rightarrow> seq | Some h \<Rightarrow> h);
          highest' = update_highest_received highest seq
      in Option.bind (pending_remove seq (as_pending s)) (\<lambda>(found, pending).
        case found of
          Some probe \<Rightarrow>
            Some (s\<lparr>as_pending := pending, as_highest_received_seq := highest',
                    as_completed := completed_insert seq (as_completed s)\<rparr>,
              if is_late highest seq then
                measured_late_reply remote reply packet_len now meta highest_seen probe
              else
                EchoReply seq remote (sent_at probe) now (compute_rtt (sent_at probe) now ts)
                  (build_server_timing ts)
                  (compute_one_way (sent_at probe) (tx_not_before_wall probe) now
                     (kernel_tx_timestamp probe) meta ts)
                  (build_received_stats reply) packet_len (packet_meta_of meta))
        | None \<Rightarrow>
            if completed_contains seq (as_completed s) then
              Some (s\<lparr>as_highest_received_seq := highest'\<rparr>, DuplicateReply seq remote now packet_len)
            else
              Option.bind (pending_remove seq (as_timed_out s)) (\<lambda>(found, timed_out).
                case found of
                  Some probe \<Rightarrow>
                    Some (s\<lparr>as_timed_out := timed_out, as_highest_received_seq := highest',
                            as_completed := completed_insert seq (as_completed s)\<rparr>,
                      measured_late_reply remote reply packet_len now meta highest_seen probe)
                | None \<Rightarrow>
                    if is_late highest seq then
                      Some (s, LateReply seq highest_seen remote None now None (build_server_timing ts) None
                        (build_received_stats reply) packet_len (packet_meta_of meta))
                    else
                      Some (s, Warning UntrackedReply
                        (''dropped reply with untracked seq '' @ decimal (unat seq) @
                         '' (no pending or completed entry)'') now))))"

definition process_echo_reply ::
  "echo_reply \<Rightarrow> nat \<Rightarrow> client_timestamp \<Rightarrow> receive_meta \<Rightarrow> active_session \<Rightarrow> session_machine \<Rightarrow>
     (session_machine \<times> client_event list) option" where
  "process_echo_reply reply packet_len now meta s m =
     (if er_token reply \<noteq> as_token s then
        Some (m, [Warning WrongToken
          (''dropped reply with wrong token: expected '' @ hex_prefixed (unat (as_token s)) @
           '', got '' @ hex_prefixed (unat (er_token reply))) now])
      else
        map_option (\<lambda>(s', event).
          if has (er_flags reply) FLAG_CLOSE then
            (m\<lparr>sm_state := MsClosed ClosePeer (as_packets_sent s')\<rparr>,
             [event, SessionClosed (sm_remote m) (as_token s) now])
          else (m\<lparr>sm_state := MsOpen s'\<rparr>, [event]))
          (classify_reply (sm_remote m) reply packet_len now meta s))"

definition process_received_echo_packet ::
  "mac_fun \<Rightarrow> bytes \<Rightarrow> client_timestamp \<Rightarrow> receive_meta \<Rightarrow> session_machine \<Rightarrow>
     (session_machine \<times> (client_error + client_event list)) option" where
  "process_received_echo_packet mac packet now meta m =
     (case open_session m of
        Inl e \<Rightarrow> Some (m, Err e)
      | Inr s \<Rightarrow>
          (case decode_echo_reply mac packet (ng_peer_params (as_negotiated s)) (machine_hmac_key m) of
             Inl _ \<Rightarrow> Some (m, Ok [Warning MalformedOrUnrelatedPacket
               ''dropped malformed or unrelated packet'' now])
           | Inr reply \<Rightarrow>
               map_option (\<lambda>(m', events). (m', Ok events))
                 (process_echo_reply reply (length packet) now meta s m)))"

section \<open>Timeouts and closing\<close>

fun retain_expired :: "pending_probe list \<Rightarrow> pending_map \<Rightarrow> pending_map option" where
  "retain_expired [] timed_out = Some timed_out"
| "retain_expired (probe # probes) timed_out =
     Option.bind (timed_out_insert probe timed_out) (retain_expired probes)"

definition echo_loss :: "pending_probe \<Rightarrow> client_event" where
  "echo_loss probe = EchoLoss (wire_seq probe) (sent_at probe) (timeout_at probe)"

definition session_poll_timeouts ::
  "instant \<Rightarrow> nat \<Rightarrow> active_session \<Rightarrow> (active_session \<times> timeout_batch) option" where
  "session_poll_timeouts now limit s =
     Option.bind (drain_expired_bounded now limit (as_pending s)) (\<lambda>(expired, pending).
       map_option (\<lambda>timed_out.
         (s\<lparr>as_pending := pending, as_timed_out := timed_out\<rparr>,
          \<lparr>tb_events = map echo_loss (eb_probes expired), tb_more_due = eb_more_due expired\<rparr>))
         (retain_expired (eb_probes expired) (as_timed_out s)))"

definition poll_timeouts_bounded_at ::
  "instant \<Rightarrow> nat \<Rightarrow> session_machine \<Rightarrow> (session_machine \<times> (client_error + timeout_batch)) option" where
  "poll_timeouts_bounded_at now limit m =
     (case open_session m of
        Inl e \<Rightarrow> Some (m, Err e)
      | Inr s \<Rightarrow> map_option (\<lambda>(s', batch). (m\<lparr>sm_state := MsOpen s'\<rparr>, Ok batch))
          (session_poll_timeouts now limit s))"

definition poll_timeouts_at ::
  "instant \<Rightarrow> session_machine \<Rightarrow> (session_machine \<times> (client_error + client_event list)) option" where
  "poll_timeouts_at now m =
     map_option (\<lambda>(m', r). (m', bindr r (\<lambda>batch. Ok (tb_events batch))))
       (poll_timeouts_bounded_at now usize_max m)"

definition prepare_close :: "session_machine \<Rightarrow> client_error + bytes \<times> close_commit" where
  "prepare_close m =
     bindr (open_session m) (\<lambda>s.
       Ok (as_local_close_packet s, \<lparr>cm_packets_sent = as_packets_sent s, cm_token = as_token s\<rparr>))"

definition commit_local_close ::
  "close_commit \<Rightarrow> client_timestamp \<Rightarrow> session_machine \<Rightarrow> session_machine \<times> client_event" where
  "commit_local_close commit sent m =
     (m\<lparr>sm_state := MsClosed CloseLocal (cm_packets_sent commit)\<rparr>,
      SessionClosed (sm_remote m) (cm_token commit) sent)"

end
