(* ===== verification/Machine_Invariant.thy ===== *)
theory Machine_Invariant
  imports Machine
begin

text \<open>
  The session machine against an abstract session: the probes in flight and the probes that
  timed out as plain lists. Each operation of the machine refines a list operation and keeps
  the invariant, so none of its \<open>expect\<close>s can fail.
\<close>

section \<open>The abstract session\<close>

abbreviation seqs :: "pending_probe list \<Rightarrow> u32 set" where
  "seqs xs \<equiv> wire_seq ` set xs"

abbreviation completed_seqs :: "active_session \<Rightarrow> u32 set" where
  "completed_seqs s \<equiv> set (cs_set (as_completed s))"

text \<open>\<open>tracked cap s ps ts\<close>: the session tracks the probes \<open>ps\<close> in flight and \<open>ts\<close> timed out, each
  bounded by the configured capacity; no sequence number is in two of the three stores.\<close>

definition tracked :: "nat \<Rightarrow> active_session \<Rightarrow> pending_probe list \<Rightarrow> pending_probe list \<Rightarrow> bool" where
  "tracked cap s ps ts \<longleftrightarrow>
     represents (as_pending s) ps \<and> represents (as_timed_out s) ts \<and> completed_ok (as_completed s) \<and>
     0 < cap \<and> pm_max_capacity (as_pending s) = cap \<and> pm_max_capacity (as_timed_out s) = cap \<and>
     cs_max_capacity (as_completed s) = cap \<and>
     length ps \<le> cap \<and> length ts \<le> cap \<and> length (cs_order (as_completed s)) \<le> cap \<and>
     seqs ps \<inter> seqs ts = {} \<and> seqs ps \<inter> completed_seqs s = {} \<and> seqs ts \<inter> completed_seqs s = {}"

text \<open>What no operation on an open session changes.\<close>

definition same_identity :: "active_session \<Rightarrow> active_session \<Rightarrow> bool" where
  "same_identity s s' \<longleftrightarrow>
     as_token s' = as_token s \<and> as_negotiated s' = as_negotiated s \<and>
     as_local_close_packet s' = as_local_close_packet s"

lemma represents_distinct: "represents m xs \<Longrightarrow> distinct (map wire_seq xs)"
  by (simp add: represents_def)

lemma completed_insert_bounded:
  assumes "completed_ok c" "length (cs_order c) \<le> cs_max_capacity c" "0 < cs_max_capacity c"
  shows "completed_ok (completed_insert seq c) \<and> seq \<in> set (cs_set (completed_insert seq c)) \<and>
     set (cs_set (completed_insert seq c)) \<subseteq> insert seq (set (cs_set c)) \<and>
     length (cs_order (completed_insert seq c)) \<le> cs_max_capacity c \<and>
     cs_max_capacity (completed_insert seq c) = cs_max_capacity c"
proof (cases "seq \<in> set (cs_set c)")
  case True
  then have "completed_insert seq c = c" by (simp add: completed_insert_def)
  with True assms show ?thesis by auto
next
  case False
  note ins = completed_insert_fresh [OF assms(1) False]
  have "cs_max_capacity (completed_insert seq c) = cs_max_capacity c"
    by (simp add: completed_insert_def Let_def split: prod.splits)
  moreover have "set (cs_set (completed_insert seq c)) = set (cs_order (completed_insert seq c))"
    using conjunct1 [OF ins] by (simp only: completed_ok_def)
  moreover have "set (cs_order c) = set (cs_set c)" using assms(1) by (simp add: completed_ok_def)
  ultimately show ?thesis
    using ins assms(2,3) by (cases "cs_order c") (auto simp: not_le)
qed

lemma completed_remove_bounded:
  assumes "completed_ok c"
  shows "completed_ok (snd (completed_remove seq c)) \<and>
     set (cs_set (snd (completed_remove seq c))) = set (cs_set c) - {seq} \<and>
     length (cs_order (snd (completed_remove seq c))) \<le> length (cs_order c) \<and>
     cs_max_capacity (snd (completed_remove seq c)) = cs_max_capacity c"
  using completed_remove_ok [OF assms, of seq]
  by (auto simp: completed_remove_def Let_def)

lemma pending_remove_refines:
  assumes "represents m xs"
  shows "\<exists>m'. pending_remove k m = Some (find (\<lambda>x. wire_seq x = k) xs, m') \<and>
     represents m' (filter (\<lambda>x. wire_seq x \<noteq> k) xs) \<and> pm_max_capacity m' = pm_max_capacity m"
  using ps.remove_any [OF assms, of k] pending_remove_capacity by blast

lemma find_seq:
  "find (\<lambda>x. wire_seq x = k) xs = None \<longleftrightarrow> k \<notin> seqs xs"
  "find (\<lambda>x. wire_seq x = k) xs = Some p \<Longrightarrow> p \<in> set xs \<and> wire_seq p = k"
  by (auto simp: find_None_iff image_iff find_Some_iff)

lemma filter_seq_absent: "k \<notin> seqs xs \<Longrightarrow> filter (\<lambda>x. wire_seq x \<noteq> k) xs = xs"
  by (auto simp: filter_id_conv)

lemma length_filter_seq:
  assumes "distinct (map wire_seq xs)" "k \<in> seqs xs"
  shows "Suc (length (filter (\<lambda>x. wire_seq x \<noteq> k) xs)) = length xs"
proof -
  obtain ys p zs where "xs = ys @ p # zs" "wire_seq p = k"
    using assms(2) by (auto simp: in_set_conv_decomp)
  moreover from this have "filter (\<lambda>x. wire_seq x \<noteq> k) ys = ys" "filter (\<lambda>x. wire_seq x \<noteq> k) zs = zs"
    using assms(1) by (auto intro!: filter_seq_absent)
  ultimately show ?thesis by simp
qed

lemma filter_len: "length xs \<le> n \<Longrightarrow> length (filter P xs) \<le> n"
  by (rule le_trans [OF length_filter_le])

lemma disjoint_shift: "A \<subseteq> P \<Longrightarrow> B \<subseteq> T \<union> Q \<Longrightarrow> P \<inter> T = {} \<Longrightarrow> A \<inter> Q = {} \<Longrightarrow> A \<inter> B = {}"
  by blast

lemma disjoint_insert_sub: "B \<subseteq> insert q T \<Longrightarrow> q \<notin> A \<Longrightarrow> A \<inter> T = {} \<Longrightarrow> A \<inter> B = {}"
  by blast

lemma disjoint_union_sub: "P \<inter> C = {} \<Longrightarrow> T \<inter> C = {} \<Longrightarrow> Q \<subseteq> P \<Longrightarrow> B \<subseteq> T \<union> Q \<Longrightarrow> B \<inter> C = {}"
  by blast

lemma disjoint_sub: "P \<inter> C = {} \<Longrightarrow> A \<subseteq> P \<Longrightarrow> A \<inter> C = {}"
  by blast

lemma seqs_filter: "seqs (filter (\<lambda>x. wire_seq x \<noteq> k) xs) = seqs xs - {k}"
  by auto

section \<open>Operations refine list operations\<close>

lemma tracked_new:
  "0 < cap \<Longrightarrow> as_pending s = pending_new cap \<Longrightarrow> as_timed_out s = pending_new cap \<Longrightarrow>
     as_completed s = completed_new cap \<Longrightarrow> tracked cap s [] []"
  using represents_empty [of cap] completed_new_ok [of cap]
  by (simp add: tracked_def pending_new_def completed_new_def)

lemma commit_sent_tracked:
  assumes t: "tracked cap s ps ts" and fresh: "pc_wire_seq c \<notin> seqs ps" and room: "length ps < cap"
  shows "\<exists>s' p. session_commit_sent c sent s = Some s' \<and> same_identity s s' \<and>
     wire_seq p = pc_wire_seq c \<and> timeout_at p = pc_timeout_at c \<and> sent_at p = sent \<and>
     tracked cap s' (ps @ [p]) (filter (\<lambda>x. wire_seq x \<noteq> pc_wire_seq c) ts) \<and>
     as_next_wire_seq s' = pc_next_wire_seq c \<and> as_packets_sent s' = pc_next_packets_sent c \<and>
     as_highest_received_seq s' = as_highest_received_seq s"
proof -
  define p where "p = \<lparr>wire_seq = pc_wire_seq c, sent_at = sent, timeout_at = pc_timeout_at c,
      tx_not_before_wall = pc_tx_not_before_wall c, kernel_tx_timestamp = None\<rparr>"
  have reps: "represents (as_pending s) ps" "represents (as_timed_out s) ts" "completed_ok (as_completed s)"
    using t by (simp_all add: tracked_def)
  obtain r to where to: "pending_remove (pc_wire_seq c) (as_timed_out s) = Some (r, to)"
      "represents to (filter (\<lambda>x. wire_seq x \<noteq> pc_wire_seq c) ts)"
      "pm_max_capacity to = pm_max_capacity (as_timed_out s)"
    using pending_remove_refines [OF reps(2), of "pc_wire_seq c"] by blast
  obtain pe where pe: "commit_insert p (as_pending s) = Some pe" "represents pe (ps @ [p])"
      "pm_max_capacity pe = pm_max_capacity (as_pending s)"
    using represents_insert [OF reps(1), of p] fresh by (auto simp: p_def)
  define s' where "s' = s\<lparr>as_timed_out := to, as_completed := snd (completed_remove (pc_wire_seq c) (as_completed s)),
      as_pending := pe, as_next_wire_seq := pc_next_wire_seq c, as_packets_sent := pc_next_packets_sent c\<rparr>"
  note rem = completed_remove_bounded [OF reps(3), of "pc_wire_seq c"]
  have sets: "seqs (ps @ [p]) = insert (pc_wire_seq c) (seqs ps)"
    "completed_seqs s' = completed_seqs s - {pc_wire_seq c}"
    using rem by (simp_all add: p_def s'_def)
  have disj: "insert (pc_wire_seq c) (seqs ps) \<inter> (seqs ts - {pc_wire_seq c}) = {}"
    "insert (pc_wire_seq c) (seqs ps) \<inter> (completed_seqs s - {pc_wire_seq c}) = {}"
    "(seqs ts - {pc_wire_seq c}) \<inter> (completed_seqs s - {pc_wire_seq c}) = {}"
    using t fresh unfolding tracked_def by blast+
  have "length (filter (\<lambda>x. wire_seq x \<noteq> pc_wire_seq c) ts) \<le> cap"
    using t by (intro filter_len) (simp add: tracked_def)
  moreover have "length (cs_order (as_completed s')) \<le> cap" "cs_max_capacity (as_completed s') = cap"
    using t rem by (simp_all add: tracked_def s'_def)
  ultimately have "tracked cap s' (ps @ [p]) (filter (\<lambda>x. wire_seq x \<noteq> pc_wire_seq c) ts)"
    unfolding tracked_def sets seqs_filter using disj t to(2,3) pe(2,3) rem room
    by (simp add: tracked_def s'_def)
  moreover have "session_commit_sent c sent s = Some s'"
    using to(1) pe(1) by (simp add: session_commit_sent_def Let_def p_def s'_def)
  ultimately show ?thesis
    by (intro exI [of _ s'] exI [of _ p]) (simp add: p_def s'_def same_identity_def)
qed

lemma tracked_complete_pending:
  assumes t: "tracked cap s ps ts" and pe: "represents pe (filter (\<lambda>x. wire_seq x \<noteq> k) ps)"
    "pm_max_capacity pe = pm_max_capacity (as_pending s)" and k: "k \<in> seqs ps"
    and s': "s' = s\<lparr>as_pending := pe, as_highest_received_seq := h, as_completed := completed_insert k (as_completed s)\<rparr>"
  shows "tracked cap s' (filter (\<lambda>x. wire_seq x \<noteq> k) ps) ts \<and> k \<in> completed_seqs s'"
proof -
  have ins: "completed_ok (as_completed s')" "k \<in> completed_seqs s'" "completed_seqs s' \<subseteq> insert k (completed_seqs s)"
    "length (cs_order (as_completed s')) \<le> cap" "cs_max_capacity (as_completed s') = cap"
    using completed_insert_bounded [of "as_completed s" k] t by (simp_all add: s' tracked_def)
  have "(seqs ps - {k}) \<inter> seqs ts = {}" "(seqs ps - {k}) \<inter> completed_seqs s' = {}" "seqs ts \<inter> completed_seqs s' = {}"
    using t k ins(3) unfolding tracked_def by blast+
  moreover have "length (filter (\<lambda>x. wire_seq x \<noteq> k) ps) \<le> cap"
    using t by (intro filter_len) (simp add: tracked_def)
  ultimately show ?thesis
    unfolding tracked_def seqs_filter using t pe ins by (simp add: tracked_def s')
qed

lemma tracked_complete_timed_out:
  assumes t: "tracked cap s ps ts" and pe: "represents to (filter (\<lambda>x. wire_seq x \<noteq> k) ts)"
    "pm_max_capacity to = pm_max_capacity (as_timed_out s)" and k: "k \<in> seqs ts"
    and s': "s' = s\<lparr>as_timed_out := to, as_highest_received_seq := h, as_completed := completed_insert k (as_completed s)\<rparr>"
  shows "tracked cap s' ps (filter (\<lambda>x. wire_seq x \<noteq> k) ts) \<and> k \<in> completed_seqs s'"
proof -
  have ins: "completed_ok (as_completed s')" "k \<in> completed_seqs s'" "completed_seqs s' \<subseteq> insert k (completed_seqs s)"
    "length (cs_order (as_completed s')) \<le> cap" "cs_max_capacity (as_completed s') = cap"
    using completed_insert_bounded [of "as_completed s" k] t by (simp_all add: s' tracked_def)
  have "seqs ps \<inter> (seqs ts - {k}) = {}" "seqs ps \<inter> completed_seqs s' = {}" "(seqs ts - {k}) \<inter> completed_seqs s' = {}"
    using t k ins(3) unfolding tracked_def by blast+
  moreover have "length (filter (\<lambda>x. wire_seq x \<noteq> k) ts) \<le> cap"
    using t by (intro filter_len) (simp add: tracked_def)
  ultimately show ?thesis
    unfolding tracked_def seqs_filter using t pe ins by (simp add: tracked_def s')
qed

text \<open>Which store answers a reply, and what is left in the stores.\<close>

datatype reply_class = InFlight pending_probe | Repeated | TimedOut pending_probe | Unknown

definition class_of :: "u32 \<Rightarrow> active_session \<Rightarrow> pending_probe list \<Rightarrow> pending_probe list \<Rightarrow> reply_class" where
  "class_of seq s ps ts =
     (case find (\<lambda>x. wire_seq x = seq) ps of
        Some p \<Rightarrow> InFlight p
      | None \<Rightarrow> if seq \<in> completed_seqs s then Repeated
                else (case find (\<lambda>x. wire_seq x = seq) ts of Some p \<Rightarrow> TimedOut p | None \<Rightarrow> Unknown))"

text \<open>The kind of event a class gives, given whether the sequence number lies before the
  highest one received.\<close>

fun event_fits :: "reply_class \<Rightarrow> bool \<Rightarrow> u32 \<Rightarrow> client_event \<Rightarrow> bool" where
  "event_fits (InFlight p) late seq e \<longleftrightarrow>
     (if late then \<exists>h r now rtt st ow rs n k. e = LateReply seq h r (Some (sent_at p)) now (Some rtt) st ow rs n k
      else \<exists>r now rtt st ow rs n k. e = EchoReply seq r (sent_at p) now rtt st ow rs n k)"
| "event_fits Repeated late seq e \<longleftrightarrow> (\<exists>r now n. e = DuplicateReply seq r now n)"
| "event_fits (TimedOut p) late seq e \<longleftrightarrow>
     (\<exists>h r now rtt st ow rs n k. e = LateReply seq h r (Some (sent_at p)) now (Some rtt) st ow rs n k)"
| "event_fits Unknown late seq e \<longleftrightarrow>
     (if late then \<exists>h r now st rs n k. e = LateReply seq h r None now None st None rs n k
      else \<exists>msg now. e = Warning UntrackedReply msg now)"

lemma classify_reply_tracked:
  fixes reply :: echo_reply
  assumes t: "tracked cap s ps ts"
  defines "seq \<equiv> er_sequence reply"
  shows "\<exists>s' e. classify_reply remote reply n now meta s = Some (s', e) \<and> same_identity s s' \<and>
     event_fits (class_of seq s ps ts) (is_late (as_highest_received_seq s) seq) seq e \<and>
     as_next_wire_seq s' = as_next_wire_seq s \<and> as_packets_sent s' = as_packets_sent s \<and>
     as_highest_received_seq s' = (if class_of seq s ps ts = Unknown then as_highest_received_seq s
        else update_highest_received (as_highest_received_seq s) seq) \<and>
     (case class_of seq s ps ts of
        InFlight p \<Rightarrow> tracked cap s' (filter (\<lambda>x. wire_seq x \<noteq> seq) ps) ts \<and> p \<in> set ps \<and> seq \<in> completed_seqs s'
      | TimedOut p \<Rightarrow> tracked cap s' ps (filter (\<lambda>x. wire_seq x \<noteq> seq) ts) \<and> p \<in> set ts \<and> seq \<in> completed_seqs s'
      | Repeated \<Rightarrow> tracked cap s' ps ts \<and> completed_seqs s' = completed_seqs s
      | Unknown \<Rightarrow> s' = s)"
proof -
  have reps: "represents (as_pending s) ps" "represents (as_timed_out s) ts"
    using t by (simp_all add: tracked_def)
  obtain pe where pe: "pending_remove seq (as_pending s) = Some (find (\<lambda>x. wire_seq x = seq) ps, pe)"
      "represents pe (filter (\<lambda>x. wire_seq x \<noteq> seq) ps)" "pm_max_capacity pe = pm_max_capacity (as_pending s)"
    using pending_remove_refines [OF reps(1), of seq] by blast
  obtain to where to: "pending_remove seq (as_timed_out s) = Some (find (\<lambda>x. wire_seq x = seq) ts, to)"
      "represents to (filter (\<lambda>x. wire_seq x \<noteq> seq) ts)" "pm_max_capacity to = pm_max_capacity (as_timed_out s)"
    using pending_remove_refines [OF reps(2), of seq] by blast
  note defs = classify_reply_def Let_def seq_def [symmetric] class_of_def same_identity_def
    completed_contains_def measured_late_reply_def
  show ?thesis
  proof (cases "find (\<lambda>x. wire_seq x = seq) ps")
    case (Some p)
    note f = find_seq(2) [OF Some]
    then have "seq \<in> seqs ps" by auto
    from tracked_complete_pending [OF t pe(2,3) this refl] Some f pe(1) show ?thesis by (simp add: defs)
  next
    case None
    note outer = None
    show ?thesis
    proof (cases "seq \<in> completed_seqs s")
      case True
      have "tracked cap (s\<lparr>as_highest_received_seq := h\<rparr>) ps ts" for h
        using t by (simp add: tracked_def)
      with True None pe(1) show ?thesis by (simp add: defs)
    next
      case fresh: False
      show ?thesis
      proof (cases "find (\<lambda>x. wire_seq x = seq) ts")
        case (Some p)
        note f = find_seq(2) [OF Some]
        then have "seq \<in> seqs ts" by auto
        from tracked_complete_timed_out [OF t to(2,3) this refl] Some f outer fresh pe(1) to(1) show ?thesis
          by (simp add: defs)
      next
        case None
        with outer fresh pe(1) to(1) show ?thesis by (simp add: defs)
      qed
    qed
  qed
qed

text \<open>Expired probes move to the timed-out store, which keeps the most recent ones.\<close>

lemma retain_expired_refines:
  assumes "represents m ts" "0 < pm_max_capacity m" "length ts \<le> pm_max_capacity m"
    "distinct (map wire_seq xs)" "seqs xs \<inter> seqs ts = {}"
  shows "\<exists>m' ts'. retain_expired xs m = Some m' \<and> represents m' ts' \<and> pm_max_capacity m' = pm_max_capacity m \<and>
     length ts' \<le> pm_max_capacity m \<and> length ts' \<le> length ts + length xs \<and> set ts' \<subseteq> set ts \<union> set xs"
  using assms
proof (induction xs arbitrary: m ts)
  case (Cons p xs)
  define ts1 where "ts1 = (if length ts = pm_max_capacity m then tl ts @ [p] else ts @ [p])"
  obtain m1 where m1: "timed_out_insert p m = Some m1" "represents m1 ts1"
    using timed_out_insert_refines [OF Cons.prems(1), of p] Cons.prems by (auto simp: ts1_def)
  have cap1: "pm_max_capacity m1 = pm_max_capacity m" by (rule timed_out_insert_capacity [OF m1(1)])
  have sub: "set ts1 \<subseteq> insert p (set ts)"
    by (cases ts) (auto simp: ts1_def)
  then have "seqs ts1 \<subseteq> insert (wire_seq p) (seqs ts)" by (metis image_insert image_mono)
  moreover have "wire_seq p \<notin> seqs xs" "seqs xs \<inter> seqs ts = {}" using Cons.prems(4,5) by auto
  ultimately have "seqs xs \<inter> seqs ts1 = {}" by (rule disjoint_insert_sub)
  moreover have "length ts1 \<le> pm_max_capacity m" "length ts1 \<le> Suc (length ts)"
    using Cons.prems(2,3) by (auto simp: ts1_def)
  ultimately obtain m' ts' where "retain_expired xs m1 = Some m'" "represents m' ts'"
      "pm_max_capacity m' = pm_max_capacity m" "length ts' \<le> pm_max_capacity m"
      "length ts' \<le> length ts1 + length xs" "set ts' \<subseteq> set ts1 \<union> set xs"
    using Cons.IH [OF m1(2)] Cons.prems(2,4) cap1 by auto
  moreover from this sub have "set ts' \<subseteq> set ts \<union> set (p # xs)" by auto
  ultimately show ?case using m1(1) \<open>length ts1 \<le> Suc (length ts)\<close>
    by (intro exI [of _ m'] exI [of _ ts']) simp
qed auto

lemma poll_timeouts_tracked:
  fixes now :: instant and limit :: nat
  assumes t: "tracked cap s ps ts" and sorted: "sorted (map timeout_at ps)"
  defines "due \<equiv> filter (\<lambda>p. timeout_at p \<le> now) ps"
  shows "\<exists>s' b ts'. session_poll_timeouts now limit s = Some (s', b) \<and> same_identity s s' \<and>
     tb_events b = map echo_loss (take limit due) \<and> (tb_more_due b \<longleftrightarrow> limit < length due) \<and>
     tracked cap s' (drop (length (take limit due)) ps) ts' \<and> length ts' \<le> length ts + length (take limit due) \<and>
     as_next_wire_seq s' = as_next_wire_seq s \<and> as_packets_sent s' = as_packets_sent s"
proof -
  have reps: "represents (as_pending s) ps" "represents (as_timed_out s) ts"
    and disj: "seqs ps \<inter> seqs ts = {}" "seqs ps \<inter> completed_seqs s = {}" "seqs ts \<inter> completed_seqs s = {}"
    and cap: "0 < pm_max_capacity (as_timed_out s)" "length ts \<le> pm_max_capacity (as_timed_out s)"
    using t by (simp_all add: tracked_def)
  define out where "out = take limit due"
  obtain b pe where b: "drain_expired_bounded now limit (as_pending s) = Some (b, pe)"
      "eb_probes b = out" "pm_max_capacity pe = pm_max_capacity (as_pending s)"
      "represents pe (drop (length out) ps)" "eb_more_due b \<longleftrightarrow> limit < length due"
    using drain_expired_refines [OF reps(1) sorted, of now limit] unfolding due_def out_def by auto
  have "due = takeWhile (\<lambda>p. timeout_at p \<le> now) ps"
    unfolding due_def by (rule sorted_takeWhile_filter [OF sorted, symmetric])
  then have out: "out = take (length out) ps"
    unfolding out_def by (metis length_take min.commute take_take takeWhile_eq_take)
  then have split: "ps = out @ drop (length out) ps" by (metis append_take_drop_id)
  then have d: "distinct (map wire_seq (out @ drop (length out) ps))"
    using represents_distinct [OF reps(1)] by simp
  have sub: "set out \<subseteq> set ps" "set (drop (length out) ps) \<subseteq> set ps"
    using split set_drop_subset by (metis Un_upper1 set_append, metis)
  obtain m' ts' where m': "retain_expired out (as_timed_out s) = Some m'" "represents m' ts'"
      "pm_max_capacity m' = pm_max_capacity (as_timed_out s)" "length ts' \<le> pm_max_capacity (as_timed_out s)"
      "length ts' \<le> length ts + length out" "set ts' \<subseteq> set ts \<union> set out"
    using retain_expired_refines [OF reps(2) cap, of out] d disj(1) image_mono [OF sub(1), of wire_seq]
    by (simp add: disjoint_iff subset_iff) blast
  have apart: "seqs (drop (length out) ps) \<inter> seqs out = {}" using d by auto
  have into: "seqs ts' \<subseteq> seqs ts \<union> seqs out"
    using image_mono [OF m'(6), of wire_seq] by (simp only: image_Un)
  have "seqs (drop (length out) ps) \<inter> seqs ts' = {}"
    by (rule disjoint_shift [OF image_mono [OF sub(2)] into disj(1) apart])
  moreover have "seqs ts' \<inter> completed_seqs s = {}"
    using disj(2,3) image_mono [OF sub(1), of wire_seq] into by (rule disjoint_union_sub)
  moreover have "seqs (drop (length out) ps) \<inter> completed_seqs s = {}"
    using disj(2) image_mono [OF sub(2), of wire_seq] by (rule disjoint_sub)
  ultimately show ?thesis
    using b m' t unfolding out_def [symmetric]
    by (intro exI [of _ "s\<lparr>as_pending := pe, as_timed_out := m'\<rparr>"] exI [of _ ts']
          exI [of _ "\<lparr>tb_events = map echo_loss out, tb_more_due = eb_more_due b\<rparr>"])
       (auto simp: session_poll_timeouts_def tracked_def same_identity_def)
qed

lemma update_probe_same:
  assumes "\<And>p. wire_seq (f p) = wire_seq p" "\<And>p. timeout_at (f p) = timeout_at p"
  shows "map wire_seq (update_probe k f xs) = map wire_seq xs" "map timeout_at (update_probe k f xs) = map timeout_at xs"
    "seqs (update_probe k f xs) = seqs xs" "length (update_probe k f xs) = length xs"
proof -
  show seqs: "map wire_seq (update_probe k f xs) = map wire_seq xs"
    and "map timeout_at (update_probe k f xs) = map timeout_at xs" "length (update_probe k f xs) = length xs"
    by (simp_all add: update_probe_def assms)
  show "seqs (update_probe k f xs) = seqs xs" using arg_cong [OF seqs, of set] by simp
qed

lemma attach_timestamp_same:
  "wire_seq (attach_timestamp ts p) = wire_seq p" "timeout_at (attach_timestamp ts p) = timeout_at p"
  by (simp_all add: attach_timestamp_def split: option.splits)

lemma record_tx_tracked:
  assumes t: "tracked cap s ps ts"
  shows "\<exists>ps' ts'. tracked cap (session_record_tx k stamp s) ps' ts' \<and> same_identity s (session_record_tx k stamp s) \<and>
     map wire_seq ps' = map wire_seq ps \<and> map timeout_at ps' = map timeout_at ps \<and> length ts' = length ts \<and>
     as_next_wire_seq (session_record_tx k stamp s) = as_next_wire_seq s \<and>
     as_packets_sent (session_record_tx k stamp s) = as_packets_sent s"
proof -
  note same = update_probe_same [of "attach_timestamp stamp", OF attach_timestamp_same]
  define ps' where "ps' = update_probe k (attach_timestamp stamp) ps"
  define ts' where "ts' = update_probe k (attach_timestamp stamp) ts"
  have r: "represents (pending_set k (attach_timestamp stamp) (as_pending s)) ps'"
    "represents (pending_set k (attach_timestamp stamp) (as_timed_out s)) ts'"
    using t pending_set_refines [OF _ attach_timestamp_same(1)] by (simp_all add: tracked_def ps'_def ts'_def)
  consider (off) "session_record_tx k stamp s = s"
    | (p) "session_record_tx k stamp s = s\<lparr>as_pending := pending_set k (attach_timestamp stamp) (as_pending s)\<rparr>"
    | (t) "session_record_tx k stamp s = s\<lparr>as_timed_out := pending_set k (attach_timestamp stamp) (as_timed_out s)\<rparr>"
    unfolding session_record_tx_def by meson
  then show ?thesis
  proof cases
    case off
    with t show ?thesis by (auto simp: same_identity_def)
  next
    case p
    have "tracked cap (session_record_tx k stamp s) ps' ts"
      using t r(1) same [of k ps] by (simp add: p tracked_def ps'_def [symmetric])
    with p same [of k ps] show ?thesis by (auto simp: same_identity_def ps'_def)
  next
    case t': t
    have "tracked cap (session_record_tx k stamp s) ps ts'"
      using t r(2) same [of k ts] by (simp add: t' tracked_def ts'_def [symmetric])
    with t' same [of k ts] show ?thesis by (auto simp: same_identity_def ts'_def)
  qed
qed

end
