(* ===== verification/Machine_Runs.thy ===== *)
theory Machine_Runs
  imports Machine_Invariant
begin

text \<open>
  Runs of the session machine: every interleaving of its operations that an adapter can
  perform, with the events the machine emitted and the latest pre-send anchor (the monotonic
  clock, which never goes back). The invariant of a run, by rule induction, and what follows:
  no panic, conservation of probes, the classification of replies and the lifecycle.
\<close>

section \<open>Runs\<close>

text \<open>A send is prepared, checked, finalized and committed in one call of the adapter.\<close>

definition machine_send ::
  "mac_fun \<Rightarrow> bool \<Rightarrow> client_timestamp \<Rightarrow> client_timestamp \<Rightarrow> session_machine \<Rightarrow>
     (client_error, session_machine \<times> probe_sent) outcome" where
  "machine_send mac reserve_ok anchor sent m =
     (case prepare_probe mac m of Inl e \<Rightarrow> Some (Err e) | Inr prepared \<Rightarrow>
      (case preflight_probe_commit reserve_ok prepared m of Inl e \<Rightarrow> Some (Err e) | Inr preflight \<Rightarrow>
       (case finalize_probe_commit preflight anchor m of Inl e \<Rightarrow> Some (Err e) | Inr commit \<Rightarrow>
          map_option Ok (commit_probe_sent commit sent (length (pp_bytes prepared)) m))))"

inductive machine_run ::
  "mac_fun \<Rightarrow> client_config \<Rightarrow> socket_addr \<Rightarrow> session_machine \<Rightarrow> instant \<Rightarrow> client_event list \<Rightarrow> bool"
  for mac config remote where
  run_new: "machine_new config remote = Ok m \<Longrightarrow> machine_run mac config remote m t []"
| run_open: "machine_run mac config remote m t log \<Longrightarrow>
    prepare_open_acceptance mac reply now m = Some (Ok p) \<Longrightarrow>
    machine_run mac config remote (fst (commit_open p m)) t log"
| run_send: "machine_run mac config remote m t log \<Longrightarrow> t \<le> ct_mono anchor \<Longrightarrow>
    machine_send mac reserve_ok anchor sent m = Some (Ok (m', ps)) \<Longrightarrow>
    machine_run mac config remote m' (ct_mono anchor) log"
| run_send_failed: "machine_run mac config remote m t log \<Longrightarrow>
    machine_run mac config remote (invalidate_kernel_tx_correlation m) t log"
| run_tx: "machine_run mac config remote m t log \<Longrightarrow>
    machine_run mac config remote (record_kernel_tx_timestamp k stamp m) t log"
| run_receive: "machine_run mac config remote m t log \<Longrightarrow>
    process_received_echo_packet mac packet now meta m = Some (m', Ok events) \<Longrightarrow>
    machine_run mac config remote m' t (log @ events)"
| run_poll: "machine_run mac config remote m t log \<Longrightarrow>
    poll_timeouts_bounded_at now limit m = Some (m', Ok batch) \<Longrightarrow>
    machine_run mac config remote m' t (log @ tb_events batch)"
| run_close: "machine_run mac config remote m t log \<Longrightarrow> prepare_close m = Ok (packet, commit) \<Longrightarrow>
    commit_local_close commit now m = (m', event) \<Longrightarrow>
    machine_run mac config remote m' t (log @ [event])"

section \<open>Counting\<close>

fun is_reply :: "client_event \<Rightarrow> bool" where
  "is_reply (EchoReply _ _ _ _ _ _ _ _ _ _) = True"
| "is_reply _ = False"

fun is_loss :: "client_event \<Rightarrow> bool" where
  "is_loss (EchoLoss _ _ _) = True"
| "is_loss _ = False"

fun is_measured_late :: "client_event \<Rightarrow> bool" where
  "is_measured_late (LateReply _ _ _ (Some _) _ _ _ _ _ _ _) = True"
| "is_measured_late _ = False"

definition replies :: "client_event list \<Rightarrow> nat" where
  "replies log = length (filter is_reply log)"

definition losses :: "client_event list \<Rightarrow> nat" where
  "losses log = length (filter is_loss log)"

definition lates :: "client_event list \<Rightarrow> nat" where
  "lates log = length (filter is_measured_late log)"

lemma count_append [simp]:
  "replies (a @ b) = replies a + replies b" "losses (a @ b) = losses a + losses b"
  "lates (a @ b) = lates a + lates b"
  by (simp_all add: replies_def losses_def lates_def)

lemma count_losses [simp]:
  "replies (map echo_loss ps) = 0" "losses (map echo_loss ps) = length ps" "lates (map echo_loss ps) = 0"
  by (induction ps) (simp_all add: replies_def losses_def lates_def echo_loss_def)

lemma count_closed [simp]:
  "replies [SessionClosed r k n] = 0" "losses [SessionClosed r k n] = 0" "lates [SessionClosed r k n] = 0"
  "replies [] = 0" "losses [] = 0" "lates [] = 0"
  by (simp_all add: replies_def losses_def lates_def)

lemma count_two [simp]:
  "replies [e, SessionClosed r k n] = replies [e]" "losses [e, SessionClosed r k n] = losses [e]"
  "lates [e, SessionClosed r k n] = lates [e]"
  by (simp_all add: replies_def losses_def lates_def)

text \<open>Probes sent, in flight and accounted for: late replies come from probes in flight or from
  timed-out ones, and each timed-out probe was reported lost.\<close>

definition balance :: "nat \<Rightarrow> nat \<Rightarrow> u64 \<Rightarrow> client_event list \<Rightarrow> bool" where
  "balance in_flight timed_out sent log \<longleftrightarrow>
     (\<exists>early late. lates log = early + late \<and>
        unat sent = in_flight + replies log + losses log + early \<and> late + timed_out \<le> losses log)"

lemma balanceI:
  "lates log = a + b \<Longrightarrow> unat n = np + replies log + losses log + a \<Longrightarrow> b + nt \<le> losses log \<Longrightarrow>
     balance np nt n log"
  unfolding balance_def by blast

lemma balance_event:
  assumes "balance np nt n log" and "event_fits c late k e"
  shows "case c of
      InFlight p \<Rightarrow> 0 < np \<longrightarrow> balance (np - 1) nt n (log @ [e])
    | TimedOut p \<Rightarrow> 0 < nt \<longrightarrow> balance np (nt - 1) n (log @ [e])
    | _ \<Rightarrow> balance np nt n (log @ [e])"
proof -
  obtain a b where ab: "lates log = a + b" "unat n = np + replies log + losses log + a" "b + nt \<le> losses log"
    using assms(1) by (auto simp: balance_def)
  show ?thesis
  proof (cases c)
    case (InFlight p)
    show ?thesis
    proof (cases late)
      case True
      with InFlight assms(2) have "lates [e] = 1" "replies [e] = 0" "losses [e] = 0"
        by (auto simp: lates_def replies_def losses_def)
      then show ?thesis using InFlight ab
        by (auto intro!: balanceI [of _ "Suc a" b])
    next
      case False
      with InFlight assms(2) have "lates [e] = 0" "replies [e] = 1" "losses [e] = 0"
        by (auto simp: lates_def replies_def losses_def)
      then show ?thesis using InFlight ab
        by (auto intro!: balanceI [of _ a b])
    qed
  next
    case (TimedOut p)
    with assms(2) have "lates [e] = 1" "replies [e] = 0" "losses [e] = 0"
      by (auto simp: lates_def replies_def losses_def)
    then show ?thesis using TimedOut ab
        by (auto intro!: balanceI [of _ a "Suc b"])
  next
    case Repeated
    with assms(2) have "lates [e] = 0" "replies [e] = 0" "losses [e] = 0"
      by (auto simp: lates_def replies_def losses_def)
    then show ?thesis using Repeated ab
        by (auto intro!: balanceI [of _ a b])
  next
    case Unknown
    with assms(2) have "lates [e] = 0" "replies [e] = 0" "losses [e] = 0"
      by (cases late; auto simp: lates_def replies_def losses_def)+
    then show ?thesis using Unknown ab
        by (auto intro!: balanceI [of _ a b])
  qed
qed

lemma balance_losses:
  assumes "balance np nt n log" "k \<le> np" "nt' \<le> nt + k" "length out = k"
  shows "balance (np - k) nt' n (log @ map echo_loss out)"
  using assms by (auto simp: balance_def [of np] intro!: balanceI)

lemma balance_shrink: "balance np nt n log \<Longrightarrow> nt' \<le> nt \<Longrightarrow> balance np nt' n log"
  by (auto simp: balance_def [of np nt] intro!: balanceI)

section \<open>The invariant of a run\<close>

definition client_session_ok ::
  "mac_fun \<Rightarrow> session_machine \<Rightarrow> instant \<Rightarrow> active_session \<Rightarrow> pending_probe list \<Rightarrow> pending_probe list \<Rightarrow> bool" where
  "client_session_ok mac m t s ps ts \<longleftrightarrow>
     tracked (cc_max_pending_probes (sm_config m)) s ps ts \<and>
     sorted (map timeout_at ps) \<and> (\<forall>d \<in> timeout_at ` set ps. d \<le> t + int (cc_probe_timeout (sm_config m))) \<and>
     as_token s \<noteq> 0 \<and> restricts (sm_requested m) (ng_peer_params (as_negotiated s)) \<and>
     as_next_wire_seq s = ucast (as_packets_sent s) \<and>
     encode_request mac (ReqClose (as_token s)) (machine_hmac_key m) = Ok (as_local_close_packet s)"

definition run_inv ::
  "mac_fun \<Rightarrow> client_config \<Rightarrow> socket_addr \<Rightarrow> session_machine \<Rightarrow> instant \<Rightarrow> client_event list \<Rightarrow> bool" where
  "run_inv mac config remote m t log \<longleftrightarrow>
     sm_config m = config \<and> sm_remote m = remote \<and>
     params_from_request (cc_request config) = Ok (sm_requested m) \<and> 0 < cc_max_pending_probes config \<and>
     (case sm_state m of
        MsOpen s \<Rightarrow> \<exists>ps ts. client_session_ok mac m t s ps ts \<and> balance (length ps) (length ts) (as_packets_sent s) log
      | MsClosed _ n \<Rightarrow> \<exists>np nt. balance np nt n log
      | _ \<Rightarrow> log = [])"

lemma run_inv_open:
  "run_inv mac config remote m t log \<Longrightarrow> sm_state m = MsOpen s \<Longrightarrow>
     \<exists>ps ts. client_session_ok mac m t s ps ts \<and> balance (length ps) (length ts) (as_packets_sent s) log"
  by (simp add: run_inv_def)

lemma run_inv_update:
  assumes "run_inv mac config remote m t log" "client_session_ok mac m t' s' ps ts"
    "balance (length ps) (length ts) (as_packets_sent s') log'"
  shows "run_inv mac config remote (m\<lparr>sm_state := MsOpen s'\<rparr>) t' log'"
  using assms unfolding run_inv_def client_session_ok_def machine_hmac_key_def by auto

lemma run_inv_close:
  assumes "run_inv mac config remote m t log" "balance np nt n log'"
  shows "run_inv mac config remote (m\<lparr>sm_state := MsClosed src n\<rparr>) t log'"
  using assms unfolding run_inv_def by auto

lemma client_session_ok_same:
  assumes "client_session_ok mac m t s ps ts" "same_identity s s'" "as_next_wire_seq s' = as_next_wire_seq s"
    "as_packets_sent s' = as_packets_sent s" "tracked (cc_max_pending_probes (sm_config m)) s' ps' ts'"
    "sorted (map timeout_at ps')" "timeout_at ` set ps' \<subseteq> timeout_at ` set ps"
  shows "client_session_ok mac m t s' ps' ts'"
  using assms unfolding client_session_ok_def same_identity_def by auto

lemma sorted_map_filter: "sorted (map f xs) \<Longrightarrow> sorted (map f (filter P xs))"
  by (induction xs) auto

lemma sorted_map_drop: "sorted (map f xs) \<Longrightarrow> sorted (map f (drop n xs))"
  by (metis drop_map sorted_wrt_drop)

lemma machine_new_inv: "machine_new config remote = Ok m \<Longrightarrow> run_inv mac config remote m t []"
  by (auto simp: machine_new_def validate_config_def run_inv_def result_simps split: if_splits)

lemma close_encodes: "\<exists>packet. encode_request mac (ReqClose token) key = Ok packet"
  by (simp add: encode_close_sealed)

lemma prepare_open_acceptance_cases:
  assumes "sm_state m = MsConnected" "prepare_open_acceptance mac reply now m = Some (Ok p)"
  shows "prepare_no_test_open reply now m = Some (Ok p) \<or>
     (\<exists>packet. or_token reply \<noteq> 0 \<and> prepare_normal_open reply now (Some packet) m = Some (Ok p) \<and>
        encode_request mac (ReqClose (or_token reply)) (machine_hmac_key m) = Ok packet)"
proof -
  obtain packet where e: "encode_request mac (ReqClose (or_token reply)) (machine_hmac_key m) = Ok packet"
    using close_encodes by blast
  show ?thesis
    using assms unfolding prepare_open_acceptance_def ensure_connected_def Let_def e
    by (cases "rq_run_mode (cc_request (sm_config m))") (auto split: if_splits)
qed

lemma prepare_open_acceptance_Ok:
  assumes "run_inv mac config remote m t log" "prepare_open_acceptance mac reply now m = Some (Ok p)"
  shows "sm_state m = MsConnected \<and> (po_next_state p = MsNoTestCompleted \<or>
     (\<exists>s. po_next_state p = MsOpen s \<and> client_session_ok mac m t s [] [] \<and> as_packets_sent s = 0))"
proof -
  have conn: "sm_state m = MsConnected"
    using assms(2) by (cases "sm_state m") (simp_all add: prepare_open_acceptance_def ensure_connected_def)
  have req: "requestable (sm_requested m)" and cap: "0 < cc_max_pending_probes (sm_config m)"
    using assms(1) params_from_request_requestable by (auto simp: run_inv_def)
  consider (no_test) "prepare_no_test_open reply now m = Some (Ok p)"
    | (normal) packet where "or_token reply \<noteq> 0" "prepare_normal_open reply now (Some packet) m = Some (Ok p)"
        "encode_request mac (ReqClose (or_token reply)) (machine_hmac_key m) = Ok packet"
    using prepare_open_acceptance_cases [OF conn assms(2)] by blast
  then show ?thesis
  proof cases
    case no_test
    then obtain r where "client_negotiate_params (sm_requested m) (or_params reply)
        (op_negotiation (cc_open (sm_config m))) = Some r"
      by (auto simp: prepare_no_test_open_def)
    with no_test conn show ?thesis by (cases r) (auto simp: prepare_no_test_open_def)
  next
    case normal
    then obtain neg where neg: "client_negotiate_params (sm_requested m) (or_params reply)
          (op_negotiation (cc_open (sm_config m))) = Some (Ok neg)"
      and p: "po_next_state p = MsOpen
            \<lparr>as_token = or_token reply, as_negotiated = neg, as_local_close_packet = packet, as_next_wire_seq = 0,
             as_highest_received_seq = None, as_packets_sent = 0,
             as_pending = pending_new (cc_max_pending_probes (sm_config m)),
             as_timed_out = pending_new (cc_max_pending_probes (sm_config m)),
             as_completed = completed_new (cc_max_pending_probes (sm_config m)),
             as_kernel_tx_correlation_valid = True\<rparr>"
      by (auto simp: prepare_normal_open_def Let_def split: option.splits sum.splits)
    from negotiate_Ok_restricts [OF req neg] normal conn tracked_new [OF cap]
    show ?thesis by (simp add: p client_session_ok_def)
  qed
qed

lemma open_inv:
  assumes "run_inv mac config remote m t log" "prepare_open_acceptance mac reply now m = Some (Ok p)"
  shows "run_inv mac config remote (fst (commit_open p m)) t log"
proof -
  note p = prepare_open_acceptance_Ok [OF assms]
  then have log: "log = []" using assms(1) by (simp add: run_inv_def)
  from p show ?thesis
  proof (elim conjE disjE exE)
    fix s assume "po_next_state p = MsOpen s" "client_session_ok mac m t s [] []" "as_packets_sent s = 0"
    moreover from this have "balance (length []) (length []) (as_packets_sent s) log"
      by (simp add: log balance_def)
    ultimately show ?thesis using run_inv_update [OF assms(1)] by (simp add: commit_open_def)
  qed (use assms(1) in \<open>auto simp: commit_open_def run_inv_def log\<close>)
qed

text \<open>A successful send: the sequence number was fresh and there was room.\<close>

lemma send_Ok:
  assumes "machine_send mac reserve_ok anchor sent m = Some (Ok (m', psent))"
  shows "\<exists>s c s'. sm_state m = MsOpen s \<and> m' = m\<lparr>sm_state := MsOpen s'\<rparr> \<and>
     session_commit_sent c sent s = Some s' \<and> pc_wire_seq c = as_next_wire_seq s \<and>
     pc_timeout_at c = ct_mono anchor + int (cc_probe_timeout (sm_config m)) \<and>
     preflight_insert reserve_ok (as_next_wire_seq s) (as_pending s) = Ok () \<and> as_packets_sent s \<noteq> - 1 \<and>
     pc_next_wire_seq c = as_next_wire_seq s + 1 \<and> pc_next_packets_sent c = as_packets_sent s + 1 \<and>
     psent_seq psent = as_next_wire_seq s"
proof -
  obtain s where s: "sm_state m = MsOpen s"
    using assms by (cases "sm_state m") (auto simp: machine_send_def prepare_probe_def open_session_def)
  obtain prepared pf c where steps: "prepare_probe mac m = Ok prepared"
      "preflight_probe_commit reserve_ok prepared m = Ok pf" "finalize_probe_commit pf anchor m = Ok c"
      "commit_probe_sent c sent (length (pp_bytes prepared)) m = Some (m', psent)"
    using assms by (auto simp: machine_send_def split: sum.split_asm)
  have pp: "pp_seq prepared = as_next_wire_seq s"
    using steps(1) by (auto simp: prepare_probe_def open_session_def s result_simps)
  have pf: "pf_seq pf = as_next_wire_seq s" "pf_next_wire_seq pf = as_next_wire_seq s + 1"
      "pf_next_packets_sent pf = as_packets_sent s + 1" "as_packets_sent s \<noteq> - 1"
      "preflight_insert reserve_ok (as_next_wire_seq s) (as_pending s) = Ok ()"
    using steps(2) by (auto simp: preflight_probe_commit_def open_session_def s pp result_simps split: if_splits)
  have c: "pc_wire_seq c = pf_seq pf" "pc_next_wire_seq c = pf_next_wire_seq pf"
      "pc_next_packets_sent c = pf_next_packets_sent pf"
      "pc_timeout_at c = ct_mono anchor + int (cc_probe_timeout (sm_config m))"
    using steps(3) by (auto simp: finalize_probe_commit_def split: option.split_asm)
  obtain s' where "session_commit_sent c sent s = Some s'" "m' = m\<lparr>sm_state := MsOpen s'\<rparr>"
      "psent_seq psent = pc_wire_seq c"
    using steps(4) by (auto simp: commit_probe_sent_def s)
  with s pf c show ?thesis by auto
qed

lemma unat_succ: "(n :: u64) \<noteq> - 1 \<Longrightarrow> unat (n + 1) = Suc (unat n)"
  using word_unat_eq_iff [of n "- 1"] unsigned_less [of n, where 'a = nat]
  by (simp add: unat_word_ariths unsigned_minus_1_eq_mask mask_eq_exp_minus_1)

lemma ucast_succ: "(ucast (n + 1) :: u32) = ucast (n :: u64) + 1"
proof -
  have "take_bit 32 (k + 1) = take_bit 32 (take_bit 64 k + 1)" for k :: int
    using take_bit_add [of 32 k 1] take_bit_add [of 32 "take_bit 64 k" 1] by simp
  then show ?thesis by transfer simp
qed

lemma preflight_room:
  assumes "tracked cap s ps ts" "preflight_insert reserve_ok k (as_pending s) = Ok ()"
  shows "k \<notin> seqs ps \<and> length ps < cap"
  using assms represents_absent [of "as_pending s" ps k] represents_len [of "as_pending s" ps]
  by (auto simp: tracked_def preflight_insert_def split: if_splits)

lemma send_inv:
  assumes inv: "run_inv mac config remote m t log" and mono: "t \<le> ct_mono anchor"
    and send: "machine_send mac reserve_ok anchor sent m = Some (Ok (m', psent))"
  shows "run_inv mac config remote m' (ct_mono anchor) log"
proof -
  obtain s c s' where s: "sm_state m = MsOpen s" and m': "m' = m\<lparr>sm_state := MsOpen s'\<rparr>"
    and c: "session_commit_sent c sent s = Some s'" "pc_wire_seq c = as_next_wire_seq s"
      "pc_timeout_at c = ct_mono anchor + int (cc_probe_timeout (sm_config m))"
      "preflight_insert reserve_ok (as_next_wire_seq s) (as_pending s) = Ok ()" "as_packets_sent s \<noteq> - 1"
      "pc_next_wire_seq c = as_next_wire_seq s + 1" "pc_next_packets_sent c = as_packets_sent s + 1"
    using send_Ok [OF send] by blast
  obtain ps ts where ok: "client_session_ok mac m t s ps ts" and bal: "balance (length ps) (length ts) (as_packets_sent s) log"
    using run_inv_open [OF inv s] by blast
  define cap where "cap = cc_max_pending_probes (sm_config m)"
  have tr: "tracked cap s ps ts" using ok by (simp add: client_session_ok_def cap_def)
  note room = preflight_room [OF tr c(4)]
  define ts' where "ts' = filter (\<lambda>x. wire_seq x \<noteq> pc_wire_seq c) ts"
  obtain p where p: "same_identity s s'" "timeout_at p = pc_timeout_at c" "tracked cap s' (ps @ [p]) ts'"
      "as_next_wire_seq s' = pc_next_wire_seq c" "as_packets_sent s' = pc_next_packets_sent c"
    using commit_sent_tracked [OF tr, of c sent] room c(1,2) by (auto simp: ts'_def)
  have before: "d \<le> pc_timeout_at c" if "d \<in> timeout_at ` set ps" for d
    using ok mono that c(3) unfolding client_session_ok_def by fastforce
  have "sorted (map timeout_at (ps @ [p]))"
    using ok before by (auto simp: sorted_append client_session_ok_def p(2))
  moreover have "\<forall>d \<in> timeout_at ` set (ps @ [p]). d \<le> ct_mono anchor + int (cc_probe_timeout (sm_config m))"
    using before c(3) by (auto simp: p(2))
  ultimately have "client_session_ok mac m (ct_mono anchor) s' (ps @ [p]) ts'"
    using ok p c unfolding client_session_ok_def cap_def same_identity_def by (simp add: ucast_succ)
  moreover have "unat (as_packets_sent s + 1) = Suc (unat (as_packets_sent s))"
    using c(5) by (rule unat_succ)
  then have "balance (length (ps @ [p])) (length ts') (as_packets_sent s') log"
    using balance_shrink [OF bal, of "length ts'"] length_filter_le [of _ ts]
    by (auto simp: balance_def p(5) c(7) ts'_def)
  ultimately show ?thesis unfolding m' by (rule run_inv_update [OF inv])
qed

lemma set_filter_image: "f ` set (filter P xs) \<subseteq> f ` set xs"
  by auto

lemma classify_inv:
  assumes ok: "client_session_ok mac m t s ps ts" and bal: "balance (length ps) (length ts) (as_packets_sent s) log"
  shows "\<exists>s' e ps' ts'. classify_reply remote reply n now meta s = Some (s', e) \<and> client_session_ok mac m t s' ps' ts' \<and>
     balance (length ps') (length ts') (as_packets_sent s') (log @ [e])"
proof -
  define k where "k = er_sequence reply"
  have tr: "tracked (cc_max_pending_probes (sm_config m)) s ps ts" and sorted: "sorted (map timeout_at ps)"
    using ok by (simp_all add: client_session_ok_def)
  have d: "distinct (map wire_seq ps)" "distinct (map wire_seq ts)"
    using tr by (auto simp: tracked_def dest: represents_distinct)
  obtain s' e where c: "classify_reply remote reply n now meta s = Some (s', e)"
      and id: "same_identity s s'" "as_next_wire_seq s' = as_next_wire_seq s" "as_packets_sent s' = as_packets_sent s"
      and fits: "event_fits (class_of k s ps ts) (is_late (as_highest_received_seq s) k) k e"
      and after: "case class_of k s ps ts of
        InFlight p \<Rightarrow> tracked (cc_max_pending_probes (sm_config m)) s' (filter (\<lambda>x. wire_seq x \<noteq> k) ps) ts \<and> p \<in> set ps \<and> k \<in> completed_seqs s'
      | TimedOut p \<Rightarrow> tracked (cc_max_pending_probes (sm_config m)) s' ps (filter (\<lambda>x. wire_seq x \<noteq> k) ts) \<and> p \<in> set ts \<and> k \<in> completed_seqs s'
      | Repeated \<Rightarrow> tracked (cc_max_pending_probes (sm_config m)) s' ps ts \<and> completed_seqs s' = completed_seqs s
      | Unknown \<Rightarrow> s' = s"
    using classify_reply_tracked [OF tr, of remote reply n now meta] unfolding k_def by blast
  note b = balance_event [OF bal fits]
  show ?thesis
  proof (cases "class_of k s ps ts")
    case (InFlight p)
    then have "k \<in> seqs ps"
      by (auto simp: class_of_def dest!: find_seq(2) split: option.split_asm if_splits)
    then have len: "length (filter (\<lambda>x. wire_seq x \<noteq> k) ps) = length ps - 1" "0 < length ps"
      using length_filter_seq [OF d(1)] by fastforce+
    have "client_session_ok mac m t s' (filter (\<lambda>x. wire_seq x \<noteq> k) ps) ts"
      using InFlight after by (intro client_session_ok_same [OF ok id] sorted_map_filter [OF sorted] set_filter_image) simp
    moreover have "balance (length (filter (\<lambda>x. wire_seq x \<noteq> k) ps)) (length ts) (as_packets_sent s') (log @ [e])"
      using InFlight b len id(3) by simp
    ultimately show ?thesis using c by blast
  next
    case (TimedOut p)
    then have "k \<in> seqs ts"
      by (auto simp: class_of_def dest!: find_seq(2) split: option.split_asm if_splits)
    then have len: "length (filter (\<lambda>x. wire_seq x \<noteq> k) ts) = length ts - 1" "0 < length ts"
      using length_filter_seq [OF d(2)] by fastforce+
    have "client_session_ok mac m t s' ps (filter (\<lambda>x. wire_seq x \<noteq> k) ts)"
      using TimedOut after by (intro client_session_ok_same [OF ok id] sorted) simp_all
    moreover have "balance (length ps) (length (filter (\<lambda>x. wire_seq x \<noteq> k) ts)) (as_packets_sent s') (log @ [e])"
      using TimedOut b len id(3) by simp
    ultimately show ?thesis using c by blast
  next
    case Repeated
    with after b c id client_session_ok_same [OF ok id, of ps ts] sorted show ?thesis by auto
  next
    case Unknown
    with after b c id ok show ?thesis by auto
  qed
qed

lemma receive_inv:
  assumes inv: "run_inv mac config remote m t log"
  shows "\<exists>m' r. process_received_echo_packet mac packet now meta m = Some (m', r) \<and>
     (case r of Inl e \<Rightarrow> m' = m | Inr events \<Rightarrow> run_inv mac config remote m' t (log @ events))"
proof (cases "sm_state m")
  case (MsOpen s)
  obtain ps ts where ok: "client_session_ok mac m t s ps ts" and bal: "balance (length ps) (length ts) (as_packets_sent s) log"
    using run_inv_open [OF inv MsOpen] by blast
  have warn: "run_inv mac config remote m t (log @ [Warning k msg now])" for k msg
    using inv bal run_inv_update [OF inv ok, of "log @ [Warning k msg now]"] MsOpen
    by (auto simp: balance_def replies_def losses_def lates_def run_inv_def)
  show ?thesis
  proof (cases "decode_echo_reply mac packet (ng_peer_params (as_negotiated s)) (machine_hmac_key m)")
    case (Inl e)
    with MsOpen warn show ?thesis by (simp add: process_received_echo_packet_def open_session_def)
  next
    case (Inr reply)
    obtain s' e ps' ts' where c: "classify_reply (sm_remote m) reply (length packet) now meta s = Some (s', e)"
        "client_session_ok mac m t s' ps' ts'" "balance (length ps') (length ts') (as_packets_sent s') (log @ [e])"
      using classify_inv [OF ok bal] by blast
    have "balance (length ps') (length ts') (as_packets_sent s') (log @ [e, SessionClosed r k n])" for r k n
      using c(3) by (simp add: balance_def)
    then have "run_inv mac config remote (m\<lparr>sm_state := MsClosed ClosePeer (as_packets_sent s')\<rparr>) t
        (log @ [e, SessionClosed r k n])" for r k n
      by (rule run_inv_close [OF inv])
    with c MsOpen Inr warn run_inv_update [OF inv c(2,3)] show ?thesis
      by (simp add: process_received_echo_packet_def open_session_def process_echo_reply_def)
  qed
qed (use inv in \<open>simp_all add: process_received_echo_packet_def open_session_def\<close>)

lemma poll_inv:
  assumes inv: "run_inv mac config remote m t log"
  shows "\<exists>m' r. poll_timeouts_bounded_at now limit m = Some (m', r) \<and>
     (case r of Inl e \<Rightarrow> m' = m | Inr batch \<Rightarrow> run_inv mac config remote m' t (log @ tb_events batch))"
proof (cases "sm_state m")
  case (MsOpen s)
  obtain ps ts where ok: "client_session_ok mac m t s ps ts" and bal: "balance (length ps) (length ts) (as_packets_sent s) log"
    using run_inv_open [OF inv MsOpen] by blast
  define out where "out = take limit (filter (\<lambda>p. timeout_at p \<le> now) ps)"
  obtain s' b ts' where p: "session_poll_timeouts now limit s = Some (s', b)" "same_identity s s'"
      "tb_events b = map echo_loss out" "tracked (cc_max_pending_probes (sm_config m)) s' (drop (length out) ps) ts'"
      "length ts' \<le> length ts + length out" "as_next_wire_seq s' = as_next_wire_seq s"
      "as_packets_sent s' = as_packets_sent s"
    using poll_timeouts_tracked [of "cc_max_pending_probes (sm_config m)" s ps ts now limit] ok
    unfolding out_def client_session_ok_def by blast
  have "length out \<le> length ps" 
    unfolding out_def by (metis length_filter_le length_take min.bounded_iff min.cobounded1 le_trans)
  with balance_losses [OF bal _ p(5) refl] have "balance (length (drop (length out) ps)) (length ts')
      (as_packets_sent s') (log @ tb_events b)" by (simp add: p(3,7))
  moreover have "client_session_ok mac m t s' (drop (length out) ps) ts'"
    using ok p by (intro client_session_ok_same [OF ok]) (auto simp: client_session_ok_def intro: sorted_map_drop dest: in_set_dropD)
  ultimately have "run_inv mac config remote (m\<lparr>sm_state := MsOpen s'\<rparr>) t (log @ tb_events b)"
    using run_inv_update [OF inv] by blast
  with p MsOpen show ?thesis by (simp add: poll_timeouts_bounded_at_def open_session_def)
qed (use inv in \<open>simp_all add: poll_timeouts_bounded_at_def open_session_def\<close>)

lemma tx_inv:
  assumes inv: "run_inv mac config remote m t log"
  shows "run_inv mac config remote (record_kernel_tx_timestamp k stamp m) t log"
proof (cases "sm_state m")
  case (MsOpen s)
  obtain ps ts where ok: "client_session_ok mac m t s ps ts" and bal: "balance (length ps) (length ts) (as_packets_sent s) log"
    using run_inv_open [OF inv MsOpen] by blast
  define s' where "s' = session_record_tx k stamp s"
  obtain ps' ts' where r: "tracked (cc_max_pending_probes (sm_config m)) s' ps' ts'" "same_identity s s'"
      "map wire_seq ps' = map wire_seq ps" "map timeout_at ps' = map timeout_at ps" "length ts' = length ts"
      "as_next_wire_seq s' = as_next_wire_seq s" "as_packets_sent s' = as_packets_sent s"
    using record_tx_tracked [of "cc_max_pending_probes (sm_config m)" s ps ts k stamp] ok
    unfolding s'_def client_session_ok_def by blast
  have "timeout_at ` set ps' \<subseteq> timeout_at ` set ps" using arg_cong [OF r(4), of set] by simp
  then have "client_session_ok mac m t s' ps' ts'"
    using ok r by (intro client_session_ok_same [OF ok]) (auto simp: client_session_ok_def)
  moreover have "balance (length ps') (length ts') (as_packets_sent s') log"
    using bal r(5,7) arg_cong [OF r(3), of length] by simp
  ultimately show ?thesis
    using run_inv_update [OF inv] MsOpen by (simp add: record_kernel_tx_timestamp_def s'_def)
qed (use inv in \<open>simp_all add: record_kernel_tx_timestamp_def\<close>)

lemma invalidate_inv:
  assumes inv: "run_inv mac config remote m t log"
  shows "run_inv mac config remote (invalidate_kernel_tx_correlation m) t log"
proof (cases "sm_state m")
  case (MsOpen s)
  obtain ps ts where ok: "client_session_ok mac m t s ps ts" and bal: "balance (length ps) (length ts) (as_packets_sent s) log"
    using run_inv_open [OF inv MsOpen] by blast
  have "client_session_ok mac m t (s\<lparr>as_kernel_tx_correlation_valid := False\<rparr>) ps ts"
    using ok by (simp add: client_session_ok_def tracked_def)
  with run_inv_update [OF inv this] bal MsOpen show ?thesis
    by (simp add: invalidate_kernel_tx_correlation_def)
qed (use inv in \<open>simp_all add: invalidate_kernel_tx_correlation_def\<close>)

lemma close_inv:
  assumes inv: "run_inv mac config remote m t log" and "prepare_close m = Ok (packet, commit)"
    "commit_local_close commit now m = (m', event)"
  shows "run_inv mac config remote m' t (log @ [event])"
proof -
  obtain s where s: "sm_state m = MsOpen s" "commit = \<lparr>cm_packets_sent = as_packets_sent s, cm_token = as_token s\<rparr>"
    using assms(2) by (cases "sm_state m") (simp_all add: prepare_close_def open_session_def)
  obtain ps ts :: "pending_probe list" where "balance (length ps) (length ts) (as_packets_sent s) log"
    using run_inv_open [OF inv s(1)] by blast
  then have "balance (length ps) (length ts) (as_packets_sent s) (log @ [SessionClosed r k n])" for r k n
    by (simp add: balance_def)
  then have "run_inv mac config remote (m\<lparr>sm_state := MsClosed CloseLocal (as_packets_sent s)\<rparr>) t
      (log @ [SessionClosed r k n])" for r k n
    by (rule run_inv_close [OF inv])
  with assms(3) s(2) show ?thesis by (auto simp: commit_local_close_def)
qed

lemma machine_run_inv: "machine_run mac config remote m t log \<Longrightarrow> run_inv mac config remote m t log"
proof (induction rule: machine_run.induct)
  case (run_receive m t log packet now meta m' events)
  with receive_inv [OF run_receive.IH, of packet now meta] show ?case by simp
next
  case (run_poll m t log now limit m' batch)
  with poll_inv [OF run_poll.IH, of now limit] show ?case by simp
qed (auto intro: machine_new_inv open_inv send_inv invalidate_inv tx_inv close_inv)

lemma open_acceptance_total:
  assumes "run_inv mac config remote m t log"
  shows "prepare_open_acceptance mac reply now m \<noteq> None"
proof (cases "sm_state m")
  case MsConnected
  have "requestable (sm_requested m)"
    using assms params_from_request_requestable by (auto simp: run_inv_def)
  then obtain r where r: "client_negotiate_params (sm_requested m) (or_params reply)
      (op_negotiation (cc_open (sm_config m))) = Some r"
    using negotiate_total by blast
  obtain packet where e: "encode_request mac (ReqClose (or_token reply)) (machine_hmac_key m) = Ok packet"
    using close_encodes by blast
  have "prepare_no_test_open reply now m \<noteq> None" "prepare_normal_open reply now (Some packet) m \<noteq> None"
    using r by (cases r; simp add: prepare_no_test_open_def prepare_normal_open_def Let_def)+
  then show ?thesis
    unfolding prepare_open_acceptance_def ensure_connected_def MsConnected Let_def e
    by (cases "rq_run_mode (cc_request (sm_config m))") simp_all
qed (simp_all add: prepare_open_acceptance_def ensure_connected_def)

lemma send_total:
  assumes inv: "run_inv mac config remote m t log"
  shows "machine_send mac reserve_ok anchor sent m \<noteq> None"
proof (cases "sm_state m")
  case (MsOpen s)
  obtain ps ts where ok: "client_session_ok mac m t s ps ts" using run_inv_open [OF inv MsOpen] by blast
  have "commit_probe_sent c sent n m \<noteq> None"
    if "preflight_insert reserve_ok (pc_wire_seq c) (as_pending s) = Ok ()" for c n
  proof -
    have tr: "tracked (cc_max_pending_probes (sm_config m)) s ps ts" using ok by (simp add: client_session_ok_def)
    from commit_sent_tracked [OF tr, of c sent] preflight_room [OF tr that] MsOpen
    show ?thesis by (auto simp: commit_probe_sent_def)
  qed
  then show ?thesis
    by (auto simp: machine_send_def prepare_probe_def preflight_probe_commit_def finalize_probe_commit_def
        open_session_def MsOpen result_simps split: sum.split option.split if_splits)
qed (simp_all add: machine_send_def prepare_probe_def open_session_def)

lemma balance_sums:
  assumes "balance np nt n log"
  shows "replies log + losses log \<le> unat n" "replies log + lates log \<le> unat n"
    "unat n \<le> np + replies log + losses log + lates log"
  using assms by (auto simp: balance_def)

lemma run_balance:
  assumes inv: "run_inv mac config remote m t log"
  shows "\<exists>np nt. balance np nt (packets_sent m) log \<and>
     (case sm_state m of MsOpen s \<Rightarrow> np = table_len (pm_map (as_pending s)) | _ \<Rightarrow> True)"
proof (cases "sm_state m")
  case (MsOpen s)
  obtain ps ts where ok: "client_session_ok mac m t s ps ts" and bal: "balance (length ps) (length ts) (as_packets_sent s) log"
    using run_inv_open [OF inv MsOpen] by blast
  have "table_len (pm_map (as_pending s)) = length ps"
    using ok represents_len by (auto simp: client_session_ok_def tracked_def)
  with bal MsOpen show ?thesis by (auto simp: packets_sent_def)
next
  case (MsClosed src n)
  then show ?thesis using inv by (auto simp: run_inv_def packets_sent_def)
qed (use inv in \<open>auto simp: run_inv_def packets_sent_def balance_def\<close>)

section \<open>Properties\<close>

text \<open>C5: the client's invariant. In every run, an open session has a non-zero token, negotiated
  parameters that restrict the requested ones, its prepared close packet, and three stores (in
  flight, timed out, completed) that hold disjoint sets of sequence numbers and never more than
  the configured number of probes; the in-flight deadlines are in order, and the next sequence
  number is the low half of the number of probes sent.\<close>

theorem client_machine_invariant:
  assumes "machine_run mac config remote m t log" "sm_state m = MsOpen s"
  shows "\<exists>ps ts. client_session_ok mac m t s ps ts"
  using run_inv_open [OF machine_run_inv [OF assms(1)] assms(2)] by blast

text \<open>A concrete client: opened by a reply that grants what it asked for.\<close>

definition flat_mac :: mac_fun where
  "flat_mac key message = 0"

definition client_test_config :: client_config where
  "client_test_config = client_config_default\<lparr>cc_max_pending_probes := 4\<rparr>"

definition client_test_instant :: client_timestamp where
  "client_test_instant = \<lparr>ct_wall = 1000, ct_mono = 1000\<rparr>"

definition client_test_machine :: session_machine where
  "client_test_machine = projr (machine_new client_test_config (V4 1 2112))"

definition client_test_open_reply :: open_reply where
  "client_test_open_reply = \<lparr>or_flags = FLAG_OPEN OR FLAG_REPLY, or_token = 7, or_params = sm_requested client_test_machine\<rparr>"

definition client_test_prepared :: prepared_open_acceptance where
  "client_test_prepared = projr (the (prepare_open_acceptance flat_mac client_test_open_reply client_test_instant client_test_machine))"

definition client_test_opened :: session_machine where
  "client_test_opened = fst (commit_open client_test_prepared client_test_machine)"

definition client_test_session :: active_session where
  "client_test_session = (case sm_state client_test_opened of MsOpen s \<Rightarrow> s | _ \<Rightarrow> undefined)"

lemma client_test_machine_new: "machine_new client_test_config (V4 1 2112) = Ok client_test_machine"
proof -
  have "isl (machine_new client_test_config (V4 1 2112)) = False" by code_simp
  then show ?thesis by (simp add: client_test_machine_def)
qed

lemma client_test_prepared_ok: "prepare_open_acceptance flat_mac client_test_open_reply client_test_instant client_test_machine = Some (Ok client_test_prepared)"
proof -
  have "(case prepare_open_acceptance flat_mac client_test_open_reply client_test_instant client_test_machine of
      Some (Inr p) \<Rightarrow> True | _ \<Rightarrow> False) = True"
    by code_simp
  then show ?thesis by (auto simp: client_test_prepared_def split: option.split_asm sum.split_asm)
qed

lemma client_test_opened_run: "machine_run flat_mac client_test_config (V4 1 2112) client_test_opened 0 []"
  unfolding client_test_opened_def
  by (rule run_open [OF run_new [OF client_test_machine_new] client_test_prepared_ok])

lemma client_test_opened_state: "sm_state client_test_opened = MsOpen client_test_session"
proof -
  have "(case sm_state client_test_opened of MsOpen s \<Rightarrow> True | _ \<Rightarrow> False) = True" by code_simp
  then show ?thesis by (auto simp: client_test_session_def split: machine_state.split_asm)
qed

theorem client_machine_invariant_witness:
  "\<exists>ps ts. client_session_ok flat_mac client_test_opened 0 client_test_session ps ts"
  by (rule client_machine_invariant [OF client_test_opened_run client_test_opened_state])

text \<open>The client never panics. In every run, accepting an open reply, sending a probe,
  receiving any datagram and polling timeouts all return: no \<open>expect\<close>, \<open>unwrap\<close> or
  \<open>unreachable!\<close> of the machine, the negotiation or the probe stores can fail.\<close>

theorem client_never_panics:
  assumes "machine_run mac config remote m t log"
  shows "prepare_open_acceptance mac reply now m \<noteq> None \<and>
     machine_send mac reserve_ok anchor sent m \<noteq> None \<and>
     process_received_echo_packet mac packet now meta m \<noteq> None \<and>
     poll_timeouts_bounded_at deadline limit m \<noteq> None \<and> poll_timeouts_at deadline m \<noteq> None"
proof -
  note inv = machine_run_inv [OF assms]
  have poll: "poll_timeouts_bounded_at d l m \<noteq> None" for d l using poll_inv [OF inv, of d l] by auto
  have "process_received_echo_packet mac packet now meta m \<noteq> None"
    using receive_inv [OF inv, of packet now meta] by auto
  moreover have "poll_timeouts_at deadline m \<noteq> None" using poll [of deadline usize_max] by (simp add: poll_timeouts_at_def)
  ultimately show ?thesis using poll open_acceptance_total [OF inv] send_total [OF inv] by blast
qed

theorem client_never_panics_witness:
  "process_received_echo_packet flat_mac [1, 2, 3] client_test_instant
     \<lparr>rm_traffic_class = None, rm_kernel_rx_timestamp = None\<rparr> client_test_opened \<noteq> None \<and>
   machine_send flat_mac True client_test_instant client_test_instant client_test_opened \<noteq> None"
  using client_never_panics [OF client_test_opened_run] by blast



text \<open>C24: classification of replies. An authentic reply with the session's token gives exactly one
  event, decided by the store that knows its sequence number: in flight gives a reply, or a late
  one behind the highest number received; completed gives a duplicate; timed out gives a late
  reply with its timing; an unknown number gives a late reply without timing or a warning. A
  close flag closes the session after that event, and nothing else does.\<close>

theorem reply_classification:
  assumes "machine_run mac config remote m t log" "sm_state m = MsOpen s"
    and "decode_echo_reply mac packet (ng_peer_params (as_negotiated s)) (machine_hmac_key m) = Ok reply"
    and "er_token reply = as_token s"
  shows "\<exists>m' e ps ts. represents (as_pending s) ps \<and> represents (as_timed_out s) ts \<and>
     event_fits (class_of (er_sequence reply) s ps ts)
       (is_late (as_highest_received_seq s) (er_sequence reply)) (er_sequence reply) e \<and>
     (if has (er_flags reply) FLAG_CLOSE then
        process_received_echo_packet mac packet now meta m =
          Some (m', Ok [e, SessionClosed (sm_remote m) (as_token s) now]) \<and>
        sm_state m' = MsClosed ClosePeer (as_packets_sent s)
      else process_received_echo_packet mac packet now meta m = Some (m', Ok [e]) \<and>
        (\<exists>s'. sm_state m' = MsOpen s' \<and> same_identity s s'))"
proof -
  obtain ps ts where ok: "client_session_ok mac m t s ps ts"
    using run_inv_open [OF machine_run_inv [OF assms(1)] assms(2)] by blast
  then have tr: "tracked (cc_max_pending_probes (sm_config m)) s ps ts" by (simp add: client_session_ok_def)
  obtain s' e where c: "classify_reply (sm_remote m) reply (length packet) now meta s = Some (s', e)"
      "same_identity s s'" "as_packets_sent s' = as_packets_sent s"
      "event_fits (class_of (er_sequence reply) s ps ts)
       (is_late (as_highest_received_seq s) (er_sequence reply)) (er_sequence reply) e"
    using classify_reply_tracked [OF tr, of "sm_remote m" reply "length packet" now meta] by blast
  define m' where "m' = m\<lparr>sm_state := if has (er_flags reply) FLAG_CLOSE
      then MsClosed ClosePeer (as_packets_sent s) else MsOpen s'\<rparr>"
  have "process_received_echo_packet mac packet now meta m =
      Some (m', Ok (if has (er_flags reply) FLAG_CLOSE then [e, SessionClosed (sm_remote m) (as_token s) now] else [e]))"
    using assms c by (simp add: process_received_echo_packet_def open_session_def process_echo_reply_def m'_def)
  then show ?thesis
    by - (rule exI [of _ m'], rule exI [of _ e], rule exI [of _ ps], rule exI [of _ ts],
      use c tr in \<open>auto simp: m'_def tracked_def\<close>)
qed

text \<open>The same client after one probe, and the server's reply to it.\<close>

definition client_test_sent :: session_machine where
  "client_test_sent = fst (projr (the (machine_send flat_mac True client_test_instant client_test_instant client_test_opened)))"

definition client_test_sent_session :: active_session where
  "client_test_sent_session = (case sm_state client_test_sent of MsOpen s \<Rightarrow> s | _ \<Rightarrow> undefined)"

definition client_test_echo :: echo_reply where
  "client_test_echo = \<lparr>er_flags = FLAG_REPLY, er_token = 7, er_sequence = 0, er_recv_count = Some 1, er_recv_window = Some 1,
     er_timestamps = \<lparr>ts_recv_wall = Some 1010, ts_recv_mono = Some 5, ts_midpoint_wall = None,
       ts_midpoint_mono = None, ts_send_wall = Some 1020, ts_send_mono = Some 15\<rparr>, er_payload = []\<rparr>"

definition client_test_echo_packet :: bytes where
  "client_test_echo_packet = sealed flat_mac FLAG_REPLY None
     (echo_body (None \<noteq> (None :: bytes option)) (ng_peer_params (as_negotiated client_test_sent_session)) client_test_echo)"

definition client_test_meta :: receive_meta where
  "client_test_meta = \<lparr>rm_traffic_class = None, rm_kernel_rx_timestamp = None\<rparr>"

definition client_test_psent :: probe_sent where
  "client_test_psent = snd (projr (the (machine_send flat_mac True client_test_instant client_test_instant client_test_opened)))"

lemma client_test_send:
  "machine_send flat_mac True client_test_instant client_test_instant client_test_opened =
     Some (Ok (client_test_sent, client_test_psent))"
proof -
  have "(case machine_send flat_mac True client_test_instant client_test_instant client_test_opened of
      Some (Inr (m', p)) \<Rightarrow> True | _ \<Rightarrow> False) = True" by code_simp
  then show ?thesis
    by (auto simp: client_test_sent_def client_test_psent_def split: option.split_asm sum.split_asm)
qed

lemma client_test_sent_run: "machine_run flat_mac client_test_config (V4 1 2112) client_test_sent 1000 []"
  using run_send [OF client_test_opened_run _ client_test_send] by (simp add: client_test_instant_def)

lemma client_test_sent_state: "sm_state client_test_sent = MsOpen client_test_sent_session"
proof -
  have "(case sm_state client_test_sent of MsOpen s \<Rightarrow> True | _ \<Rightarrow> False) = True" by code_simp
  then show ?thesis by (auto simp: client_test_sent_session_def split: machine_state.split_asm)
qed

lemma client_test_echo_decodes:
  "decode_echo_reply flat_mac client_test_echo_packet (ng_peer_params (as_negotiated client_test_sent_session))
     (machine_hmac_key client_test_sent) = Ok client_test_echo"
proof -
  define p where "p = ng_peer_params (as_negotiated client_test_sent_session)"
  have key: "machine_hmac_key client_test_sent = None" by code_simp
  have "fields_match (echo_layout (None \<noteq> (None :: bytes option)) p) client_test_echo" unfolding p_def by code_simp
  then have "decode_echo_reply flat_mac client_test_echo_packet p None =
      Ok (client_test_echo\<lparr>er_flags := FLAG_REPLY, er_payload := pad_payload (None \<noteq> (None :: bytes option)) p (er_payload client_test_echo)\<rparr>)"
    unfolding client_test_echo_packet_def p_def [symmetric]
    by (rule decode_echo_reply_sealed [rotated 4]) (simp_all add: proto_consts has_def client_test_echo_def)
  moreover have "pad_payload (None \<noteq> (None :: bytes option)) p [] = []" unfolding p_def by code_simp
  ultimately show ?thesis by (simp add: key p_def client_test_echo_def)
qed

lemma client_test_echo_token: "er_token client_test_echo = as_token client_test_sent_session" "\<not> has (er_flags client_test_echo) FLAG_CLOSE"
  by code_simp+

theorem reply_classification_witness:
  "\<exists>m' e. process_received_echo_packet flat_mac client_test_echo_packet client_test_instant client_test_meta client_test_sent = Some (m', Ok [e])"
  using reply_classification [OF client_test_sent_run client_test_sent_state client_test_echo_decodes client_test_echo_token(1),
      of client_test_instant client_test_meta]
  by (simp add: client_test_echo_token(2)) blast

text \<open>C25: one measurement per probe. Right after a reply was measured, the same reply again (or
  any other with its sequence number) is reported as a duplicate and changes no store.\<close>

theorem measured_once:
  assumes "machine_run mac config remote m t log" "sm_state m = MsOpen s"
    and "classify_reply remote reply n now meta s = Some (s', e)"
    and "is_reply e \<or> is_measured_late e" and "er_sequence reply' = er_sequence reply"
  shows "\<exists>s''. classify_reply remote reply' n' now' meta' s' =
       Some (s'', DuplicateReply (er_sequence reply) remote now' n') \<and>
     as_pending s'' = as_pending s' \<and> as_timed_out s'' = as_timed_out s' \<and> as_completed s'' = as_completed s'"
proof -
  define k where "k = er_sequence reply"
  obtain ps ts where "client_session_ok mac m t s ps ts"
    using run_inv_open [OF machine_run_inv [OF assms(1)] assms(2)] by blast
  then have tr: "tracked (cc_max_pending_probes (sm_config m)) s ps ts" by (simp add: client_session_ok_def)
  note after = classify_reply_tracked [OF tr, of remote reply n now meta, unfolded assms(3)]
  have cls: "class_of k s ps ts \<noteq> Unknown" "class_of k s ps ts \<noteq> Repeated"
    using after assms(4) unfolding k_def by (auto split: if_splits)
  then obtain ps' ts' where t': "tracked (cc_max_pending_probes (sm_config m)) s' ps' ts'" "k \<in> completed_seqs s'"
    using after unfolding k_def by (cases "class_of (er_sequence reply) s ps ts") auto
  then have "table_get (pm_map (as_pending s')) k = None"
    using represents_absent [of "as_pending s'" ps' k] by (auto simp: tracked_def)
  then have "pending_remove k (as_pending s') = Some (None, as_pending s')"
    by (simp add: pending_remove_def)
  with t'(2) show ?thesis
    by (simp add: classify_reply_def Let_def assms(5) k_def [symmetric] completed_contains_def)
qed

definition client_test_classified :: "active_session \<times> client_event" where
  "client_test_classified = the (classify_reply (V4 1 2112) client_test_echo 60 client_test_instant client_test_meta client_test_sent_session)"

lemma client_test_classified_ok:
  "classify_reply (V4 1 2112) client_test_echo 60 client_test_instant client_test_meta client_test_sent_session =
     Some (fst client_test_classified, snd client_test_classified)"
  "is_reply (snd client_test_classified)"
proof -
  have "(case classify_reply (V4 1 2112) client_test_echo 60 client_test_instant client_test_meta client_test_sent_session of
      Some _ \<Rightarrow> True | _ \<Rightarrow> False) = True" by code_simp
  then show "classify_reply (V4 1 2112) client_test_echo 60 client_test_instant client_test_meta client_test_sent_session =
     Some (fst client_test_classified, snd client_test_classified)"
    by (simp add: client_test_classified_def split: option.split_asm)
  show "is_reply (snd client_test_classified)" by code_simp
qed

theorem measured_once_witness:
  "\<exists>s''. classify_reply (V4 1 2112) client_test_echo 60 client_test_instant client_test_meta (fst client_test_classified) =
     Some (s'', DuplicateReply (er_sequence client_test_echo) (V4 1 2112) client_test_instant 60)"
  using measured_once [OF client_test_sent_run client_test_sent_state client_test_classified_ok(1) disjI1 [OF client_test_classified_ok(2)] refl]
  by blast

text \<open>C30: timeouts. Polling reports a loss for every due probe in flight, in deadline order, up to
  the limit, says whether more are due, and moves exactly those out of flight; a probe is never
  reported before its deadline.\<close>

theorem timeout_poll_exact:
  assumes "machine_run mac config remote m t log" "sm_state m = MsOpen s"
  shows "\<exists>m' s' b ps ts'. poll_timeouts_bounded_at now limit m = Some (m', Ok b) \<and> sm_state m' = MsOpen s' \<and>
     represents (as_pending s) ps \<and>
     tb_events b = map echo_loss (take limit (filter (\<lambda>p. timeout_at p \<le> now) ps)) \<and>
     (tb_more_due b \<longleftrightarrow> limit < length (filter (\<lambda>p. timeout_at p \<le> now) ps)) \<and>
     represents (as_pending s') (drop (length (tb_events b)) ps) \<and> represents (as_timed_out s') ts' \<and>
     length ts' \<le> cc_max_pending_probes config"
proof -
  note inv = machine_run_inv [OF assms(1)]
  obtain ps ts where ok: "client_session_ok mac m t s ps ts" using run_inv_open [OF inv assms(2)] by blast
  have cfg: "sm_config m = config" using inv by (simp add: run_inv_def)
  have tr: "tracked (cc_max_pending_probes (sm_config m)) s ps ts" "sorted (map timeout_at ps)"
    using ok by (simp_all add: client_session_ok_def)
  obtain s' b ts' where p: "session_poll_timeouts now limit s = Some (s', b)"
      "tb_events b = map echo_loss (take limit (filter (\<lambda>p. timeout_at p \<le> now) ps))"
      "tb_more_due b \<longleftrightarrow> limit < length (filter (\<lambda>p. timeout_at p \<le> now) ps)"
      "tracked (cc_max_pending_probes (sm_config m)) s'
         (drop (length (take limit (filter (\<lambda>p. timeout_at p \<le> now) ps))) ps) ts'"
    using poll_timeouts_tracked [OF tr, of now limit] by blast
  have "poll_timeouts_bounded_at now limit m = Some (m\<lparr>sm_state := MsOpen s'\<rparr>, Ok b)"
    using p(1) assms(2) by (simp add: poll_timeouts_bounded_at_def open_session_def)
  moreover have "represents (as_pending s) ps" "represents (as_timed_out s') ts'" "length ts' \<le> cc_max_pending_probes config"
    "represents (as_pending s') (drop (length (tb_events b)) ps)"
    using tr(1) p(2,4) cfg by (simp_all add: tracked_def)
  ultimately show ?thesis using p(2,3)
    by - (rule exI [of _ "m\<lparr>sm_state := MsOpen s'\<rparr>"], rule exI [of _ s'], rule exI [of _ b], rule exI [of _ ps],
      rule exI [of _ ts'], simp)
qed

theorem timeout_poll_exact_witness:
  "\<exists>m' b. poll_timeouts_bounded_at 2000 5 client_test_sent = Some (m', Ok b)"
  using timeout_poll_exact [OF client_test_sent_run client_test_sent_state, of 2000 5] by blast

text \<open>Probe numbering. Each committed send uses the next sequence number, the low 32 bits of
  the number of probes sent so far, and counts one more without wrapping; a send that is refused
  changes nothing, because the error is decided before the commit.\<close>

theorem probe_numbering:
  assumes "machine_run mac config remote m t log"
    and "machine_send mac reserve_ok anchor sent m = Some (Ok (m', psent))"
  shows "psent_seq psent = ucast (packets_sent m) \<and> unat (packets_sent m') = Suc (unat (packets_sent m)) \<and>
     next_probe_timeout_deadline m' \<noteq> None"
proof -
  note inv = machine_run_inv [OF assms(1)]
  obtain s c s' where s: "sm_state m = MsOpen s" "m' = m\<lparr>sm_state := MsOpen s'\<rparr>"
      "session_commit_sent c sent s = Some s'" "pc_wire_seq c = as_next_wire_seq s"
      "preflight_insert reserve_ok (as_next_wire_seq s) (as_pending s) = Ok ()"
      "as_packets_sent s \<noteq> - 1" "pc_next_packets_sent c = as_packets_sent s + 1" "psent_seq psent = as_next_wire_seq s"
    using send_Ok [OF assms(2)] by blast
  obtain ps ts where ok: "client_session_ok mac m t s ps ts" using run_inv_open [OF inv s(1)] by blast
  then have tr: "tracked (cc_max_pending_probes (sm_config m)) s ps ts"
    and seq: "as_next_wire_seq s = ucast (as_packets_sent s)" by (simp_all add: client_session_ok_def)
  obtain p where p: "represents (as_pending s') (ps @ [p])" "as_packets_sent s' = pc_next_packets_sent c"
    using commit_sent_tracked [OF tr, of c sent] preflight_room [OF tr s(5)] s(3,4) by (auto simp: tracked_def)
  have "next_timeout_deadline (as_pending s') \<noteq> None"
    using p(1) represents_first [of "as_pending s'"] by (cases "ps @ [p]") (auto simp: next_timeout_deadline_def)
  with s p(2) seq unat_succ [OF s(6)] show ?thesis by (simp add: packets_sent_def next_probe_timeout_deadline_def)
qed

theorem probe_numbering_witness:
  "psent_seq client_test_psent = ucast (packets_sent client_test_opened) \<and>
   unat (packets_sent client_test_sent) = Suc (unat (packets_sent client_test_opened))"
  using probe_numbering [OF client_test_opened_run client_test_send] by blast

text \<open>Lifecycle errors. Every operation checks the state first: before an open, after a
  no-test exchange and after either close, session operations report that state and leave the
  machine as it was; an open session or a finished one cannot be opened again.\<close>

theorem lifecycle_errors:
  "(case sm_state m of
      MsOpen s \<Rightarrow> prepare_open_request mac m = Err AlreadyOpen \<and>
        prepare_open_acceptance mac reply now m = Some (Err \<lparr>of_primary = AlreadyOpen, of_cleanup_close = None\<rparr>) \<and>
        prepare_close m = Ok (as_local_close_packet s, \<lparr>cm_packets_sent = as_packets_sent s, cm_token = as_token s\<rparr>)
    | MsConnected \<Rightarrow> machine_send mac reserve_ok anchor sent m = Some (Err NotOpen) \<and>
        process_received_echo_packet mac packet now meta m = Some (m, Err NotOpen) \<and>
        poll_timeouts_bounded_at deadline limit m = Some (m, Err NotOpen) \<and> prepare_close m = Err NotOpen
    | st \<Rightarrow> (let e = (if st = MsNoTestCompleted then AlreadyCompleted else AlreadyClosed) in
        prepare_open_request mac m = Err e \<and> inspect_open_datagram mac packet m = Err e \<and>
        prepare_open_acceptance mac reply now m = Some (Err \<lparr>of_primary = e, of_cleanup_close = None\<rparr>) \<and>
        machine_send mac reserve_ok anchor sent m = Some (Err e) \<and>
        process_received_echo_packet mac packet now meta m = Some (m, Err e) \<and>
        poll_timeouts_bounded_at deadline limit m = Some (m, Err e) \<and> prepare_close m = Err e \<and>
        record_kernel_tx_timestamp k stamp m = m \<and> invalidate_kernel_tx_correlation m = m))"
  by (cases "sm_state m")
     (simp_all add: prepare_open_request_def inspect_open_datagram_def prepare_open_acceptance_def ensure_connected_def
       machine_send_def prepare_probe_def process_received_echo_packet_def poll_timeouts_bounded_at_def
       prepare_close_def open_session_def record_kernel_tx_timestamp_def invalidate_kernel_tx_correlation_def Let_def)

end
