(* ===== verification/Client_Adapter.thy ===== *)
theory Client_Adapter
  imports Machine_Runs
begin

unbundle bit_operations_syntax

text \<open>
  The blocking client (\<open>irtt-client/src/client.rs\<close>, \<open>send.rs\<close>): the adapter that drives the session
  machine over a connected UDP socket. What the operating system answers is an input of each
  operation: an \<open>io_answer\<close> for an option call, the count or the error of a send, a script of receive
  results for a loop that may be interrupted. The socket keeps what the calls made it keep: its
  traffic class, its read timeout and the datagrams it accepted. A call that is still blocked when
  its script ends is \<open>Pending\<close>; a panic is \<open>None\<close>.
\<close>

section \<open>Sockets\<close>

record udp_socket =
  so_traffic_class :: u8
  so_read_timeout :: "duration option"
  so_sent :: "bytes list"

definition set_socket_traffic_class ::
  "socket_addr \<Rightarrow> u8 \<Rightarrow> string \<Rightarrow> io_answer \<Rightarrow> udp_socket \<Rightarrow> (client_error + unit) \<times> udp_socket" where
  "set_socket_traffic_class remote traffic_class operation answer s =
     (case answer of
        None \<Rightarrow> (Ok (), s\<lparr>so_traffic_class := traffic_class\<rparr>)
      | Some e \<Rightarrow> (Err (SocketOption operation remote e), s))"

definition apply_traffic_class_to_socket ::
  "socket_addr \<Rightarrow> u8 \<Rightarrow> io_answer \<Rightarrow> udp_socket \<Rightarrow> (client_error + unit) \<times> udp_socket" where
  "apply_traffic_class_to_socket remote traffic_class =
     set_socket_traffic_class remote traffic_class ''set negotiated DSCP''"

definition clear_dscp_on_socket ::
  "socket_addr \<Rightarrow> io_answer \<Rightarrow> udp_socket \<Rightarrow> (client_error + unit) \<times> udp_socket" where
  "clear_dscp_on_socket remote = set_socket_traffic_class remote 0 ''clear DSCP before close''"

text \<open>\<open>UdpSocket::set_read_timeout\<close> rejects a zero duration (\<open>EINVAL\<close>).\<close>

definition set_read_timeout :: "duration option \<Rightarrow> io_answer \<Rightarrow> udp_socket \<Rightarrow> (io_error + unit) \<times> udp_socket" where
  "set_read_timeout timeout answer s =
     (if timeout = Some 0 then (Err 22, s)
      else case answer of None \<Rightarrow> (Ok (), s\<lparr>so_read_timeout := timeout\<rparr>) | Some e \<Rightarrow> (Err e, s))"

definition socket_send :: "bytes \<Rightarrow> io_error + nat \<Rightarrow> udp_socket \<Rightarrow> (io_error + nat) \<times> udp_socket" where
  "socket_send packet answer s =
     (case answer of Inl e \<Rightarrow> (Err e, s) | Inr n \<Rightarrow> (Ok n, s\<lparr>so_sent := so_sent s @ [packet]\<rparr>))"

section \<open>Client state\<close>

record client =
  cl_runtime :: session_machine
  cl_socket :: udp_socket
  cl_remote :: socket_addr
  cl_recv_buffer_len :: nat
  cl_recv_timeout :: "duration option"
  cl_applied_traffic_class :: "u8 option"
  cl_tx_timestamping_enabled :: bool

definition client_connect ::
  "(client_error + socket_addr) \<Rightarrow> (client_error + udp_socket) \<Rightarrow> client_config \<Rightarrow> client_error + client" where
  "client_connect resolved socket config =
     bindr (validate_open_policy (cc_open config)) (\<lambda>_.
     bindr resolved (\<lambda>remote.
     bindr (machine_new config remote) (\<lambda>runtime.
     bindr socket (\<lambda>s.
     bindr (recv_buffer_size False None) (\<lambda>len.
       Ok \<lparr>cl_runtime = runtime, cl_socket = s, cl_remote = remote, cl_recv_buffer_len = len,
           cl_recv_timeout = None, cl_applied_traffic_class = None, cl_tx_timestamping_enabled = False\<rparr>)))))"

definition set_recv_timeout :: "duration option \<Rightarrow> io_answer \<Rightarrow> client \<Rightarrow> (client_error + unit) \<times> client" where
  "set_recv_timeout timeout answer c =
     (case set_read_timeout timeout answer (cl_socket c) of
        (Inl e, s) \<Rightarrow> (Err (Socket e), c\<lparr>cl_socket := s\<rparr>)
      | (Inr _, s) \<Rightarrow> (Ok (), c\<lparr>cl_socket := s, cl_recv_timeout := timeout\<rparr>))"

definition validate_datagram_length :: "nat \<Rightarrow> nat \<Rightarrow> client_error + unit" where
  "validate_datagram_length expected actual =
     (if actual = expected then Ok () else Err (DatagramLengthMismatch expected actual))"

text \<open>What a drain of the error queue reports: transmit timestamps, then success or an error.\<close>

type_synonym tx_drain = "(u32 \<times> system_time) list \<times> io_answer"

definition record_all :: "(u32 \<times> system_time) list \<Rightarrow> session_machine \<Rightarrow> session_machine" where
  "record_all stamps m = fold (\<lambda>(id, timestamp). record_kernel_tx_timestamp id timestamp) stamps m"

definition client_drain_tx_timestamps :: "tx_drain \<Rightarrow> client \<Rightarrow> (client_error + unit) \<times> client" where
  "client_drain_tx_timestamps drain c =
     (if \<not> cl_tx_timestamping_enabled c then (Ok (), c)
      else (case snd drain of None \<Rightarrow> Ok () | Some e \<Rightarrow> Err (Socket e),
            c\<lparr>cl_runtime := record_all (fst drain) (cl_runtime c)\<rparr>))"

definition restore_dscp_best_effort :: "socket_addr \<Rightarrow> u8 option \<Rightarrow> io_answer \<Rightarrow> udp_socket \<Rightarrow> udp_socket" where
  "restore_dscp_best_effort remote previous answer s =
     (case previous of
        Some traffic_class \<Rightarrow> snd (apply_traffic_class_to_socket remote traffic_class answer s)
      | None \<Rightarrow> snd (clear_dscp_on_socket remote answer s))"

definition send_cleanup_close_best_effort :: "bytes option \<Rightarrow> io_error + nat \<Rightarrow> udp_socket \<Rightarrow> udp_socket" where
  "send_cleanup_close_best_effort packet answer s =
     (case packet of None \<Rightarrow> s | Some p \<Rightarrow> snd (socket_send p answer s))"

section \<open>Sending\<close>

record send_receipt =
  sr_seq :: u32
  sr_remote :: socket_addr
  sr_sent_at :: client_timestamp
  sr_bytes :: nat
  sr_send_call :: duration

datatype send_probe_error = NotCommitted client_error | AfterCommit send_receipt client_error

definition event_of_receipt :: "send_receipt \<Rightarrow> client_event" where
  "event_of_receipt r =
     EchoSent (sr_seq r) (sr_remote r) None (sr_sent_at r) (sr_bytes r) (sr_send_call r) None"

record send_io =
  si_reserve_ok :: bool
  si_anchor :: client_timestamp
  si_start :: instant
  si_send :: "io_error + nat"
  si_finished :: instant
  si_sent_at :: client_timestamp
  si_drain :: tx_drain

definition saturating_duration_since :: "instant \<Rightarrow> instant \<Rightarrow> duration" where
  "saturating_duration_since later earlier =
     (case checked_duration_since later earlier of None \<Rightarrow> 0 | Some d \<Rightarrow> d)"

definition client_send_probe ::
  "mac_fun \<Rightarrow> send_io \<Rightarrow> client \<Rightarrow> (client \<times> (send_probe_error + send_receipt)) option" where
  "client_send_probe mac io c =
     (case prepare_probe mac (cl_runtime c) of Inl e \<Rightarrow> Some (c, Err (NotCommitted e)) | Inr prepared \<Rightarrow>
     (case preflight_probe_commit (si_reserve_ok io) prepared (cl_runtime c) of
        Inl e \<Rightarrow> Some (c, Err (NotCommitted e)) | Inr preflight \<Rightarrow>
     (case finalize_probe_commit preflight (si_anchor io) (cl_runtime c) of
        Inl e \<Rightarrow> Some (c, Err (NotCommitted e)) | Inr commit \<Rightarrow>
     (case socket_send (pp_bytes prepared) (si_send io) (cl_socket c) of
        (Inl e, s) \<Rightarrow>
          Some (c\<lparr>cl_socket := s, cl_runtime := invalidate_kernel_tx_correlation (cl_runtime c)\<rparr>,
            Err (NotCommitted (Socket e)))
      | (Inr n, s) \<Rightarrow>
          map_option (\<lambda>(m, sent).
            let receipt = \<lparr>sr_seq = psent_seq sent, sr_remote = cl_remote c, sr_sent_at = psent_at sent,
                  sr_bytes = psent_bytes sent,
                  sr_send_call = saturating_duration_since (si_finished io) (si_start io)\<rparr>;
                c' = c\<lparr>cl_socket := s, cl_runtime := m\<rparr>
            in case validate_datagram_length (length (pp_bytes prepared)) n of
                 Inl e \<Rightarrow> (c', Err (AfterCommit receipt e))
               | Inr _ \<Rightarrow>
                   (case client_drain_tx_timestamps (si_drain io) c' of
                      (Inl e, c'') \<Rightarrow> (c'', Err (AfterCommit receipt e))
                    | (Inr _, c'') \<Rightarrow> (c'', Ok receipt)))
            (commit_probe_sent commit (si_sent_at io) n (cl_runtime c))))))"

section \<open>Closing\<close>

record close_io =
  ci_reserve_ok :: bool
  ci_clear :: io_answer
  ci_send :: "io_error + nat"
  ci_restore :: io_answer
  ci_sent_at :: client_timestamp

definition client_close :: "close_io \<Rightarrow> client \<Rightarrow> client \<times> (client_error + client_event list)" where
  "client_close io c =
     (case prepare_close (cl_runtime c) of
        Inl e \<Rightarrow> (c, Err e)
      | Inr (packet, commit) \<Rightarrow>
          if \<not> ci_reserve_ok io then (c, Err (AllocationFailed ''close event result''))
          else
            (case clear_dscp_on_socket (cl_remote c) (ci_clear io) (cl_socket c) of
               (Inl e, s) \<Rightarrow> (c\<lparr>cl_socket := s\<rparr>, Err e)
             | (Inr _, s) \<Rightarrow>
                 (case socket_send packet (ci_send io) s of
                    (Inl e, s') \<Rightarrow>
                      (c\<lparr>cl_socket := restore_dscp_best_effort (cl_remote c) (cl_applied_traffic_class c)
                                       (ci_restore io) s'\<rparr>,
                       Err (Socket e))
                  | (Inr n, s') \<Rightarrow>
                      let (m, event) = commit_local_close commit (ci_sent_at io) (cl_runtime c);
                          c' = c\<lparr>cl_socket := s', cl_runtime := m, cl_applied_traffic_class := None\<rparr>
                      in (case validate_datagram_length (length packet) n of
                            Inl e \<Rightarrow> (c', Err e) | Inr _ \<Rightarrow> (c', Ok [event])))))"

section \<open>Receiving\<close>

datatype recv_result = RecvDatagram bytes client_timestamp receive_meta | RecvError io_error

record recv_step =
  rv_result :: recv_result
  rv_now :: instant
  rv_set_timeout :: io_answer

text \<open>The retry loop of one logical receive, up to the point where it breaks.\<close>

fun recv_loop ::
  "instant option \<Rightarrow> recv_step list \<Rightarrow> bool \<Rightarrow> udp_socket \<Rightarrow>
     ((client_error + (bytes \<times> client_timestamp \<times> receive_meta) option) \<times> bool \<times> udp_socket) poll" where
  "recv_loop deadline [] narrowed s = Pending"
| "recv_loop deadline (step # script) narrowed s =
     (case rv_result step of
        RecvDatagram payload at meta \<Rightarrow> Ready (Ok (Some (payload, at, meta)), narrowed, s)
      | RecvError e \<Rightarrow>
          if is_would_block e \<or> is_timed_out e then Ready (Ok None, narrowed, s)
          else if is_interrupted e then
            (case deadline of
               None \<Rightarrow> recv_loop deadline script narrowed s
             | Some d \<Rightarrow>
                 (case checked_duration_since d (rv_now step) of
                    None \<Rightarrow> Ready (Ok None, narrowed, s)
                  | Some remaining \<Rightarrow>
                      if remaining = 0 then Ready (Ok None, narrowed, s)
                      else
                        (case set_read_timeout (Some remaining) (rv_set_timeout step) s of
                           (Inl e', s') \<Rightarrow> Ready (Err (Socket e'), narrowed, s')
                         | (Inr _, s') \<Rightarrow> recv_loop deadline script True s')))
          else Ready (Err (Socket e), narrowed, s))"

record recv_io =
  ri_start :: instant
  ri_script :: "recv_step list"
  ri_restore :: io_answer
  ri_drain :: tx_drain
  ri_clear :: io_answer

definition recv_datagram_retrying_interrupted ::
  "recv_io \<Rightarrow> client \<Rightarrow>
     (client \<times> (client_error + (bytes \<times> client_timestamp \<times> receive_meta) option)) poll" where
  "recv_datagram_retrying_interrupted io c =
     (case (case cl_recv_timeout c of
              None \<Rightarrow> Ok None
            | Some timeout \<Rightarrow>
                bindr (ok_or DurationOverflow (instant_checked_add (ri_start io) timeout)) (\<lambda>d. Ok (Some d))) of
        Inl e \<Rightarrow> Ready (c, Err e)
      | Inr deadline \<Rightarrow>
          (case recv_loop deadline (ri_script io) False (cl_socket c) of
             Pending \<Rightarrow> Pending
           | Ready (result, narrowed, s) \<Rightarrow>
               if narrowed then
                 (case set_read_timeout (cl_recv_timeout c) (ri_restore io) s of
                    (Inl e, s') \<Rightarrow> Ready (c\<lparr>cl_socket := s'\<rparr>, Err (Socket e))
                  | (Inr _, s') \<Rightarrow> Ready (c\<lparr>cl_socket := s'\<rparr>, result))
               else Ready (c\<lparr>cl_socket := s\<rparr>, result)))"

definition recv_once_inner ::
  "mac_fun \<Rightarrow> recv_io \<Rightarrow> client \<Rightarrow> (client \<times> (client_error + client_event list)) poll option" where
  "recv_once_inner mac io c =
     (case recv_datagram_retrying_interrupted io c of
        Pending \<Rightarrow> Some Pending
      | Ready (c1, Inl e) \<Rightarrow> Some (Ready (c1, Err e))
      | Ready (c1, Inr None) \<Rightarrow> Some (Ready (c1, Ok []))
      | Ready (c1, Inr (Some (payload, at, meta))) \<Rightarrow>
          (case client_drain_tx_timestamps (ri_drain io) c1 of
             (Inl e, c2) \<Rightarrow> Some (Ready (c2, Err e))
           | (Inr _, c2) \<Rightarrow>
               map_option (\<lambda>(m, result).
                 let c3 = c2\<lparr>cl_runtime := m\<rparr>
                 in case result of
                      Inl e \<Rightarrow> Ready (c3, Err e)
                    | Inr events \<Rightarrow>
                        if is_peer_closed m then
                          (case clear_dscp_on_socket (cl_remote c3) (ri_clear io) (cl_socket c3) of
                             (Inl _, s) \<Rightarrow> Ready (c3\<lparr>cl_socket := s\<rparr>, Ok events)
                           | (Inr _, s) \<Rightarrow>
                               Ready (c3\<lparr>cl_socket := s, cl_applied_traffic_class := None\<rparr>, Ok events))
                        else Ready (c3, Ok events))
                 (process_received_echo_packet mac (take (cl_recv_buffer_len c2) payload) at meta (cl_runtime c2))))"

text \<open>\<open>recv_once\<close> and \<open>recv_available\<close>: the state check, the configured timeout, then one receive or
  a bounded number of them.\<close>

definition recv_prologue :: "io_answer \<Rightarrow> client \<Rightarrow> client \<times> (client_error + unit)" where
  "recv_prologue answer c =
     (case ensure_open (cl_runtime c) of
        Inl e \<Rightarrow> (c, Err e)
      | Inr _ \<Rightarrow>
          (case set_read_timeout (cl_recv_timeout c) answer (cl_socket c) of
             (Inl e, s) \<Rightarrow> (c\<lparr>cl_socket := s\<rparr>, Err (Socket e))
           | (Inr _, s) \<Rightarrow> (c\<lparr>cl_socket := s\<rparr>, Ok ())))"

definition recv_once ::
  "mac_fun \<Rightarrow> io_answer \<Rightarrow> recv_io \<Rightarrow> client \<Rightarrow> (client \<times> (client_error + client_event list)) poll option" where
  "recv_once mac answer io c =
     (case recv_prologue answer c of
        (c1, Inl e) \<Rightarrow> Some (Ready (c1, Err e))
      | (c1, Inr _) \<Rightarrow> recv_once_inner mac io c1)"

fun recv_available_loop ::
  "mac_fun \<Rightarrow> nat \<Rightarrow> (nat \<Rightarrow> recv_io) \<Rightarrow> client_event list \<Rightarrow> client \<Rightarrow>
     (client \<times> (client_error + client_event list)) poll option" where
  "recv_available_loop mac 0 io events c = Some (Ready (c, Ok events))"
| "recv_available_loop mac (Suc budget) io events c =
     (case recv_once_inner mac (io budget) c of
        None \<Rightarrow> None
      | Some Pending \<Rightarrow> Some Pending
      | Some (Ready (c1, Inl e)) \<Rightarrow> Some (Ready (c1, Err e))
      | Some (Ready (c1, Inr new)) \<Rightarrow>
          if new = [] then Some (Ready (c1, Ok events))
          else if is_peer_closed (cl_runtime c1) then Some (Ready (c1, Ok (events @ new)))
          else recv_available_loop mac budget io (events @ new) c1)"

definition recv_available ::
  "mac_fun \<Rightarrow> io_answer \<Rightarrow> nat \<Rightarrow> (nat \<Rightarrow> recv_io) \<Rightarrow> client \<Rightarrow>
     (client \<times> (client_error + client_event list)) poll option" where
  "recv_available mac answer max_packets io c =
     (case recv_prologue answer c of
        (c1, Inl e) \<Rightarrow> Some (Ready (c1, Err e))
      | (c1, Inr _) \<Rightarrow> recv_available_loop mac max_packets io [] c1)"

definition client_poll_timeouts_at ::
  "tx_drain \<Rightarrow> instant \<Rightarrow> client \<Rightarrow> (client \<times> (client_error + client_event list)) option" where
  "client_poll_timeouts_at drain now c =
     (case client_drain_tx_timestamps drain c of
        (Inl e, c1) \<Rightarrow> Some (c1, Err e)
      | (Inr _, c1) \<Rightarrow>
          map_option (\<lambda>(m, result). (c1\<lparr>cl_runtime := m\<rparr>, result)) (poll_timeouts_at now (cl_runtime c1)))"

section \<open>Opening\<close>

record accept_io =
  ao_reserve_ok :: bool
  ao_apply :: io_answer
  ao_set_timeout :: io_answer
  ao_restore :: io_answer
  ao_cleanup :: "io_error + nat"
  ao_tx_enabled :: bool

record prepared_client_open =
  co_machine :: prepared_open_acceptance
  co_recv_buffer_len :: "nat option"
  co_negotiated_traffic_class :: "u8 option"
  co_previous_traffic_class :: "u8 option"
  co_post_open_recv_timeout :: "duration option"

definition prepare_client_open ::
  "prepared_open_acceptance \<Rightarrow> client \<Rightarrow> client_error + prepared_client_open" where
  "prepare_client_open machine c =
     (case normal_negotiated machine of
        None \<Rightarrow> Ok \<lparr>co_machine = machine, co_recv_buffer_len = None, co_negotiated_traffic_class = None,
                    co_previous_traffic_class = cl_applied_traffic_class c,
                    co_post_open_recv_timeout = cl_recv_timeout c\<rparr>
      | Some negotiated \<Rightarrow>
          bindr (recv_buffer_size (has_hmac (cl_runtime c)) (Some negotiated)) (\<lambda>len.
            Ok \<lparr>co_machine = machine, co_recv_buffer_len = Some len,
                co_negotiated_traffic_class = Some (push_bit 2 (ap_dscp (ng_accepted negotiated))),
                co_previous_traffic_class = cl_applied_traffic_class c,
                co_post_open_recv_timeout = cl_recv_timeout c\<rparr>))"

definition apply_prepared_open ::
  "accept_io \<Rightarrow> prepared_client_open \<Rightarrow> client \<Rightarrow> client \<times> (client_error + open_outcome)" where
  "apply_prepared_open io prepared c =
     (let machine = co_machine prepared;
          cleanup = send_cleanup_close_best_effort (cleanup_close_packet machine) (ao_cleanup io);
          restore = restore_dscp_best_effort (cl_remote c) (co_previous_traffic_class prepared) (ao_restore io);
          previous_len = cl_recv_buffer_len c
      in case (co_recv_buffer_len prepared, co_negotiated_traffic_class prepared) of
           (Some len, Some traffic_class) \<Rightarrow>
             if \<not> ao_reserve_ok io then
               (c\<lparr>cl_socket := cleanup (cl_socket c)\<rparr>, Err (AllocationFailed ''negotiated receive buffer''))
             else
               (case apply_traffic_class_to_socket (cl_remote c) traffic_class (ao_apply io) (cl_socket c) of
                  (Inl primary, s) \<Rightarrow>
                    (c\<lparr>cl_recv_buffer_len := min len previous_len, cl_socket := cleanup (restore s)\<rparr>, Err primary)
                | (Inr _, s) \<Rightarrow>
                    (case set_read_timeout (co_post_open_recv_timeout prepared) (ao_set_timeout io) s of
                       (Inl source, s') \<Rightarrow>
                         (c\<lparr>cl_recv_buffer_len := min len previous_len, cl_socket := cleanup (restore s')\<rparr>,
                          Err (ReadTimeoutRestore source))
                     | (Inr _, s') \<Rightarrow>
                         let (m, result) = commit_open machine (cl_runtime c)
                         in (c\<lparr>cl_recv_buffer_len := len, cl_socket := s', cl_runtime := m,
                               cl_applied_traffic_class := Some traffic_class,
                               cl_tx_timestamping_enabled := ao_tx_enabled io\<rparr>, Ok result)))
         | _ \<Rightarrow>
             (case set_read_timeout (co_post_open_recv_timeout prepared) (ao_set_timeout io) (cl_socket c) of
                (Inl source, s) \<Rightarrow> (c\<lparr>cl_socket := s\<rparr>, Err (ReadTimeoutRestore source))
              | (Inr _, s) \<Rightarrow>
                  let (m, result) = commit_open machine (cl_runtime c)
                  in (c\<lparr>cl_socket := s, cl_runtime := m, cl_applied_traffic_class := None,
                        cl_tx_timestamping_enabled := ao_tx_enabled io\<rparr>, Ok result)))"

text \<open>A trusted reply: acceptance by the machine, preparation by the adapter, commit.\<close>

definition accept_reply ::
  "mac_fun \<Rightarrow> accept_io \<Rightarrow> open_reply \<Rightarrow> client_timestamp \<Rightarrow> client \<Rightarrow>
     (client \<times> (client_error + open_outcome)) option" where
  "accept_reply mac io reply at c =
     map_option (\<lambda>accepted.
       case accepted of
         Inl failure \<Rightarrow>
           (c\<lparr>cl_socket := send_cleanup_close_best_effort (of_cleanup_close failure) (ao_cleanup io) (cl_socket c)\<rparr>,
            Err (of_primary failure))
       | Inr machine \<Rightarrow>
           (case prepare_client_open machine c of
              Inl primary \<Rightarrow>
                (c\<lparr>cl_socket := send_cleanup_close_best_effort (cleanup_close_packet machine) (ao_cleanup io)
                                  (cl_socket c)\<rparr>,
                 Err primary)
            | Inr prepared \<Rightarrow> apply_prepared_open io prepared c))
       (prepare_open_acceptance mac reply at (cl_runtime c))"

record open_step =
  os_now :: instant
  os_set_timeout :: io_answer
  os_result :: recv_result
  os_after :: instant

record attempt_io =
  at_start :: instant
  at_set_timeout :: io_answer
  at_send :: "io_error + nat"
  at_script :: "open_step list"

text \<open>The receive loop of one attempt: \<open>None\<close> for a \<open>break\<close> to the next attempt, \<open>Some\<close> for a
  \<open>return\<close>.\<close>

fun open_loop ::
  "mac_fun \<Rightarrow> accept_io \<Rightarrow> instant \<Rightarrow> open_step list \<Rightarrow> client \<Rightarrow>
     (client \<times> (client_error + open_outcome) option) poll option" where
  "open_loop mac aio deadline [] c = Some Pending"
| "open_loop mac aio deadline (step # script) c =
     (case checked_duration_since deadline (os_now step) of
        None \<Rightarrow> Some (Ready (c, None))
      | Some remaining \<Rightarrow>
          if remaining = 0 then Some (Ready (c, None))
          else
            (case set_read_timeout (Some remaining) (os_set_timeout step) (cl_socket c) of
               (Inl e, s) \<Rightarrow> Some (Ready (c\<lparr>cl_socket := s\<rparr>, Some (Err (Socket e))))
             | (Inr _, s) \<Rightarrow>
                 let c1 = c\<lparr>cl_socket := s\<rparr>
                 in case os_result step of
                      RecvError e \<Rightarrow>
                        if is_would_block e \<or> is_timed_out e \<or> is_interrupted e then
                          (if deadline \<le> os_after step then Some (Ready (c1, None))
                           else open_loop mac aio deadline script c1)
                        else Some (Ready (c1, Some (Err (Socket e))))
                    | RecvDatagram payload at meta \<Rightarrow>
                        if deadline < ct_mono at then Some (Ready (c1, None))
                        else
                          (case inspect_open_datagram mac (take MAX_OPEN_PACKET_SIZE payload) (cl_runtime c1) of
                             Inl e \<Rightarrow> Some (Ready (c1, Some (Err e)))
                           | Inr OpenIgnore \<Rightarrow> open_loop mac aio deadline script c1
                           | Inr (OpenTrusted reply) \<Rightarrow>
                               map_option (\<lambda>(c2, r). Ready (c2, Some r)) (accept_reply mac aio reply at c1))))"

fun open_attempts ::
  "mac_fun \<Rightarrow> accept_io \<Rightarrow> bytes \<Rightarrow> duration list \<Rightarrow> attempt_io list \<Rightarrow> client \<Rightarrow>
     (client \<times> (client_error + open_outcome)) poll option" where
  "open_attempts mac aio request [] ios c = Some (Ready (c, Err OpenTimeout))"
| "open_attempts mac aio request (timeout # timeouts) [] c = Some Pending"
| "open_attempts mac aio request (timeout # timeouts) (io # ios) c =
     (case instant_checked_add (at_start io) timeout of
        None \<Rightarrow> Some (Ready (c, Err DurationOverflow))
      | Some deadline \<Rightarrow>
          (case set_read_timeout (Some timeout) (at_set_timeout io) (cl_socket c) of
             (Inl e, s) \<Rightarrow> Some (Ready (c\<lparr>cl_socket := s\<rparr>, Err (Socket e)))
           | (Inr _, s) \<Rightarrow>
               (case socket_send request (at_send io) s of
                  (Inl e, s') \<Rightarrow> Some (Ready (c\<lparr>cl_socket := s'\<rparr>, Err (Socket e)))
                | (Inr _, s') \<Rightarrow>
                    (case open_loop mac aio deadline (at_script io) (c\<lparr>cl_socket := s'\<rparr>) of
                       None \<Rightarrow> None
                     | Some Pending \<Rightarrow> Some Pending
                     | Some (Ready (c1, Some r)) \<Rightarrow> Some (Ready (c1, r))
                     | Some (Ready (c1, None)) \<Rightarrow> open_attempts mac aio request timeouts ios c1))))"

definition open_transaction ::
  "mac_fun \<Rightarrow> accept_io \<Rightarrow> attempt_io list \<Rightarrow> client \<Rightarrow> (client \<times> (client_error + open_outcome)) poll option" where
  "open_transaction mac aio ios c =
     (case prepare_open_request mac (cl_runtime c) of
        Inl e \<Rightarrow> Some (Ready (c, Err e))
      | Inr request \<Rightarrow> open_attempts mac aio request (op_timeouts (cc_open (sm_config (cl_runtime c)))) ios c)"

definition client_open ::
  "mac_fun \<Rightarrow> accept_io \<Rightarrow> attempt_io list \<Rightarrow> io_answer \<Rightarrow> client \<Rightarrow>
     (client \<times> (client_error + open_outcome)) poll option" where
  "client_open mac aio ios restore c =
     map_option (\<lambda>p. case p of
         Pending \<Rightarrow> Pending
       | Ready (c1, Inl e) \<Rightarrow>
           Ready (c1\<lparr>cl_socket := snd (set_read_timeout (cl_recv_timeout c1) restore (cl_socket c1))\<rparr>, Err e)
       | Ready (c1, Inr r) \<Rightarrow> Ready (c1, Ok r))
       (open_transaction mac aio ios c)"

end
