(* ===== verification/Client_Runs.thy ===== *)
theory Client_Runs
  imports Client_Adapter "HOL-Library.Sublist"
begin

text \<open>
  Runs of the blocking client: every interleaving of its calls, whatever the operating system
  answers. Each run is a run of the session machine, so the machine's theorems hold of the client;
  the events the calls deliver are events of that run in their order; and the send, close and open
  transactions commit the machine exactly when the socket accepted their datagram.
\<close>

section \<open>Runs\<close>

fun delivered :: "client_error + client_event list \<Rightarrow> client_event list" where
  "delivered (Inl _) = []"
| "delivered (Inr events) = events"

text \<open>The receipt of a send that the socket accepted, whether or not a later step failed.\<close>

fun receipt_of :: "send_probe_error + send_receipt \<Rightarrow> send_receipt option" where
  "receipt_of (Inl (NotCommitted _)) = None"
| "receipt_of (Inl (AfterCommit receipt _)) = Some receipt"
| "receipt_of (Inr receipt) = Some receipt"

definition sent_event :: "send_probe_error + send_receipt \<Rightarrow> client_event list" where
  "sent_event r = (case receipt_of r of None \<Rightarrow> [] | Some receipt \<Rightarrow> [event_of_receipt receipt])"

text \<open>A run with its event stream: what the calls returned, and an \<open>EchoSent\<close> for every receipt.\<close>

inductive client_run :: "mac_fun \<Rightarrow> client_config \<Rightarrow> client \<Rightarrow> instant \<Rightarrow> client_event list \<Rightarrow> bool"
  for mac config where
  cr_connect: "client_connect resolved socket config = Ok c \<Longrightarrow> client_run mac config c t []"
| cr_timeout: "client_run mac config c t out \<Longrightarrow> set_recv_timeout timeout answer c = (r, c') \<Longrightarrow>
    client_run mac config c' t out"
| cr_open: "client_run mac config c t out \<Longrightarrow> client_open mac aio ios restore c = Some (Ready (c', result)) \<Longrightarrow>
    client_run mac config c' t out"
| cr_send: "client_run mac config c t out \<Longrightarrow> t \<le> ct_mono (si_anchor io) \<Longrightarrow>
    client_send_probe mac io c = Some (c', sent) \<Longrightarrow>
    client_run mac config c' (ct_mono (si_anchor io)) (out @ sent_event sent)"
| cr_recv: "client_run mac config c t out \<Longrightarrow> recv_once mac answer rio c = Some (Ready (c', r)) \<Longrightarrow>
    client_run mac config c' t (out @ delivered r)"
| cr_recv_available: "client_run mac config c t out \<Longrightarrow>
    recv_available mac answer max_packets ios c = Some (Ready (c', r)) \<Longrightarrow>
    client_run mac config c' t (out @ delivered r)"
| cr_poll: "client_run mac config c t out \<Longrightarrow> client_poll_timeouts_at drain now c = Some (c', r) \<Longrightarrow>
    client_run mac config c' t (out @ delivered r)"
| cr_close: "client_run mac config c t out \<Longrightarrow> client_close cio c = (c', r) \<Longrightarrow>
    client_run mac config c' t (out @ delivered r)"

text \<open>The simulation: the machine inside the client is a state of a machine run whose events
  include the delivered ones.\<close>

definition simulated :: "mac_fun \<Rightarrow> client_config \<Rightarrow> client \<Rightarrow> instant \<Rightarrow> client_event list \<Rightarrow> bool" where
  "simulated mac config c t out \<longleftrightarrow>
     (\<exists>log t0. t0 \<le> t \<and> machine_run mac config (cl_remote c) (cl_runtime c) t0 log \<and> subseq out log)"

lemma simulatedI:
  "machine_run mac config (cl_remote c) (cl_runtime c) t0 log \<Longrightarrow> t0 \<le> t \<Longrightarrow> subseq out log \<Longrightarrow> simulated mac config c t out"
  unfolding simulated_def by blast

lemma simulated_cong:
  "cl_remote c' = cl_remote c \<Longrightarrow> cl_runtime c' = cl_runtime c \<Longrightarrow> simulated mac config c' t out = simulated mac config c t out"
  by (simp add: simulated_def)

lemma run_record_all:
  "machine_run mac config remote m t log \<Longrightarrow> machine_run mac config remote (record_all stamps m) t log"
  unfolding record_all_def
  by (induction stamps arbitrary: m) (auto intro: run_tx split: prod.split)

lemma simulated_drain:
  "simulated mac config c t out \<Longrightarrow> client_drain_tx_timestamps drain c = (r, c') \<Longrightarrow>
     simulated mac config c' t out \<and> cl_remote c' = cl_remote c"
  by (auto simp: client_drain_tx_timestamps_def simulated_def split: if_splits) (blast intro: run_record_all)

lemma simulated_receive:
  assumes "simulated mac config c t out"
    and "process_received_echo_packet mac packet at meta (cl_runtime c) = Some (m, r)"
  shows "simulated mac config (c\<lparr>cl_runtime := m\<rparr>) t (out @ delivered r)"
proof -
  obtain log t0 where run: "machine_run mac config (cl_remote c) (cl_runtime c) t0 log" and t0: "t0 \<le> t" "subseq out log"
    using assms(1) by (auto simp: simulated_def)
  show ?thesis
  proof (cases r)
    case (Inl e)
    then have "m = cl_runtime c"
      using receive_inv [OF machine_run_inv [OF run], of packet at meta] assms(2) by simp
    with assms(1) Inl show ?thesis by simp
  next
    case (Inr events)
    with assms(2) run have "machine_run mac config (cl_remote c) m t0 (log @ events)"
      by (auto intro: run_receive)
    with t0 Inr show ?thesis by (auto intro!: simulatedI list_emb_append_mono)
  qed
qed

lemma simulated_poll:
  assumes "simulated mac config c t out" and "poll_timeouts_at now (cl_runtime c) = Some (m, r)"
  shows "simulated mac config (c\<lparr>cl_runtime := m\<rparr>) t (out @ delivered r)"
proof -
  obtain log t0 where run: "machine_run mac config (cl_remote c) (cl_runtime c) t0 log" and t0: "t0 \<le> t" "subseq out log"
    using assms(1) by (auto simp: simulated_def)
  obtain b where b: "poll_timeouts_bounded_at now usize_max (cl_runtime c) = Some (m, b)"
      "r = bindr b (\<lambda>batch. Ok (tb_events batch))"
    using assms(2) by (auto simp: poll_timeouts_at_def)
  show ?thesis
  proof (cases b)
    case (Inl e)
    then have "m = cl_runtime c" using poll_inv [OF machine_run_inv [OF run], of now usize_max] b(1) by simp
    with assms(1) Inl b(2) show ?thesis by simp
  next
    case (Inr batch)
    with b(1) run have "machine_run mac config (cl_remote c) m t0 (log @ tb_events batch)" by (auto intro: run_poll)
    with t0 Inr b(2) show ?thesis by (auto intro!: simulatedI list_emb_append_mono)
  qed
qed

lemma recv_datagram_keeps:
  "recv_datagram_retrying_interrupted io c = Ready (c', r) \<Longrightarrow> \<exists>s. c' = c\<lparr>cl_socket := s\<rparr>"
  by (cases c) (auto simp: recv_datagram_retrying_interrupted_def split: sum.splits poll.splits if_splits prod.splits)

lemma simulated_recv_inner:
  assumes "simulated mac config c t out" and "recv_once_inner mac io c = Some (Ready (c', r))"
  shows "simulated mac config c' t (out @ delivered r)"
proof -
  obtain c1 d where d: "recv_datagram_retrying_interrupted io c = Ready (c1, d)"
    using assms(2) by (cases "recv_datagram_retrying_interrupted io c") (auto simp: recv_once_inner_def)
  then obtain s where "c1 = c\<lparr>cl_socket := s\<rparr>" using recv_datagram_keeps by blast
  then have sim: "simulated mac config c1 t out" using assms(1) simulated_cong [of c1 c] by simp
  consider (fail) e where "d = Inl e" | (idle) "d = Inr None" | (got) packet at meta where "d = Inr (Some (packet, at, meta))"
    by (cases d) (auto, metis option.exhaust prod_cases3)
  then show ?thesis
  proof cases
    case got
    obtain c2 r2 where c2: "client_drain_tx_timestamps (ri_drain io) c1 = (r2, c2)" by fastforce
    note sim2 = simulated_drain [OF sim c2]
    show ?thesis
    proof (cases r2)
      case (Inl e)
      with assms(2) d got c2 sim2 show ?thesis by (auto simp: recv_once_inner_def)
    next
      case (Inr u)
      with assms(2) d got c2 obtain m q
        where m: "process_received_echo_packet mac (take (cl_recv_buffer_len c2) packet) at meta (cl_runtime c2) = Some (m, q)"
        by (auto simp: recv_once_inner_def)
      have same: "cl_remote c' = cl_remote (c2\<lparr>cl_runtime := m\<rparr>) \<and> cl_runtime c' = cl_runtime (c2\<lparr>cl_runtime := m\<rparr>) \<and> r = q"
        using assms(2) d got c2 Inr m
        by (auto simp: recv_once_inner_def Let_def split: sum.splits if_splits prod.splits)
      with simulated_receive [OF conjunct1 [OF sim2] m] simulated_cong [of c' "c2\<lparr>cl_runtime := m\<rparr>"]
      show ?thesis by simp
    qed
  qed (use assms(2) d sim in \<open>auto simp: recv_once_inner_def\<close>)
qed

lemma simulated_prologue:
  "simulated mac config c t out \<Longrightarrow> recv_prologue answer c = (c', r) \<Longrightarrow> simulated mac config c' t out"
  by (erule subst [OF simulated_cong, rotated 2])
     (auto simp: recv_prologue_def split: sum.splits prod.splits)

lemma simulated_more:
  assumes "simulated mac config c t out" and "subseq out' out"
  shows "simulated mac config c t out'"
  using assms subseq_order.order_trans unfolding simulated_def by blast

lemma simulated_recv_available:
  assumes "simulated mac config c t (out @ events)" and "recv_available_loop mac n ios events c = Some (Ready (c', r))"
  shows "simulated mac config c' t (out @ delivered r)"
  using assms
proof (induction n arbitrary: events c)
  case (Suc n)
  obtain c1 r1 where inner: "recv_once_inner mac (ios n) c = Some (Ready (c1, r1))"
    using Suc.prems(2) by (auto split: option.splits poll.splits)
  note sim = simulated_recv_inner [OF Suc.prems(1) inner]
  show ?case
  proof (cases r1)
    case (Inl e)
    with sim have "simulated mac config c1 t out" by (auto intro: simulated_more simp: list_emb_prefix)
    with Suc.prems(2) inner Inl show ?thesis by auto
  next
    case (Inr new)
    with Suc.prems(2) inner sim Suc.IH [of c1 "events @ new"] show ?thesis
      by (auto split: if_splits)
  qed
qed auto

section \<open>The open transaction\<close>

text \<open>What an accepted reply leaves: the machine committed, the socket set up for the session.\<close>

definition opened_by :: "mac_fun \<Rightarrow> open_reply \<Rightarrow> client_timestamp \<Rightarrow> client \<Rightarrow> client \<Rightarrow> open_outcome \<Rightarrow> bool" where
  "opened_by mac reply at c c' outcome \<longleftrightarrow>
     (\<exists>p. prepare_open_acceptance mac reply at (cl_runtime c) = Some (Ok p) \<and>
        commit_open p (cl_runtime c) = (cl_runtime c', outcome) \<and>
        so_read_timeout (cl_socket c') = cl_recv_timeout c \<and>
        cl_applied_traffic_class c' =
          map_option (\<lambda>n. push_bit 2 (ap_dscp (ng_accepted n))) (normal_negotiated p) \<and>
        (case normal_negotiated p of
           None \<Rightarrow> so_traffic_class (cl_socket c') = so_traffic_class (cl_socket c)
         | Some n \<Rightarrow> so_traffic_class (cl_socket c') = push_bit 2 (ap_dscp (ng_accepted n)) \<and>
             recv_buffer_size (has_hmac (cl_runtime c)) (Some n) = Ok (cl_recv_buffer_len c')))"

text \<open>What a failed one leaves: the client as it was, but for its receive buffer and socket.\<close>

definition unopened :: "client \<Rightarrow> client \<Rightarrow> bool" where
  "unopened c c' \<longleftrightarrow> cl_runtime c' = cl_runtime c \<and> cl_applied_traffic_class c' = cl_applied_traffic_class c \<and>
     cl_tx_timestamping_enabled c' = cl_tx_timestamping_enabled c \<and> cl_recv_timeout c' = cl_recv_timeout c \<and>
     cl_remote c' = cl_remote c"

lemma unopened_refl [simp]: "unopened c (c\<lparr>cl_socket := s\<rparr>)" "unopened c c"
  by (simp_all add: unopened_def)

lemma unopened_trans: "unopened a b \<Longrightarrow> unopened b c \<Longrightarrow> unopened a c"
  by (simp add: unopened_def)

lemmas socket_defs =
  set_socket_traffic_class_def apply_traffic_class_to_socket_def clear_dscp_on_socket_def set_read_timeout_def
  socket_send_def restore_dscp_best_effort_def send_cleanup_close_best_effort_def

lemma set_read_timeout_keeps:
  "set_read_timeout d a s = (r, s') \<Longrightarrow> so_sent s' = so_sent s \<and> so_traffic_class s' = so_traffic_class s"
  by (auto simp: set_read_timeout_def split: if_splits option.splits)

lemma set_read_timeout_Ok: "set_read_timeout d a s = (Inr u, s') \<Longrightarrow> so_read_timeout s' = d"
  by (auto simp: set_read_timeout_def split: if_splits option.splits)

lemma restore_keeps [simp]:
  "so_sent (restore_dscp_best_effort remote previous a s) = so_sent s"
  by (auto simp: socket_defs split: option.splits)

lemma apply_keeps:
  "apply_traffic_class_to_socket remote tc a s = (r, s') \<Longrightarrow> so_sent s' = so_sent s \<and>
     (r = Inr () \<longrightarrow> so_traffic_class s' = tc)"
  by (auto simp: socket_defs split: option.splits)

lemma cleanup_sent:
  "\<exists>close. so_sent (send_cleanup_close_best_effort packet a s) = so_sent s @ close \<and> close \<in> {[]} \<union> (\<lambda>b. [b]) ` set_option packet"
  by (auto simp: socket_defs split: option.splits sum.splits)

lemma apply_prepared_open_spec:
  assumes "prepare_open_acceptance mac reply at (cl_runtime c) = Some (Ok p)"
    and "prepare_client_open p c = Ok prepared" and "apply_prepared_open io prepared c = (c', r)"
  shows "cl_remote c' = cl_remote c \<and> cl_recv_timeout c' = cl_recv_timeout c \<and>
     (case r of
        Inl e \<Rightarrow> unopened c c' \<and> (\<exists>close. so_sent (cl_socket c') = so_sent (cl_socket c) @ close \<and>
          close \<in> {[]} \<union> (\<lambda>b. [b]) ` set_option (cleanup_close_packet p))
      | Inr outcome \<Rightarrow> opened_by mac reply at c c' outcome \<and> so_sent (cl_socket c') = so_sent (cl_socket c))"
proof (cases "normal_negotiated p")
  case None
  then have prepared: "prepared = \<lparr>co_machine = p, co_recv_buffer_len = None, co_negotiated_traffic_class = None,
      co_previous_traffic_class = cl_applied_traffic_class c, co_post_open_recv_timeout = cl_recv_timeout c\<rparr>"
    using assms(2) by (simp add: prepare_client_open_def)
  obtain q s where s: "set_read_timeout (cl_recv_timeout c) (ao_set_timeout io) (cl_socket c) = (q, s)" by fastforce
  show ?thesis
    using assms(1,3) None set_read_timeout_keeps [OF s] set_read_timeout_Ok [of "cl_recv_timeout c" _ _ _ s] s
    by (cases q) (auto simp: prepared apply_prepared_open_def Let_def opened_by_def split: prod.splits)
next
  case (Some n)
  obtain len where len: "recv_buffer_size (has_hmac (cl_runtime c)) (Some n) = Ok len"
    and prepared: "prepared = \<lparr>co_machine = p, co_recv_buffer_len = Some len,
      co_negotiated_traffic_class = Some (push_bit 2 (ap_dscp (ng_accepted n))),
      co_previous_traffic_class = cl_applied_traffic_class c, co_post_open_recv_timeout = cl_recv_timeout c\<rparr>"
    using assms(2) Some by (auto simp: prepare_client_open_def result_simps)
  obtain q s where s: "apply_traffic_class_to_socket (cl_remote c) (push_bit 2 (ap_dscp (ng_accepted n)))
      (ao_apply io) (cl_socket c) = (q, s)" by fastforce
  obtain q' s' where s': "set_read_timeout (cl_recv_timeout c) (ao_set_timeout io) s = (q', s')" by fastforce
  have sent: "so_sent s = so_sent (cl_socket c)" "so_sent s' = so_sent (cl_socket c)"
    using apply_keeps [OF s] set_read_timeout_keeps [OF s'] by simp_all
  have clean: "\<exists>close. so_sent (send_cleanup_close_best_effort (cleanup_close_packet p) a b) = so_sent b @ close \<and>
      close \<in> {[]} \<union> (\<lambda>b. [b]) ` set_option (cleanup_close_packet p)" for a b
    by (rule cleanup_sent)
  show ?thesis
  proof (cases "ao_reserve_ok io")
    case False
    then show ?thesis
      using assms(3) clean [of "ao_cleanup io" "cl_socket c"]
      by (auto simp: prepared apply_prepared_open_def Let_def)
  next
    case True
    note restored = clean [of "ao_cleanup io" "restore_dscp_best_effort (cl_remote c) (cl_applied_traffic_class c) (ao_restore io) _"]
    show ?thesis
    proof (cases "isl q \<or> isl q'")
      case True
      then show ?thesis
        using assms(3) \<open>ao_reserve_ok io\<close> s s' restored [of s] restored [of s'] sent
        by (cases q; cases q') (auto simp: prepared apply_prepared_open_def Let_def unopened_def)
    next
      case False
      then show ?thesis
        using assms(1,3) \<open>ao_reserve_ok io\<close> s s' sent apply_keeps [OF s] set_read_timeout_keeps [OF s']
          set_read_timeout_Ok [of "cl_recv_timeout c" _ _ _ s'] Some len
        by (cases q; cases q') (auto simp: prepared apply_prepared_open_def Let_def opened_by_def split: prod.splits)
    qed
  qed
qed

text \<open>A cleanup is at most one close request, for the token of the reply.\<close>

definition cleanup_requests :: "mac_fun \<Rightarrow> client \<Rightarrow> bytes list \<Rightarrow> bool" where
  "cleanup_requests mac c packets \<longleftrightarrow> packets = [] \<or>
     (\<exists>token b. encode_request mac (ReqClose token) (machine_hmac_key (cl_runtime c)) = Ok b \<and> packets = [b])"

definition cleanup_of :: "open_acceptance_failure + prepared_open_acceptance \<Rightarrow> bytes option" where
  "cleanup_of a = (case a of Inl f \<Rightarrow> of_cleanup_close f | Inr p \<Rightarrow> cleanup_close_packet p)"

lemma normal_open_cleanup: "prepare_normal_open reply now packet m = Some a \<Longrightarrow> cleanup_of a = packet"
  by (auto simp: prepare_normal_open_def cleanup_of_def cleanup_close_packet_def Let_def
      split: option.split_asm sum.split_asm)

lemma no_test_open_cleanup:
  assumes "prepare_no_test_open reply now m = Some a"
  shows "cleanup_of a = None"
proof -
  obtain r where "client_negotiate_params (sm_requested m) (or_params reply) (op_negotiation (cc_open (sm_config m))) = Some r"
    using assms by (auto simp: prepare_no_test_open_def)
  then show ?thesis
    using assms by (cases r) (auto simp: prepare_no_test_open_def cleanup_of_def cleanup_close_packet_def)
qed

lemma acceptance_cleanup:
  assumes "prepare_open_acceptance mac reply at m = Some a" and "cleanup_of a = Some b"
  shows "encode_request mac (ReqClose (or_token reply)) (machine_hmac_key m) = Ok b"
proof -
  have conn: "sm_state m = MsConnected"
    using assms by (cases "sm_state m") (auto simp: prepare_open_acceptance_def ensure_connected_def cleanup_of_def)
  obtain packet where e: "encode_request mac (ReqClose (or_token reply)) (machine_hmac_key m) = Ok packet"
    using close_encodes by blast
  have "cleanup_of a \<in> {None, Some packet}"
    using assms(1) conn unfolding prepare_open_acceptance_def ensure_connected_def Let_def e
    by (cases "rq_run_mode (cc_request (sm_config m))")
       (auto split: if_splits dest!: normal_open_cleanup no_test_open_cleanup simp: cleanup_of_def [of "Inl _"])
  with e assms(2) show ?thesis by auto
qed

lemma cleanup_packets:
  assumes "prepare_open_acceptance mac reply at (cl_runtime c) = Some a"
    and "packets \<in> {[]} \<union> (\<lambda>b. [b]) ` set_option (cleanup_of a)"
  shows "cleanup_requests mac c packets"
  using assms(2) acceptance_cleanup [OF assms(1)] unfolding cleanup_requests_def by auto

text \<open>The result of a transaction that sent these requests, and the state between its steps.\<close>

definition open_done ::
  "mac_fun \<Rightarrow> bytes list \<Rightarrow> client \<Rightarrow> client \<Rightarrow> client_error + open_outcome \<Rightarrow> bool" where
  "open_done mac requests c c' r \<longleftrightarrow>
     (case r of
        Inl e \<Rightarrow> unopened c c' \<and>
          (\<exists>close. so_sent (cl_socket c') = so_sent (cl_socket c) @ requests @ close \<and> cleanup_requests mac c close)
      | Inr outcome \<Rightarrow> so_sent (cl_socket c') = so_sent (cl_socket c) @ requests \<and>
          cl_remote c' = cl_remote c \<and> cl_recv_timeout c' = cl_recv_timeout c \<and>
          (\<exists>packet reply at. inspect_open_datagram mac packet (cl_runtime c) = Ok (OpenTrusted reply) \<and>
             opened_by mac reply at c c' outcome))"

definition open_waits :: "bytes list \<Rightarrow> client \<Rightarrow> client \<Rightarrow> bool" where
  "open_waits requests c c' \<longleftrightarrow> unopened c c' \<and> so_traffic_class (cl_socket c') = so_traffic_class (cl_socket c) \<and>
     so_sent (cl_socket c') = so_sent (cl_socket c) @ requests"

lemma open_waits_trans: "open_waits xs a b \<Longrightarrow> open_waits ys b c \<Longrightarrow> open_waits (xs @ ys) a c"
  by (auto simp: open_waits_def intro: unopened_trans)

lemma open_waits_done: "open_waits xs a b \<Longrightarrow> open_done mac ys b c r \<Longrightarrow> open_done mac (xs @ ys) a c r"
  unfolding open_waits_def open_done_def opened_by_def unopened_def cleanup_requests_def
  by (cases r) (simp, simp cong: option.case_cong)

lemma open_waits_failed: "open_waits xs a b \<Longrightarrow> open_done mac xs a b (Inl e)"
  by (simp add: open_waits_def open_done_def cleanup_requests_def)

lemma waits_timeout:
  "set_read_timeout d a (cl_socket c) = (r, s) \<Longrightarrow> open_waits [] c (c\<lparr>cl_socket := s\<rparr>)"
  by (auto simp: open_waits_def dest: set_read_timeout_keeps)

lemma waits_send:
  "socket_send packet a (cl_socket c) = (r, s) \<Longrightarrow>
     open_waits (if isl r then [] else [packet]) c (c\<lparr>cl_socket := s\<rparr>)"
  by (auto simp: open_waits_def socket_send_def split: sum.splits)

lemma accept_reply_done:
  assumes "accept_reply mac io reply at c = Some (c', r)"
    and "inspect_open_datagram mac packet (cl_runtime c) = Ok (OpenTrusted reply)"
  shows "open_done mac [] c c' r"
proof -
  obtain a where a: "prepare_open_acceptance mac reply at (cl_runtime c) = Some a"
    using assms(1) by (auto simp: accept_reply_def)
  define close where "close = cleanup_of a"
  note packets = cleanup_packets [OF a, folded close_def]
  have cleanup: "open_done mac [] c (c\<lparr>cl_socket := send_cleanup_close_best_effort close answer (cl_socket c)\<rparr>) (Inl e)" for answer e
    using cleanup_sent [of close answer "cl_socket c"] packets by (auto simp: open_done_def)
  show ?thesis
  proof (cases a)
    case (Inl failure)
    with a assms(1) cleanup show ?thesis by (auto simp: accept_reply_def close_def cleanup_of_def)
  next
    case (Inr p)
    show ?thesis
    proof (cases "prepare_client_open p c")
      case (Inl e)
      with a Inr assms(1) cleanup show ?thesis by (auto simp: accept_reply_def close_def cleanup_of_def)
    next
      case (Inr prepared)
      with a \<open>a = Inr p\<close> assms(1) have "apply_prepared_open io prepared c = (c', r)" by (simp add: accept_reply_def)
      from apply_prepared_open_spec [OF a [unfolded \<open>a = Inr p\<close>] Inr this] assms(2) packets
      show ?thesis by (cases r) (auto simp: open_done_def close_def cleanup_of_def \<open>a = Inr p\<close>)
    qed
  qed
qed

lemma open_loop_done:
  "open_loop mac aio deadline script c = Some (Ready (c', q)) \<Longrightarrow>
     (case q of None \<Rightarrow> open_waits [] c c' | Some r \<Rightarrow> open_done mac [] c c' r)"
proof (induction script arbitrary: c)
  case (Cons step script)
  show ?case
  proof (cases "\<exists>remaining. checked_duration_since deadline (os_now step) = Some remaining \<and> remaining \<noteq> 0")
    case False
    with Cons.prems show ?thesis by (auto simp: open_waits_def split: option.splits if_splits)
  next
    case True
    then obtain remaining where rem: "checked_duration_since deadline (os_now step) = Some remaining" "remaining \<noteq> 0"
      by blast
    obtain rt s where s: "set_read_timeout (Some remaining) (os_set_timeout step) (cl_socket c) = (rt, s)" by fastforce
    define c1 where "c1 = c\<lparr>cl_socket := s\<rparr>"
    have w: "open_waits [] c c1" using waits_timeout [OF s] by (simp add: c1_def)
    note then_done = open_waits_done [OF w, of mac "[]", simplified] and then_wait = open_waits_trans [OF w, of "[]", simplified]
    show ?thesis
    proof (cases rt)
      case (Inl e)
      with Cons.prems rem s open_waits_failed [OF w] show ?thesis by (auto simp: c1_def)
    next
      case (Inr u)
      note prems = Cons.prems [unfolded open_loop.simps rem(1) option.case if_not_P [OF rem(2)] s Inr prod.case sum.case Let_def,
        folded c1_def]
      have again: ?thesis if "open_loop mac aio deadline script c1 = Some (Ready (c', q))"
        using Cons.IH [OF that] then_done then_wait by (cases q) auto
      show ?thesis
      proof (cases "os_result step")
        case (RecvError e)
        with prems again w open_waits_failed [OF w] show ?thesis by (auto split: if_splits)
      next
        case (RecvDatagram packet at meta)
        define seen where "seen = inspect_open_datagram mac (take MAX_OPEN_PACKET_SIZE packet) (cl_runtime c1)"
        show ?thesis
        proof (cases "deadline < ct_mono at")
          case True
          with prems RecvDatagram w show ?thesis by auto
        next
          case False
          with prems RecvDatagram again w open_waits_failed [OF w] then_done
            accept_reply_done [of mac aio _ at c1 c' _ "take MAX_OPEN_PACKET_SIZE packet"]
          show ?thesis by (auto simp: seen_def [symmetric] split: sum.splits open_datagram_disposition.splits)
        qed
      qed
    qed
  qed
qed simp

lemma open_attempts_done:
  "open_attempts mac aio request timeouts ios c = Some (Ready (c', r)) \<Longrightarrow>
     \<exists>n \<le> length timeouts. open_done mac (replicate n request) c c' r"
proof (induction timeouts arbitrary: ios c)
  case Nil
  then show ?case by (auto simp: open_done_def cleanup_requests_def)
next
  case (Cons timeout timeouts)
  then obtain io ios' where ios: "ios = io # ios'" by (cases ios) auto
  show ?case
  proof (cases "instant_checked_add (at_start io) timeout")
    case None
    with Cons.prems ios show ?thesis by (auto simp: open_done_def cleanup_requests_def intro!: exI [of _ 0])
  next
    case (Some deadline)
    obtain rt s where s: "set_read_timeout (Some timeout) (at_set_timeout io) (cl_socket c) = (rt, s)" by fastforce
    define c1 where "c1 = c\<lparr>cl_socket := s\<rparr>"
    obtain rs s' where s': "socket_send request (at_send io) (cl_socket c1) = (rs, s')" by fastforce
    define c2 where "c2 = c1\<lparr>cl_socket := s'\<rparr>"
    have w1: "open_waits [] c c1" using waits_timeout [OF s] by (simp add: c1_def)
    have w2: "open_waits (if isl rs then [] else [request]) c c2"
      using open_waits_trans [OF w1 waits_send [OF s']] by (simp add: c2_def)
    show ?thesis
    proof (cases "isl rt \<or> isl rs")
      case True
      with Cons.prems ios Some s s' open_waits_failed [OF w1] open_waits_failed [OF w2] show ?thesis
        by (cases rt; cases rs) (auto simp: c1_def c2_def intro!: exI [of _ 0])
    next
      case False
      with w2 have w: "open_waits (replicate 1 request) c c2" by simp
      from False Cons.prems ios Some s s' obtain c3 q
        where loop: "open_loop mac aio deadline (at_script io) c2 = Some (Ready (c3, q))"
          and rest: "case q of Some r0 \<Rightarrow> c' = c3 \<and> r = r0
            | None \<Rightarrow> open_attempts mac aio request timeouts ios' c3 = Some (Ready (c', r))"
        by (cases rt; cases rs) (auto simp: c1_def c2_def split: option.splits poll.splits)
      note after = open_loop_done [OF loop]
      show ?thesis
      proof (cases q)
        case (Some r0)
        with after rest open_waits_done [OF w, of mac "[]"] show ?thesis by (auto intro!: exI [of _ 1])
      next
        case None
        with after open_waits_trans [OF w] have w3: "open_waits (replicate 1 request) c c3" by fastforce
        from None rest Cons.IH obtain n where "n \<le> length timeouts" "open_done mac (replicate n request) c3 c' r" by auto
        with open_waits_done [OF w3] show ?thesis
          by (auto intro!: exI [of _ "Suc n"])
      qed
    qed
  qed
qed

lemma client_open_done:
  assumes "client_open mac aio ios restore c = Some (Ready (c', r))"
  shows "case prepare_open_request mac (cl_runtime c) of
      Inl e \<Rightarrow> r = Inl e \<and> open_done mac [] c c' r
    | Inr request \<Rightarrow> \<exists>n \<le> length (op_timeouts (cc_open (sm_config (cl_runtime c)))).
        open_done mac (replicate n request) c c' r"
proof -
  have "open_transaction mac aio ios c \<noteq> None" "open_transaction mac aio ios c \<noteq> Some Pending"
    using assms by (auto simp: client_open_def)
  then obtain c1 q where q: "open_transaction mac aio ios c = Some (Ready (c1, q))"
    by (metis option.exhaust poll.exhaust surj_pair)
  with assms have c1: "open_transaction mac aio ios c = Some (Ready (c1, r))"
    and c': "c' = (if isl r then c1\<lparr>cl_socket := snd (set_read_timeout (cl_recv_timeout c1) restore (cl_socket c1))\<rparr> else c1)"
    by (cases q; auto simp: client_open_def)+
  have "so_sent (snd (set_read_timeout d a s)) = so_sent s" for d a s
    by (auto simp: set_read_timeout_def split: option.splits)
  then have close: "open_done mac qs c c' r" if "open_done mac qs c c1 r" for qs
    using that by (cases r) (auto simp: open_done_def c' unopened_def)
  show ?thesis
  proof (cases "prepare_open_request mac (cl_runtime c)")
    case (Inl e)
    with c1 close [of "[]"] show ?thesis by (auto simp: open_transaction_def open_done_def cleanup_requests_def)
  next
    case (Inr request)
    with c1 open_attempts_done [of mac aio request _ ios c c1 r] close show ?thesis
      by (auto simp: open_transaction_def)
  qed
qed

lemma simulated_open:
  assumes "simulated mac config c t out" and "client_open mac aio ios restore c = Some (Ready (c', r))"
  shows "simulated mac config c' t out"
proof -
  obtain qs where qs: "open_done mac qs c c' r"
    using client_open_done [OF assms(2)] by (auto split: sum.splits)
  show ?thesis
  proof (cases r)
    case (Inl e)
    with qs assms(1) simulated_cong [of c' c] show ?thesis by (auto simp: open_done_def unopened_def)
  next
    case (Inr outcome)
    obtain log t0 where run: "machine_run mac config (cl_remote c) (cl_runtime c) t0 log" and t0: "t0 \<le> t" "subseq out log"
      using assms(1) by (auto simp: simulated_def)
    from Inr qs obtain reply at p where "prepare_open_acceptance mac reply at (cl_runtime c) = Some (Ok p)"
        "cl_runtime c' = fst (commit_open p (cl_runtime c))" "cl_remote c' = cl_remote c"
      by (auto simp: open_done_def opened_by_def)
    with run_open [OF run] t0 show ?thesis by (auto intro!: simulatedI)
  qed
qed

section \<open>Sending and closing\<close>

text \<open>The commit of a machine send does not depend on the byte count the socket reports, which only
  the receipt carries.\<close>

lemma commit_len:
  "commit_probe_sent commit sent n m =
     map_option (\<lambda>(m', p). (m', p\<lparr>psent_bytes := n\<rparr>)) (commit_probe_sent commit sent n' m)"
  by (cases "sm_state m") (simp_all add: commit_probe_sent_def option.map_comp comp_def)

definition not_sent :: "client \<Rightarrow> client \<Rightarrow> bool" where
  "not_sent c c' \<longleftrightarrow> cl_socket c' = cl_socket c \<and> cl_remote c' = cl_remote c \<and>
     cl_runtime c' \<in> {cl_runtime c, invalidate_kernel_tx_correlation (cl_runtime c)}"

definition sent_once :: "mac_fun \<Rightarrow> send_io \<Rightarrow> client \<Rightarrow> client \<Rightarrow> send_receipt \<Rightarrow> bool" where
  "sent_once mac io c c' receipt \<longleftrightarrow> cl_remote c' = cl_remote c \<and>
     (\<exists>prepared m p stamps. prepare_probe mac (cl_runtime c) = Ok prepared \<and>
        machine_send mac (si_reserve_ok io) (si_anchor io) (si_sent_at io) (cl_runtime c) = Some (Ok (m, p)) \<and>
        cl_runtime c' = record_all stamps m \<and>
        so_sent (cl_socket c') = so_sent (cl_socket c) @ [pp_bytes prepared] \<and>
        si_send io = Inr (sr_bytes receipt) \<and>
        sr_seq receipt = psent_seq p \<and> sr_sent_at receipt = si_sent_at io \<and> sr_remote receipt = cl_remote c)"

lemma record_all_Nil [simp]: "record_all [] m = m"
  by (simp add: record_all_def)

lemma drain_cases:
  assumes "client_drain_tx_timestamps drain c = (r, c')"
  shows "\<exists>stamps. c' = c\<lparr>cl_runtime := record_all stamps (cl_runtime c)\<rparr>"
proof -
  have "c = c\<lparr>cl_runtime := record_all [] (cl_runtime c)\<rparr>" by simp
  then show ?thesis using assms unfolding client_drain_tx_timestamps_def by (metis prod.inject)
qed

lemma send_probe_spec:
  assumes "client_send_probe mac io c = Some (c', r)"
  shows "case r of
      Inl (NotCommitted e) \<Rightarrow> not_sent c c'
    | Inl (AfterCommit receipt e) \<Rightarrow> sent_once mac io c c' receipt
    | Inr receipt \<Rightarrow> sent_once mac io c c' receipt"
proof (cases "\<exists>prepared preflight commit. prepare_probe mac (cl_runtime c) = Ok prepared \<and>
    preflight_probe_commit (si_reserve_ok io) prepared (cl_runtime c) = Ok preflight \<and>
    finalize_probe_commit preflight (si_anchor io) (cl_runtime c) = Ok commit")
  case False
  with assms show ?thesis by (auto simp: client_send_probe_def not_sent_def split: sum.splits)
next
  case True
  then obtain prepared preflight commit where ready: "prepare_probe mac (cl_runtime c) = Ok prepared"
      "preflight_probe_commit (si_reserve_ok io) prepared (cl_runtime c) = Ok preflight"
      "finalize_probe_commit preflight (si_anchor io) (cl_runtime c) = Ok commit" by blast
  show ?thesis
  proof (cases "si_send io")
    case (Inl e)
    with assms ready show ?thesis by (auto simp: client_send_probe_def socket_send_def not_sent_def)
  next
    case (Inr n)
    with assms ready obtain m p0
      where commit: "commit_probe_sent commit (si_sent_at io) n (cl_runtime c) = Some (m, p0)"
      by (auto simp: client_send_probe_def socket_send_def)
    then have p0: "psent_at p0 = si_sent_at io" "psent_bytes p0 = n"
      by (auto simp: commit_probe_sent_def split: machine_state.splits)
    obtain p where p: "commit_probe_sent commit (si_sent_at io) (length (pp_bytes prepared)) (cl_runtime c) = Some (m, p)"
        "psent_seq p = psent_seq p0"
      using commit commit_len [of commit "si_sent_at io" n "cl_runtime c" "length (pp_bytes prepared)"] by auto
    have send: "machine_send mac (si_reserve_ok io) (si_anchor io) (si_sent_at io) (cl_runtime c) = Some (Ok (m, p))"
      using ready p by (simp add: machine_send_def)
    define c1 where "c1 = c\<lparr>cl_socket := (cl_socket c)\<lparr>so_sent := so_sent (cl_socket c) @ [pp_bytes prepared]\<rparr>, cl_runtime := m\<rparr>"
    obtain rd c2 where c2: "client_drain_tx_timestamps (si_drain io) c1 = (rd, c2)" by fastforce
    then obtain stamps where stamps: "c2 = c1\<lparr>cl_runtime := record_all stamps (cl_runtime c1)\<rparr>"
      using drain_cases by blast
    define receipt where "receipt = \<lparr>sr_seq = psent_seq p0, sr_remote = cl_remote c, sr_sent_at = psent_at p0,
      sr_bytes = psent_bytes p0, sr_send_call = saturating_duration_since (si_finished io) (si_start io)\<rparr>"
    have "sent_once mac io c c1 receipt" "sent_once mac io c c2 receipt"
      unfolding sent_once_def using ready(1) send Inr p(2) p0
      by (auto simp: stamps c1_def receipt_def intro: exI [of _ "[]"])
    moreover have "c' \<in> {c1, c2} \<and> ((\<exists>e. r = Inl (AfterCommit receipt e)) \<or> r = Inr receipt)"
      using assms ready Inr commit c2
      by (auto simp: client_send_probe_def socket_send_def Let_def c1_def receipt_def split: sum.splits prod.splits)
    ultimately show ?thesis by auto
  qed
qed

lemma simulated_send:
  assumes "simulated mac config c t out" and "t \<le> ct_mono (si_anchor io)"
    and "client_send_probe mac io c = Some (c', r)"
  shows "simulated mac config c' (ct_mono (si_anchor io)) out"
proof -
  obtain log t0 where run: "machine_run mac config (cl_remote c) (cl_runtime c) t0 log" and t0: "t0 \<le> t" "subseq out log"
    using assms(1) by (auto simp: simulated_def)
  have skip: ?thesis if "not_sent c c'"
    using that run run_send_failed [OF run] t0 assms(2) by (auto simp: not_sent_def intro!: simulatedI)
  have sent: ?thesis if so: "sent_once mac io c c' receipt" for receipt
  proof -
    obtain m p stamps where m: "machine_send mac (si_reserve_ok io) (si_anchor io) (si_sent_at io) (cl_runtime c) = Some (Ok (m, p))"
        "cl_runtime c' = record_all stamps m" "cl_remote c' = cl_remote c"
      using so by (auto simp: sent_once_def)
    have "machine_run mac config (cl_remote c) m (ct_mono (si_anchor io)) log"
      using machine_run.run_send [OF run _ m(1)] t0(1) assms(2) by simp
    from run_record_all [OF this, of stamps] m(2,3) t0(2) show ?thesis by (auto intro!: simulatedI)
  qed
  show ?thesis
    using send_probe_spec [OF assms(3)] skip sent by (auto split: sum.splits send_probe_error.splits)
qed

lemma clear_cases: "clear_dscp_on_socket remote a s = (case a of None \<Rightarrow> (Ok (), s\<lparr>so_traffic_class := 0\<rparr>)
    | Some e \<Rightarrow> (Err (SocketOption ''clear DSCP before close'' remote e), s))"
  by (simp add: socket_defs)

lemma restore_cases:
  "restore_dscp_best_effort remote previous a s =
     (if a = None then s\<lparr>so_traffic_class := case previous of None \<Rightarrow> 0 | Some tc \<Rightarrow> tc\<rparr> else s)"
  by (auto simp: socket_defs split: option.splits)

lemma simulated_close:
  assumes "simulated mac config c t out" and "client_close io c = (c', r)"
  shows "simulated mac config c' t (out @ delivered r)"
proof -
  obtain log t0 where run: "machine_run mac config (cl_remote c) (cl_runtime c) t0 log" and t0: "t0 \<le> t" "subseq out log"
    using assms(1) by (auto simp: simulated_def)
  have same: ?thesis if "cl_runtime c' = cl_runtime c" "cl_remote c' = cl_remote c" "isl r"
    using that assms(1) simulated_cong [of c' c] by (cases r) auto
  show ?thesis
  proof (cases "prepare_close (cl_runtime c)")
    case (Inl e)
    with assms(2) same show ?thesis by (auto simp: client_close_def)
  next
    case (Inr pc)
    obtain packet commit where pc: "pc = (packet, commit)" by fastforce
    obtain m event where m: "commit_local_close commit (ci_sent_at io) (cl_runtime c) = (m, event)" by fastforce
    have "machine_run mac config (cl_remote c) m t0 (log @ [event])"
      using run_close [OF run _ m] Inr pc by simp
    moreover have "subseq (out @ delivered r) (log @ [event])" if "r \<in> insert (Inr [event]) (range Inl)"
      using that t0(2) by (auto intro: list_emb_append_mono list_emb_prefix)
    ultimately have closed: ?thesis if "cl_runtime c' = m" "cl_remote c' = cl_remote c" "r \<in> insert (Inr [event]) (range Inl)"
      using that t0(1) by (auto intro!: simulatedI)
    show ?thesis
      using assms(2) Inr pc m same closed
      by (cases "ci_clear io"; cases "ci_send io")
         (auto simp: client_close_def clear_cases socket_send_def Let_def split: if_splits sum.splits)
  qed
qed

lemma connect_new:
  "client_connect resolved socket config = Ok c \<Longrightarrow> machine_new config (cl_remote c) = Ok (cl_runtime c)"
  by (auto simp: client_connect_def result_simps)

text \<open>The events of the stream that come from the machine.\<close>

fun is_sent :: "client_event \<Rightarrow> bool" where
  "is_sent (EchoSent _ _ _ _ _ _ _) = True"
| "is_sent _ = False"

definition returned :: "client_event list \<Rightarrow> client_event list" where
  "returned out = filter (\<lambda>e. \<not> is_sent e) out"

lemma sent_event_returned [simp]: "returned (out @ sent_event r) = returned out"
  by (simp add: returned_def sent_event_def event_of_receipt_def split: option.split)

lemma classify_not_sent:
  "classify_reply remote reply n now meta s = Some (s', e) \<Longrightarrow> \<not> is_sent e \<and> as_packets_sent s' = as_packets_sent s"
  by (auto simp: classify_reply_def Let_def measured_late_reply_def bind_eq_Some_conv
      split: option.split_asm if_split_asm prod.split_asm)

lemma receive_not_sent:
  assumes "process_received_echo_packet mac packet now meta m = Some (m', r)"
  shows "list_all (\<lambda>e. \<not> is_sent e) (delivered r) \<and> packets_sent m' = packets_sent m"
proof (cases "sm_state m")
  case (MsOpen s)
  show ?thesis
  proof (cases "decode_echo_reply mac packet (ng_peer_params (as_negotiated s)) (machine_hmac_key m)")
    case (Inr reply)
    with assms MsOpen classify_not_sent [of "sm_remote m" reply "length packet" now meta s] show ?thesis
      by (auto simp: process_received_echo_packet_def open_session_def process_echo_reply_def packets_sent_def
          split: if_split_asm)
  qed (use assms MsOpen in \<open>auto simp: process_received_echo_packet_def open_session_def\<close>)
qed (use assms in \<open>auto simp: process_received_echo_packet_def open_session_def\<close>)

lemma poll_not_sent:
  assumes "poll_timeouts_at now m = Some (m', r)"
  shows "list_all (\<lambda>e. \<not> is_sent e) (delivered r) \<and> packets_sent m' = packets_sent m"
proof (cases "sm_state m")
  case (MsOpen s)
  with assms show ?thesis
    by (auto simp: poll_timeouts_at_def poll_timeouts_bounded_at_def open_session_def session_poll_timeouts_def
        packets_sent_def bind_eq_Some_conv echo_loss_def list_all_iff)
qed (use assms in \<open>auto simp: poll_timeouts_at_def poll_timeouts_bounded_at_def open_session_def\<close>)

lemma record_all_counts [simp]:
  "packets_sent (record_all stamps m) = packets_sent m"
proof -
  have "packets_sent (record_kernel_tx_timestamp k stamp m) = packets_sent m" for k stamp m
    by (auto simp: packets_sent_def record_kernel_tx_timestamp_def session_record_tx_def split: machine_state.splits)
  then show ?thesis unfolding record_all_def by (induction stamps arbitrary: m) (auto split: prod.split)
qed

lemma invalidate_counts [simp]:
  "packets_sent (invalidate_kernel_tx_correlation m) = packets_sent m"
  "next_probe_timeout_deadline (invalidate_kernel_tx_correlation m) = next_probe_timeout_deadline m"
  "open_session (invalidate_kernel_tx_correlation m) =
     bindr (open_session m) (\<lambda>s. Ok (s\<lparr>as_kernel_tx_correlation_valid := False\<rparr>))"
  by (cases "sm_state m"; simp add: packets_sent_def next_probe_timeout_deadline_def open_session_def
      invalidate_kernel_tx_correlation_def)+

text \<open>Every call but a send leaves the count of probes alone and returns no \<open>EchoSent\<close>.\<close>

definition quiet :: "client \<Rightarrow> client \<Rightarrow> client_event list \<Rightarrow> bool" where
  "quiet c c' events \<longleftrightarrow> packets_sent (cl_runtime c') = packets_sent (cl_runtime c) \<and>
     list_all (\<lambda>e. \<not> is_sent e) events"

lemma quiet_refl [simp]: "quiet c c []" and quiet_socket [simp]: "quiet c (c\<lparr>cl_socket := s\<rparr>) []"
  by (simp_all add: quiet_def)

lemma quiet_trans: "quiet a b xs \<Longrightarrow> quiet b c ys \<Longrightarrow> quiet a c (xs @ ys)"
  by (simp add: quiet_def)

lemma quiet_drop: "quiet a b xs \<Longrightarrow> quiet a b []"
  by (simp add: quiet_def)

lemma drain_quiet: "client_drain_tx_timestamps drain c = (r, c') \<Longrightarrow> quiet c c' []"
  by (auto dest!: drain_cases simp: quiet_def)

lemma recv_inner_quiet:
  assumes "recv_once_inner mac io c = Some (Ready (c', r))"
  shows "quiet c c' (delivered r)"
proof -
  obtain c1 d where d: "recv_datagram_retrying_interrupted io c = Ready (c1, d)"
    using assms by (cases "recv_datagram_retrying_interrupted io c") (auto simp: recv_once_inner_def)
  then obtain s where "c1 = c\<lparr>cl_socket := s\<rparr>" using recv_datagram_keeps by blast
  then have q1: "quiet c c1 []" by simp
  consider (fail) e where "d = Inl e" | (idle) "d = Inr None" | (got) packet at meta where "d = Inr (Some (packet, at, meta))"
    by (cases d) (auto, metis option.exhaust prod_cases3)
  then show ?thesis
  proof cases
    case got
    obtain c2 r2 where c2: "client_drain_tx_timestamps (ri_drain io) c1 = (r2, c2)" by fastforce
    have q2: "quiet c c2 []" using quiet_trans [OF q1 drain_quiet [OF c2]] by simp
    show ?thesis
    proof (cases r2)
      case (Inl e)
      with assms d got c2 q2 show ?thesis by (auto simp: recv_once_inner_def)
    next
      case (Inr u)
      with assms d got c2 obtain m q
        where m: "process_received_echo_packet mac (take (cl_recv_buffer_len c2) packet) at meta (cl_runtime c2) = Some (m, q)"
        by (auto simp: recv_once_inner_def)
      have "cl_runtime c' = m \<and> r = q"
        using assms d got c2 Inr m
        by (auto simp: recv_once_inner_def Let_def split: sum.splits if_splits prod.splits)
      with receive_not_sent [OF m] q2 show ?thesis by (simp add: quiet_def)
    qed
  qed (use assms d q1 in \<open>auto simp: recv_once_inner_def\<close>)
qed

lemma recv_available_quiet:
  assumes "recv_available_loop mac n ios events c = Some (Ready (c', r))" and "quiet c0 c events"
  shows "quiet c0 c' (delivered r)"
  using assms
proof (induction n arbitrary: events c)
  case (Suc n)
  obtain c1 r1 where inner: "recv_once_inner mac (ios n) c = Some (Ready (c1, r1))"
    using Suc.prems(1) by (auto split: option.splits poll.splits)
  note q = quiet_trans [OF Suc.prems(2) recv_inner_quiet [OF inner]]
  show ?case
  proof (cases r1)
    case (Inl e)
    with Suc.prems(1) inner quiet_drop [OF q] show ?thesis by auto
  next
    case (Inr new)
    with Suc.prems(1) inner q Suc.IH [of "events @ new" c1] show ?thesis by (auto split: if_splits)
  qed
qed auto

lemma prologue_quiet: "recv_prologue answer c = (c', r) \<Longrightarrow> quiet c c' []"
  by (auto simp: recv_prologue_def split: sum.splits prod.splits)

lemma recv_quiet:
  "recv_once mac answer io c = Some (Ready (c', r)) \<Longrightarrow> quiet c c' (delivered r)"
  "recv_available mac answer n ios c = Some (Ready (c', r)) \<Longrightarrow> quiet c c' (delivered r)"
proof -
  obtain c1 r1 where c1: "recv_prologue answer c = (c1, r1)" by fastforce
  note q = prologue_quiet [OF c1]
  show "quiet c c' (delivered r)" if "recv_once mac answer io c = Some (Ready (c', r))"
    using that c1 q quiet_trans [OF q recv_inner_quiet] by (cases r1) (auto simp: recv_once_def)
  show "quiet c c' (delivered r)" if "recv_available mac answer n ios c = Some (Ready (c', r))"
    using that c1 q recv_available_quiet [OF _ q] by (cases r1) (auto simp: recv_available_def)
qed

lemma poll_quiet:
  assumes "client_poll_timeouts_at drain now c = Some (c', r)"
  shows "quiet c c' (delivered r)"
proof -
  obtain c1 r1 where c1: "client_drain_tx_timestamps drain c = (r1, c1)" by fastforce
  show ?thesis
    using assms c1 drain_quiet [OF c1] poll_not_sent [of now "cl_runtime c1"]
    by (cases r1) (auto simp: client_poll_timeouts_at_def quiet_def)
qed

lemma close_quiet: "client_close io c = (c', r) \<Longrightarrow> quiet c c' (delivered r)"
proof (cases "open_session (cl_runtime c)")
  case (Inr s)
  assume "client_close io c = (c', r)"
  moreover have "sm_state (cl_runtime c) = MsOpen s"
    using Inr by (cases "sm_state (cl_runtime c)") (simp_all add: open_session_def)
  ultimately show ?thesis
    using Inr by (cases "ci_clear io"; cases "ci_send io")
      (auto simp: client_close_def prepare_close_def clear_cases socket_send_def Let_def commit_local_close_def
        quiet_def packets_sent_def split: if_splits sum.splits)
qed (auto simp: client_close_def prepare_close_def)

lemma open_quiet:
  assumes "simulated mac config c t out" and "client_open mac aio ios restore c = Some (Ready (c', r))"
  shows "quiet c c' []"
proof -
  obtain qs where qs: "open_done mac qs c c' r"
    using client_open_done [OF assms(2)] by (auto split: sum.splits)
  show ?thesis
  proof (cases r)
    case (Inl e)
    with qs show ?thesis by (simp add: open_done_def unopened_def quiet_def)
  next
    case (Inr outcome)
    obtain t0 log where inv: "run_inv mac config (cl_remote c) (cl_runtime c) t0 log"
      using assms(1) machine_run_inv unfolding simulated_def by blast
    from Inr qs obtain reply at p where "prepare_open_acceptance mac reply at (cl_runtime c) = Some (Ok p)"
        and c': "cl_runtime c' = fst (commit_open p (cl_runtime c))"
      by (auto simp: open_done_def opened_by_def)
    from prepare_open_acceptance_Ok [OF inv this(1)] c' show ?thesis
      by (auto simp: quiet_def commit_open_def packets_sent_def)
  qed
qed

lemma send_counts:
  assumes "simulated mac config c t out" and "client_send_probe mac io c = Some (c', r)"
  shows "case receipt_of r of
      None \<Rightarrow> packets_sent (cl_runtime c') = packets_sent (cl_runtime c)
    | Some receipt \<Rightarrow> sr_seq receipt = ucast (packets_sent (cl_runtime c)) \<and>
        unat (packets_sent (cl_runtime c')) = Suc (unat (packets_sent (cl_runtime c)))"
proof -
  obtain t0 log where run: "machine_run mac config (cl_remote c) (cl_runtime c) t0 log"
    using assms(1) by (auto simp: simulated_def)
  have sent: "sr_seq receipt = ucast (packets_sent (cl_runtime c)) \<and>
      unat (packets_sent (cl_runtime c')) = Suc (unat (packets_sent (cl_runtime c)))"
    if once: "sent_once mac io c c' receipt" for receipt
  proof -
    obtain m p stamps where "machine_send mac (si_reserve_ok io) (si_anchor io) (si_sent_at io) (cl_runtime c) = Some (Ok (m, p))"
        "cl_runtime c' = record_all stamps m" "sr_seq receipt = psent_seq p"
      using once by (auto simp: sent_once_def)
    with probe_numbering [OF run, of "si_reserve_ok io" "si_anchor io" "si_sent_at io" m p] show ?thesis by auto
  qed
  show ?thesis
    using send_probe_spec [OF assms(2)] sent
    by (auto simp: not_sent_def split: sum.splits send_probe_error.splits)
qed

text \<open>The simulation and the count, together.\<close>

definition accounted :: "mac_fun \<Rightarrow> client_config \<Rightarrow> client \<Rightarrow> instant \<Rightarrow> client_event list \<Rightarrow> bool" where
  "accounted mac config c t out \<longleftrightarrow> simulated mac config c t (returned out) \<and>
     unat (packets_sent (cl_runtime c)) = length (filter is_sent out)"

lemma accounted_quiet:
  assumes "accounted mac config c t out" "quiet c c' events" "simulated mac config c' t (returned out @ events)"
  shows "accounted mac config c' t (out @ events)"
proof -
  have "returned events = events" "filter is_sent events = []"
    using assms(2) by (auto simp: quiet_def returned_def list_all_iff filter_empty_conv)
  with assms show ?thesis by (simp add: accounted_def quiet_def returned_def)
qed

lemma accounted_recv:
  assumes "accounted mac config c t out"
  shows "recv_once mac answer rio c = Some (Ready (c', r)) \<Longrightarrow> accounted mac config c' t (out @ delivered r)"
    and "recv_available mac answer n ios c = Some (Ready (c', r)) \<Longrightarrow> accounted mac config c' t (out @ delivered r)"
proof -
  have sim: "simulated mac config c t (returned out)" using assms by (simp add: accounted_def)
  obtain c1 r1 where c1: "recv_prologue answer c = (c1, r1)" by fastforce
  note sim1 = simulated_prologue [OF sim c1]
  show "accounted mac config c' t (out @ delivered r)" if "recv_once mac answer rio c = Some (Ready (c', r))"
    using accounted_quiet [OF assms recv_quiet(1) [OF that]] that c1 sim1 simulated_recv_inner [OF sim1]
    by (cases r1) (auto simp: recv_once_def)
  show "accounted mac config c' t (out @ delivered r)" if "recv_available mac answer n ios c = Some (Ready (c', r))"
    using accounted_quiet [OF assms recv_quiet(2) [OF that]] that c1 sim1
      simulated_recv_available [of mac config c1 t "returned out" "[]"]
    by (cases r1) (auto simp: recv_available_def)
qed

lemma accounted_send:
  assumes "accounted mac config c t out" "t \<le> ct_mono (si_anchor io)" "client_send_probe mac io c = Some (c', r)"
  shows "accounted mac config c' (ct_mono (si_anchor io)) (out @ sent_event r)"
proof -
  have sim: "simulated mac config c t (returned out)" using assms(1) by (simp add: accounted_def)
  with simulated_send [OF sim assms(2,3)] send_counts [OF sim assms(3)] assms(1) show ?thesis
    by (auto simp: accounted_def returned_def sent_event_def event_of_receipt_def split: option.splits)
qed

lemma client_run_accounted: "client_run mac config c t out \<Longrightarrow> accounted mac config c t out"
proof (induction rule: client_run.induct)
  case (cr_connect resolved socket c t)
  then have new: "machine_new config (cl_remote c) = Ok (cl_runtime c)" by (rule connect_new)
  then have "sm_state (cl_runtime c) = MsConnected"
    by (auto simp: machine_new_def result_simps dest!: sym [of _ "cl_runtime c"])
  then have "packets_sent (cl_runtime c) = 0" by (simp add: packets_sent_def)
  then show ?case
    using machine_run.run_new [OF new] by (auto simp: accounted_def returned_def intro!: simulatedI)
next
  case (cr_timeout c t out timeout answer r c')
  then have "cl_runtime c' = cl_runtime c" "cl_remote c' = cl_remote c"
    by (auto simp: set_recv_timeout_def split: prod.splits sum.splits)
  with cr_timeout.IH simulated_cong [of c' c] show ?case by (simp add: accounted_def)
next
  case (cr_open c t out aio ios restore c' result)
  then have "simulated mac config c t (returned out)" by (simp add: accounted_def)
  from accounted_quiet [OF cr_open.IH open_quiet [OF this cr_open.hyps(2)]] simulated_open [OF this cr_open.hyps(2)]
  show ?case by simp
next
  case (cr_poll c t out drain now c' r)
  obtain c1 r1 where c1: "client_drain_tx_timestamps drain c = (r1, c1)" by fastforce
  have "simulated mac config c t (returned out)" using cr_poll.IH by (simp add: accounted_def)
  note sim = conjunct1 [OF simulated_drain [OF this c1]]
  show ?case
    using accounted_quiet [OF cr_poll.IH poll_quiet [OF cr_poll.hyps(2)]] cr_poll.hyps(2) c1 sim simulated_poll [OF sim]
    by (cases r1) (auto simp: client_poll_timeouts_at_def)
next
  case (cr_close c t out cio c' r)
  then have "simulated mac config c t (returned out)" by (simp add: accounted_def)
  with accounted_quiet [OF cr_close.IH close_quiet [OF cr_close.hyps(2)]] simulated_close cr_close.hyps(2)
  show ?case by blast
qed (auto intro: accounted_recv accounted_send)

lemma client_run_simulated: "client_run mac config c t out \<Longrightarrow> simulated mac config c t (returned out)"
  using client_run_accounted by (simp add: accounted_def)

section \<open>Returning\<close>

text \<open>No call panics.\<close>

lemma simulated_inv: "simulated mac config c t out \<Longrightarrow> \<exists>t0 log. run_inv mac config (cl_remote c) (cl_runtime c) t0 log"
  unfolding simulated_def by (blast intro: machine_run_inv)

lemma send_probe_total:
  assumes "simulated mac config c t out"
  shows "client_send_probe mac io c \<noteq> None"
proof -
  obtain t0 log where "run_inv mac config (cl_remote c) (cl_runtime c) t0 log"
    using simulated_inv [OF assms] by blast
  note total = send_total [OF this, of "si_reserve_ok io" "si_anchor io" "si_sent_at io"]
  have commits: False
    if "prepare_probe mac (cl_runtime c) = Ok prepared"
      "preflight_probe_commit (si_reserve_ok io) prepared (cl_runtime c) = Ok preflight"
      "finalize_probe_commit preflight (si_anchor io) (cl_runtime c) = Ok commit"
      "commit_probe_sent commit (si_sent_at io) n (cl_runtime c) = None" for prepared preflight commit n
    using total that commit_len [of commit "si_sent_at io" "length (pp_bytes prepared)" "cl_runtime c" n]
    by (simp add: machine_send_def)
  show ?thesis
  proof
    assume "client_send_probe mac io c = None"
    with commits show False
      by (auto simp: client_send_probe_def socket_send_def simp del: not_None_eq split: sum.split_asm prod.split_asm)
  qed
qed

lemma receive_total:
  "simulated mac config c t out \<Longrightarrow> process_received_echo_packet mac packet at meta (cl_runtime c) \<noteq> None"
  using simulated_inv receive_inv by (metis option.distinct(1))

lemma recv_inner_total:
  assumes "simulated mac config c t out"
  shows "recv_once_inner mac io c \<noteq> None"
proof (cases "recv_datagram_retrying_interrupted io c")
  case (Ready v)
  then obtain c1 d where d: "recv_datagram_retrying_interrupted io c = Ready (c1, d)" by (cases v) auto
  then obtain s where "c1 = c\<lparr>cl_socket := s\<rparr>" using recv_datagram_keeps by blast
  then have sim: "simulated mac config c1 t out" using assms simulated_cong [of c1 c] by simp
  obtain r2 c2 where c2: "client_drain_tx_timestamps (ri_drain io) c1 = (r2, c2)" by fastforce
  from receive_total [OF conjunct1 [OF simulated_drain [OF sim c2]]] d c2 show ?thesis
    by (auto simp: recv_once_inner_def split: sum.split option.split prod.split)
qed (simp add: recv_once_inner_def)

lemma recv_available_total:
  "simulated mac config c t out \<Longrightarrow> recv_available_loop mac n ios events c \<noteq> None"
proof (induction n arbitrary: events c out)
  case (Suc n)
  have "recv_available_loop mac n ios (events @ new) c1 \<noteq> None"
    if "recv_once_inner mac (ios n) c = Some (Ready (c1, Inr new))" for c1 new
    using Suc.IH [OF simulated_recv_inner [OF Suc.prems that]] .
  with recv_inner_total [OF Suc.prems, of "ios n"] show ?case
    by (auto split: poll.split sum.split prod.split)
qed simp

lemma poll_total:
  assumes "simulated mac config c t out"
  shows "client_poll_timeouts_at drain now c \<noteq> None"
proof -
  obtain r1 c1 where c1: "client_drain_tx_timestamps drain c = (r1, c1)" by fastforce
  obtain t0 log where inv: "run_inv mac config (cl_remote c1) (cl_runtime c1) t0 log"
    using simulated_inv simulated_drain [OF assms c1] by blast
  have "poll_timeouts_at now (cl_runtime c1) \<noteq> None"
    using poll_inv [OF inv, of now usize_max] by (auto simp: poll_timeouts_at_def)
  with c1 show ?thesis by (auto simp: client_poll_timeouts_at_def split: sum.split)
qed

text \<open>The open transaction never panics, and it ends once the clock has passed every deadline.\<close>

definition attempt_ends :: "duration \<Rightarrow> attempt_io \<Rightarrow> bool" where
  "attempt_ends timeout io \<longleftrightarrow> list_ex (\<lambda>step. at_start io + int timeout \<le> os_now step) (at_script io)"

lemma unopened_simulated:
  "unopened c c' \<Longrightarrow> simulated mac config c' t out = simulated mac config c t out"
  by (rule simulated_cong) (simp_all add: unopened_def)

lemma accept_reply_total:
  assumes "simulated mac config c t out"
  shows "accept_reply mac aio reply at c \<noteq> None"
proof -
  obtain t0 log where "run_inv mac config (cl_remote c) (cl_runtime c) t0 log"
    using simulated_inv [OF assms] by blast
  from open_acceptance_total [OF this] show ?thesis by (simp add: accept_reply_def)
qed

lemma open_loop_step:
  assumes "simulated mac config c t out"
  shows "\<exists>s v. open_loop mac aio deadline (step # script) c \<in>
      {open_loop mac aio deadline script (c\<lparr>cl_socket := s\<rparr>), Some (Ready v)} \<and>
    (deadline \<le> os_now step \<longrightarrow> open_loop mac aio deadline (step # script) c = Some (Ready v))"
proof (cases "\<exists>remaining. checked_duration_since deadline (os_now step) = Some remaining \<and> remaining \<noteq> 0")
  case False
  then have "open_loop mac aio deadline (step # script) c = Some (Ready (c, None))"
    by (cases "checked_duration_since deadline (os_now step)") simp_all
  then show ?thesis by blast
next
  case True
  then obtain remaining where rem: "checked_duration_since deadline (os_now step) = Some remaining" "remaining \<noteq> 0"
    by blast
  then have early: "\<not> deadline \<le> os_now step" by (auto simp: checked_duration_since_def split: if_splits)
  obtain rt s where s: "set_read_timeout (Some remaining) (os_set_timeout step) (cl_socket c) = (rt, s)" by fastforce
  have "simulated mac config (c\<lparr>cl_socket := s\<rparr>) t out" using assms simulated_cong [of "c\<lparr>cl_socket := s\<rparr>" c] by simp
  note accepts = accept_reply_total [OF this, of aio]
  have accepts: "\<exists>v. map_option (\<lambda>(c2, r). Ready (c2, Some r)) (accept_reply mac aio reply at (c\<lparr>cl_socket := s\<rparr>)) = Some (Ready v)"
    for reply at
    using accepts [of reply at] by (auto split: prod.split)
  have "\<exists>v. open_loop mac aio deadline (step # script) c \<in>
      {open_loop mac aio deadline script (c\<lparr>cl_socket := s\<rparr>), Some (Ready v)}"
  proof (cases rt)
    case (Inr u)
    show ?thesis
    proof (cases "os_result step")
      case (RecvDatagram packet at meta)
      show ?thesis
      proof (cases "inspect_open_datagram mac (take MAX_OPEN_PACKET_SIZE packet) (cl_runtime c)")
        case (Inr d)
        with accepts show ?thesis by (cases d) (simp_all add: rem s Let_def \<open>rt = Inr u\<close> RecvDatagram)
      qed (simp add: rem s Let_def Inr RecvDatagram)
    qed (simp add: rem s Let_def Inr)
  qed (simp add: rem s)
  with early show ?thesis by blast
qed

lemma open_loop_total:
  "simulated mac config c t out \<Longrightarrow> open_loop mac aio deadline script c \<noteq> None \<and>
     (list_ex (\<lambda>step. deadline \<le> os_now step) script \<longrightarrow> open_loop mac aio deadline script c \<noteq> Some Pending)"
proof (induction script arbitrary: c)
  case (Cons step script)
  have sim: "simulated mac config (c\<lparr>cl_socket := s\<rparr>) t out" for s
    using Cons.prems simulated_cong [of "c\<lparr>cl_socket := s\<rparr>" c] by simp
  obtain s v where "open_loop mac aio deadline (step # script) c \<in>
      {open_loop mac aio deadline script (c\<lparr>cl_socket := s\<rparr>), Some (Ready v)}"
    "deadline \<le> os_now step \<longrightarrow> open_loop mac aio deadline (step # script) c = Some (Ready v)"
    using open_loop_step [OF Cons.prems, of aio deadline step script] by blast
  with Cons.IH [OF sim, of s] show ?case by (auto simp del: open_loop.simps)
qed simp

lemma open_attempts_total:
  "simulated mac config c t out \<Longrightarrow> open_attempts mac aio request timeouts ios c \<noteq> None \<and>
     (length timeouts \<le> length ios \<and> list_all (\<lambda>(timeout, io). attempt_ends timeout io) (zip timeouts ios) \<longrightarrow>
        open_attempts mac aio request timeouts ios c \<noteq> Some Pending)"
proof (induction timeouts arbitrary: ios c)
  case (Cons timeout timeouts)
  show ?case
  proof (cases ios)
    case (Cons io ios')
    show ?thesis
    proof (cases "instant_checked_add (at_start io) timeout")
      case (Some deadline)
      then have dl: "deadline = at_start io + int timeout" by (auto simp: instant_checked_add_def split: if_splits)
      obtain rt s where s: "set_read_timeout (Some timeout) (at_set_timeout io) (cl_socket c) = (rt, s)" by fastforce
      obtain rs s' where s': "socket_send request (at_send io) s = (rs, s')" by fastforce
      define c2 where "c2 = c\<lparr>cl_socket := s'\<rparr>"
      have sim: "simulated mac config c2 t out" using Cons.prems simulated_cong [of c2 c] by (simp add: c2_def)
      note loop = open_loop_total [OF sim, of aio deadline "at_script io"]
      show ?thesis
      proof (cases "isl rt \<or> isl rs")
        case True
        then show ?thesis by (cases rt; cases rs) (simp_all add: Some s s' Cons)
      next
        case False
        have eq: "open_attempts mac aio request (timeout # timeouts) ios c =
            (case open_loop mac aio deadline (at_script io) c2 of
               None \<Rightarrow> None | Some Pending \<Rightarrow> Some Pending | Some (Ready (c1, Some r)) \<Rightarrow> Some (Ready (c1, r))
             | Some (Ready (c1, None)) \<Rightarrow> open_attempts mac aio request timeouts ios' c1)"
          using False by (cases rt; cases rs) (simp_all add: Some s s' Cons c2_def)
        show ?thesis
        proof (cases "open_loop mac aio deadline (at_script io) c2")
          case None
          with loop show ?thesis by simp
        next
          case (Some v)
          show ?thesis
          proof (cases v)
            case Pending
            with loop Some eq Cons show ?thesis by (auto simp: attempt_ends_def dl)
          next
            case (Ready cq)
            obtain c3 q where cq: "cq = (c3, q)" by fastforce
            show ?thesis
            proof (cases q)
              case None
              with open_loop_done [of mac aio deadline "at_script io" c2 c3 q] Some Ready cq
              have "simulated mac config c3 t out"
                using sim unopened_simulated [of c2 c3] by (auto simp: open_waits_def)
              from Cons.IH [OF this, of ios'] show ?thesis
                using eq Some Ready cq None \<open>ios = io # ios'\<close> by auto
            qed (use eq Some Ready cq in auto)
          qed
        qed
      qed
    qed (use Cons in auto)
  qed simp
qed simp

lemma client_open_total:
  assumes "simulated mac config c t out"
  shows "client_open mac aio ios restore c \<noteq> None \<and>
    (let timeouts = op_timeouts (cc_open (sm_config (cl_runtime c))) in
      length timeouts \<le> length ios \<and> list_all (\<lambda>(timeout, io). attempt_ends timeout io) (zip timeouts ios) \<longrightarrow>
      client_open mac aio ios restore c \<noteq> Some Pending)"
proof -
  have "open_transaction mac aio ios c \<noteq> None \<and>
    (let timeouts = op_timeouts (cc_open (sm_config (cl_runtime c))) in
      length timeouts \<le> length ios \<and> list_all (\<lambda>(timeout, io). attempt_ends timeout io) (zip timeouts ios) \<longrightarrow>
      open_transaction mac aio ios c \<noteq> Some Pending)"
    using open_attempts_total [OF assms] by (simp add: open_transaction_def split: sum.split)
  moreover have "client_open mac aio ios restore c = None \<longleftrightarrow> open_transaction mac aio ios c = None"
    by (simp add: client_open_def)
  moreover have "client_open mac aio ios restore c = Some Pending \<longleftrightarrow> open_transaction mac aio ios c = Some Pending"
    by (auto simp: client_open_def split: poll.split_asm sum.split_asm)
  ultimately show ?thesis by simp
qed

text \<open>One receive ends with the first answer that is no interruption, or once its deadline passed:
  interruptions never extend it.\<close>

definition recv_ends :: "duration option \<Rightarrow> recv_io \<Rightarrow> bool" where
  "recv_ends timeout io \<longleftrightarrow> list_ex (\<lambda>step.
     (case rv_result step of RecvError e \<Rightarrow> \<not> is_interrupted e | RecvDatagram _ _ _ \<Rightarrow> True) \<or>
     (case timeout of None \<Rightarrow> False | Some d \<Rightarrow> ri_start io + int d \<le> rv_now step)) (ri_script io)"

lemma recv_loop_ends:
  "list_ex (\<lambda>step. (case rv_result step of RecvError e \<Rightarrow> \<not> is_interrupted e | RecvDatagram _ _ _ \<Rightarrow> True) \<or>
     (case deadline of None \<Rightarrow> False | Some d \<Rightarrow> d \<le> rv_now step)) script \<Longrightarrow>
   recv_loop deadline script narrowed s \<noteq> Pending"
proof (induction script arbitrary: narrowed s)
  case (Cons step script)
  have over: "checked_duration_since d now \<in> {None, Some 0}" if "d \<le> now" for d now
    using that by (auto simp: checked_duration_since_def)
  show ?case
  proof (cases "rv_result step")
    case (RecvError e)
    show ?thesis
    proof (cases "is_would_block e \<or> is_timed_out e \<or> \<not> is_interrupted e")
      case False
      then have e: "\<not> is_would_block e" "\<not> is_timed_out e" "is_interrupted e" by simp_all
      show ?thesis
      proof (cases deadline)
        case None
        with Cons e RecvError show ?thesis by simp
      next
        case (Some d)
        show ?thesis
          using Cons e RecvError Some over [of d "rv_now step"]
          by (auto split: option.split sum.split prod.split)
      qed
    qed (use RecvError in auto)
  qed simp
qed simp

lemma recv_datagram_ends:
  "recv_ends (cl_recv_timeout c) io \<Longrightarrow> recv_datagram_retrying_interrupted io c \<noteq> Pending"
  using recv_loop_ends [of "map_option (\<lambda>d. ri_start io + int d) (cl_recv_timeout c)" "ri_script io" False "cl_socket c"]
  by (cases "cl_recv_timeout c")
     (auto simp: recv_datagram_retrying_interrupted_def recv_ends_def instant_checked_add_def
       split: poll.split prod.split sum.splits)

lemma prologue_timeout: "recv_prologue answer c = (c', r) \<Longrightarrow> cl_recv_timeout c' = cl_recv_timeout c"
  by (auto simp: recv_prologue_def split: sum.splits prod.splits)

lemma recv_once_ends:
  assumes "recv_ends (cl_recv_timeout c) io"
  shows "recv_once mac answer io c \<noteq> Some Pending"
proof -
  obtain c1 r1 where c1: "recv_prologue answer c = (c1, r1)" by fastforce
  have "recv_datagram_retrying_interrupted io c1 \<noteq> Pending"
    using recv_datagram_ends [of c1 io] assms prologue_timeout [OF c1] by simp
  then have "recv_once_inner mac io c1 \<noteq> Some Pending"
    by (auto simp: recv_once_inner_def Let_def split: poll.splits sum.splits prod.splits option.splits if_splits)
  with c1 show ?thesis by (auto simp: recv_once_def split: sum.split)
qed

section \<open>Properties\<close>

text \<open>C6: the blocking client refines the session machine. Whatever the operating system answers
  and however calls interleave, the machine inside the client is a state of a machine run, so its
  theorems (conservation, single measurement, numbering) hold of the client; the events its calls
  returned are events of that run, in their order, with nothing added or repeated; and there is one
  \<open>EchoSent\<close> for every probe the session counts.\<close>

theorem client_refines_machine:
  assumes "client_run mac config c t out"
  shows "\<exists>log t0. t0 \<le> t \<and> machine_run mac config (cl_remote c) (cl_runtime c) t0 log \<and>
     subseq (returned out) log \<and> length (filter is_sent out) = unat (packets_sent (cl_runtime c))"
  using client_run_accounted [OF assms] by (simp add: accounted_def simulated_def)

text \<open>A concrete client, connected and opened by a reply on the wire.\<close>

definition adapter_socket :: udp_socket where
  "adapter_socket = \<lparr>so_traffic_class = 0, so_read_timeout = None, so_sent = []\<rparr>"

definition adapter_connected :: client where
  "adapter_connected = projr (client_connect (Ok (V4 1 2112)) (Ok adapter_socket) client_test_config)"

definition adapter_reply :: bytes where
  "adapter_reply = projr (encode_open_reply flat_mac client_test_open_reply None)"

definition adapter_accept :: accept_io where
  "adapter_accept = \<lparr>ao_reserve_ok = True, ao_apply = None, ao_set_timeout = None, ao_restore = None,
     ao_cleanup = Ok 0, ao_tx_enabled = False\<rparr>"

definition adapter_attempt :: attempt_io where
  "adapter_attempt = \<lparr>at_start = 0, at_set_timeout = None, at_send = Ok 40,
     at_script = [\<lparr>os_now = 5, os_set_timeout = None,
       os_result = RecvDatagram adapter_reply client_test_instant client_test_meta, os_after = 6\<rparr>]\<rparr>"

lemma adapter_connects: "client_connect (Ok (V4 1 2112)) (Ok adapter_socket) client_test_config = Ok adapter_connected"
proof -
  have "isl (client_connect (Ok (V4 1 2112)) (Ok adapter_socket) client_test_config) = False" by code_simp
  then show ?thesis by (simp add: adapter_connected_def)
qed

lemma adapter_connected_run: "client_run flat_mac client_test_config adapter_connected 0 []"
  by (rule cr_connect [OF adapter_connects])

lemma adapter_reply_encoded: "encode_open_reply flat_mac client_test_open_reply None = Ok adapter_reply"
proof -
  have "isl (encode_open_reply flat_mac client_test_open_reply None) = False" by code_simp
  then show ?thesis by (simp add: adapter_reply_def)
qed

lemma adapter_reply_trusted:
  "inspect_open_datagram flat_mac (take MAX_OPEN_PACKET_SIZE adapter_reply) (cl_runtime adapter_connected) =
     Ok (OpenTrusted client_test_open_reply)"
proof -
  have len: "length adapter_reply = 32" by code_simp
  have key: "machine_hmac_key (cl_runtime adapter_connected) = None" and conn: "ensure_connected (cl_runtime adapter_connected) = Ok ()"
    by code_simp+
  have w: "wf_params (or_params client_test_open_reply)" by code_simp
  have f: "or_flags client_test_open_reply AND RESERVED_FLAGS_MASK = 0" "has (or_flags client_test_open_reply) FLAG_OPEN"
     "has (or_flags client_test_open_reply) FLAG_REPLY" "or_token client_test_open_reply \<noteq> 0 \<or> has (or_flags client_test_open_reply) FLAG_CLOSE"
     "with_hmac_flag (or_flags client_test_open_reply) False = or_flags client_test_open_reply"
    by code_simp+
  have "decode_open_reply flat_mac adapter_reply None = Ok client_test_open_reply"
    using decode_encoded_open_reply [OF f(1-4) w adapter_reply_encoded] f(5) by simp
  with len key conn show ?thesis by (simp add: inspect_open_datagram_def MAX_OPEN_PACKET_SIZE_def)
qed
lemma adapter_connected_machine: "cl_runtime adapter_connected = client_test_machine"
  by code_simp


definition adapter_request :: bytes where
  "adapter_request = projr (prepare_open_request flat_mac client_test_machine)"

definition adapter_waiting :: client where
  "adapter_waiting = adapter_connected\<lparr>cl_socket :=
     \<lparr>so_traffic_class = 0, so_read_timeout = Some 999999995, so_sent = [adapter_request]\<rparr>\<rparr>"

definition adapter_opened :: client where
  "adapter_opened = fst (the (accept_reply flat_mac adapter_accept client_test_open_reply client_test_instant adapter_waiting))"

definition adapter_outcome :: open_outcome where
  "adapter_outcome = projr (snd (the (accept_reply flat_mac adapter_accept client_test_open_reply client_test_instant adapter_waiting)))"

lemma adapter_accepts:
  "accept_reply flat_mac adapter_accept client_test_open_reply client_test_instant adapter_waiting =
     Some (adapter_opened, Ok adapter_outcome)"
proof -
  have "(case accept_reply flat_mac adapter_accept client_test_open_reply client_test_instant adapter_waiting of
     Some (_, Inr _) \<Rightarrow> True | _ \<Rightarrow> False) = True" by code_simp
  then show ?thesis
    unfolding adapter_opened_def adapter_outcome_def by (auto split: option.split_asm sum.split_asm)
qed

lemma adapter_requests: "prepare_open_request flat_mac (cl_runtime adapter_connected) = Ok adapter_request"
proof -
  have "isl (prepare_open_request flat_mac client_test_machine) = False" by code_simp
  then show ?thesis by (simp add: adapter_request_def adapter_connected_machine)
qed

lemma adapter_timeouts: "op_timeouts (cc_open (sm_config (cl_runtime adapter_connected))) = [1000000000, 2000000000, 4000000000, 8000000000]"
  by code_simp

lemma adapter_connected_socket: "cl_socket adapter_connected = adapter_socket"
  by code_simp

lemma adapter_opens:
  "client_open flat_mac adapter_accept [adapter_attempt] None adapter_connected =
     Some (Ready (adapter_opened, Ok adapter_outcome))"
  by (simp add: client_open_def open_transaction_def adapter_requests adapter_timeouts adapter_attempt_def
      adapter_connected_socket adapter_socket_def set_read_timeout_def socket_send_def instant_checked_add_def instant_max_def
     checked_duration_since_def client_test_instant_def [THEN arg_cong [of _ _ ct_mono]] adapter_reply_trusted adapter_waiting_def [symmetric] adapter_accepts)
lemma adapter_opened_run: "client_run flat_mac client_test_config adapter_opened 0 []"
  by (rule cr_open [OF adapter_connected_run adapter_opens])

definition adapter_send :: send_io where
  "adapter_send = \<lparr>si_reserve_ok = True, si_anchor = client_test_instant, si_start = 1000, si_send = Ok 60,
     si_finished = 1001, si_sent_at = client_test_instant, si_drain = ([], None)\<rparr>"

definition adapter_sent :: client where
  "adapter_sent = fst (the (client_send_probe flat_mac adapter_send adapter_opened))"

definition adapter_receipt :: "send_probe_error + send_receipt" where
  "adapter_receipt = snd (the (client_send_probe flat_mac adapter_send adapter_opened))"

lemma adapter_sends: "client_send_probe flat_mac adapter_send adapter_opened = Some (adapter_sent, adapter_receipt)"
  using send_probe_total [OF client_run_simulated [OF adapter_opened_run], of adapter_send]
  by (auto simp: adapter_sent_def adapter_receipt_def)

lemma adapter_sent_run: "client_run flat_mac client_test_config adapter_sent 1000 (sent_event adapter_receipt)"
  using cr_send [OF adapter_opened_run _ adapter_sends] by (simp add: adapter_send_def client_test_instant_def)

theorem client_refines_machine_witness:
  "\<exists>log t0. t0 \<le> 1000 \<and> machine_run flat_mac client_test_config (cl_remote adapter_sent) (cl_runtime adapter_sent) t0 log \<and>
     subseq (returned (sent_event adapter_receipt)) log \<and>
     length (filter is_sent (sent_event adapter_receipt)) = unat (packets_sent (cl_runtime adapter_sent))"
  by (rule client_refines_machine [OF adapter_sent_run])

text \<open>C12: every call returns. No call of the blocking client panics in any run; the open
  transaction ends once the clock passed the deadline of each attempt, whatever datagrams arrive,
  and one receive ends with the first answer that is not an interruption or at its deadline.\<close>

theorem client_calls_return:
  assumes "client_run mac config c t out"
  shows "client_send_probe mac sio c \<noteq> None \<and> client_poll_timeouts_at drain now c \<noteq> None \<and>
     recv_once mac answer rio c \<noteq> None \<and> recv_available mac answer n rios c \<noteq> None \<and>
     client_open mac aio ios restore c \<noteq> None \<and>
     (recv_ends (cl_recv_timeout c) rio \<longrightarrow> recv_once mac answer rio c \<noteq> Some Pending) \<and>
     (let timeouts = op_timeouts (cc_open (sm_config (cl_runtime c))) in
      length timeouts \<le> length ios \<and> list_all (\<lambda>(timeout, io). attempt_ends timeout io) (zip timeouts ios) \<longrightarrow>
      client_open mac aio ios restore c \<noteq> Some Pending)"
proof -
  note sim = client_run_simulated [OF assms]
  obtain c1 r1 where c1: "recv_prologue answer c = (c1, r1)" by fastforce
  note sim1 = simulated_prologue [OF sim c1]
  have "recv_once mac answer rio c \<noteq> None"
    using c1 recv_inner_total [OF sim1] by (simp add: recv_once_def split: sum.split)
  moreover have "recv_available mac answer n rios c \<noteq> None"
    using c1 recv_available_total [OF sim1] by (simp add: recv_available_def split: sum.split)
  ultimately show ?thesis
    using send_probe_total [OF sim] poll_total [OF sim] client_open_total [OF sim] recv_once_ends by blast
qed

theorem client_calls_return_witness:
  "client_send_probe flat_mac adapter_send adapter_sent \<noteq> None \<and>
   recv_once flat_mac None \<lparr>ri_start = 0, ri_script = [\<lparr>rv_result = RecvError 11, rv_now = 3, rv_set_timeout = None\<rparr>],
     ri_restore = None, ri_drain = ([], None), ri_clear = None\<rparr> adapter_sent \<noteq> Some Pending"
  using client_calls_return [OF adapter_sent_run, of adapter_send "([], None)" 0 None
      "\<lparr>ri_start = 0, ri_script = [\<lparr>rv_result = RecvError 11, rv_now = 3, rv_set_timeout = None\<rparr>],
        ri_restore = None, ri_drain = ([], None), ri_clear = None\<rparr>" 0 "\<lambda>_. undefined" adapter_accept "[]" None]
  by (simp add: recv_ends_def is_interrupted_def)

text \<open>C21: the send transaction. A probe is counted exactly when the socket accepted its datagram.
  Without a receipt nothing went out and the session counts nothing; with one, also when a later
  step failed, exactly the prepared datagram went out, the receipt carries its sequence number (the
  low half of the count so far), and the session counts exactly one more.\<close>

theorem client_send_contract:
  assumes "client_run mac config c t out" and "client_send_probe mac io c = Some (c', r)"
  shows "case receipt_of r of
      None \<Rightarrow> cl_socket c' = cl_socket c \<and> packets_sent (cl_runtime c') = packets_sent (cl_runtime c) \<and>
        next_probe_timeout_deadline (cl_runtime c') = next_probe_timeout_deadline (cl_runtime c)
    | Some receipt \<Rightarrow> \<exists>prepared. prepare_probe mac (cl_runtime c) = Ok prepared \<and>
        so_sent (cl_socket c') = so_sent (cl_socket c) @ [pp_bytes prepared] \<and>
        si_send io = Ok (sr_bytes receipt) \<and> sr_seq receipt = ucast (packets_sent (cl_runtime c)) \<and>
        unat (packets_sent (cl_runtime c')) = Suc (unat (packets_sent (cl_runtime c)))"
  using send_probe_spec [OF assms(2)] send_counts [OF client_run_simulated [OF assms(1)] assms(2)]
  by (auto simp: not_sent_def sent_once_def split: sum.splits send_probe_error.splits)

lemma adapter_opened_machine: "cl_runtime adapter_opened = client_test_opened"
proof -
  have "isl (prepare_client_open client_test_prepared adapter_waiting) = False" by code_simp
  then obtain prepared where prepared: "prepare_client_open client_test_prepared adapter_waiting = Ok prepared"
    by (cases "prepare_client_open client_test_prepared adapter_waiting") auto
  have m: "cl_runtime adapter_waiting = client_test_machine" by (simp add: adapter_waiting_def adapter_connected_machine)
  then have ok: "prepare_open_acceptance flat_mac client_test_open_reply client_test_instant (cl_runtime adapter_waiting) =
      Some (Ok client_test_prepared)" by (simp add: client_test_prepared_ok)
  have "apply_prepared_open adapter_accept prepared adapter_waiting = (adapter_opened, Ok adapter_outcome)"
    using adapter_accepts by (simp add: accept_reply_def ok prepared)
  from apply_prepared_open_spec [OF ok prepared this] show ?thesis
    by (auto simp: opened_by_def client_test_prepared_ok m client_test_opened_def)
qed

lemma adapter_receipt_some: "receipt_of adapter_receipt \<noteq> None"
proof
  obtain prepared pf commit where steps: "prepare_probe flat_mac client_test_opened = Ok prepared"
      "preflight_probe_commit True prepared client_test_opened = Ok pf"
      "finalize_probe_commit pf client_test_instant client_test_opened = Ok commit"
    using client_test_send by (auto simp: machine_send_def split: sum.split_asm)
  assume "receipt_of adapter_receipt = None"
  then obtain e where e: "adapter_receipt = Inl (NotCommitted e)" by (auto elim: receipt_of.elims)
  from adapter_sends [unfolded e] steps show False
    by (auto simp: client_send_probe_def adapter_opened_machine adapter_send_def socket_send_def Let_def
        validate_datagram_length_def split: sum.split_asm prod.split_asm if_split_asm)
qed

theorem client_send_contract_witness:
  "\<exists>receipt. receipt_of adapter_receipt = Some receipt \<and> sr_seq receipt = ucast (packets_sent (cl_runtime adapter_opened)) \<and>
     unat (packets_sent (cl_runtime adapter_sent)) = Suc (unat (packets_sent (cl_runtime adapter_opened)))"
  using client_send_contract [OF adapter_opened_run adapter_sends] adapter_receipt_some
  by (auto split: option.split_asm)

text \<open>C22: the close transaction. A session closes exactly when the socket accepted its close
  datagram, sent with the default traffic class; the closed state keeps the count of probes. When
  an earlier step fails, the session is still open, nothing was sent, and after a refused send the
  negotiated traffic class is put back if the socket lets it. Only an open session closes.\<close>

theorem client_close_contract:
  "case client_close io c of (c', r) \<Rightarrow>
     (case open_session (cl_runtime c) of
        Inl e \<Rightarrow> c' = c \<and> r = Err e
      | Inr s \<Rightarrow>
          if ci_reserve_ok io \<and> ci_clear io = None \<and> \<not> isl (ci_send io) then
            sm_state (cl_runtime c') = MsClosed CloseLocal (as_packets_sent s) \<and>
            so_sent (cl_socket c') = so_sent (cl_socket c) @ [as_local_close_packet s] \<and>
            so_traffic_class (cl_socket c') = 0 \<and> cl_applied_traffic_class c' = None \<and>
            r = (if ci_send io = Ok (length (as_local_close_packet s))
                 then Ok [SessionClosed (sm_remote (cl_runtime c)) (as_token s) (ci_sent_at io)]
                 else Err (DatagramLengthMismatch (length (as_local_close_packet s)) (projr (ci_send io))))
          else
            isl r \<and> cl_runtime c' = cl_runtime c \<and> so_sent (cl_socket c') = so_sent (cl_socket c) \<and>
            cl_applied_traffic_class c' = cl_applied_traffic_class c \<and>
            so_traffic_class (cl_socket c') =
              (if \<not> (ci_reserve_ok io \<and> ci_clear io = None) then so_traffic_class (cl_socket c)
               else if ci_restore io \<noteq> None then 0
               else case cl_applied_traffic_class c of None \<Rightarrow> 0 | Some traffic_class \<Rightarrow> traffic_class))"
proof (cases "open_session (cl_runtime c)")
  case (Inr s)
  then have "prepare_close (cl_runtime c) =
      Ok (as_local_close_packet s, \<lparr>cm_packets_sent = as_packets_sent s, cm_token = as_token s\<rparr>)"
    by (simp add: prepare_close_def)
  with Inr show ?thesis
    by (cases "ci_clear io"; cases "ci_send io")
       (auto simp: client_close_def clear_cases restore_cases socket_send_def Let_def commit_local_close_def
         validate_datagram_length_def)
qed (simp add: client_close_def prepare_close_def)

text \<open>C23: the open transaction. It sends its request at most once per configured timeout. When it
  fails, the session machine, the recorded traffic class and the configured timeout are what they
  were, and at most one close request for the token of a reply went out. When it succeeds, a
  trusted reply was accepted by the machine, exactly the requests were sent, the receive timeout is
  the configured one, and for a probe session the socket carries the negotiated traffic class and
  the receive buffer fits the negotiated echo packet.\<close>

theorem client_open_contract:
  assumes "client_open mac aio ios restore c = Some (Ready (c', r))"
  shows "\<exists>requests. length requests \<le> length (op_timeouts (cc_open (sm_config (cl_runtime c)))) \<and>
     (\<forall>q \<in> set requests. prepare_open_request mac (cl_runtime c) = Ok q) \<and>
     (case r of
        Inl e \<Rightarrow> cl_runtime c' = cl_runtime c \<and> cl_applied_traffic_class c' = cl_applied_traffic_class c \<and>
          cl_recv_timeout c' = cl_recv_timeout c \<and>
          (\<exists>close. so_sent (cl_socket c') = so_sent (cl_socket c) @ requests @ close \<and> cleanup_requests mac c close)
      | Inr outcome \<Rightarrow> so_sent (cl_socket c') = so_sent (cl_socket c) @ requests \<and>
          (\<exists>packet reply at. inspect_open_datagram mac packet (cl_runtime c) = Ok (OpenTrusted reply) \<and>
             opened_by mac reply at c c' outcome))"
proof (cases "prepare_open_request mac (cl_runtime c)")
  case (Inl e)
  with client_open_done [OF assms] show ?thesis by (auto simp: open_done_def unopened_def)
next
  case (Inr request)
  then obtain n where n: "n \<le> length (op_timeouts (cc_open (sm_config (cl_runtime c))))"
      "open_done mac (replicate n request) c c' r"
    using client_open_done [OF assms] by auto
  show ?thesis
    by (rule exI [of _ "replicate n request"]) (use n Inr in \<open>auto simp: open_done_def unopened_def split: sum.splits\<close>)
qed

theorem client_open_contract_witness:
  "\<exists>requests. so_sent (cl_socket adapter_opened) = so_sent (cl_socket adapter_connected) @ requests \<and>
     length requests \<le> length (op_timeouts (cc_open (sm_config (cl_runtime adapter_connected))))"
  using client_open_contract [OF adapter_opens] by auto

end
