(* ===== verification/Async_Client.thy ===== *)
theory Async_Client
  imports Client_Runs
begin

unbundle bit_operations_syntax

text \<open>
  The asynchronous client (\<open>irtt-client/src/async_client.rs\<close>): the adapter a Tokio task polls. A poll
  consumes the answers of the socket and of its deadline timer, one record per turn of its loop; a
  poll whose answers end while it would still wait is \<open>Pending\<close>, as is one whose work budget is
  spent. The state that survives between polls (the retained open request and probe, the state of
  an open transaction) is explicit. A failed \<open>expect\<close> or a reached \<open>unreachable\<close> is \<open>None\<close>.
\<close>

section \<open>State\<close>

record async_client =
  ac_socket :: udp_socket
  ac_machine :: session_machine
  ac_remote :: socket_addr
  ac_recv_buffer_len :: nat
  ac_applied_traffic_class :: "u8 option"
  ac_prepared_open :: "bytes option"
  ac_prepared_probe :: "prepared_probe option"
  ac_tx_timestamping_enabled :: bool

definition OPEN_POLL_WORK_BUDGET :: nat where "OPEN_POLL_WORK_BUDGET = 64"
definition RECV_POLL_WORK_BUDGET :: nat where "RECV_POLL_WORK_BUDGET = 64"

record prepared_async_open =
  pa_machine :: prepared_open_acceptance
  pa_recv_buffer_len :: "nat option"
  pa_negotiated_traffic_class :: "u8 option"

datatype async_open_cleanup =
    CleanupAcceptance client_error "bytes option"
  | CleanupAdapter client_error prepared_open_acceptance

fun cleanup_packet :: "async_open_cleanup \<Rightarrow> bytes option" where
  "cleanup_packet (CleanupAcceptance primary packet) = packet"
| "cleanup_packet (CleanupAdapter primary machine) = cleanup_close_packet machine"

fun into_primary :: "async_open_cleanup \<Rightarrow> client_error" where
  "into_primary (CleanupAcceptance primary packet) = primary"
| "into_primary (CleanupAdapter primary machine) = primary"

text \<open>The deadline and its timer are set and cleared together.\<close>

record async_open_state =
  aos_attempt :: nat
  aos_deadline :: "instant option"
  aos_request_submitted :: bool
  aos_cleanup :: "async_open_cleanup option"

definition open_state_new :: async_open_state where
  "open_state_new = \<lparr>aos_attempt = 0, aos_deadline = None, aos_request_submitted = False, aos_cleanup = None\<rparr>"

definition start_attempt :: "instant \<Rightarrow> duration \<Rightarrow> async_open_state \<Rightarrow> client_error + async_open_state" where
  "start_attempt now timeout st =
     bindr (ok_or DurationOverflow (instant_checked_add now timeout)) (\<lambda>deadline.
       Ok (st\<lparr>aos_deadline := Some deadline, aos_request_submitted := False\<rparr>))"

definition finish_attempt :: "async_open_state \<Rightarrow> async_open_state" where
  "finish_attempt st =
     st\<lparr>aos_attempt := aos_attempt st + 1, aos_deadline := None, aos_request_submitted := False\<rparr>"

definition has_in_flight_work :: "async_open_state \<Rightarrow> bool" where
  "has_in_flight_work st \<longleftrightarrow> aos_request_submitted st \<or> aos_cleanup st \<noteq> None"

definition async_connect ::
  "mac_fun \<Rightarrow> bool \<Rightarrow> client_error + socket_addr \<Rightarrow> client_error + udp_socket \<Rightarrow> client_config \<Rightarrow>
     client_error + async_client" where
  "async_connect mac runtime_present resolved socket config =
     (if \<not> runtime_present then Err NoTokioRuntime
      else
        bindr (validate_open_policy (cc_open config)) (\<lambda>_.
        bindr resolved (\<lambda>remote.
        bindr (machine_new config remote) (\<lambda>machine.
        bindr (prepare_open_request mac machine) (\<lambda>prepared_open.
        bindr socket (\<lambda>s.
        bindr (recv_buffer_size False None) (\<lambda>len.
          Ok \<lparr>ac_socket = s, ac_machine = machine, ac_remote = remote, ac_recv_buffer_len = len,
              ac_applied_traffic_class = None, ac_prepared_open = Some prepared_open,
              ac_prepared_probe = None, ac_tx_timestamping_enabled = False\<rparr>)))))))"

section \<open>Readiness\<close>

datatype readiness = IsReady | ReadyError io_error | NotReady

text \<open>\<open>poll_writable_until\<close> and \<open>poll_readable_until\<close>: readiness, or else the deadline timer.\<close>

fun poll_until :: "readiness \<Rightarrow> bool \<Rightarrow> (client_error + bool) poll" where
  "poll_until IsReady elapsed = Ready (Ok True)"
| "poll_until (ReadyError e) elapsed = Ready (Err (Socket e))"
| "poll_until NotReady elapsed = (if elapsed then Ready (Ok False) else Pending)"

section \<open>Shared steps\<close>

definition async_drain_tx_timestamps :: "tx_drain \<Rightarrow> async_client \<Rightarrow> (client_error + unit) \<times> async_client" where
  "async_drain_tx_timestamps drain a =
     (if \<not> ac_tx_timestamping_enabled a then (Ok (), a)
      else (case snd drain of None \<Rightarrow> Ok () | Some e \<Rightarrow> Err (Socket e),
            a\<lparr>ac_machine := record_all (fst drain) (ac_machine a)\<rparr>))"

definition discard_prepared_probe :: "async_client \<Rightarrow> async_client" where
  "discard_prepared_probe a = a\<lparr>ac_prepared_probe := None\<rparr>"

definition prepare_async_open ::
  "accept_io \<Rightarrow> prepared_open_acceptance \<Rightarrow> async_client \<Rightarrow> async_client \<times> (client_error + prepared_async_open)" where
  "prepare_async_open io machine a =
     (case normal_negotiated machine of
        None \<Rightarrow> (a, Ok \<lparr>pa_machine = machine, pa_recv_buffer_len = None, pa_negotiated_traffic_class = None\<rparr>)
      | Some negotiated \<Rightarrow>
          (case recv_buffer_size (has_hmac (ac_machine a)) (Some negotiated) of
             Inl primary \<Rightarrow> (a, Err primary)
           | Inr len \<Rightarrow>
               let traffic_class = push_bit 2 (ap_dscp (ng_accepted negotiated))
               in if \<not> ao_reserve_ok io then (a, Err (AllocationFailed ''negotiated receive buffer''))
                  else
                    (case apply_traffic_class_to_socket (ac_remote a) traffic_class (ao_apply io) (ac_socket a) of
                       (Inl primary, s) \<Rightarrow>
                         (a\<lparr>ac_socket := restore_dscp_best_effort (ac_remote a) (ac_applied_traffic_class a)
                                          (ao_restore io) s\<rparr>,
                          Err primary)
                     | (Inr _, s) \<Rightarrow>
                         (a\<lparr>ac_socket := s\<rparr>,
                          Ok \<lparr>pa_machine = machine, pa_recv_buffer_len = Some len,
                              pa_negotiated_traffic_class = Some traffic_class\<rparr>))))"

definition commit_async_open :: "bool \<Rightarrow> prepared_async_open \<Rightarrow> async_client \<Rightarrow> async_client \<times> open_outcome" where
  "commit_async_open tx_enabled prepared a =
     (let a = (case pa_recv_buffer_len prepared of None \<Rightarrow> a | Some len \<Rightarrow> a\<lparr>ac_recv_buffer_len := len\<rparr>);
          (m, outcome) = commit_open (pa_machine prepared) (ac_machine a)
      in (a\<lparr>ac_machine := m, ac_applied_traffic_class := pa_negotiated_traffic_class prepared,
            ac_prepared_open := None, ac_tx_timestamping_enabled := tx_enabled\<rparr>, outcome))"

section \<open>Opening\<close>

record open_poll_io =
  pi_now :: instant
  pi_writable :: readiness
  pi_write_elapsed :: bool
  pi_send :: "io_error + nat"
  pi_readable :: readiness
  pi_read_elapsed :: bool
  pi_recv :: recv_result
  pi_accept :: accept_io

type_synonym open_poll = "async_client \<times> async_open_state \<times> (client_error + open_outcome) poll"

definition poll_open_cleanup :: "open_poll_io \<Rightarrow> async_open_state \<Rightarrow> async_client \<Rightarrow> open_poll option" where
  "poll_open_cleanup io st a =
     Option.bind (aos_cleanup st) (\<lambda>cleanup.
       let finished = (\<lambda>a. Some (a, st\<lparr>aos_cleanup := None\<rparr>, Ready (Err (into_primary cleanup))))
       in case cleanup_packet cleanup of
            None \<Rightarrow> finished a
          | Some packet \<Rightarrow>
              (case socket_send packet (pi_send io) (ac_socket a) of
                 (Inr _, s) \<Rightarrow> finished (a\<lparr>ac_socket := s\<rparr>)
               | (Inl e, s) \<Rightarrow>
                   if \<not> is_would_block e then finished a
                   else Option.bind (aos_deadline st) (\<lambda>_.
                     case poll_until (pi_writable io) (pi_write_elapsed io) of
                       Pending \<Rightarrow> Some (a, st, Pending)
                     | Ready (Inr True) \<Rightarrow> Some (a, st, Pending)
                     | Ready _ \<Rightarrow> finished a)))"

text \<open>The turns of the loop: \<open>FlowNext\<close> falls through, \<open>FlowContinue\<close> is \<open>continue\<close>, \<open>FlowReturn\<close>
  is \<open>return\<close>.\<close>

datatype open_flow = FlowNext | FlowContinue | FlowReturn "(client_error + open_outcome) poll"

definition submit_request ::
  "open_poll_io \<Rightarrow> async_open_state \<Rightarrow> async_client \<Rightarrow> (async_client \<times> async_open_state \<times> open_flow) option" where
  "submit_request io st a =
     (if aos_request_submitted st then Some (a, st, FlowNext)
      else Option.bind (aos_deadline st) (\<lambda>_.
        case poll_until (pi_writable io) (pi_write_elapsed io) of
          Pending \<Rightarrow> Some (a, st, FlowReturn Pending)
        | Ready (Inl e) \<Rightarrow> Some (a, st, FlowReturn (Ready (Err e)))
        | Ready (Inr False) \<Rightarrow> Some (a, finish_attempt st, FlowContinue)
        | Ready (Inr True) \<Rightarrow>
            Option.bind (ac_prepared_open a) (\<lambda>request.
              case socket_send request (pi_send io) (ac_socket a) of
                (Inr n, s) \<Rightarrow>
                  let a1 = a\<lparr>ac_socket := s\<rparr>; st1 = st\<lparr>aos_request_submitted := True\<rparr>
                  in (case validate_datagram_length (length request) n of
                        Inl e \<Rightarrow> Some (a1, st1, FlowReturn (Ready (Err e)))
                      | Inr _ \<Rightarrow> Some (a1, st1, FlowNext))
              | (Inl e, s) \<Rightarrow>
                  if is_would_block e then Some (a, st, FlowContinue)
                  else Some (a, st, FlowReturn (Ready (Err (Socket e)))))))"

definition async_accept ::
  "mac_fun \<Rightarrow> open_poll_io \<Rightarrow> open_reply \<Rightarrow> client_timestamp \<Rightarrow> async_open_state \<Rightarrow> async_client \<Rightarrow>
     (async_client \<times> async_open_state \<times> open_flow) option" where
  "async_accept mac io reply at st a =
     map_option (\<lambda>accepted.
       case accepted of
         Inl failure \<Rightarrow>
           (a, st\<lparr>aos_cleanup := Some (CleanupAcceptance (of_primary failure) (of_cleanup_close failure))\<rparr>, FlowContinue)
       | Inr machine \<Rightarrow>
           (case prepare_async_open (pi_accept io) machine a of
              (a1, Inl primary) \<Rightarrow> (a1, st\<lparr>aos_cleanup := Some (CleanupAdapter primary machine)\<rparr>, FlowContinue)
            | (a1, Inr prepared) \<Rightarrow>
                let (a2, outcome) = commit_async_open (ao_tx_enabled (pi_accept io)) prepared a1
                in (a2, st, FlowReturn (Ready (Ok outcome)))))
       (prepare_open_acceptance mac reply at (ac_machine a))"

definition await_reply ::
  "mac_fun \<Rightarrow> open_poll_io \<Rightarrow> async_open_state \<Rightarrow> async_client \<Rightarrow>
     (async_client \<times> async_open_state \<times> open_flow) option" where
  "await_reply mac io st a =
     Option.bind (aos_deadline st) (\<lambda>deadline.
       case poll_until (pi_readable io) (pi_read_elapsed io) of
         Pending \<Rightarrow> Some (a, st, FlowReturn Pending)
       | Ready (Inl e) \<Rightarrow> Some (a, st, FlowReturn (Ready (Err e)))
       | Ready (Inr False) \<Rightarrow> Some (a, finish_attempt st, FlowContinue)
       | Ready (Inr True) \<Rightarrow>
           (case pi_recv io of
              RecvError e \<Rightarrow>
                if is_would_block e \<or> is_interrupted e then Some (a, st, FlowContinue)
                else Some (a, st, FlowReturn (Ready (Err (Socket e))))
            | RecvDatagram payload at meta \<Rightarrow>
                if deadline < ct_mono at then Some (a, finish_attempt st, FlowContinue)
                else
                  (case inspect_open_datagram mac (take MAX_OPEN_PACKET_SIZE payload) (ac_machine a) of
                     Inl e \<Rightarrow> Some (a, st, FlowReturn (Ready (Err e)))
                   | Inr OpenIgnore \<Rightarrow> Some (a, st, FlowContinue)
                   | Inr (OpenTrusted reply) \<Rightarrow> async_accept mac io reply at st a)))"

definition begin_attempt ::
  "open_poll_io \<Rightarrow> duration list \<Rightarrow> async_open_state \<Rightarrow> client_error + async_open_state" where
  "begin_attempt io timeouts st =
     (if aos_deadline st = None then start_attempt (pi_now io) (timeouts ! aos_attempt st) st else Ok st)"

fun poll_open_loop ::
  "mac_fun \<Rightarrow> nat \<Rightarrow> open_poll_io list \<Rightarrow> async_open_state \<Rightarrow> async_client \<Rightarrow> open_poll option" where
  "poll_open_loop mac 0 ios st a = Some (a, st, Pending)"
| "poll_open_loop mac (Suc budget) [] st a = Some (a, st, Pending)"
| "poll_open_loop mac (Suc budget) (io # ios) st a =
     (if aos_cleanup st \<noteq> None then poll_open_cleanup io st a
      else
        let timeouts = op_timeouts (cc_open (sm_config (ac_machine a)))
        in if length timeouts \<le> aos_attempt st then Some (a, st, Ready (Err OpenTimeout))
           else
             (case begin_attempt io timeouts st of
                Inl e \<Rightarrow> Some (a, st, Ready (Err e))
              | Inr st1 \<Rightarrow>
                  (case submit_request io st1 a of
                     None \<Rightarrow> None
                   | Some (a2, st2, FlowReturn r) \<Rightarrow> Some (a2, st2, r)
                   | Some (a2, st2, FlowContinue) \<Rightarrow> poll_open_loop mac budget ios st2 a2
                   | Some (a2, st2, FlowNext) \<Rightarrow>
                       (case await_reply mac io st2 a2 of
                          None \<Rightarrow> None
                        | Some (a3, st3, FlowReturn r) \<Rightarrow> Some (a3, st3, r)
                        | Some (a3, st3, _) \<Rightarrow> poll_open_loop mac budget ios st3 a3))))"

definition poll_open ::
  "mac_fun \<Rightarrow> open_poll_io list \<Rightarrow> async_open_state \<Rightarrow> async_client \<Rightarrow> open_poll option" where
  "poll_open mac ios st a =
     (if ac_prepared_open a = None then
        (case prepare_open_request mac (ac_machine a) of
           Inl e \<Rightarrow> Some (a, st, Ready (Err e))
         | Inr _ \<Rightarrow> None)
      else poll_open_loop mac OPEN_POLL_WORK_BUDGET ios st a)"

definition cancel_open ::
  "io_error + nat \<Rightarrow> async_open_state \<Rightarrow> async_client \<Rightarrow> async_client \<times> async_open_state \<times> client_error option" where
  "cancel_open answer st a =
     (case aos_cleanup st of
        None \<Rightarrow> (a, st, None)
      | Some cleanup \<Rightarrow>
          (a\<lparr>ac_socket := send_cleanup_close_best_effort (cleanup_packet cleanup) answer (ac_socket a)\<rparr>,
           st\<lparr>aos_cleanup := None\<rparr>, Some (into_primary cleanup)))"

section \<open>Sending\<close>

type_synonym send_poll_io = "readiness \<times> send_io"

fun send_probe_loop ::
  "send_poll_io list \<Rightarrow> async_client \<Rightarrow> (async_client \<times> (send_probe_error + send_receipt) poll) option" where
  "send_probe_loop [] a = Some (a, Pending)"
| "send_probe_loop ((NotReady, io) # script) a = Some (a, Pending)"
| "send_probe_loop ((ReadyError e, io) # script) a = Some (a, Ready (Err (NotCommitted (Socket e))))"
| "send_probe_loop ((IsReady, io) # script) a =
     Option.bind (ac_prepared_probe a) (\<lambda>prepared.
       case preflight_probe_commit (si_reserve_ok io) prepared (ac_machine a) of
         Inl e \<Rightarrow> Some (a, Ready (Err (NotCommitted e)))
       | Inr preflight \<Rightarrow>
           (case finalize_probe_commit preflight (si_anchor io) (ac_machine a) of
              Inl e \<Rightarrow> Some (a, Ready (Err (NotCommitted e)))
            | Inr commit \<Rightarrow>
                (case socket_send (pp_bytes prepared) (si_send io) (ac_socket a) of
                   (Inl e, s) \<Rightarrow>
                     let a1 = a\<lparr>ac_machine := invalidate_kernel_tx_correlation (ac_machine a)\<rparr>
                     in if is_would_block e then send_probe_loop script a1
                        else Some (a1, Ready (Err (NotCommitted (Socket e))))
                 | (Inr n, s) \<Rightarrow>
                     map_option (\<lambda>(m, sent).
                       let a1 = a\<lparr>ac_socket := s, ac_machine := m, ac_prepared_probe := None\<rparr>;
                           receipt = \<lparr>sr_seq = psent_seq sent, sr_remote = ac_remote a, sr_sent_at = psent_at sent,
                             sr_bytes = psent_bytes sent,
                             sr_send_call = saturating_duration_since (si_finished io) (si_start io)\<rparr>
                       in case validate_datagram_length (length (pp_bytes prepared)) n of
                            Inl e \<Rightarrow> (a1, Ready (Err (AfterCommit receipt e)))
                          | Inr _ \<Rightarrow>
                              (case async_drain_tx_timestamps (si_drain io) a1 of
                                 (Inl e, a2) \<Rightarrow> (a2, Ready (Err (AfterCommit receipt e)))
                               | (Inr _, a2) \<Rightarrow> (a2, Ready (Ok receipt))))
                       (commit_probe_sent commit (si_sent_at io) n (ac_machine a)))))"

definition poll_send_probe ::
  "mac_fun \<Rightarrow> send_poll_io list \<Rightarrow> async_client \<Rightarrow>
     (async_client \<times> (send_probe_error + send_receipt) poll) option" where
  "poll_send_probe mac script a =
     (case ensure_open (ac_machine a) of
        Inl e \<Rightarrow> Some (a, Ready (Err (NotCommitted e)))
      | Inr _ \<Rightarrow>
          if ac_prepared_probe a \<noteq> None then send_probe_loop script a
          else
            (case prepare_probe mac (ac_machine a) of
               Inl e \<Rightarrow> Some (a, Ready (Err (NotCommitted e)))
             | Inr prepared \<Rightarrow> send_probe_loop script (a\<lparr>ac_prepared_probe := Some prepared\<rparr>)))"

section \<open>Receiving\<close>

record recv_poll_io =
  rp_ready :: readiness
  rp_result :: recv_result
  rp_drain :: tx_drain
  rp_clear :: io_answer

definition async_received ::
  "mac_fun \<Rightarrow> recv_poll_io \<Rightarrow> bytes \<Rightarrow> client_timestamp \<Rightarrow> receive_meta \<Rightarrow> async_client \<Rightarrow>
     (async_client \<times> (client_error + client_event list) poll) option" where
  "async_received mac io payload at meta a =
     (case async_drain_tx_timestamps (rp_drain io) a of
        (Inl e, a1) \<Rightarrow> Some (a1, Ready (Err e))
      | (Inr _, a1) \<Rightarrow>
          map_option (\<lambda>(m, result).
            let a2 = a1\<lparr>ac_machine := m\<rparr>
            in case result of
                 Inl e \<Rightarrow> (a2, Ready (Err e))
               | Inr events \<Rightarrow>
                   if is_peer_closed m then
                     (case clear_dscp_on_socket (ac_remote a2) (rp_clear io) (ac_socket a2) of
                        (Inl _, s) \<Rightarrow> (a2\<lparr>ac_prepared_probe := None, ac_socket := s\<rparr>, Ready (Ok events))
                      | (Inr _, s) \<Rightarrow>
                          (a2\<lparr>ac_prepared_probe := None, ac_socket := s, ac_applied_traffic_class := None\<rparr>,
                           Ready (Ok events)))
                   else (a2, Ready (Ok events)))
            (process_received_echo_packet mac (take (ac_recv_buffer_len a1) payload) at meta (ac_machine a1)))"

fun poll_recv_loop ::
  "mac_fun \<Rightarrow> nat \<Rightarrow> recv_poll_io list \<Rightarrow> async_client \<Rightarrow>
     (async_client \<times> (client_error + client_event list) poll) option" where
  "poll_recv_loop mac 0 ios a = Some (a, Pending)"
| "poll_recv_loop mac (Suc budget) [] a = Some (a, Pending)"
| "poll_recv_loop mac (Suc budget) (io # ios) a =
     (case rp_ready io of
        NotReady \<Rightarrow> Some (a, Pending)
      | ReadyError e \<Rightarrow> Some (a, Ready (Err (Socket e)))
      | IsReady \<Rightarrow>
          (case rp_result io of
             RecvError e \<Rightarrow>
               if is_would_block e \<or> is_interrupted e then poll_recv_loop mac budget ios a
               else Some (a, Ready (Err (Socket e)))
           | RecvDatagram payload at meta \<Rightarrow> async_received mac io payload at meta a))"

definition poll_recv ::
  "mac_fun \<Rightarrow> recv_poll_io list \<Rightarrow> async_client \<Rightarrow>
     (async_client \<times> (client_error + client_event list) poll) option" where
  "poll_recv mac ios a =
     (case ensure_open (ac_machine a) of
        Inl e \<Rightarrow> Some (a, Ready (Err e))
      | Inr _ \<Rightarrow> poll_recv_loop mac RECV_POLL_WORK_BUDGET ios a)"

definition async_poll_timeouts_bounded_at ::
  "tx_drain \<Rightarrow> instant \<Rightarrow> nat \<Rightarrow> async_client \<Rightarrow> (async_client \<times> (client_error + timeout_batch)) option" where
  "async_poll_timeouts_bounded_at drain now limit a =
     (case async_drain_tx_timestamps drain a of
        (Inl e, a1) \<Rightarrow> Some (a1, Err e)
      | (Inr _, a1) \<Rightarrow>
          map_option (\<lambda>(m, result). (a1\<lparr>ac_machine := m\<rparr>, result)) (poll_timeouts_bounded_at now limit (ac_machine a1)))"

definition async_poll_timeouts_at ::
  "tx_drain \<Rightarrow> instant \<Rightarrow> async_client \<Rightarrow> (async_client \<times> (client_error + client_event list)) option" where
  "async_poll_timeouts_at drain now a =
     (case async_drain_tx_timestamps drain a of
        (Inl e, a1) \<Rightarrow> Some (a1, Err e)
      | (Inr _, a1) \<Rightarrow>
          map_option (\<lambda>(m, result). (a1\<lparr>ac_machine := m\<rparr>, result)) (poll_timeouts_at now (ac_machine a1)))"

section \<open>Closing\<close>

text \<open>\<open>DscpRollback\<close>: an explicit restore reports its error; a dropped guard that is still armed
  restores once more and ignores it.\<close>

definition rollback_restore ::
  "socket_addr \<Rightarrow> u8 option \<Rightarrow> io_answer \<Rightarrow> udp_socket \<Rightarrow> (client_error + unit) \<times> udp_socket" where
  "rollback_restore remote previous answer s =
     (case previous of
        Some traffic_class \<Rightarrow> apply_traffic_class_to_socket remote traffic_class answer s
      | None \<Rightarrow> clear_dscp_on_socket remote answer s)"

record close_poll_io =
  cp_reserve_ok :: bool
  cp_ready :: readiness
  cp_clear :: io_answer
  cp_send :: "io_error + nat"
  cp_restore :: io_answer
  cp_drop :: io_answer
  cp_sent_at :: client_timestamp

fun poll_close ::
  "close_poll_io list \<Rightarrow> async_client \<Rightarrow> async_client \<times> (client_error + client_event list) poll" where
  "poll_close [] a = (a, Pending)"
| "poll_close (io # ios) a =
     (case prepare_close (ac_machine a) of
        Inl e \<Rightarrow> (a, Ready (Err e))
      | Inr (packet, commit) \<Rightarrow>
          if \<not> cp_reserve_ok io then (a, Ready (Err (AllocationFailed ''close event result'')))
          else
            (case cp_ready io of
               NotReady \<Rightarrow> (a, Pending)
             | ReadyError e \<Rightarrow> (a, Ready (Err (Socket e)))
             | IsReady \<Rightarrow>
                 (case clear_dscp_on_socket (ac_remote a) (cp_clear io) (ac_socket a) of
                    (Inl e, s) \<Rightarrow> (a\<lparr>ac_socket := s\<rparr>, Ready (Err e))
                  | (Inr _, s) \<Rightarrow>
                      (case socket_send packet (cp_send io) s of
                         (Inl e, s1) \<Rightarrow>
                           (case rollback_restore (ac_remote a) (ac_applied_traffic_class a) (cp_restore io) s1 of
                              (Inl e', s2) \<Rightarrow>
                                if is_would_block e then
                                  (a\<lparr>ac_socket := snd (rollback_restore (ac_remote a) (ac_applied_traffic_class a)
                                                      (cp_drop io) s2)\<rparr>, Ready (Err e'))
                                else (a\<lparr>ac_socket := s2\<rparr>, Ready (Err (Socket e)))
                            | (Inr _, s2) \<Rightarrow>
                                if is_would_block e then poll_close ios (a\<lparr>ac_socket := s2\<rparr>)
                                else (a\<lparr>ac_socket := s2\<rparr>, Ready (Err (Socket e))))
                       | (Inr n, s1) \<Rightarrow>
                           let (m, event) = commit_local_close commit (cp_sent_at io) (ac_machine a);
                               a1 = a\<lparr>ac_socket := s1, ac_machine := m, ac_prepared_probe := None,
                                      ac_applied_traffic_class := None\<rparr>
                           in (case validate_datagram_length (length packet) n of
                                 Inl e \<Rightarrow> (a1, Ready (Err e))
                               | Inr _ \<Rightarrow> (a1, Ready (Ok [event])))))))"

end
