(* ===== verification/Async_Runs.thy ===== *)
theory Async_Runs
  imports Async_Client
begin

text \<open>
  Runs of the asynchronous client: every interleaving of its polls, with open transactions dropped
  and started anew at will. A view maps it to the blocking client, so that the lemmas on one
  send, drain and close carry over; what a poll retains for the next one (the open request, the
  prepared probe, the deadline of an attempt) is the invariant of the run.
\<close>

section \<open>Runs\<close>

fun polled :: "(client_error + client_event list) poll \<Rightarrow> client_event list" where
  "polled Pending = []"
| "polled (Ready r) = delivered r"

fun polled_sent :: "(send_probe_error + send_receipt) poll \<Rightarrow> client_event list" where
  "polled_sent Pending = []"
| "polled_sent (Ready r) = sent_event r"

inductive async_run ::
  "mac_fun \<Rightarrow> client_config \<Rightarrow> async_client \<Rightarrow> async_open_state \<Rightarrow> instant \<Rightarrow> client_event list \<Rightarrow> bool"
  for mac config where
  ar_connect: "async_connect mac present resolved socket config = Ok a \<Longrightarrow> async_run mac config a open_state_new t []"
| ar_restart: "async_run mac config a st t out \<Longrightarrow> async_run mac config a open_state_new t out"
| ar_open: "async_run mac config a st t out \<Longrightarrow> poll_open mac ios st a = Some (a', st', opened) \<Longrightarrow>
    async_run mac config a' st' t out"
| ar_cancel: "async_run mac config a st t out \<Longrightarrow> cancel_open answer st a = (a', st', e) \<Longrightarrow>
    async_run mac config a' st' t out"
| ar_send: "async_run mac config a st t out \<Longrightarrow> t \<le> t' \<Longrightarrow>
    list_all (\<lambda>(_, io). t \<le> ct_mono (si_anchor io) \<and> ct_mono (si_anchor io) \<le> t') script \<Longrightarrow>
    poll_send_probe mac script a = Some (a', sent) \<Longrightarrow>
    async_run mac config a' st t' (out @ polled_sent sent)"
| ar_recv: "async_run mac config a st t out \<Longrightarrow> poll_recv mac rios a = Some (a', r) \<Longrightarrow>
    async_run mac config a' st t (out @ polled r)"
| ar_poll: "async_run mac config a st t out \<Longrightarrow> async_poll_timeouts_at drain now a = Some (a', q) \<Longrightarrow>
    async_run mac config a' st t (out @ delivered q)"
| ar_poll_bounded: "async_run mac config a st t out \<Longrightarrow>
    async_poll_timeouts_bounded_at drain now limit a = Some (a', b) \<Longrightarrow>
    async_run mac config a' st t (out @ delivered (bindr b (\<lambda>batch. Ok (tb_events batch))))"
| ar_close: "async_run mac config a st t out \<Longrightarrow> poll_close cios a = (a', r) \<Longrightarrow>
    async_run mac config a' st t (out @ polled r)"
| ar_discard: "async_run mac config a st t out \<Longrightarrow> async_run mac config (discard_prepared_probe a) st t out"

section \<open>The blocking view\<close>

definition blocking_view :: "async_client \<Rightarrow> client" where
  "blocking_view a =
     \<lparr>cl_runtime = ac_machine a, cl_socket = ac_socket a, cl_remote = ac_remote a,
      cl_recv_buffer_len = ac_recv_buffer_len a, cl_recv_timeout = None,
      cl_applied_traffic_class = ac_applied_traffic_class a,
      cl_tx_timestamping_enabled = ac_tx_timestamping_enabled a\<rparr>"

lemma blocking_view_simps [simp]:
  "cl_runtime (blocking_view a) = ac_machine a" "cl_socket (blocking_view a) = ac_socket a"
  "cl_remote (blocking_view a) = ac_remote a" "cl_applied_traffic_class (blocking_view a) = ac_applied_traffic_class a"
  "blocking_view (a\<lparr>ac_socket := s\<rparr>) = blocking_view a\<lparr>cl_socket := s\<rparr>"
  "blocking_view (a\<lparr>ac_machine := m\<rparr>) = blocking_view a\<lparr>cl_runtime := m\<rparr>"
  "blocking_view (a\<lparr>ac_prepared_probe := p\<rparr>) = blocking_view a"
  by (simp_all add: blocking_view_def)

lemma accounted_cong:
  "cl_remote c' = cl_remote c \<Longrightarrow> cl_runtime c' = cl_runtime c \<Longrightarrow> accounted mac config c' t out = accounted mac config c t out"
  using simulated_cong [of c' c] by (simp add: accounted_def)

lemma accounted_later: "accounted mac config c t out \<Longrightarrow> t \<le> t' \<Longrightarrow> accounted mac config c t' out"
  unfolding accounted_def simulated_def by (meson order_trans)

lemma accounted_simulated: "accounted mac config c t out \<Longrightarrow> simulated mac config c t (returned out)"
  by (simp add: accounted_def)

section \<open>What is retained between polls\<close>

definition retained :: "mac_fun \<Rightarrow> async_client \<Rightarrow> bool" where
  "retained mac a \<longleftrightarrow>
     (case ac_prepared_open a of
        None \<Rightarrow> sm_state (ac_machine a) \<noteq> MsConnected
      | Some request \<Rightarrow> prepare_open_request mac (ac_machine a) = Ok request) \<and>
     (case ac_prepared_probe a of None \<Rightarrow> True | Some p \<Rightarrow> prepare_probe mac (ac_machine a) = Ok p)"

definition open_state_ok :: "async_open_state \<Rightarrow> bool" where
  "open_state_ok st \<longleftrightarrow> (has_in_flight_work st \<longrightarrow> aos_deadline st \<noteq> None)"

definition async_inv ::
  "mac_fun \<Rightarrow> client_config \<Rightarrow> async_client \<Rightarrow> async_open_state \<Rightarrow> instant \<Rightarrow> client_event list \<Rightarrow> bool" where
  "async_inv mac config a st t out \<longleftrightarrow>
     accounted mac config (blocking_view a) t out \<and> retained mac a \<and> open_state_ok st"

lemma open_state_new_ok [simp]: "open_state_ok open_state_new"
  by (simp add: open_state_ok_def open_state_new_def has_in_flight_work_def)

lemma prepare_open_connected: "prepare_open_request mac m = Ok q \<Longrightarrow> sm_state m = MsConnected"
  by (cases "sm_state m") (auto simp: prepare_open_request_def ensure_connected_def)

lemma prepare_open_refused: "sm_state m \<noteq> MsConnected \<Longrightarrow> \<exists>e. prepare_open_request mac m = Err e"
  by (cases "sm_state m") (auto simp: prepare_open_request_def ensure_connected_def)

lemma prepare_probe_open: "prepare_probe mac m = Ok p \<Longrightarrow> \<exists>s. sm_state m = MsOpen s"
  by (cases "sm_state m") (auto simp: prepare_probe_def open_session_def)

text \<open>A step of the machine that keeps what the client retained, unless the peer closed.\<close>

definition keeps_retained :: "mac_fun \<Rightarrow> session_machine \<Rightarrow> session_machine \<Rightarrow> bool" where
  "keeps_retained mac m m' \<longleftrightarrow>
     (m' = m \<or> (sm_state m \<noteq> MsConnected \<and> sm_state m' \<noteq> MsConnected)) \<and>
     (is_peer_closed m' \<or> prepare_probe mac m' = prepare_probe mac m)"

lemma keeps_refl [simp]: "keeps_retained mac m m"
  by (simp add: keeps_retained_def)

lemma retained_step:
  assumes "retained mac a" "keeps_retained mac (ac_machine a) m'"
    "ac_machine a' = m'" "ac_prepared_open a' = ac_prepared_open a"
    "ac_prepared_probe a' = (if is_peer_closed m' then None else ac_prepared_probe a) \<or> ac_prepared_probe a' = None"
  shows "retained mac a'"
  using assms prepare_open_connected
  by (fastforce simp: retained_def keeps_retained_def split: option.splits if_splits)

lemma same_identity_probe:
  "sm_state m = MsOpen s \<Longrightarrow> same_identity s s' \<Longrightarrow> as_next_wire_seq s' = as_next_wire_seq s \<Longrightarrow>
     prepare_probe mac (m\<lparr>sm_state := MsOpen s'\<rparr>) = prepare_probe mac m"
  by (simp add: prepare_probe_def open_session_def same_identity_def machine_hmac_key_def)

lemma keeps_record: "keeps_retained mac m (record_all stamps m)" "prepare_probe mac (record_all stamps m) = prepare_probe mac m"
proof -
  have one: "(record_kernel_tx_timestamp k stamp m = m \<or>
      sm_state m \<noteq> MsConnected \<and> sm_state (record_kernel_tx_timestamp k stamp m) \<noteq> MsConnected) \<and>
      prepare_probe mac (record_kernel_tx_timestamp k stamp m) = prepare_probe mac m" for k stamp m
    by (cases "sm_state m")
       (simp_all add: record_kernel_tx_timestamp_def session_record_tx_def prepare_probe_def open_session_def machine_hmac_key_def)
  have "(record_all stamps m = m \<or> sm_state m \<noteq> MsConnected \<and> sm_state (record_all stamps m) \<noteq> MsConnected) \<and>
      prepare_probe mac (record_all stamps m) = prepare_probe mac m"
  proof (induction stamps arbitrary: m)
    case (Cons x xs)
    have "record_all (x # xs) m = record_all xs (record_kernel_tx_timestamp (fst x) (snd x) m)"
      by (simp add: record_all_def split: prod.split)
    with Cons [of "record_kernel_tx_timestamp (fst x) (snd x) m"] one [where k = "fst x" and stamp = "snd x" and m = m] show ?case by metis
  qed simp
  then show "keeps_retained mac m (record_all stamps m)" "prepare_probe mac (record_all stamps m) = prepare_probe mac m"
    by (simp_all add: keeps_retained_def)
qed

lemma keeps_invalidate:
  "keeps_retained mac m (invalidate_kernel_tx_correlation m)"
  "prepare_probe mac (invalidate_kernel_tx_correlation m) = prepare_probe mac m"
  "invalidate_kernel_tx_correlation (invalidate_kernel_tx_correlation m) = invalidate_kernel_tx_correlation m"
  by (cases "sm_state m"; simp add: keeps_retained_def invalidate_kernel_tx_correlation_def prepare_probe_def
      open_session_def machine_hmac_key_def)+

lemma classify_keeps:
  "classify_reply remote reply n now meta s = Some (s', e) \<Longrightarrow> same_identity s s' \<and> as_next_wire_seq s' = as_next_wire_seq s"
  by (auto simp: classify_reply_def Let_def measured_late_reply_def bind_eq_Some_conv same_identity_def
      split: option.split_asm if_split_asm prod.split_asm)

lemma keeps_receive:
  assumes "process_received_echo_packet mac packet now meta m = Some (m', r)"
  shows "keeps_retained mac m m'"
proof (cases "sm_state m")
  case (MsOpen s)
  show ?thesis
  proof (cases "decode_echo_reply mac packet (ng_peer_params (as_negotiated s)) (machine_hmac_key m)")
    case (Inr reply)
    with assms MsOpen classify_keeps [of "sm_remote m" reply "length packet" now meta s] same_identity_probe [OF MsOpen] show ?thesis
      by (auto simp: process_received_echo_packet_def open_session_def process_echo_reply_def keeps_retained_def
          is_peer_closed_def split: if_split_asm)
  qed (use assms MsOpen in \<open>auto simp: process_received_echo_packet_def open_session_def\<close>)
qed (use assms in \<open>auto simp: process_received_echo_packet_def open_session_def\<close>)

lemma keeps_poll:
  assumes "poll_timeouts_bounded_at now limit m = Some (m', b)"
  shows "keeps_retained mac m m' \<and> \<not> (is_peer_closed m' \<and> \<not> is_peer_closed m) \<and> packets_sent m' = packets_sent m \<and>
     list_all (\<lambda>e. \<not> is_sent e) (delivered (bindr b (\<lambda>batch. Ok (tb_events batch))))"
proof (cases "sm_state m")
  case (MsOpen s)
  with assms same_identity_probe [OF MsOpen] show ?thesis
    by (auto simp: poll_timeouts_bounded_at_def open_session_def session_poll_timeouts_def packets_sent_def
        bind_eq_Some_conv echo_loss_def list_all_iff keeps_retained_def is_peer_closed_def same_identity_def)
qed (use assms in \<open>auto simp: poll_timeouts_bounded_at_def open_session_def\<close>)

section \<open>Sending\<close>

lemma drain_view:
  "async_drain_tx_timestamps drain a = (r, a') \<Longrightarrow> client_drain_tx_timestamps drain (blocking_view a) = (r, blocking_view a')"
  by (auto simp: async_drain_tx_timestamps_def client_drain_tx_timestamps_def blocking_view_def split: if_splits)

lemma drain_async:
  assumes "async_drain_tx_timestamps drain a = (r, a')"
  shows "\<exists>stamps. a' = a\<lparr>ac_machine := record_all stamps (ac_machine a)\<rparr>"
proof (cases "ac_tx_timestamping_enabled a")
  case False
  with assms show ?thesis by (intro exI [of _ "[]"]) (simp add: async_drain_tx_timestamps_def)
qed (use assms in \<open>auto simp: async_drain_tx_timestamps_def\<close>)

text \<open>One turn of the send loop is a send of the blocking client, unless the socket would block.\<close>

lemma send_turn:
  assumes p: "ac_prepared_probe a = Some p" "prepare_probe mac (ac_machine a) = Ok p"
    and sent: "client_send_probe mac io (blocking_view a) = Some (c, r)"
  shows "send_probe_loop ((IsReady, io) # script) a =
      send_probe_loop script (a\<lparr>ac_machine := invalidate_kernel_tx_correlation (ac_machine a)\<rparr>) \<or>
    (\<exists>a'. send_probe_loop ((IsReady, io) # script) a = Some (a', Ready r) \<and> blocking_view a' = c \<and>
       ac_prepared_open a' = ac_prepared_open a \<and>
       (case receipt_of r of
          None \<Rightarrow> a' \<in> {a, a\<lparr>ac_machine := invalidate_kernel_tx_correlation (ac_machine a)\<rparr>}
        | Some _ \<Rightarrow> ac_prepared_probe a' = None))"
proof (cases "\<exists>pf commit n m q. preflight_probe_commit (si_reserve_ok io) p (ac_machine a) = Ok pf \<and>
    finalize_probe_commit pf (si_anchor io) (ac_machine a) = Ok commit \<and> si_send io = Inr n \<and>
    commit_probe_sent commit (si_sent_at io) n (ac_machine a) = Some (m, q)")
  case True
  then obtain pf commit n m q where steps: "preflight_probe_commit (si_reserve_ok io) p (ac_machine a) = Ok pf"
      "finalize_probe_commit pf (si_anchor io) (ac_machine a) = Ok commit" "si_send io = Inr n"
      "commit_probe_sent commit (si_sent_at io) n (ac_machine a) = Some (m, q)" by blast
  define a1 where "a1 = a\<lparr>ac_socket := (ac_socket a)\<lparr>so_sent := so_sent (ac_socket a) @ [pp_bytes p]\<rparr>,
    ac_machine := m, ac_prepared_probe := None\<rparr>"
  obtain d a2 where d: "async_drain_tx_timestamps (si_drain io) a1 = (d, a2)" by fastforce
  have v: "(blocking_view a)\<lparr>cl_socket := (ac_socket a)\<lparr>so_sent := so_sent (ac_socket a) @ [pp_bytes p]\<rparr>, cl_runtime := m\<rparr> =
      blocking_view a1" by (simp add: a1_def blocking_view_def)
  obtain stamps where a2: "a2 = a1\<lparr>ac_machine := record_all stamps (ac_machine a1)\<rparr>" using drain_async [OF d] by blast
  have kept: "ac_prepared_open a1 = ac_prepared_open a" "ac_prepared_probe a1 = None"
      "ac_prepared_open a2 = ac_prepared_open a" "ac_prepared_probe a2 = None" by (simp_all add: a1_def a2)
  show ?thesis
    using sent p steps d drain_view [OF d] kept
    by (auto simp: client_send_probe_def socket_send_def v a1_def [symmetric] Let_def split: sum.splits)
next
  case False
  with sent p show ?thesis
    by (auto simp: client_send_probe_def socket_send_def Let_def simp del: blocking_view_simps(5,6)
        simp: blocking_view_simps(6) [symmetric] blocking_view_def
        split: sum.splits)
qed

lemma accounted_invalidate:
  assumes "accounted mac config (blocking_view a) t out"
  shows "accounted mac config (blocking_view (a\<lparr>ac_machine := invalidate_kernel_tx_correlation (ac_machine a)\<rparr>)) t out"
  using assms machine_run.run_send_failed unfolding accounted_def simulated_def by fastforce

lemma retained_probe:
  "retained mac a \<Longrightarrow> prepare_probe mac (ac_machine a) = Ok p \<Longrightarrow> ac_prepared_open a = None"
  using prepare_open_connected prepare_probe_open by (fastforce simp: retained_def split: option.splits)

lemma retained_prepared:
  "retained mac a \<Longrightarrow> prepare_probe mac (ac_machine a) = Ok p \<Longrightarrow> retained mac (a\<lparr>ac_prepared_probe := Some p\<rparr>)"
  by (simp add: retained_def split: option.splits)

lemma invalidate_peer_closed: "is_peer_closed (invalidate_kernel_tx_correlation m) = is_peer_closed m"
  by (cases "sm_state m") (simp_all add: invalidate_kernel_tx_correlation_def is_peer_closed_def)

lemma retained_not_closed: "retained mac a \<Longrightarrow> is_peer_closed (ac_machine a) \<Longrightarrow> ac_prepared_probe a = None"
  using prepare_probe_open by (fastforce simp: retained_def is_peer_closed_def split: option.splits)

lemma retained_keep:
  assumes "retained mac a" "keeps_retained mac (ac_machine a) m" "is_peer_closed m \<Longrightarrow> is_peer_closed (ac_machine a)"
  shows "retained mac (a\<lparr>ac_machine := m\<rparr>)"
  using retained_step [OF assms(1,2), of "a\<lparr>ac_machine := m\<rparr>"] retained_not_closed [OF assms(1)] assms(3)
  by (cases "is_peer_closed m") simp_all

lemma retained_invalidate:
  "retained mac a \<Longrightarrow> retained mac (a\<lparr>ac_machine := invalidate_kernel_tx_correlation (ac_machine a)\<rparr>)"
  by (erule retained_keep [OF _ keeps_invalidate(1)]) (simp add: invalidate_peer_closed)

text \<open>What a poll of a send leaves when it produced no receipt.\<close>

definition send_retains :: "async_client \<Rightarrow> async_client \<Rightarrow> bool" where
  "send_retains a a' \<longleftrightarrow> a' \<in> {a, a\<lparr>ac_machine := invalidate_kernel_tx_correlation (ac_machine a)\<rparr>}"

lemma send_retains_trans:
  "send_retains (a\<lparr>ac_machine := invalidate_kernel_tx_correlation (ac_machine a)\<rparr>) a' \<Longrightarrow> send_retains a a'"
  by (auto simp: send_retains_def keeps_invalidate(3))

definition send_polled ::
  "mac_fun \<Rightarrow> client_config \<Rightarrow> instant \<Rightarrow> client_event list \<Rightarrow> async_client \<Rightarrow>
     (send_probe_error + send_receipt) poll \<Rightarrow> bool" where
  "send_polled mac config t out a' r \<longleftrightarrow>
     accounted mac config (blocking_view a') t (out @ polled_sent r) \<and> retained mac a'"

lemma sent_event_Nil: "sent_event r = [] \<longleftrightarrow> receipt_of r = None"
  by (simp add: sent_event_def split: option.split)

lemma retained_sent:
  assumes "retained mac a" "prepare_probe mac (ac_machine a) = Ok p" "0 < unat (packets_sent (ac_machine a'))"
    "ac_prepared_open a' = ac_prepared_open a" "ac_prepared_probe a' = None"
  shows "retained mac a'"
proof -
  have "sm_state (ac_machine a') \<noteq> MsConnected" using assms(3) by (auto simp: packets_sent_def)
  with assms retained_probe [OF assms(1,2)] show ?thesis by (simp add: retained_def)
qed

lemma send_loop:
  assumes "accounted mac config (blocking_view a) t out" "retained mac a" "ac_prepared_probe a = Some p" "t \<le> t'"
    "list_all (\<lambda>(_, io). t \<le> ct_mono (si_anchor io) \<and> ct_mono (si_anchor io) \<le> t') script"
  shows "\<exists>a' r. send_probe_loop script a = Some (a', r) \<and> send_polled mac config t' out a' r"
  using assms
proof (induction script arbitrary: a)
  case Nil
  then show ?case by (simp add: send_polled_def accounted_later)
next
  case (Cons x script)
  obtain ready io where x: "x = (ready, io)" by fastforce
  have p: "prepare_probe mac (ac_machine a) = Ok p" using Cons.prems by (simp add: retained_def)
  note sim = accounted_simulated [OF Cons.prems(1)]
  have idle: "send_polled mac config t' out a r" if "polled_sent r = []" for r
    using that Cons.prems by (simp add: send_polled_def accounted_later)
  show ?case
  proof (cases ready)
    case IsReady
    obtain c r where sent: "client_send_probe mac io (blocking_view a) = Some (c, r)"
      using send_probe_total [OF sim] by fastforce
    let ?b = "a\<lparr>ac_machine := invalidate_kernel_tx_correlation (ac_machine a)\<rparr>"
    have again: "\<exists>a' r. send_probe_loop script ?b = Some (a', r) \<and> send_polled mac config t' out a' r"
      using Cons.IH [of ?b] Cons.prems accounted_invalidate retained_invalidate by (fastforce simp: x)
    have times: "t \<le> ct_mono (si_anchor io)" "ct_mono (si_anchor io) \<le> t'" using Cons.prems by (simp_all add: x)
    have acc: "accounted mac config c t' (out @ sent_event r)"
      by (rule accounted_later [OF accounted_send [OF Cons.prems(1) times(1) sent] times(2)])
    note counts = send_counts [OF sim sent]
    show ?thesis
      using send_turn [OF Cons.prems(3) p sent, of script]
    proof (elim disjE exE conjE)
      fix a' assume a': "send_probe_loop ((IsReady, io) # script) a = Some (a', Ready r)" "blocking_view a' = c"
        "ac_prepared_open a' = ac_prepared_open a"
        "case receipt_of r of None \<Rightarrow> a' \<in> {a, ?b} | Some _ \<Rightarrow> ac_prepared_probe a' = None"
      have m: "ac_machine a' = cl_runtime c" using a'(2) by auto
      have "send_polled mac config t' out a' (Ready r)"
      proof (cases "receipt_of r")
        case None
        with a' acc Cons.prems(2) retained_invalidate show ?thesis
          by (auto simp: send_polled_def sent_event_Nil)
      next
        case (Some receipt)
        with a' acc counts m retained_sent [OF Cons.prems(2) p, of a'] show ?thesis
          by (auto simp: send_polled_def sent_event_Nil)
      qed
      with a'(1) IsReady show ?thesis by (auto simp: x)
    qed (use again IsReady in \<open>simp add: x\<close>)
  qed (use idle in \<open>simp_all add: x sent_event_Nil\<close>)
qed

lemma send_loop_retains:
  assumes "accounted mac config (blocking_view a) t out" "retained mac a" "ac_prepared_probe a = Some p"
  shows "\<exists>a' r. send_probe_loop script a = Some (a', r) \<and> (polled_sent r = [] \<longrightarrow> send_retains a a')"
  using assms
proof (induction script arbitrary: a)
  case (Cons x script)
  obtain ready io where x: "x = (ready, io)" by fastforce
  have p: "prepare_probe mac (ac_machine a) = Ok p" using Cons.prems by (simp add: retained_def)
  show ?case
  proof (cases ready)
    case IsReady
    obtain c r where sent: "client_send_probe mac io (blocking_view a) = Some (c, r)"
      using send_probe_total [OF accounted_simulated [OF Cons.prems(1)]] by fastforce
    let ?b = "a\<lparr>ac_machine := invalidate_kernel_tx_correlation (ac_machine a)\<rparr>"
    have "\<exists>a' r. send_probe_loop script ?b = Some (a', r) \<and> (polled_sent r = [] \<longrightarrow> send_retains a a')"
      using Cons.IH [of ?b] Cons.prems accounted_invalidate retained_invalidate send_retains_trans by fastforce
    with send_turn [OF Cons.prems(3) p sent, of script] IsReady show ?thesis
      by (auto simp: x send_retains_def sent_event_Nil split: option.splits)
  qed (simp_all add: x send_retains_def)
qed (simp add: send_retains_def)

lemma poll_send_cases:
  assumes "retained mac a"
  shows "(\<exists>e. poll_send_probe mac script a = Some (a, Ready (Err (NotCommitted e)))) \<or>
     (\<exists>p. prepare_probe mac (ac_machine a) = Ok p \<and> retained mac (a\<lparr>ac_prepared_probe := Some p\<rparr>) \<and>
        poll_send_probe mac script a = send_probe_loop script (a\<lparr>ac_prepared_probe := Some p\<rparr>))"
proof (cases "prepare_probe mac (ac_machine a)")
  case (Inl e)
  with assms have "ac_prepared_probe a = None" by (auto simp: retained_def split: option.splits)
  with Inl show ?thesis by (simp add: poll_send_probe_def split: sum.split)
next
  case (Inr p)
  have "ensure_open (ac_machine a) = Ok ()"
    using Inr by (cases "open_session (ac_machine a)") (auto simp: prepare_probe_def ensure_open_def)
  moreover have "a\<lparr>ac_prepared_probe := Some p\<rparr> = a" if "ac_prepared_probe a \<noteq> None"
    using that Inr assms by (cases a) (auto simp: retained_def)
  ultimately show ?thesis using Inr retained_prepared [OF assms Inr] by (auto simp: poll_send_probe_def)
qed

lemma poll_send:
  assumes "accounted mac config (blocking_view a) t out" "retained mac a" "t \<le> t'"
    "list_all (\<lambda>(_, io). t \<le> ct_mono (si_anchor io) \<and> ct_mono (si_anchor io) \<le> t') script"
  shows "\<exists>a' r. poll_send_probe mac script a = Some (a', r) \<and>
     accounted mac config (blocking_view a') t' (out @ polled_sent r) \<and> retained mac a'"
  using poll_send_cases [OF assms(2), of script]
proof (elim disjE exE conjE)
  fix p assume "retained mac (a\<lparr>ac_prepared_probe := Some p\<rparr>)"
    "poll_send_probe mac script a = send_probe_loop script (a\<lparr>ac_prepared_probe := Some p\<rparr>)"
  then show ?thesis
    using send_loop [of mac config "a\<lparr>ac_prepared_probe := Some p\<rparr>" t out p t' script] assms
    by (auto simp: send_polled_def)
qed (use assms in \<open>auto simp: sent_event_def accounted_later\<close>)

lemma poll_send_retains:
  assumes "accounted mac config (blocking_view a) t out" "retained mac a"
  shows "\<exists>a' r. poll_send_probe mac script a = Some (a', r) \<and>
     (polled_sent r = [] \<longrightarrow> ac_socket a' = ac_socket a \<and> packets_sent (ac_machine a') = packets_sent (ac_machine a)) \<and>
     (r = Pending \<longrightarrow> (\<exists>p. prepare_probe mac (ac_machine a) = Ok p \<and> ac_prepared_probe a' = Some p))"
  using poll_send_cases [OF assms(2), of script]
proof (elim disjE exE conjE)
  fix p assume p: "prepare_probe mac (ac_machine a) = Ok p" "retained mac (a\<lparr>ac_prepared_probe := Some p\<rparr>)"
    "poll_send_probe mac script a = send_probe_loop script (a\<lparr>ac_prepared_probe := Some p\<rparr>)"
  then show ?thesis
    using send_loop_retains [of mac config "a\<lparr>ac_prepared_probe := Some p\<rparr>" t out p script] assms
    by (auto simp: send_retains_def)
qed (auto simp: sent_event_def)

section \<open>Receiving, timeouts and closing\<close>

lemma accounted_drain:
  assumes "accounted mac config (blocking_view a) t out" "retained mac a" "async_drain_tx_timestamps drain a = (r, a')"
  shows "accounted mac config (blocking_view a') t out \<and> retained mac a' \<and>
     prepare_probe mac (ac_machine a') = prepare_probe mac (ac_machine a) \<and>
     ac_prepared_open a' = ac_prepared_open a \<and> ac_prepared_probe a' = ac_prepared_probe a"
proof -
  note d = drain_view [OF assms(3)]
  have "accounted mac config (blocking_view a') t (out @ [])"
    using simulated_drain [OF accounted_simulated [OF assms(1)] d]
    by (intro accounted_quiet [OF assms(1) drain_quiet [OF d]]) simp
  moreover obtain stamps where a': "a' = a\<lparr>ac_machine := record_all stamps (ac_machine a)\<rparr>"
    using drain_async [OF assms(3)] by blast
  moreover have "retained mac a'"
    using assms(2) keeps_record [where m = "ac_machine a" and stamps = stamps] prepare_open_connected [of mac "ac_machine a"]
    by (auto simp: a' retained_def keeps_retained_def split: option.splits)
  ultimately show ?thesis using keeps_record(2) by simp
qed

lemma retained_receive:
  assumes "retained mac a" "keeps_retained mac (ac_machine a) m" "ac_machine a' = m" "ac_prepared_open a' = ac_prepared_open a"
    "ac_prepared_probe a' = (if is_peer_closed m then None else ac_prepared_probe a)"
  shows "retained mac a'"
  using retained_step [OF assms(1-4)] assms(5) by blast

lemma poll_received:
  assumes "accounted mac config (blocking_view a) t out" "retained mac a"
  shows "\<exists>a' r. async_received mac io payload at meta a = Some (a', r) \<and>
     accounted mac config (blocking_view a') t (out @ polled r) \<and> retained mac a'"
proof -
  obtain q a1 where a1: "async_drain_tx_timestamps (rp_drain io) a = (q, a1)" by fastforce
  note d = accounted_drain [OF assms a1]
  show ?thesis
  proof (cases q)
    case (Inl e)
    with a1 d show ?thesis by (simp add: async_received_def)
  next
    case (Inr u)
    define packet where "packet = take (ac_recv_buffer_len a1) payload"
    note sim = accounted_simulated [OF conjunct1 [OF d]]
    obtain m r where m: "process_received_echo_packet mac packet at meta (ac_machine a1) = Some (m, r)"
      using receive_total [OF sim, of packet at meta] by fastforce
    have acc: "accounted mac config (blocking_view (a1\<lparr>ac_machine := m\<rparr>)) t (out @ delivered r)"
      using receive_not_sent [OF m] simulated_receive [OF sim] m
      by (intro accounted_quiet [OF conjunct1 [OF d]]) (auto simp: quiet_def)
    have unchanged: "m = ac_machine a1" if "r = Inl e" for e
    proof -
      obtain t0 log where "run_inv mac config (ac_remote a1) (ac_machine a1) t0 log" using simulated_inv [OF sim] by auto
      from receive_inv [OF this, of packet at meta] m that show ?thesis by simp
    qed
    obtain a' where a': "async_received mac io payload at meta a = Some (a', Ready r)" "ac_machine a' = m"
        "ac_remote a' = ac_remote a1" "ac_prepared_open a' = ac_prepared_open a1"
        "ac_prepared_probe a' = (if is_peer_closed m then None else ac_prepared_probe a1)"
    proof (cases r)
      case (Inl e)
      have "ac_prepared_probe a1 = None" if "is_peer_closed m"
        using that unchanged [OF Inl] retained_not_closed d by blast
      then show thesis
        using that [of "a1\<lparr>ac_machine := m\<rparr>"] Inl a1 Inr m
        by (auto simp: async_received_def packet_def [symmetric] Let_def)
    next
      case events: (Inr events)
      show thesis
        by (rule that [of "fst (the (async_received mac io payload at meta a))"])
           (use events a1 Inr m in \<open>auto simp: async_received_def packet_def [symmetric] Let_def clear_cases split: option.splits\<close>)
    qed
    have "accounted mac config (blocking_view a') t (out @ delivered r)"
      using acc a' by (subst accounted_cong) simp_all
    moreover have "retained mac a'"
      by (rule retained_receive [OF _ keeps_receive [OF m]]) (use d a' in simp_all)
    ultimately show ?thesis using a'(1) by auto
  qed
qed

lemma poll_recv_loop_ok:
  assumes "accounted mac config (blocking_view a) t out" "retained mac a"
  shows "\<exists>a' r. poll_recv_loop mac budget ios a = Some (a', r) \<and>
     accounted mac config (blocking_view a') t (out @ polled r) \<and> retained mac a'"
  using assms
proof (induction mac budget ios a rule: poll_recv_loop.induct)
  case (3 mac budget io ios a)
  with poll_received [OF 3(2,3), of io] show ?case
    by (auto split: readiness.split recv_result.split)
qed auto

lemma poll_recv_ok:
  assumes "accounted mac config (blocking_view a) t out" "retained mac a"
  shows "\<exists>a' r. poll_recv mac ios a = Some (a', r) \<and>
     accounted mac config (blocking_view a') t (out @ polled r) \<and> retained mac a'"
  using poll_recv_loop_ok [OF assms] assms by (auto simp: poll_recv_def split: sum.split)

lemma poll_bounded_ok:
  assumes "accounted mac config (blocking_view a) t out" "retained mac a"
  shows "\<exists>a' b. async_poll_timeouts_bounded_at drain now limit a = Some (a', b) \<and>
     accounted mac config (blocking_view a') t (out @ delivered (bindr b (\<lambda>batch. Ok (tb_events batch)))) \<and> retained mac a'"
proof -
  obtain q a1 where a1: "async_drain_tx_timestamps drain a = (q, a1)" by fastforce
  note d = accounted_drain [OF assms a1]
  obtain log t0 where run: "machine_run mac config (ac_remote a1) (ac_machine a1) t0 log" and t0: "t0 \<le> t" "subseq (returned out) log"
    using conjunct1 [OF d] by (auto simp: accounted_def simulated_def)
  obtain m b where m: "poll_timeouts_bounded_at now limit (ac_machine a1) = Some (m, b)"
      "case b of Inl e \<Rightarrow> m = ac_machine a1 | Inr batch \<Rightarrow> run_inv mac config (ac_remote a1) m t0 (log @ tb_events batch)"
    using poll_inv [OF machine_run_inv [OF run], of now limit] by blast
  let ?events = "delivered (bindr b (\<lambda>batch. Ok (tb_events batch)))"
  note kept = keeps_poll [OF m(1), of mac]
  have "simulated mac config (blocking_view (a1\<lparr>ac_machine := m\<rparr>)) t (returned out @ ?events)"
  proof (cases b)
    case (Inl e)
    with run t0 m(2) show ?thesis by (auto intro: simulatedI)
  next
    case (Inr batch)
    with m(1) run have "machine_run mac config (ac_remote a1) m t0 (log @ tb_events batch)" by (auto intro: run_poll)
    with t0 Inr show ?thesis by (auto intro!: simulatedI list_emb_append_mono)
  qed
  then have "accounted mac config (blocking_view (a1\<lparr>ac_machine := m\<rparr>)) t (out @ ?events)"
    using kept by (intro accounted_quiet [OF conjunct1 [OF d]]) (auto simp: quiet_def)
  moreover have "retained mac (a1\<lparr>ac_machine := m\<rparr>)"
    by (rule retained_keep [OF _ conjunct1 [OF kept]]) (use kept d in blast)+
  ultimately show ?thesis
    using a1 m(1) d by (cases q) (auto simp: async_poll_timeouts_bounded_at_def)
qed

lemma poll_unbounded:
  "async_poll_timeouts_at drain now a =
     map_option (\<lambda>(a', b). (a', bindr b (\<lambda>batch. Ok (tb_events batch)))) (async_poll_timeouts_bounded_at drain now usize_max a)"
proof -
  obtain q a1 where "async_drain_tx_timestamps drain a = (q, a1)" by fastforce
  then show ?thesis
    by (cases q; cases "poll_timeouts_bounded_at now usize_max (ac_machine a1)")
       (auto simp: async_poll_timeouts_at_def async_poll_timeouts_bounded_at_def poll_timeouts_at_def)
qed

definition applied_class :: "u8 option \<Rightarrow> u8" where
  "applied_class previous = (case previous of None \<Rightarrow> 0 | Some traffic_class \<Rightarrow> traffic_class)"

lemma rollback_cases:
  "\<exists>e. rollback_restore remote previous answer s =
     (if answer = None then (Ok (), s\<lparr>so_traffic_class := applied_class previous\<rparr>) else (Err e, s))"
  by (auto simp: rollback_restore_def socket_defs applied_class_def split: option.splits)

lemma accounted_close:
  assumes "accounted mac config c t out" "client_close io c = (c', r)"
  shows "accounted mac config c' t (out @ delivered r)"
  using accounted_quiet [OF assms(1) close_quiet [OF assms(2)]] simulated_close [OF accounted_simulated [OF assms(1)] assms(2)] .

lemma accounted_socket:
  "accounted mac config (c\<lparr>cl_socket := s\<rparr>) t out = accounted mac config c t out"
  by (rule accounted_cong) simp_all

lemma retained_socket: "retained mac (a\<lparr>ac_socket := s\<rparr>) = retained mac a"
  by (simp add: retained_def split: option.splits)

lemmas idle_simps = retained_socket accounted_socket

definition close_polled ::
  "mac_fun \<Rightarrow> client_config \<Rightarrow> async_client \<Rightarrow> instant \<Rightarrow> client_event list \<Rightarrow>
     async_client \<times> (client_error + client_event list) poll \<Rightarrow> bool" where
  "close_polled mac config a t out v \<longleftrightarrow>
     (case v of (a', r) \<Rightarrow> accounted mac config (blocking_view a') t (out @ polled r) \<and> retained mac a' \<and>
       (r = Pending \<longrightarrow> (\<exists>tc \<in> {so_traffic_class (ac_socket a), applied_class (ac_applied_traffic_class a)}.
          a' = a\<lparr>ac_socket := (ac_socket a)\<lparr>so_traffic_class := tc\<rparr>\<rparr>)))"

lemma close_idle:
  assumes "accounted mac config (blocking_view a) t out" "retained mac a"
  shows "close_polled mac config a t out (a\<lparr>ac_socket := s\<rparr>, Ready (Inl e))"
  using assms by (simp add: close_polled_def idle_simps)

lemma close_commits:
  assumes acc: "accounted mac config (blocking_view a) t out" and ret: "retained mac a"
    and pc: "prepare_close (ac_machine a) = Ok (packet, commit)"
    and m: "commit_local_close commit at (ac_machine a) = (m, event)"
    and a': "ac_machine a' = m" "ac_remote a' = ac_remote a" "ac_prepared_open a' = ac_prepared_open a" "ac_prepared_probe a' = None"
  shows "close_polled mac config a t out (a', Ready (case validate_datagram_length (length packet) n of Inl e \<Rightarrow> Inl e | Inr _ \<Rightarrow> Ok [event]))"
    (is "close_polled _ _ _ _ _ (a', Ready ?r)")
proof -
  let ?io = "\<lparr>ci_reserve_ok = True, ci_clear = None, ci_send = Ok n, ci_restore = None, ci_sent_at = at\<rparr>"
  obtain c r where c: "client_close ?io (blocking_view a) = (c, r)" by fastforce
  have "r = ?r \<and> cl_runtime c = m \<and> cl_remote c = ac_remote a"
    using c pc m by (auto simp: client_close_def clear_cases socket_send_def Let_def split: sum.splits)
  then have "accounted mac config (blocking_view a') t (out @ delivered ?r)"
    using accounted_close [OF acc c] a' by (subst accounted_cong [of _ c]) auto
  moreover obtain s where "sm_state (ac_machine a) = MsOpen s"
    using pc by (cases "sm_state (ac_machine a)") (simp_all add: prepare_close_def open_session_def)
  then have "ac_prepared_open a = None"
    using ret prepare_open_connected by (fastforce simp: retained_def split: option.splits)
  then have "retained mac a'"
    using a' m by (auto simp: retained_def commit_local_close_def dest!: arg_cong [of _ "ac_machine a'" sm_state])
  ultimately show ?thesis by (simp add: close_polled_def)
qed

lemma close_again:
  assumes "close_polled mac config (a\<lparr>ac_socket := (ac_socket a)\<lparr>so_traffic_class := applied_class (ac_applied_traffic_class a)\<rparr>\<rparr>) t out v"
  shows "close_polled mac config a t out v"
  using assms by (auto simp: close_polled_def)

lemma poll_close_ok:
  assumes "accounted mac config (blocking_view a) t out" "retained mac a"
  shows "close_polled mac config a t out (poll_close ios a)"
  using assms
proof (induction ios arbitrary: a)
  case Nil
  then show ?case by (auto simp: close_polled_def)
next
  case (Cons io ios)
  note idle = close_idle [OF Cons.prems]
  let ?s = "(ac_socket a)\<lparr>so_traffic_class := 0\<rparr>"
  let ?b = "a\<lparr>ac_socket := (ac_socket a)\<lparr>so_traffic_class := applied_class (ac_applied_traffic_class a)\<rparr>\<rparr>"
  have stay: "close_polled mac config a t out (a, Ready (Inl e))" "close_polled mac config a t out (a, Pending)" for e
    using Cons.prems by (auto simp: close_polled_def)
  have again: "close_polled mac config a t out (poll_close ios ?b)"
    by (rule close_again [OF Cons.IH]) (use Cons.prems in \<open>simp_all add: idle_simps\<close>)
  show ?case
  proof (cases "prepare_close (ac_machine a)")
    case (Inl e)
    with stay show ?thesis by simp
  next
    case (Inr pc)
    obtain packet commit where pc: "prepare_close (ac_machine a) = Ok (packet, commit)" using Inr by (cases pc) auto
    obtain m event where m: "commit_local_close commit (cp_sent_at io) (ac_machine a) = (m, event)" by fastforce
    note commits = close_commits [OF Cons.prems pc m]
    obtain e1 where restore: "rollback_restore (ac_remote a) (ac_applied_traffic_class a) (cp_restore io) ?s =
        (if cp_restore io = None then (Ok (), ?s\<lparr>so_traffic_class := applied_class (ac_applied_traffic_class a)\<rparr>) else (Err e1, ?s))"
      using rollback_cases by blast
    show ?thesis
    proof (cases "cp_reserve_ok io \<and> cp_ready io = IsReady \<and> cp_clear io = None")
      case False
      then show ?thesis
        using stay idle [of "ac_socket a"] pc
        by (cases "cp_ready io"; cases "cp_clear io") (auto simp: clear_cases)
    next
      case True
      show ?thesis
      proof (cases "cp_send io")
        case (Inl e)
        then show ?thesis
          using True pc restore idle again by (auto simp: clear_cases socket_send_def split: prod.split)
      next
        case (Inr n)
        then show ?thesis
          using True pc m commits [of "a\<lparr>ac_socket := ?s\<lparr>so_sent := so_sent (ac_socket a) @ [packet]\<rparr>, ac_machine := m,
              ac_prepared_probe := None, ac_applied_traffic_class := None\<rparr>" n]
          by (auto simp: clear_cases socket_send_def Let_def split: sum.splits)
      qed
    qed
  qed
qed

section \<open>Opening\<close>

text \<open>A poll that did not open leaves the client as it was, but for its socket; one that opened
  committed an acceptance of the machine.\<close>

definition async_opened :: "mac_fun \<Rightarrow> async_client \<Rightarrow> async_client \<Rightarrow> open_outcome \<Rightarrow> bool" where
  "async_opened mac a a' outcome \<longleftrightarrow>
     (\<exists>reply at p. prepare_open_acceptance mac reply at (ac_machine a) = Some (Ok p) \<and>
        commit_open p (ac_machine a) = (ac_machine a', outcome) \<and> ac_remote a' = ac_remote a \<and>
        ac_prepared_open a' = None \<and> ac_prepared_probe a' = ac_prepared_probe a \<and>
        ac_applied_traffic_class a' = map_option (\<lambda>n. push_bit 2 (ap_dscp (ng_accepted n))) (normal_negotiated p) \<and>
        (\<forall>n. normal_negotiated p = Some n \<longrightarrow> so_traffic_class (ac_socket a') = applied_class (ac_applied_traffic_class a') \<and>
           recv_buffer_size (has_hmac (ac_machine a)) (Some n) = Ok (ac_recv_buffer_len a')))"

fun flow_ok :: "mac_fun \<Rightarrow> async_client \<Rightarrow> async_client \<Rightarrow> open_flow \<Rightarrow> bool" where
  "flow_ok mac a a' (FlowReturn (Ready (Inr outcome))) = async_opened mac a a' outcome"
| "flow_ok mac a a' f = (\<exists>s. a' = a\<lparr>ac_socket := s\<rparr>)"

lemma flow_idle:
  "(\<And>outcome. f \<noteq> FlowReturn (Ready (Inr outcome))) \<Longrightarrow> flow_ok mac a a' f \<longleftrightarrow> (\<exists>s. a' = a\<lparr>ac_socket := s\<rparr>)"
  by (cases "(mac, a, a', f)" rule: flow_ok.cases) auto

lemma opened_socket: "async_opened mac (a\<lparr>ac_socket := s\<rparr>) a' outcome = async_opened mac a a' outcome"
  by (simp add: async_opened_def)

lemma flow_trans: "flow_ok mac (a\<lparr>ac_socket := s\<rparr>) a' f \<Longrightarrow> flow_ok mac a a' f"
  by (cases "(mac, a, a', f)" rule: flow_ok.cases) (auto simp: opened_socket)

lemma same_socket: "\<exists>s. a = a\<lparr>ac_socket := s\<rparr>"
  by (rule exI [of _ "ac_socket a"]) simp

lemma submit_ok:
  assumes "aos_deadline st \<noteq> None" "ac_prepared_open a = Some request" "aos_cleanup st = None"
  shows "\<exists>a' st' f. submit_request io st a = Some (a', st', f) \<and> open_state_ok st' \<and> aos_cleanup st' = None \<and>
     (\<exists>s. a' = a\<lparr>ac_socket := s\<rparr>) \<and> (\<forall>outcome. f \<noteq> FlowReturn (Ready (Inr outcome))) \<and>
     (f = FlowNext \<longrightarrow> aos_deadline st' \<noteq> None)"
  using assms same_socket
  by (auto simp: submit_request_def open_state_ok_def has_in_flight_work_def finish_attempt_def socket_send_def Let_def
      split: poll.split sum.split bool.split)

lemma prepare_async_failed:
  assumes "prepare_async_open io machine a = (a', Inl e)"
  shows "\<exists>s. a' = a\<lparr>ac_socket := s\<rparr>"
proof (cases "normal_negotiated machine")
  case (Some negotiated)
  with assms same_socket [of a] show ?thesis
    by (auto simp: prepare_async_open_def Let_def split: sum.splits if_splits prod.splits)
qed (use assms in \<open>simp add: prepare_async_open_def\<close>)

lemma prepare_async_opened:
  assumes "prepare_open_acceptance mac reply at (ac_machine a) = Some (Ok machine)"
    and "prepare_async_open io machine a = (a1, Inr prepared)" and "commit_async_open tx prepared a1 = (a', outcome)"
  shows "async_opened mac a a' outcome"
proof (cases "normal_negotiated machine")
  case None
  with assms(2) have "a1 = a" "prepared = \<lparr>pa_machine = machine, pa_recv_buffer_len = None, pa_negotiated_traffic_class = None\<rparr>"
    by (simp_all add: prepare_async_open_def)
  with assms(1,3) None show ?thesis
    unfolding async_opened_def
    by (intro exI [of _ reply] exI [of _ at] exI [of _ machine]) (auto simp: commit_async_open_def Let_def commit_open_def)
next
  case (Some negotiated)
  with assms(2) obtain len s where len: "recv_buffer_size (has_hmac (ac_machine a)) (Some negotiated) = Ok len"
    and a1: "a1 = a\<lparr>ac_socket := s\<rparr>" and s: "so_traffic_class s = push_bit 2 (ap_dscp (ng_accepted negotiated))"
    and prepared: "prepared = \<lparr>pa_machine = machine, pa_recv_buffer_len = Some len,
        pa_negotiated_traffic_class = Some (push_bit 2 (ap_dscp (ng_accepted negotiated)))\<rparr>"
    by (auto simp: prepare_async_open_def Let_def dest: apply_keeps split: sum.splits if_splits prod.splits)
  from assms(1,3) Some len s show ?thesis
    unfolding async_opened_def
    by (intro exI [of _ reply] exI [of _ at] exI [of _ machine])
       (auto simp: a1 prepared commit_async_open_def Let_def commit_open_def applied_class_def)
qed

lemma accept_ok:
  assumes "prepare_open_acceptance mac reply at (ac_machine a) \<noteq> None" "aos_deadline st \<noteq> None" "aos_cleanup st = None"
  shows "\<exists>a' st' f. async_accept mac io reply at st a = Some (a', st', f) \<and> flow_ok mac a a' f \<and> open_state_ok st'"
proof -
  obtain v where v: "prepare_open_acceptance mac reply at (ac_machine a) = Some v" using assms by blast
  show ?thesis
  proof (cases v)
    case (Inl failure)
    with v assms same_socket [of a] show ?thesis by (simp add: async_accept_def open_state_ok_def)
  next
    case (Inr machine)
    obtain a1 q where q: "prepare_async_open (pi_accept io) machine a = (a1, q)" by fastforce
    show ?thesis
    proof (cases q)
      case (Inl e)
      with q prepare_async_failed have "\<exists>s. a1 = a\<lparr>ac_socket := s\<rparr>" by blast
      with q Inl Inr v assms show ?thesis by (simp add: async_accept_def open_state_ok_def)
    next
      case prepared: (Inr prepared)
      obtain a' outcome where c: "commit_async_open (ao_tx_enabled (pi_accept io)) prepared a1 = (a', outcome)" by fastforce
      from prepare_async_opened [OF _ q [unfolded prepared] c] v Inr q prepared c assms show ?thesis
        by (simp add: async_accept_def open_state_ok_def)
    qed
  qed
qed

definition accepts :: "mac_fun \<Rightarrow> async_client \<Rightarrow> bool" where
  "accepts mac a \<longleftrightarrow> (\<forall>reply at. prepare_open_acceptance mac reply at (ac_machine a) \<noteq> None)"

lemma await_ok:
  assumes "accepts mac a" "aos_deadline st \<noteq> None" "aos_cleanup st = None"
  shows "\<exists>a' st' f. await_reply mac io st a = Some (a', st', f) \<and> flow_ok mac a a' f \<and> open_state_ok st'"
proof -
  obtain deadline where deadline: "aos_deadline st = Some deadline" using assms by blast
  have ok: "open_state_ok st" "open_state_ok (finish_attempt st)"
    using deadline assms(3) by (simp_all add: open_state_ok_def has_in_flight_work_def finish_attempt_def)
  show ?thesis
    using deadline ok same_socket [of a] accept_ok [of mac _ _ a st io] assms
    by (auto simp: await_reply_def accepts_def split: poll.split sum.split bool.split recv_result.split open_datagram_disposition.split)
qed

fun result_ok :: "mac_fun \<Rightarrow> async_client \<Rightarrow> async_client \<Rightarrow> (client_error + open_outcome) poll \<Rightarrow> bool" where
  "result_ok mac a a' (Ready (Inr outcome)) = async_opened mac a a' outcome"
| "result_ok mac a a' r = (\<exists>s. a' = a\<lparr>ac_socket := s\<rparr>)"

lemma result_trans: "result_ok mac (a\<lparr>ac_socket := s\<rparr>) a' r \<Longrightarrow> result_ok mac a a' r"
  by (cases "(mac, a, a', r)" rule: result_ok.cases) (auto simp: opened_socket)

lemma flow_result: "flow_ok mac a a' (FlowReturn r) = result_ok mac a a' r"
  by (cases "(mac, a, a', r)" rule: result_ok.cases) auto

lemma result_self: "(\<And>outcome. r \<noteq> Ready (Inr outcome)) \<Longrightarrow> result_ok mac a (a\<lparr>ac_socket := s\<rparr>) r"
    "(\<And>outcome. r \<noteq> Ready (Inr outcome)) \<Longrightarrow> result_ok mac a a r"
  using same_socket [of a] by (cases "(mac, a, a, r)" rule: result_ok.cases; auto)+

lemma cleanup_ok:
  assumes "open_state_ok st" "aos_cleanup st \<noteq> None"
  shows "\<exists>a' st' r. poll_open_cleanup io st a = Some (a', st', r) \<and> result_ok mac a a' r \<and> open_state_ok st'"
proof -
  obtain cleanup deadline where "aos_cleanup st = Some cleanup" "aos_deadline st = Some deadline"
    using assms by (auto simp: open_state_ok_def has_in_flight_work_def)
  then show ?thesis
    using assms(1) same_socket [of a]
    by (cases "cleanup_packet cleanup"; cases "pi_send io"; cases "poll_until (pi_writable io) (pi_write_elapsed io)")
       (auto simp: poll_open_cleanup_def socket_send_def Let_def open_state_ok_def split: sum.split bool.split)
qed

lemma begin_ok:
  assumes "begin_attempt io timeouts st = Inr st'" "aos_cleanup st = None"
  shows "aos_deadline st' \<noteq> None \<and> aos_cleanup st' = None"
  using assms by (auto simp: begin_attempt_def start_attempt_def result_simps split: if_splits)

lemma poll_open_loop_ok:
  assumes "accepts mac a" "ac_prepared_open a = Some request" "open_state_ok st"
  shows "\<exists>a' st' r. poll_open_loop mac budget ios st a = Some (a', st', r) \<and> result_ok mac a a' r \<and> open_state_ok st'"
  using assms
proof (induction budget arbitrary: ios st a)
  case 0
  then show ?case using same_socket [of a] by simp
next
  case (Suc budget)
  show ?case
  proof (cases ios)
    case Nil
    with Suc.prems same_socket [of a] show ?thesis by simp
  next
    case (Cons io rest)
    let ?timeouts = "op_timeouts (cc_open (sm_config (ac_machine a)))"
    have again: "\<exists>a' st' r. poll_open_loop mac budget rest st1 (a\<lparr>ac_socket := s\<rparr>) = Some (a', st', r) \<and>
        result_ok mac a a' r \<and> open_state_ok st'" if "open_state_ok st1" for s st1
      using Suc.IH [of "a\<lparr>ac_socket := s\<rparr>" st1 rest] Suc.prems that result_trans by (fastforce simp: accepts_def)
    show ?thesis
    proof (cases "aos_cleanup st = None \<and> aos_attempt st < length ?timeouts")
      case False
      with Suc.prems Cons cleanup_ok [of st io a mac] same_socket [of a] show ?thesis by (auto simp: Let_def)
    next
      case live: True
      show ?thesis
      proof (cases "begin_attempt io ?timeouts st")
        case (Inl e)
        with live Cons Suc.prems same_socket [of a] show ?thesis by (simp add: Let_def)
      next
        case (Inr st1)
        note b = begin_ok [OF Inr conjunct1 [OF live]]
        obtain s st2 f where sub: "submit_request io st1 a = Some (a\<lparr>ac_socket := s\<rparr>, st2, f)" "open_state_ok st2"
            "aos_cleanup st2 = None" "\<And>outcome. f \<noteq> FlowReturn (Ready (Inr outcome))" "f = FlowNext \<longrightarrow> aos_deadline st2 \<noteq> None"
          using submit_ok [OF conjunct1 [OF b] Suc.prems(2) conjunct2 [OF b], of io] by blast
        have acc: "accepts mac (a\<lparr>ac_socket := s\<rparr>)" using Suc.prems(1) by (simp add: accepts_def)
        show ?thesis
        proof (cases f)
          case FlowNext
          obtain a3 st3 g where w: "await_reply mac io st2 (a\<lparr>ac_socket := s\<rparr>) = Some (a3, st3, g)"
              "flow_ok mac (a\<lparr>ac_socket := s\<rparr>) a3 g" "open_state_ok st3"
            using await_ok [OF acc _ sub(3), of io] sub(5) FlowNext by blast
          show ?thesis
          proof (cases "\<exists>r. g = FlowReturn r")
            case True
            with w live Cons Inr sub(1) FlowNext flow_trans [OF w(2)] show ?thesis by (auto simp: Let_def flow_result)
          next
            case False
            then obtain s' where "a3 = a\<lparr>ac_socket := s'\<rparr>" using flow_trans [OF w(2)] by (cases g) auto
            with False w live Cons Inr sub(1) FlowNext again [OF w(3), of s'] show ?thesis
              by (cases g) (auto simp: Let_def)
          qed
        next
          case FlowContinue
          with live Cons Inr sub(1,2) again [of st2 s] show ?thesis by (simp add: Let_def)
        next
          case (FlowReturn r)
          with live Cons Inr sub(1,2,4) result_self(1) [of r mac a s] show ?thesis by (simp add: Let_def)
        qed
      qed
    qed
  qed
qed

lemma accounted_opened:
  assumes acc: "accounted mac config (blocking_view a) t out" and ret: "retained mac a" and op: "async_opened mac a a' outcome"
  shows "accounted mac config (blocking_view a') t out \<and> retained mac a'"
proof -
  obtain reply at p where p: "prepare_open_acceptance mac reply at (ac_machine a) = Some (Ok p)"
      "ac_machine a' = fst (commit_open p (ac_machine a))" "ac_remote a' = ac_remote a"
      "ac_prepared_open a' = None" "ac_prepared_probe a' = ac_prepared_probe a"
    using op by (auto simp: async_opened_def)
  obtain log t0 where run: "machine_run mac config (ac_remote a) (ac_machine a) t0 log" and t0: "t0 \<le> t" "subseq (returned out) log"
    using acc by (auto simp: accounted_def simulated_def)
  note ok = prepare_open_acceptance_Ok [OF machine_run_inv [OF run] p(1)]
  have "simulated mac config (blocking_view a') t (returned out)"
    using run_open [OF run p(1)] t0 p by (auto intro!: simulatedI)
  moreover have "packets_sent (ac_machine a') = packets_sent (ac_machine a)"
    using ok p(2) by (auto simp: packets_sent_def commit_open_def)
  ultimately have "accounted mac config (blocking_view a') t out" using acc by (simp add: accounted_def)
  moreover have "sm_state (ac_machine a') \<noteq> MsConnected" using ok p(2) by (auto simp: commit_open_def)
  moreover have "ac_prepared_probe a = None"
    using ret ok prepare_probe_open by (fastforce simp: retained_def split: option.splits)
  ultimately show ?thesis using p(4,5) by (simp add: retained_def)
qed

lemma result_inv:
  assumes "accounted mac config (blocking_view a) t out" "retained mac a" "result_ok mac a a' r"
  shows "accounted mac config (blocking_view a') t out \<and> retained mac a'"
  using assms accounted_opened [OF assms(1,2)]
  by (cases "(mac, a, a', r)" rule: result_ok.cases) (auto simp: idle_simps)

lemma poll_open_ok:
  assumes "async_inv mac config a st t out"
  shows "\<exists>a' st' r. poll_open mac ios st a = Some (a', st', r) \<and> result_ok mac a a' r \<and> async_inv mac config a' st' t out"
proof -
  have inv: "accounted mac config (blocking_view a) t out" "retained mac a" "open_state_ok st"
    using assms by (simp_all add: async_inv_def)
  obtain t0 log where "run_inv mac config (ac_remote a) (ac_machine a) t0 log"
    using simulated_inv [OF accounted_simulated [OF inv(1)]] by auto
  then have acc: "accepts mac a" using open_acceptance_total by (simp add: accepts_def)
  show ?thesis
  proof (cases "ac_prepared_open a")
    case None
    then obtain e where "prepare_open_request mac (ac_machine a) = Err e"
      using inv(2) prepare_open_refused by (fastforce simp: retained_def)
    with None assms same_socket [of a] show ?thesis by (simp add: poll_open_def)
  next
    case (Some request)
    with poll_open_loop_ok [OF acc Some inv(3)] result_inv [OF inv(1,2)] show ?thesis
      by (fastforce simp: poll_open_def async_inv_def)
  qed
qed

section \<open>The invariant of a run\<close>

lemma async_connected:
  assumes "async_connect mac present resolved socket config = Ok a"
  shows "async_inv mac config a open_state_new t []"
proof -
  have new: "machine_new config (ac_remote a) = Ok (ac_machine a)"
    and req: "\<exists>q. prepare_open_request mac (ac_machine a) = Ok q \<and> ac_prepared_open a = Some q" and probe: "ac_prepared_probe a = None"
    using assms by (auto simp: async_connect_def result_simps split: if_splits)
  have "sm_state (ac_machine a) = MsConnected" using req prepare_open_connected by blast
  then have "packets_sent (ac_machine a) = 0" by (simp add: packets_sent_def)
  then have "accounted mac config (blocking_view a) t []"
    using machine_run.run_new [OF new] by (auto simp: accounted_def returned_def intro!: simulatedI)
  with req probe show ?thesis by (auto simp: async_inv_def retained_def)
qed

lemma async_run_inv: "async_run mac config a st t out \<Longrightarrow> async_inv mac config a st t out"
proof (induction rule: async_run.induct)
  case (ar_open a st t out ios a' st' opened)
  with poll_open_ok [OF ar_open.IH, of ios] show ?case by auto
next
  case (ar_send a st t out t' script a' sent)
  with poll_send [of mac config a t out t' script] show ?case by (auto simp: async_inv_def)
next
  case (ar_recv a st t out rios a' r)
  with poll_recv_ok [of mac config a t out rios] show ?case by (auto simp: async_inv_def)
next
  case (ar_poll a st t out drain now a' q)
  with poll_bounded_ok [of mac config a t out drain now usize_max] show ?case
    by (auto simp: async_inv_def poll_unbounded)
next
  case (ar_poll_bounded a st t out drain now limit a' b)
  with poll_bounded_ok [of mac config a t out drain now limit] show ?case by (auto simp: async_inv_def)
next
  case (ar_close a st t out cios a' r)
  with poll_close_ok [of mac config a t out cios] show ?case by (auto simp: async_inv_def close_polled_def)
next
  case (ar_cancel a st t out answer a' st' e)
  then show ?case
    by (auto simp: async_inv_def cancel_open_def idle_simps open_state_ok_def has_in_flight_work_def split: option.splits)
next
  case (ar_discard a st t out)
  then show ?case by (auto simp: async_inv_def discard_prepared_probe_def retained_def split: option.splits)
qed (auto simp: async_connected, auto simp: async_inv_def)

lemma recv_budget: "poll_recv_loop mac n (take n ios) a = poll_recv_loop mac n ios a"
proof (induction n arbitrary: ios a)
  case (Suc n)
  then show ?case by (cases ios) (simp_all split: readiness.split recv_result.split)
qed simp

lemma open_budget: "poll_open_loop mac n (take n ios) st a = poll_open_loop mac n ios st a"
proof (induction n arbitrary: ios st a)
  case (Suc n)
  then have same: "poll_open_loop mac n (take n rest) = poll_open_loop mac n rest" for rest by (intro ext)
  show ?case
  proof (cases ios)
    case (Cons io rest)
    show ?thesis unfolding Cons take_Suc_Cons poll_open_loop.simps same by (rule refl)
  qed simp
qed simp

section \<open>Properties\<close>

text \<open>C13: the asynchronous client refines the session machine. Whatever the socket and the timers
  answer, whatever polls are interleaved, and wherever a future is dropped, the machine inside the
  client is in a state that some run of the machine reaches, the events the polls delivered are
  events of that run in their order, and the receipts number exactly the probes it counts.\<close>

theorem async_refines_machine:
  assumes "async_run mac config a st t out"
  shows "\<exists>log t0. t0 \<le> t \<and> machine_run mac config (ac_remote a) (ac_machine a) t0 log \<and>
     subseq (returned out) log \<and> length (filter is_sent out) = unat (packets_sent (ac_machine a))"
  using async_run_inv [OF assms] by (simp add: async_inv_def accounted_def simulated_def)

definition async_connected_client :: async_client where
  "async_connected_client =
     \<lparr>ac_socket = adapter_socket, ac_machine = client_test_machine, ac_remote = V4 1 2112,
      ac_recv_buffer_len = projr (recv_buffer_size False None), ac_applied_traffic_class = None,
      ac_prepared_open = Some adapter_request, ac_prepared_probe = None, ac_tx_timestamping_enabled = False\<rparr>"

definition async_turn :: open_poll_io where
  "async_turn = \<lparr>pi_now = 0, pi_writable = IsReady, pi_write_elapsed = False, pi_send = Ok (length adapter_request),
     pi_readable = IsReady, pi_read_elapsed = False, pi_recv = RecvDatagram adapter_reply client_test_instant client_test_meta,
     pi_accept = adapter_accept\<rparr>"

definition async_opened_client :: async_client where
  "async_opened_client = fst (the (poll_open flat_mac [async_turn] open_state_new async_connected_client))"

definition async_opened_state :: async_open_state where
  "async_opened_state = fst (snd (the (poll_open flat_mac [async_turn] open_state_new async_connected_client)))"

definition async_sent_client :: async_client where
  "async_sent_client = fst (the (poll_send_probe flat_mac [(IsReady, adapter_send)] async_opened_client))"

definition async_sent_result :: "(send_probe_error + send_receipt) poll" where
  "async_sent_result = snd (the (poll_send_probe flat_mac [(IsReady, adapter_send)] async_opened_client))"

lemma async_connects: "async_connect flat_mac True (Ok (V4 1 2112)) (Ok adapter_socket) client_test_config = Ok async_connected_client"
  using adapter_connects client_test_machine_new adapter_requests [unfolded adapter_connected_machine]
  by (auto simp: async_connect_def client_connect_def result_simps async_connected_client_def)

lemma async_connected_run: "async_run flat_mac client_test_config async_connected_client open_state_new 0 []"
  by (rule ar_connect [OF async_connects])

lemma async_opened_run: "async_run flat_mac client_test_config async_opened_client async_opened_state 0 []"
proof -
  obtain a st r where o: "poll_open flat_mac [async_turn] open_state_new async_connected_client = Some (a, st, r)"
    using poll_open_ok [OF async_run_inv [OF async_connected_run], of "[async_turn]"] by blast
  have "a = async_opened_client" "st = async_opened_state" unfolding async_opened_client_def async_opened_state_def o by simp_all
  with ar_open [OF async_connected_run o] show ?thesis by simp
qed

lemma async_sent_run:
  "async_run flat_mac client_test_config async_sent_client async_opened_state 1000 (polled_sent async_sent_result)"
proof -
  obtain a r where s: "poll_send_probe flat_mac [(IsReady, adapter_send)] async_opened_client = Some (a, r)"
    using poll_send_retains [of flat_mac client_test_config async_opened_client 0 "[]" "[(IsReady, adapter_send)]"]
      async_run_inv [OF async_opened_run, unfolded async_inv_def] by blast
  have "a = async_sent_client" "r = async_sent_result" unfolding async_sent_client_def async_sent_result_def s by simp_all
  with ar_send [OF async_opened_run _ _ s, of 1000] show ?thesis
    by (simp add: adapter_send_def client_test_instant_def)
qed

theorem async_refines_machine_witness:
  "\<exists>log t0. t0 \<le> 1000 \<and> machine_run flat_mac client_test_config (ac_remote async_sent_client) (ac_machine async_sent_client) t0 log \<and>
     subseq (returned (polled_sent async_sent_result)) log \<and>
     length (filter is_sent (polled_sent async_sent_result)) = unat (packets_sent (ac_machine async_sent_client))"
  by (rule async_refines_machine [OF async_sent_run])

text \<open>C15: every poll returns. No poll of the asynchronous client panics in any run (the open request,
  the prepared probe and the deadline of an attempt are there whenever the code expects them), and
  one poll of an open or of a receive makes at most 64 turns of its loop.\<close>

theorem async_polls_return:
  assumes "async_run mac config a st t out"
  shows "poll_open mac ios st a \<noteq> None \<and> poll_send_probe mac script a \<noteq> None \<and> poll_recv mac rios a \<noteq> None \<and>
     async_poll_timeouts_at drain now a \<noteq> None \<and> async_poll_timeouts_bounded_at drain now limit a \<noteq> None \<and>
     poll_open mac (take 64 ios) st a = poll_open mac ios st a \<and> poll_recv mac (take 64 rios) a = poll_recv mac rios a"
proof -
  note inv = async_run_inv [OF assms]
  then have i: "accounted mac config (blocking_view a) t out" "retained mac a" by (simp_all add: async_inv_def)
  have budgets: "poll_open mac (take 64 ios) st a = poll_open mac ios st a" "poll_recv mac (take 64 rios) a = poll_recv mac rios a"
    by (simp_all only: poll_open_def poll_recv_def OPEN_POLL_WORK_BUDGET_def RECV_POLL_WORK_BUDGET_def open_budget recv_budget)
  have "async_poll_timeouts_at drain now a \<noteq> None" "async_poll_timeouts_bounded_at drain now limit a \<noteq> None"
    using poll_bounded_ok [OF i, of drain now usize_max] poll_bounded_ok [OF i, of drain now limit]
    by (auto simp: poll_unbounded)
  moreover have "poll_open mac ios st a \<noteq> None" "poll_send_probe mac script a \<noteq> None" "poll_recv mac rios a \<noteq> None"
    using poll_open_ok [OF inv, of ios] poll_send_retains [OF i, of script] poll_recv_ok [OF i, of rios] by auto
  ultimately show ?thesis using budgets by blast
qed

theorem async_polls_return_witness:
  "poll_open flat_mac [async_turn] async_opened_state async_opened_client \<noteq> None \<and>
   poll_send_probe flat_mac [(NotReady, adapter_send), (IsReady, adapter_send)] async_opened_client \<noteq> None"
  using async_polls_return [OF async_opened_run, of "[async_turn]" "[(NotReady, adapter_send), (IsReady, adapter_send)]" "[]" "([], None)" 0 0]
  by blast



end
