(* ===== verification/Schedule.thy ===== *)
theory Schedule
  imports Client_Negotiation
begin

text \<open>
  The probe cadence of the managed client (\<open>irtt-client/src/managed/schedule.rs\<close>) and the stagger
  gate arithmetic of \<open>managed/task/pacing.rs\<close>. Slots lie on an absolute grid: a send that comes
  late takes the latest slot that has passed and the schedule moves on to the next one, so delays
  never accumulate. \<open>u128\<close> products and \<open>Instant\<close> sums keep their overflow checks.
\<close>

section \<open>Checked arithmetic\<close>

definition u128_max :: nat where
  "u128_max = 2 ^ 128 - 1"

definition checked_mul_u128 :: "nat \<Rightarrow> nat \<Rightarrow> nat option" where
  "checked_mul_u128 a b = (if a * b \<le> u128_max then Some (a * b) else None)"

definition checked_add_u128 :: "nat \<Rightarrow> nat \<Rightarrow> nat option" where
  "checked_add_u128 a b = (if a + b \<le> u128_max then Some (a + b) else None)"

text \<open>The remainder is below one second, so its conversion to \<open>u32\<close> cannot fail; the quotient
  must fit in the \<open>u64\<close> second count.\<close>

definition duration_from_nanos :: "nat \<Rightarrow> client_error + duration" where
  "duration_from_nanos nanos =
     (if nanos div 1000000000 \<le> 2 ^ 64 - 1
      then Ok (nanos div 1000000000 * 1000000000 + nanos mod 1000000000)
      else Err DurationOverflow)"

definition instant_abs_diff :: "instant \<Rightarrow> instant \<Rightarrow> duration" where
  "instant_abs_diff left right =
     (case checked_duration_since left right of
        Some d \<Rightarrow> d
      | None \<Rightarrow> (case checked_duration_since right left of Some d \<Rightarrow> d | None \<Rightarrow> 0))"

section \<open>The schedule\<close>

record probe_schedule =
  sch_end_at :: "instant option"
  sch_interval :: duration
  sch_next_send_at :: "instant option"

record schedule_commit =
  sc_scheduled_at :: instant
  sc_next_send_at :: "instant option"

definition schedule_new :: "instant \<Rightarrow> accepted_session_parameters \<Rightarrow> client_error + probe_schedule" where
  "schedule_new start_at accepted =
     bindr (case ap_duration accepted of
              None \<Rightarrow> Ok None
            | Some d \<Rightarrow>
                bindr (ok_or (NegotiationRejected ''duration is too large to schedule'')
                         (instant_checked_add start_at d)) (\<lambda>e. Ok (Some e)))
       (\<lambda>end_at. Ok \<lparr>sch_end_at = end_at, sch_interval = ap_interval accepted,
                     sch_next_send_at = Some start_at\<rparr>)"

definition is_finished :: "probe_schedule \<Rightarrow> bool" where
  "is_finished s \<longleftrightarrow> sch_next_send_at s = None"

definition end_deadline :: "probe_schedule \<Rightarrow> instant option" where
  "end_deadline s = (if is_finished s then None else sch_end_at s)"

definition reached_end :: "probe_schedule \<Rightarrow> instant \<Rightarrow> bool" where
  "reached_end s t \<longleftrightarrow> (case sch_end_at s of None \<Rightarrow> False | Some e \<Rightarrow> e \<le> t)"

definition permit_probe_at :: "instant \<Rightarrow> probe_schedule \<Rightarrow> bool \<times> probe_schedule" where
  "permit_probe_at now s =
     (if sch_next_send_at s = None then (False, s)
      else if reached_end s now then (False, s\<lparr>sch_next_send_at := None\<rparr>)
      else (True, s))"

definition advance_cadence ::
  "instant \<Rightarrow> duration \<Rightarrow> instant \<Rightarrow> client_error + (instant \<times> instant)" where
  "advance_cadence deadline interval now =
     (if interval = 0 then Err (InvalidConfig ''probe interval must be greater than zero'')
      else
        let elapsed_slots =
              (case checked_duration_since now deadline of None \<Rightarrow> 0 | Some elapsed \<Rightarrow> elapsed div interval)
        in bindr (ok_or DurationOverflow (checked_mul_u128 interval elapsed_slots)) (\<lambda>scheduled_nanos.
           bindr (duration_from_nanos scheduled_nanos) (\<lambda>scheduled_offset.
           bindr (ok_or DurationOverflow (checked_add_u128 elapsed_slots 1)) (\<lambda>next_slots.
           bindr (ok_or DurationOverflow (checked_mul_u128 interval next_slots)) (\<lambda>next_nanos.
           bindr (duration_from_nanos next_nanos) (\<lambda>next_offset.
           bindr (ok_or DurationOverflow (instant_checked_add deadline scheduled_offset)) (\<lambda>scheduled_at.
           bindr (ok_or DurationOverflow (instant_checked_add deadline next_offset)) (\<lambda>next_at.
           Ok (scheduled_at, next_at)))))))))"

definition preflight_managed_commit ::
  "instant \<Rightarrow> instant \<Rightarrow> probe_schedule \<Rightarrow> client_error + schedule_commit" where
  "preflight_managed_commit scheduled_at permission_at s =
     bindr (advance_cadence scheduled_at (sch_interval s) permission_at) (\<lambda>(scheduled_at, next_send_at).
       Ok \<lparr>sc_scheduled_at = scheduled_at,
           sc_next_send_at = (if reached_end s next_send_at then None else Some next_send_at)\<rparr>)"

definition commit_schedule :: "schedule_commit \<Rightarrow> probe_schedule \<Rightarrow> probe_schedule" where
  "commit_schedule c s = s\<lparr>sch_next_send_at := sc_next_send_at c\<rparr>"

definition skip_missed_slots_at :: "instant \<Rightarrow> probe_schedule \<Rightarrow> client_error + probe_schedule" where
  "skip_missed_slots_at now s =
     (case sch_next_send_at s of
        None \<Rightarrow> Ok s
      | Some deadline \<Rightarrow>
          if deadline \<le> now
          then bindr (preflight_managed_commit deadline now s) (\<lambda>c. Ok (commit_schedule c s))
          else Ok s)"

section \<open>Stagger gate (\<open>task/pacing.rs\<close>)\<close>

text \<open>\<open>u128::try_from\<close> of a \<open>usize\<close> cannot fail, and the second count of a duration divided by
  at least one fits in a \<open>u64\<close>; the saturations are written out all the same.\<close>

definition stagger_spacing :: "duration \<Rightarrow> nat \<Rightarrow> duration" where
  "stagger_spacing interval active_targets =
     (let divisor = max active_targets 1;
          nanos = max (interval div divisor) 1;
          seconds = min (nanos div 1000000000) (2 ^ 64 - 1);
          subsec = nanos mod 1000000000
      in seconds * 1000000000 + subsec)"

definition next_stagger_gate :: "instant option \<Rightarrow> duration \<Rightarrow> instant \<Rightarrow> instant option" where
  "next_stagger_gate send_gate spacing accepted_at =
     (let base = (case send_gate of
                    Some gate \<Rightarrow>
                      if gate \<le> accepted_at \<and> accepted_at - gate < int spacing then gate else accepted_at
                  | None \<Rightarrow> accepted_at)
      in instant_checked_add base spacing)"

definition gated_send_deadline :: "instant option \<Rightarrow> instant option \<Rightarrow> instant option" where
  "gated_send_deadline cadence gate =
     map_option (\<lambda>deadline. case gate of None \<Rightarrow> deadline | Some g \<Rightarrow> max deadline g) cadence"

section \<open>What one step of the cadence does\<close>

definition slots_elapsed :: "instant \<Rightarrow> duration \<Rightarrow> instant \<Rightarrow> nat" where
  "slots_elapsed deadline interval now = nat (max 0 (now - deadline)) div interval"

definition duration_max :: nat where
  "duration_max = 2 ^ 64 * 1000000000 - 1"

lemma duration_from_nanos_iff:
  "duration_from_nanos n = (if n \<le> duration_max then Ok n else Err DurationOverflow)"
proof -
  have "n div 1000000000 \<le> 2 ^ 64 - 1 \<longleftrightarrow> n div 1000000000 < 2 ^ 64"
    by simp linarith
  also have "\<dots> \<longleftrightarrow> n \<le> duration_max"
    by (simp add: duration_max_def div_less_iff_less_mult less_Suc_eq_le [symmetric])
  finally show ?thesis by (simp add: duration_from_nanos_def)
qed

text \<open>The reference: the latest slot of the grid that is not after \<open>now\<close> (or the slot itself when
  it lies ahead), and the one after it.\<close>

lemma slot_bounds:
  fixes deadline now :: instant
  assumes "0 < interval"
  defines "k \<equiv> slots_elapsed deadline interval now"
  shows "deadline + int (k * interval) \<le> max now deadline"
    and "max now deadline < deadline + int (Suc k * interval)"
proof -
  define e where "e = nat (max 0 (now - deadline))"
  have e: "int e = max now deadline - deadline" by (simp add: e_def)
  have k: "k = e div interval" by (simp add: k_def slots_elapsed_def e_def)
  have "k * interval \<le> e" by (simp add: k)
  then have "int (k * interval) \<le> int e" by (rule of_nat_le_iff [THEN iffD2])
  then show "deadline + int (k * interval) \<le> max now deadline" using e by linarith
  have "e < Suc k * interval" using dividend_less_div_times [OF assms(1), of e] by (simp add: k)
  then have "int e < int (Suc k * interval)" by (rule of_nat_less_iff [THEN iffD2])
  then show "max now deadline < deadline + int (Suc k * interval)" using e by linarith
qed

lemma advance_cadence_cases:
  fixes deadline now :: instant
  assumes "0 < interval"
  defines "k \<equiv> slots_elapsed deadline interval now"
  shows "advance_cadence deadline interval now =
     (if Suc k * interval \<le> duration_max \<and> Suc k \<le> u128_max \<and> deadline + int (Suc k * interval) \<le> instant_max
      then Ok (deadline + int (k * interval), deadline + int (Suc k * interval))
      else Err DurationOverflow)"
proof -
  have slots: "(case checked_duration_since now deadline of None \<Rightarrow> 0 | Some elapsed \<Rightarrow> elapsed div interval) = k"
    by (auto simp: k_def slots_elapsed_def checked_duration_since_def max_def)
  have u: "duration_max \<le> u128_max" by (simp add: duration_max_def u128_max_def)
  have smaller: "interval * k \<le> Suc k * interval" by simp
  show ?thesis
    unfolding advance_cadence_def Let_def slots
    using assms(1) u smaller
    by (auto simp: ok_or_def checked_mul_u128_def checked_add_u128_def duration_from_nanos_iff
        instant_checked_add_def algebra_simps)
qed


lemma preflight_cases:
  assumes "preflight_managed_commit d now s = Ok c"
  shows "0 < sch_interval s \<and>
     sc_scheduled_at c = d + int (slots_elapsed d (sch_interval s) now * sch_interval s) \<and>
     sc_next_send_at c \<in> {None, Some (sc_scheduled_at c + int (sch_interval s))}"
proof -
  have pos: "0 < sch_interval s"
    using assms by (cases "sch_interval s = 0") (auto simp: preflight_managed_commit_def advance_cadence_def)
  show ?thesis
    using assms advance_cadence_cases [OF pos, of d now] pos
    by (auto simp: preflight_managed_commit_def algebra_simps split: if_splits)
qed

lemma skip_missed_cases:
  assumes "skip_missed_slots_at now s = Ok s'"
  obtains "s' = s" | d c where "sch_next_send_at s = Some d" "d \<le> now" "preflight_managed_commit d now s = Ok c"
    "s' = commit_schedule c s"
  using assms by (auto simp: skip_missed_slots_at_def result_simps split: option.splits if_splits)

section \<open>Runs of a schedule\<close>

text \<open>The calls \<open>poll_one_send\<close> and \<open>poll_target\<close> make: asking for permission, and a committed
  send, which takes the latest slot at the permission time, commits, and then skips the slots that
  passed while the socket was busy (a failing skip leaves the commit in place and ends the target).
  The log holds the slot and the permission time of each send.\<close>

inductive schedule_run ::
  "instant \<Rightarrow> accepted_session_parameters \<Rightarrow> probe_schedule \<Rightarrow> (instant \<times> instant) list \<Rightarrow> bool"
  for start accepted where
  run_new: "schedule_new start accepted = Ok s \<Longrightarrow> schedule_run start accepted s []"
| run_permit: "schedule_run start accepted s log \<Longrightarrow>
    schedule_run start accepted (snd (permit_probe_at now s)) log"
| run_send: "schedule_run start accepted s log \<Longrightarrow> permit_probe_at now s = (True, s') \<Longrightarrow>
    sch_next_send_at s' = Some d \<Longrightarrow> d \<le> now \<Longrightarrow> preflight_managed_commit d now s' = Ok c \<Longrightarrow>
    sent = commit_schedule c s' \<Longrightarrow> skip_missed_slots_at after sent = Ok s'' \<or> s'' = sent \<Longrightarrow>
    schedule_run start accepted s'' (log @ [(sc_scheduled_at c, now)])"

definition on_grid :: "instant \<Rightarrow> duration \<Rightarrow> instant \<Rightarrow> bool" where
  "on_grid start interval t \<longleftrightarrow> (\<exists>k. t = start + int (k * interval))"

lemma on_grid_add: "on_grid start i t \<Longrightarrow> on_grid start i (t + int (k * i))"
proof -
  assume "on_grid start i t"
  then obtain j where "t = start + int (j * i)" by (auto simp: on_grid_def)
  then have "t + int (k * i) = start + int ((j + k) * i)" by (simp add: algebra_simps)
  then show ?thesis unfolding on_grid_def by blast
qed

definition cadence_ok ::
  "instant \<Rightarrow> accepted_session_parameters \<Rightarrow> probe_schedule \<Rightarrow> (instant \<times> instant) list \<Rightarrow> bool" where
  "cadence_ok start accepted s log \<longleftrightarrow>
     sch_interval s = ap_interval accepted \<and>
     sch_end_at s = map_option (\<lambda>d. start + int d) (ap_duration accepted) \<and>
     (\<forall>d. sch_next_send_at s = Some d \<longrightarrow>
        on_grid start (ap_interval accepted) d \<and> (\<forall>(slot, p) \<in> set log. slot < d)) \<and>
     (\<forall>(slot, p) \<in> set log. on_grid start (ap_interval accepted) slot \<and> slot \<le> p \<and>
        p < slot + int (ap_interval accepted) \<and> \<not> reached_end s p) \<and>
     sorted_wrt (\<lambda>a b. fst a < fst b) log"

lemma commit_next_later:
  assumes "cadence_ok start accepted s log" "sch_next_send_at s = Some d"
    and "preflight_managed_commit d now s = Ok c"
  shows "d \<le> sc_scheduled_at c \<and> on_grid start (ap_interval accepted) (sc_scheduled_at c) \<and>
    (\<forall>n. sc_next_send_at c = Some n \<longrightarrow> on_grid start (ap_interval accepted) n \<and> sc_scheduled_at c < n)"
proof -
  have g: "on_grid start (ap_interval accepted) d" and i: "sch_interval s = ap_interval accepted"
    using assms(1,2) by (auto simp: cadence_ok_def)
  note pc = preflight_cases [OF assms(3), unfolded i]
  have s: "on_grid start (ap_interval accepted) (sc_scheduled_at c)" using on_grid_add [OF g] pc by auto
  then show ?thesis using pc on_grid_add [OF s, of 1] by auto
qed

lemma reached_end_update [simp]: "reached_end (s\<lparr>sch_next_send_at := n\<rparr>) t = reached_end s t"
  by (simp add: reached_end_def)

lemma skip_keeps_cadence:
  assumes "cadence_ok start accepted s log" "skip_missed_slots_at now s = Ok s'"
  shows "cadence_ok start accepted s' log"
  using assms(2)
proof (cases rule: skip_missed_cases)
  case 1
  then show ?thesis using assms(1) by simp
next
  case (2 d c)
  then show ?thesis
    using assms(1) commit_next_later [OF assms(1) 2(1,3)]
    by (fastforce simp: cadence_ok_def commit_schedule_def)
qed

lemma send_keeps_cadence:
  assumes ok: "cadence_ok start accepted s log" and d: "sch_next_send_at s = Some d" "d \<le> now"
    and c: "preflight_managed_commit d now s = Ok c" and permitted: "\<not> reached_end s now"
  shows "cadence_ok start accepted (commit_schedule c s) (log @ [(sc_scheduled_at c, now)])"
proof -
  note later = commit_next_later [OF ok d(1) c]
  have i: "sch_interval s = ap_interval accepted" using ok by (simp add: cadence_ok_def)
  note pc = preflight_cases [OF c, unfolded i]
  have pos: "0 < ap_interval accepted" using pc by simp
  have "sc_scheduled_at c \<le> now \<and> now < sc_scheduled_at c + int (ap_interval accepted)"
    using slot_bounds [OF pos, where deadline = d and now = now] d(2) pc by (simp add: algebra_simps max_def)
  moreover have "slot < sc_scheduled_at c" if "(slot, p) \<in> set log" for slot p
    using ok d(1) that later by (fastforce simp: cadence_ok_def)
  ultimately show ?thesis
    using ok later permitted
    by (fastforce simp: cadence_ok_def commit_schedule_def sorted_wrt_append)
qed

lemma permit_cases:
  "permit_probe_at now s = (True, s') \<Longrightarrow> s' = s \<and> \<not> reached_end s now"
  "snd (permit_probe_at now s) \<in> {s, s\<lparr>sch_next_send_at := None\<rparr>}"
  by (auto simp: permit_probe_at_def split: if_splits)

lemma schedule_run_cadence:
  assumes "schedule_run start accepted s log"
  shows "cadence_ok start accepted s log"
  using assms
proof (induction rule: schedule_run.induct)
  case (run_new s)
  have "on_grid start i start" for i by (auto simp: on_grid_def intro: exI [of _ 0])
  with run_new show ?case
    by (auto simp: schedule_new_def cadence_ok_def result_simps split: option.splits)
next
  case (run_permit s log now)
  then show ?case using permit_cases(2) [of now s] by (auto simp: cadence_ok_def)
next
  case (run_send s log now s' d c sent after s'')
  have "s' = s" "\<not> reached_end s now" using permit_cases(1) [OF run_send.hyps(2)] by auto
  with run_send send_keeps_cadence [of start accepted s log d now c]
  show ?case by (auto intro: skip_keeps_cadence)
qed

text \<open>Slots of a strictly increasing sequence on the grid are at least one interval apart, so the
  \<open>n\<close>-th one is no earlier than \<open>n\<close> intervals after the start.\<close>

lemma grid_step:
  assumes "on_grid start i a" "on_grid start i b" "a < b"
  shows "a + int i \<le> b"
proof -
  obtain j k where a: "a = start + int (j * i)" and b: "b = start + int (k * i)"
    using assms(1,2) by (auto simp: on_grid_def)
  from assms(3) have "int (j * i) < int (k * i)" unfolding a b by linarith
  then have "j * i < k * i" by (rule of_nat_less_iff [THEN iffD1])
  then have "Suc j \<le> k" by (simp add: Suc_le_eq)
  then have "Suc j * i \<le> k * i" by (rule mult_le_mono1)
  then have "int (Suc j * i) \<le> int (k * i)" by (rule of_nat_le_iff [THEN iffD2])
  then show ?thesis by (simp add: a b)
qed

lemma grid_nth:
  assumes "sorted_wrt (\<lambda>a b. fst a < fst b) log" "\<forall>(slot, p) \<in> set log. on_grid start i slot" "n < length log"
  shows "start + int (n * i) \<le> fst (log ! n)"
  using assms(3)
proof (induction n)
  case 0
  then have "on_grid start i (fst (log ! 0))" using assms(2) nth_mem [of 0 log] by fastforce
  then show ?case by (auto simp: on_grid_def)
next
  case (Suc n)
  have "on_grid start i (fst (log ! n))" "on_grid start i (fst (log ! Suc n))"
    using assms(2) Suc.prems nth_mem [of n log] nth_mem [of "Suc n" log] by fastforce+
  moreover have "fst (log ! n) < fst (log ! Suc n)"
    using assms(1) Suc.prems by (simp add: sorted_wrt_iff_nth_less)
  ultimately show ?case using grid_step Suc by fastforce
qed

text \<open>C37: the probe cadence. Every probe of a run takes the latest slot of the absolute grid
  (start plus a multiple of the interval) not after its permission time, slots are strictly
  increasing, no probe is permitted at or after the end of the test, and a test of a given
  duration therefore sends at most one probe per started interval.\<close>

theorem probe_cadence:
  assumes "schedule_run start accepted s log"
  shows "(\<forall>(slot, p) \<in> set log. (\<exists>k. slot = start + int (k * ap_interval accepted)) \<and> slot \<le> p \<and>
        p < slot + int (ap_interval accepted)) \<and>
     sorted_wrt (<) (map fst log) \<and>
     (\<forall>d. ap_duration accepted = Some d \<longrightarrow>
        (\<forall>(slot, p) \<in> set log. p < start + int d) \<and>
        (log \<noteq> [] \<longrightarrow> (length log - 1) * ap_interval accepted < d))"
proof -
  have ok: "cadence_ok start accepted s log" by (rule schedule_run_cadence [OF assms])
  have "(length log - 1) * ap_interval accepted < d"
    if "ap_duration accepted = Some d" "log \<noteq> []" for d
  proof -
    have "start + int ((length log - 1) * ap_interval accepted) \<le> fst (log ! (length log - 1))"
      using ok that(2) by (intro grid_nth) (auto simp: cadence_ok_def)
    moreover have "log ! (length log - 1) \<in> set log" using that(2) by simp
    then have "fst (log ! (length log - 1)) \<le> snd (log ! (length log - 1)) \<and>
        \<not> reached_end s (snd (log ! (length log - 1)))"
      using ok by (fastforce simp: cadence_ok_def)
    moreover have "sch_end_at s = Some (start + int d)" using ok that(1) by (simp add: cadence_ok_def)
    ultimately have "int ((length log - 1) * ap_interval accepted) < int d" by (simp add: reached_end_def)
    then show ?thesis by (rule of_nat_less_iff [THEN iffD1])
  qed
  with ok show ?thesis
    by (fastforce simp: cadence_ok_def on_grid_def reached_end_def sorted_wrt_map split_beta)
qed

definition cadence_test_parameters :: accepted_session_parameters where
  "cadence_test_parameters =
     \<lparr>ap_duration = Some 25, ap_interval = 10, ap_length = 0, ap_received_stats = RsBoth,
      ap_stamp_at = StBoth, ap_clock = ClkBoth, ap_dscp = 0, ap_server_fill = None\<rparr>"

text \<open>A run that is late for its second slot: the probe permitted at 23 takes slot 20.\<close>

lemma cadence_test_run:
  "schedule_run 0 cadence_test_parameters
     \<lparr>sch_end_at = Some 25, sch_interval = 10, sch_next_send_at = None\<rparr> [(0, 1), (20, 23)]"
proof -
  let ?s = "\<lambda>n. \<lparr>sch_end_at = Some 25, sch_interval = 10, sch_next_send_at = n\<rparr> :: probe_schedule"
  have 0: "schedule_run 0 cadence_test_parameters (?s (Some 0)) []"
    by (rule run_new) (simp add: schedule_new_def cadence_test_parameters_def instant_checked_add_def instant_max_def)
  let ?c = "\<lparr>sc_scheduled_at = 0, sc_next_send_at = Some 10\<rparr>"
  let ?d = "\<lparr>sc_scheduled_at = 20, sc_next_send_at = None\<rparr>"
  have 1: "schedule_run 0 cadence_test_parameters (?s (Some 10)) ([] @ [(sc_scheduled_at ?c, 1)])"
    by (rule run_send [OF 0, where s' = "?s (Some 0)" and d = 0 and sent = "?s (Some 10)" and after = 2]; code_simp)
  have "schedule_run 0 cadence_test_parameters (?s None)
      (([] @ [(sc_scheduled_at ?c, 1)]) @ [(sc_scheduled_at ?d, 23)])"
    by (rule run_send [OF 1, where s' = "?s (Some 10)" and d = 10 and sent = "?s None" and after = 24]; code_simp)
  then show ?thesis by simp
qed

theorem probe_cadence_witness:
  "schedule_run 0 cadence_test_parameters
     \<lparr>sch_end_at = Some 25, sch_interval = 10, sch_next_send_at = None\<rparr> [(0, 1), (20, 23)] \<and>
   (length [(0 :: int, 1 :: int), (20, 23)] - 1) * 10 < (25 :: nat) \<and> (23 :: int) < 0 + int 25"
  using cadence_test_run probe_cadence [OF cadence_test_run] by (simp add: cadence_test_parameters_def)

section \<open>The stagger gate\<close>

lemma stagger_spacing_eq:
  "interval \<le> duration_max \<Longrightarrow> stagger_spacing interval active = max (interval div max active 1) 1"
proof -
  assume "interval \<le> duration_max"
  then have "max (interval div max active 1) 1 \<le> duration_max"
    by (intro max.boundedI) (rule le_trans [OF div_le_dividend], simp_all add: duration_max_def)
  then have "max (interval div max active 1) 1 div 1000000000 < 2 ^ 64"
    by (simp add: duration_max_def div_less_iff_less_mult less_Suc_eq_le [symmetric] del: max_less_iff_conj)
  then have "min (max (interval div max active 1) 1 div 1000000000) (2 ^ 64 - 1) =
      max (interval div max active 1) 1 div 1000000000"
    by (intro min_absorb1) simp
  then show ?thesis
    unfolding stagger_spacing_def Let_def by (simp only: div_mult_mod_eq)
qed

text \<open>Staggering. The spacing splits the shortest interval evenly among the active targets
  (never zero, and a full round of targets fits in one interval when that is long enough); the
  gate after an accepted send lies strictly after it and at most one spacing later, and while the
  pacer keeps up it advances on its own cadence, so wake-up latency does not accumulate.\<close>

theorem stagger_gate_paced:
  assumes "interval \<le> duration_max" "accepted_at + int (stagger_spacing interval active) \<le> instant_max"
  shows "0 < stagger_spacing interval active \<and>
     (active \<le> interval \<longrightarrow> active * stagger_spacing interval active \<le> max interval 1) \<and>
     (\<exists>gate'. next_stagger_gate gate (stagger_spacing interval active) accepted_at = Some gate' \<and>
        accepted_at < gate' \<and> gate' \<le> accepted_at + int (stagger_spacing interval active) \<and>
        (\<forall>g. gate = Some g \<and> g \<le> accepted_at \<and> accepted_at < g + int (stagger_spacing interval active) \<longrightarrow>
           gate' = g + int (stagger_spacing interval active)))"
proof -
  let ?sp = "stagger_spacing interval active"
  have eq: "?sp = max (interval div max active 1) 1" by (rule stagger_spacing_eq [OF assms(1)])
  then have pos: "0 < ?sp" by simp
  have "active * ?sp \<le> max interval 1" if "active \<le> interval"
  proof (cases "active = 0")
    case False
    then have "1 \<le> interval div active" using that by (simp add: Suc_leI div_greater_zero_iff)
    moreover have "max active 1 = active" using False by simp
    ultimately have "?sp = interval div active" by (simp add: eq)
    then show ?thesis by (metis le_trans max.cobounded1 times_div_less_eq_dividend)
  qed simp
  moreover have "\<exists>gate'. next_stagger_gate gate ?sp accepted_at = Some gate' \<and> accepted_at < gate' \<and>
      gate' \<le> accepted_at + int ?sp \<and>
      (\<forall>g. gate = Some g \<and> g \<le> accepted_at \<and> accepted_at < g + int ?sp \<longrightarrow> gate' = g + int ?sp)"
    using assms(2) pos
    by (cases gate) (auto simp: next_stagger_gate_def Let_def instant_checked_add_def)
  ultimately show ?thesis using pos by blast
qed

theorem stagger_gate_paced_witness:
  "0 < stagger_spacing 1000 4 \<and> (\<exists>gate'. next_stagger_gate (Some 500) (stagger_spacing 1000 4) 600 = Some gate' \<and>
     gate' = 500 + int (stagger_spacing 1000 4))"
proof -
  have "stagger_spacing 1000 4 = 250" by code_simp
  then show ?thesis
    using stagger_gate_paced [of 1000 600 4 "Some 500"] by (auto simp: duration_max_def instant_max_def)
qed

end
