(* ===== verification/Managed.thy ===== *)
theory Managed
  imports Async_Runs Schedule
begin

text \<open>
  The durable side of the managed client (\<open>irtt-client/src/managed\<close>): its data model and error
  classification (\<open>model.rs\<close>), the accounting of targets and outcomes, status snapshots
  (\<open>task.rs\<close>, \<open>task/target.rs\<close>), construction and update admission (\<open>task/control.rs\<close>) and the
  update transaction that replaces the desired targets (\<open>task/update.rs\<close>). Channels are the lists of
  what was published; the clock and the texts of errors are inputs; the future of a connecting
  target is the configuration it was started with.
\<close>

section \<open>Data model\<close>

type_synonym target_id = string

record target_instance =
  ti_id :: target_id
  ti_generation :: u64

datatype target_auth = AuthInherit | AuthOverride authentication

fun resolve_auth :: "target_auth \<Rightarrow> authentication \<Rightarrow> authentication" where
  "resolve_auth AuthInherit shared = shared"
| "resolve_auth (AuthOverride auth) shared = auth"

record managed_target_config =
  tc_id :: target_id
  tc_server_addr :: string
  tc_address_family :: "address_family option"
  tc_auth :: target_auth

datatype managed_pacing = Staggered | Burst
datatype managed_completion_policy = FinishWhenQuiescent | ExplicitStop

record managed_client_config =
  mc_client :: client_config
  mc_pacing :: managed_pacing
  mc_completion :: managed_completion_policy
  mc_event_capacity :: nat
  mc_command_capacity :: nat
  mc_outcome_history_limit :: nat
  mc_max_live_target_generations :: nat
  mc_final_drain :: duration
  mc_reconnect_timeout :: "duration option"
  mc_reconnect_initial_delay :: duration
  mc_reconnect_max_delay :: duration

datatype managed_lifecycle = MlNotStarted | MlRunning | MlStopping | MlCompleted | MlFailed | MlAbandoned

datatype target_lifecycle =
    TlPending | TlConnecting | TlOpening | TlActive | TlDraining | TlClosing | TlTerminal

datatype failure_phase = FpConnecting | FpOpening | FpSending | FpReceiving | FpTiming | FpClosing

datatype failure_kind =
    FkResolve | FkSocket | FkSocketOption | FkProtocol | FkTimeout | FkConfiguration
  | FkResourceExhausted | FkInvalidState | FkOther

record target_failure =
  tf_phase :: failure_phase
  tf_kind :: failure_kind
  tf_message :: string

datatype target_end_reason =
    TestComplete | NoTestComplete | PeerClosed | Removed | Replaced | Stopped | Failed target_failure

record target_outcome =
  to_target :: target_instance
  to_server_addr :: string
  to_remote :: "socket_addr option"
  to_end_reason :: target_end_reason
  to_packets_sent :: u64
  to_replies_received :: u64
  to_duplicates :: u64
  to_late :: u64
  to_warning_events :: u64
  to_cleanup_failure :: "target_failure option"

datatype driver_failure = NoRuntime | DriverExhausted string | DriverInternal string

datatype managed_end_reason = TargetsComplete | StopRequested | DriverFailed driver_failure

record managed_outcome =
  mo_end_reason :: managed_end_reason
  mo_applied_command_sequence :: u64
  mo_total :: u64
  mo_successful :: u64
  mo_failed :: u64
  mo_peer_closed :: u64
  mo_discarded :: u64
  mo_recent :: "target_outcome list"

record target_status =
  ts_target :: target_instance
  ts_desired :: bool
  ts_lifecycle :: target_lifecycle
  ts_outcome :: "target_outcome option"
  ts_server_addr :: string
  ts_remote :: "socket_addr option"

record managed_status =
  ms_lifecycle :: managed_lifecycle
  ms_stop_requested :: bool
  ms_applied_command_sequence :: u64
  ms_desired_count :: nat
  ms_connecting_count :: nat
  ms_opening_count :: nat
  ms_active_count :: nat
  ms_draining_count :: nat
  ms_closing_count :: nat
  ms_terminal_count :: nat
  ms_total_outcomes :: u64
  ms_successful_outcomes :: u64
  ms_failed_outcomes :: u64
  ms_peer_closed_outcomes :: u64
  ms_discarded_outcomes :: u64
  ms_targets :: "target_status list"
  ms_recent_outcomes :: "target_outcome list"
  ms_final_outcome :: "managed_outcome option"

datatype managed_event =
    MeStarted
  | MeTargetStateChanged target_instance target_lifecycle
  | MeClient target_instance client_event
  | MeTargetFinished target_outcome
  | MeStopping
  | MeCompleted managed_outcome
  | MeFailed managed_outcome
  | MeAbandoned

datatype managed_config_error =
    InvalidReconnectPolicy
  | InvalidReconnectDelays duration duration
  | EmptyInitialTargets
  | CfgDuplicateTargetId target_id
  | CfgTooManyTargets nat nat
  | ZeroEventCapacity
  | EventCapacityTooLarge nat nat
  | ZeroCommandCapacity
  | CommandCapacityTooLarge nat nat
  | ZeroLiveGenerationLimit
  | UnschedulableFinalDrain duration
  | CfgInvalidTarget target_id client_error
  | CfgGenerationExhausted

datatype managed_command_error = CmdStopping | CmdTooManyTargets nat nat | QueueFull | DriverClosed

datatype managed_apply_error =
    ApplyStopping
  | ApplyDuplicateTargetId target_id
  | ApplyInvalidTarget target_id client_error
  | LiveGenerationLimitExceeded nat nat
  | ApplyGenerationExhausted
  | CommandSequenceExhausted
  | AcknowledgementDisconnected
  | ApplyDriverFailed driver_failure

fun failure_kind_of :: "client_error \<Rightarrow> failure_kind" where
  "failure_kind_of (Resolve _) = FkResolve"
| "failure_kind_of (Socket _) = FkSocket"
| "failure_kind_of (SocketOption _ _ _) = FkSocketOption"
| "failure_kind_of (ReadTimeoutRestore _) = FkSocketOption"
| "failure_kind_of (Protocol _) = FkProtocol"
| "failure_kind_of (ProtocolVersionMismatch _ _) = FkProtocol"
| "failure_kind_of ClientZeroToken = FkProtocol"
| "failure_kind_of UnexpectedNoTestReply = FkProtocol"
| "failure_kind_of (NonZeroNoTestToken _) = FkProtocol"
| "failure_kind_of ServerRejected = FkProtocol"
| "failure_kind_of (NegotiationRejected _) = FkProtocol"
| "failure_kind_of OpenTimeout = FkTimeout"
| "failure_kind_of (InvalidConfig _) = FkConfiguration"
| "failure_kind_of (OpenTimeoutTooSmall _ _) = FkConfiguration"
| "failure_kind_of NoOpenTimeouts = FkConfiguration"
| "failure_kind_of (AllocationFailed _) = FkResourceExhausted"
| "failure_kind_of (CounterOverflow _) = FkResourceExhausted"
| "failure_kind_of DurationOverflow = FkResourceExhausted"
| "failure_kind_of (PendingLimitExceeded _) = FkResourceExhausted"
| "failure_kind_of (DatagramLengthMismatch _ _) = FkSocket"
| "failure_kind_of NoTokioRuntime = FkInvalidState"
| "failure_kind_of NotOpen = FkInvalidState"
| "failure_kind_of AlreadyOpen = FkInvalidState"
| "failure_kind_of AlreadyCompleted = FkInvalidState"
| "failure_kind_of AlreadyClosed = FkInvalidState"
| "failure_kind_of (StalePreparedProbe _ _) = FkInvalidState"
| "failure_kind_of (PendingSequenceCollision _) = FkInvalidState"

definition classify_client_error :: "(client_error \<Rightarrow> string) \<Rightarrow> failure_phase \<Rightarrow> client_error \<Rightarrow> target_failure" where
  "classify_client_error to_string phase error =
     \<lparr>tf_phase = phase, tf_kind = failure_kind_of error, tf_message = to_string error\<rparr>"

section \<open>Targets\<close>

record target_counters =
  tn_packets_sent :: u64
  tn_replies_received :: u64
  tn_duplicates :: u64
  tn_late :: u64
  tn_warning_events :: u64

definition target_counters_default :: target_counters where
  "target_counters_default =
     \<lparr>tn_packets_sent = 0, tn_replies_received = 0, tn_duplicates = 0, tn_late = 0, tn_warning_events = 0\<rparr>"

definition saturating_inc :: "u64 \<Rightarrow> u64" where
  "saturating_inc n = (if n = - 1 then n else n + 1)"

fun observe :: "client_event \<Rightarrow> target_counters \<Rightarrow> target_counters" where
  "observe (EchoReply _ _ _ _ _ _ _ _ _ _) n = n\<lparr>tn_replies_received := saturating_inc (tn_replies_received n)\<rparr>"
| "observe (DuplicateReply _ _ _ _) n = n\<lparr>tn_duplicates := saturating_inc (tn_duplicates n)\<rparr>"
| "observe (LateReply _ _ _ _ _ _ _ _ _ _ _) n = n\<lparr>tn_late := saturating_inc (tn_late n)\<rparr>"
| "observe (Warning _ _ _) n = n\<lparr>tn_warning_events := saturating_inc (tn_warning_events n)\<rparr>"
| "observe _ n = n"

datatype target_phase =
    Retrying instant
  | TpPending client_config
  | Connecting client_config
  | Opening async_client async_open_state
  | Active async_client probe_schedule bool
  | Draining async_client instant instant target_end_reason "target_failure option" nat
  | Closing async_client instant target_end_reason "target_failure option"
  | Terminal target_outcome

fun phase_lifecycle :: "target_phase \<Rightarrow> target_lifecycle" where
  "phase_lifecycle (Retrying _) = TlPending"
| "phase_lifecycle (TpPending _) = TlPending"
| "phase_lifecycle (Connecting _) = TlConnecting"
| "phase_lifecycle (Opening _ _) = TlOpening"
| "phase_lifecycle (Active _ _ _) = TlActive"
| "phase_lifecycle (Draining _ _ _ _ _ _) = TlDraining"
| "phase_lifecycle (Closing _ _ _ _) = TlClosing"
| "phase_lifecycle (Terminal _) = TlTerminal"

fun is_terminal_phase :: "target_phase \<Rightarrow> bool" where
  "is_terminal_phase (Terminal _) = True"
| "is_terminal_phase _ = False"

datatype retirement_reason = RetRemoved | RetReplaced

fun end_reason_of :: "retirement_reason \<Rightarrow> target_end_reason" where
  "end_reason_of RetRemoved = Removed"
| "end_reason_of RetReplaced = Replaced"

datatype target_membership = Desired | Withdrawn retirement_reason

record target_runtime =
  tr_instance :: target_instance
  tr_config :: managed_target_config
  tr_membership :: target_membership
  tr_server_addr :: string
  tr_remote :: "socket_addr option"
  tr_counters :: target_counters
  tr_sent_before_session :: u64
  tr_retry_delay :: duration
  tr_silence_since :: "instant option"
  tr_last_reply_at :: "instant option"
  tr_phase :: "target_phase"

definition is_desired :: "target_runtime \<Rightarrow> bool" where
  "is_desired t \<longleftrightarrow> tr_membership t = Desired"

definition is_paced_active :: "target_runtime \<Rightarrow> bool" where
  "is_paced_active t \<longleftrightarrow> is_desired t \<and> (case tr_phase t of Active _ _ _ \<Rightarrow> True | _ \<Rightarrow> False)"

definition target_outcome_of ::
  "target_end_reason \<Rightarrow> target_failure option \<Rightarrow> target_runtime \<Rightarrow> target_outcome" where
  "target_outcome_of end_reason cleanup_failure t =
     \<lparr>to_target = tr_instance t, to_server_addr = tr_server_addr t, to_remote = tr_remote t,
      to_end_reason = end_reason, to_packets_sent = tn_packets_sent (tr_counters t),
      to_replies_received = tn_replies_received (tr_counters t), to_duplicates = tn_duplicates (tr_counters t),
      to_late = tn_late (tr_counters t), to_warning_events = tn_warning_events (tr_counters t),
      to_cleanup_failure = cleanup_failure\<rparr>"

section \<open>Outcome history\<close>

record outcome_history =
  oh_limit :: nat
  oh_recent :: "target_outcome list"
  oh_total :: u64
  oh_successful :: u64
  oh_failed :: u64
  oh_peer_closed :: u64
  oh_discarded :: u64

definition history_new :: "nat \<Rightarrow> outcome_history" where
  "history_new limit =
     \<lparr>oh_limit = limit, oh_recent = [], oh_total = 0, oh_successful = 0, oh_failed = 0,
      oh_peer_closed = 0, oh_discarded = 0\<rparr>"

fun count_end_reason :: "target_end_reason \<Rightarrow> outcome_history \<Rightarrow> outcome_history" where
  "count_end_reason (Failed _) h = h\<lparr>oh_failed := saturating_inc (oh_failed h)\<rparr>"
| "count_end_reason PeerClosed h =
     h\<lparr>oh_successful := saturating_inc (oh_successful h), oh_peer_closed := saturating_inc (oh_peer_closed h)\<rparr>"
| "count_end_reason _ h = h\<lparr>oh_successful := saturating_inc (oh_successful h)\<rparr>"

definition history_record :: "target_outcome \<Rightarrow> outcome_history \<Rightarrow> outcome_history" where
  "history_record outcome h =
     (let h = count_end_reason (to_end_reason outcome) (h\<lparr>oh_total := saturating_inc (oh_total h)\<rparr>)
      in if oh_limit h = 0 then h\<lparr>oh_discarded := saturating_inc (oh_discarded h)\<rparr>
         else
           let h = (if length (oh_recent h) = oh_limit h
                    then h\<lparr>oh_recent := tl (oh_recent h), oh_discarded := saturating_inc (oh_discarded h)\<rparr>
                    else h)
           in h\<lparr>oh_recent := oh_recent h @ [outcome]\<rparr>)"

definition history_outcome :: "managed_end_reason \<Rightarrow> u64 \<Rightarrow> outcome_history \<Rightarrow> managed_outcome" where
  "history_outcome end_reason sequence h =
     \<lparr>mo_end_reason = end_reason, mo_applied_command_sequence = sequence, mo_total = oh_total h,
      mo_successful = oh_successful h, mo_failed = oh_failed h, mo_peer_closed = oh_peer_closed h,
      mo_discarded = oh_discarded h, mo_recent = oh_recent h\<rparr>"

section \<open>The task\<close>

datatype update_admission = AdmissionOpen | AdmissionStopping | AdmissionClosed

fun begin_stopping :: "update_admission \<Rightarrow> update_admission" where
  "begin_stopping AdmissionOpen = AdmissionStopping"
| "begin_stopping AdmissionStopping = AdmissionStopping"
| "begin_stopping AdmissionClosed = AdmissionClosed"

datatype task_phase =
    NotStarted | Running | Stopping | Completed managed_outcome | TaskFailed managed_outcome | Abandoned

fun task_lifecycle :: "task_phase \<Rightarrow> managed_lifecycle" where
  "task_lifecycle NotStarted = MlNotStarted"
| "task_lifecycle Running = MlRunning"
| "task_lifecycle Stopping = MlStopping"
| "task_lifecycle (Completed _) = MlCompleted"
| "task_lifecycle (TaskFailed _) = MlFailed"
| "task_lifecycle Abandoned = MlAbandoned"

fun task_final_outcome :: "task_phase \<Rightarrow> managed_outcome option" where
  "task_final_outcome (Completed outcome) = Some outcome"
| "task_final_outcome (TaskFailed outcome) = Some outcome"
| "task_final_outcome _ = None"

record timeout_backlog_entry =
  bl_index :: nat
  bl_generation :: u64

record managed_task =
  mt_phase :: task_phase
  mt_config :: managed_client_config
  mt_targets :: "target_runtime list"
  mt_history :: outcome_history
  mt_cursor :: nat
  mt_timeout_cursor :: nat
  mt_timeout_backlog :: "timeout_backlog_entry list"
  mt_scan_remaining :: nat
  mt_send_cursor :: nat
  mt_burst_remaining :: nat
  mt_stagger_remaining :: nat
  mt_send_gate :: "instant option"
  mt_last_stagger_send :: "instant option"
  mt_stop_observed :: bool
  mt_next_generation :: u64
  mt_applied_command_sequence :: u64
  mt_admission :: update_admission
  mt_status :: managed_status
  mt_events :: "managed_event list"

definition target_status_of :: "target_runtime \<Rightarrow> target_status" where
  "target_status_of t =
     \<lparr>ts_target = tr_instance t, ts_desired = is_desired t, ts_lifecycle = phase_lifecycle (tr_phase t),
      ts_outcome = (case tr_phase t of Terminal outcome \<Rightarrow> Some outcome | _ \<Rightarrow> None),
      ts_server_addr = tr_server_addr t, ts_remote = tr_remote t\<rparr>"

definition count_lifecycle :: "target_lifecycle \<Rightarrow> target_runtime list \<Rightarrow> nat" where
  "count_lifecycle l targets = length (filter (\<lambda>t. phase_lifecycle (tr_phase t) = l) targets)"

definition task_snapshot :: "managed_task \<Rightarrow> managed_status" where
  "task_snapshot m =
     \<lparr>ms_lifecycle = task_lifecycle (mt_phase m), ms_stop_requested = mt_stop_observed m,
      ms_applied_command_sequence = mt_applied_command_sequence m,
      ms_desired_count = length (filter is_desired (mt_targets m)),
      ms_connecting_count = count_lifecycle TlConnecting (mt_targets m),
      ms_opening_count = count_lifecycle TlOpening (mt_targets m),
      ms_active_count = count_lifecycle TlActive (mt_targets m),
      ms_draining_count = count_lifecycle TlDraining (mt_targets m),
      ms_closing_count = count_lifecycle TlClosing (mt_targets m),
      ms_terminal_count = count_lifecycle TlTerminal (mt_targets m),
      ms_total_outcomes = oh_total (mt_history m), ms_successful_outcomes = oh_successful (mt_history m),
      ms_failed_outcomes = oh_failed (mt_history m), ms_peer_closed_outcomes = oh_peer_closed (mt_history m),
      ms_discarded_outcomes = oh_discarded (mt_history m),
      ms_targets = map target_status_of (mt_targets m), ms_recent_outcomes = oh_recent (mt_history m),
      ms_final_outcome = task_final_outcome (mt_phase m)\<rparr>"

definition replace_status :: "managed_task \<Rightarrow> managed_task" where
  "replace_status m = m\<lparr>mt_status := task_snapshot m\<rparr>"

definition publish_event :: "managed_event \<Rightarrow> managed_task \<Rightarrow> managed_task" where
  "publish_event event m = m\<lparr>mt_events := mt_events m @ [event]\<rparr>"

definition stagger_target_removed :: "instant \<Rightarrow> managed_task \<Rightarrow> managed_task" where
  "stagger_target_removed now m =
     m\<lparr>mt_send_gate := (case mt_send_gate m of None \<Rightarrow> None | Some gate \<Rightarrow> if now < gate then Some gate else None)\<rparr>"

definition rebase_target_cursors :: "managed_task \<Rightarrow> managed_task" where
  "rebase_target_cursors m =
     (let len = length (mt_targets m);
          m = (if len = 0 then m\<lparr>mt_cursor := 0, mt_timeout_cursor := 0, mt_send_cursor := 0\<rparr>
               else m\<lparr>mt_cursor := mt_cursor m mod len, mt_timeout_cursor := mt_timeout_cursor m mod len,
                      mt_send_cursor := mt_send_cursor m mod len\<rparr>)
      in m\<lparr>mt_scan_remaining := min (mt_scan_remaining m) len,
           mt_burst_remaining := min (mt_burst_remaining m) len,
           mt_stagger_remaining := min (mt_stagger_remaining m) len\<rparr>)"

definition begin_running :: "bool \<Rightarrow> managed_task \<Rightarrow> managed_task \<times> (driver_failure + unit)" where
  "begin_running runtime_present m =
     (if \<not> runtime_present then (m, Err NoRuntime)
      else (publish_event MeStarted (replace_status (m\<lparr>mt_phase := Running\<rparr>)), Ok ()))"

definition observe_stop :: "managed_task \<Rightarrow> managed_task" where
  "observe_stop m =
     (if mt_stop_observed m then m
      else
        let lifecycle_transition = (mt_phase m \<noteq> Stopping);
            m = replace_status (m\<lparr>mt_stop_observed := True, mt_admission := begin_stopping (mt_admission m),
                                  mt_phase := Stopping\<rparr>);
            m = (if lifecycle_transition then publish_event MeStopping m else m)
        in m\<lparr>mt_scan_remaining := length (mt_targets m), mt_burst_remaining := 0\<rparr>)"

section \<open>Construction\<close>

definition MAX_TTL :: u32 where "MAX_TTL = 255"

definition validate_ttl :: "u32 \<Rightarrow> client_error + unit" where
  "validate_ttl ttl =
     (if ttl = 0 \<or> MAX_TTL < ttl then Err (InvalidConfig (''ttl must be in range 1..='' @ decimal (unat MAX_TTL)))
      else Ok ())"

definition validate_target_config :: "client_config \<Rightarrow> client_error + unit" where
  "validate_target_config config =
     bindr (validate_open_policy (cc_open config)) (\<lambda>_.
     bindr (validate_config config) (\<lambda>_.
       case sc_ttl (cc_socket config) of Some ttl \<Rightarrow> validate_ttl ttl | None \<Rightarrow> Ok ()))"

definition target_client_config :: "client_config \<Rightarrow> managed_target_config \<Rightarrow> client_config" where
  "target_client_config shared target =
     shared\<lparr>cc_address_family := (case tc_address_family target of Some family \<Rightarrow> family | None \<Rightarrow> cc_address_family shared),
            cc_auth := resolve_auth (tc_auth target) (cc_auth shared)\<rparr>"

definition new_target_runtime ::
  "managed_client_config \<Rightarrow> managed_target_config \<Rightarrow> client_config \<Rightarrow> u64 \<Rightarrow> target_runtime" where
  "new_target_runtime config target client_config generation =
     \<lparr>tr_instance = \<lparr>ti_id = tc_id target, ti_generation = generation\<rparr>, tr_config = target,
      tr_membership = Desired, tr_server_addr = tc_server_addr target, tr_remote = None,
      tr_counters = target_counters_default, tr_sent_before_session = 0,
      tr_retry_delay = mc_reconnect_initial_delay config, tr_silence_since = None, tr_last_reply_at = None,
      tr_phase = TpPending client_config\<rparr>"

definition MAX_BROADCAST_CHANNEL_CAPACITY :: nat where
  "MAX_BROADCAST_CHANNEL_CAPACITY = usize_max div 2"

text \<open>\<open>Duration::checked_mul(2)\<close> and \<open>checked_add\<close> fail above the largest duration; Tokio's permit
  limit is an input, and so are the successive readings of the clock.\<close>

definition validate_managed_config ::
  "nat \<Rightarrow> (nat \<Rightarrow> instant) \<Rightarrow> managed_client_config \<Rightarrow> managed_target_config list \<Rightarrow> managed_config_error + unit" where
  "validate_managed_config max_permits now config targets =
     (if mc_event_capacity config = 0 then Err ZeroEventCapacity
      else if MAX_BROADCAST_CHANNEL_CAPACITY < mc_event_capacity config then
        Err (EventCapacityTooLarge (mc_event_capacity config) MAX_BROADCAST_CHANNEL_CAPACITY)
      else if mc_command_capacity config = 0 then Err ZeroCommandCapacity
      else if max_permits < mc_command_capacity config then
        Err (CommandCapacityTooLarge (mc_command_capacity config) max_permits)
      else if mc_reconnect_initial_delay config = 0 \<or> mc_reconnect_max_delay config = 0 \<or>
              duration_max < 2 * mc_reconnect_initial_delay config \<or>
              mc_reconnect_max_delay config < 2 * mc_reconnect_initial_delay config \<or>
              2 ^ 64 - 3 \<le> mc_reconnect_max_delay config div 1000000 \<or>
              duration_max < mc_reconnect_max_delay config + 1000000 \<or>
              instant_checked_add (now 0) (mc_reconnect_max_delay config + 1000000) = None then
        Err (InvalidReconnectDelays (mc_reconnect_initial_delay config) (mc_reconnect_max_delay config))
      else if (case mc_reconnect_timeout config of
                 None \<Rightarrow> False
               | Some timeout \<Rightarrow> timeout = 0 \<or> instant_checked_add (now 1) timeout = None \<or>
                   rq_duration (cc_request (mc_client config)) \<noteq> None \<or>
                   rq_run_mode (cc_request (mc_client config)) \<noteq> RunNormal) then
        Err InvalidReconnectPolicy
      else if mc_max_live_target_generations config = 0 then Err ZeroLiveGenerationLimit
      else if instant_checked_add (now 2) (mc_final_drain config) = None then
        Err (UnschedulableFinalDrain (mc_final_drain config))
      else if mc_max_live_target_generations config < length targets then
        Err (CfgTooManyTargets (length targets) (mc_max_live_target_generations config))
      else if targets = [] \<and> mc_completion config = FinishWhenQuiescent then Err EmptyInitialTargets
      else Ok ())"

fun initial_targets ::
  "managed_client_config \<Rightarrow> target_id list \<Rightarrow> u64 \<Rightarrow> managed_target_config list \<Rightarrow>
     managed_config_error + (target_runtime list \<times> u64)" where
  "initial_targets config ids next_generation [] = Ok ([], next_generation)"
| "initial_targets config ids next_generation (target # targets) =
     (if tc_id target \<in> set ids then Err (CfgDuplicateTargetId (tc_id target))
      else if next_generation = - 1 then Err CfgGenerationExhausted
      else
        let client_config = target_client_config (mc_client config) target
        in bindr (map_err (CfgInvalidTarget (tc_id target)) (validate_target_config client_config)) (\<lambda>_.
           bindr (initial_targets config (tc_id target # ids) (next_generation + 1) targets) (\<lambda>(runtimes, next).
             Ok (new_target_runtime config target client_config next_generation # runtimes, next))))"

definition initial_status :: "target_runtime list \<Rightarrow> managed_status" where
  "initial_status runtimes =
     \<lparr>ms_lifecycle = MlNotStarted, ms_stop_requested = False, ms_applied_command_sequence = 0,
      ms_desired_count = length runtimes, ms_connecting_count = 0, ms_opening_count = 0, ms_active_count = 0,
      ms_draining_count = 0, ms_closing_count = 0, ms_terminal_count = 0, ms_total_outcomes = 0,
      ms_successful_outcomes = 0, ms_failed_outcomes = 0, ms_peer_closed_outcomes = 0, ms_discarded_outcomes = 0,
      ms_targets = map (\<lambda>t. \<lparr>ts_target = tr_instance t, ts_desired = is_desired t, ts_lifecycle = TlPending,
        ts_outcome = None, ts_server_addr = tr_server_addr t, ts_remote = None\<rparr>) runtimes,
      ms_recent_outcomes = [], ms_final_outcome = None\<rparr>"

definition build_task ::
  "nat \<Rightarrow> (nat \<Rightarrow> instant) \<Rightarrow> managed_client_config \<Rightarrow> managed_target_config list \<Rightarrow>
     managed_config_error + managed_task" where
  "build_task max_permits now config targets =
     bindr (validate_managed_config max_permits now config targets) (\<lambda>_.
     bindr (initial_targets config [] 1 targets) (\<lambda>(runtimes, next_generation).
       Ok
         \<lparr>mt_phase = NotStarted, mt_config = config, mt_targets = runtimes,
          mt_history = history_new (mc_outcome_history_limit config), mt_cursor = 0, mt_timeout_cursor = 0, mt_timeout_backlog = [],
          mt_scan_remaining = 0, mt_send_cursor = 0, mt_burst_remaining = 0, mt_stagger_remaining = 0,
          mt_send_gate = None, mt_last_stagger_send = None, mt_stop_observed = False,
          mt_next_generation = next_generation, mt_applied_command_sequence = 0,
          mt_admission = AdmissionOpen, mt_status = initial_status runtimes, mt_events = []\<rparr>))"

text \<open>Submission of an update by a handle: what the command channel answers is an input, and so is
  the admission state observed after a full queue.\<close>

datatype try_send = SendAccepted | SendFull update_admission | SendClosed

fun update_targets ::
  "nat \<Rightarrow> update_admission \<Rightarrow> try_send \<Rightarrow> managed_target_config list \<Rightarrow> managed_command_error + unit" where
  "update_targets limit AdmissionStopping answer targets = Err CmdStopping"
| "update_targets limit AdmissionClosed answer targets = Err DriverClosed"
| "update_targets limit AdmissionOpen answer targets =
     (if limit < length targets then Err (CmdTooManyTargets (length targets) limit)
      else case answer of
             SendAccepted \<Rightarrow> Ok ()
           | SendFull AdmissionOpen \<Rightarrow> Err QueueFull
           | SendFull AdmissionStopping \<Rightarrow> Err CmdStopping
           | SendFull AdmissionClosed \<Rightarrow> Err DriverClosed
           | SendClosed \<Rightarrow> Err DriverClosed)"

section \<open>The update transaction\<close>

record planned_retirement =
  pr_index :: nat
  pr_reason :: retirement_reason
  pr_synchronous :: bool

record planned_target =
  pt_target :: managed_target_config
  pt_client_config :: client_config
  pt_generation :: u64

record update_plan =
  up_retirements :: "planned_retirement list"
  up_created :: "planned_target list"
  up_next_generation :: u64
  up_next_command_sequence :: u64
  up_prospective_live_count :: nat

fun synchronously_retireable :: "target_phase \<Rightarrow> bool" where
  "synchronously_retireable (Retrying _) = True"
| "synchronously_retireable (TpPending _) = True"
| "synchronously_retireable (Connecting _) = True"
| "synchronously_retireable (Terminal _) = True"
| "synchronously_retireable (Opening _ open) = (\<not> has_in_flight_work open)"
| "synchronously_retireable _ = False"

definition runtime_satisfies_target :: "target_runtime \<Rightarrow> managed_target_config \<Rightarrow> bool" where
  "runtime_satisfies_target t target \<longleftrightarrow> is_desired t \<and> \<not> is_terminal_phase (tr_phase t) \<and> tr_config t = target"

fun prepare_incoming ::
  "client_config \<Rightarrow> target_id list \<Rightarrow> managed_target_config list \<Rightarrow>
     managed_apply_error + (managed_target_config \<times> client_config) list" where
  "prepare_incoming shared ids [] = Ok []"
| "prepare_incoming shared ids (target # targets) =
     (if tc_id target \<in> set ids then Err (ApplyDuplicateTargetId (tc_id target))
      else
        let client_config = target_client_config shared target
        in bindr (map_err (ApplyInvalidTarget (tc_id target)) (validate_target_config client_config)) (\<lambda>_.
           bindr (prepare_incoming shared (tc_id target # ids) targets) (\<lambda>prepared.
             Ok ((target, client_config) # prepared))))"

definition retirement_of :: "managed_target_config list \<Rightarrow> target_runtime \<Rightarrow> retirement_reason option" where
  "retirement_of incoming t =
     (if \<not> is_desired t \<or> list_ex (runtime_satisfies_target t) incoming then None
      else if list_ex (\<lambda>target. tc_id target = ti_id (tr_instance t)) incoming then Some RetReplaced
      else Some RetRemoved)"

fun plan_retirements ::
  "managed_target_config list \<Rightarrow> nat \<Rightarrow> target_runtime list \<Rightarrow> planned_retirement list" where
  "plan_retirements incoming index [] = []"
| "plan_retirements incoming index (t # targets) =
     (case retirement_of incoming t of
        None \<Rightarrow> plan_retirements incoming (index + 1) targets
      | Some reason \<Rightarrow>
          \<lparr>pr_index = index, pr_reason = reason, pr_synchronous = synchronously_retireable (tr_phase t)\<rparr> #
          plan_retirements incoming (index + 1) targets)"

fun plan_created ::
  "target_runtime list \<Rightarrow> u64 \<Rightarrow> (managed_target_config \<times> client_config) list \<Rightarrow>
     managed_apply_error + (planned_target list \<times> u64)" where
  "plan_created current next_generation [] = Ok ([], next_generation)"
| "plan_created current next_generation ((target, client_config) # prepared) =
     (if list_ex (\<lambda>t. runtime_satisfies_target t target) current then plan_created current next_generation prepared
      else if next_generation = - 1 then Err ApplyGenerationExhausted
      else bindr (plan_created current (next_generation + 1) prepared) (\<lambda>(created, next).
             Ok (\<lparr>pt_target = target, pt_client_config = client_config, pt_generation = next_generation\<rparr> # created,
                 next)))"

definition synchronous_indices :: "planned_retirement list \<Rightarrow> nat list" where
  "synchronous_indices retirements = map pr_index (filter pr_synchronous retirements)"

fun retain_indices :: "nat list \<Rightarrow> nat \<Rightarrow> 'a list \<Rightarrow> 'a list" where
  "retain_indices dropped index [] = []"
| "retain_indices dropped index (x # xs) =
     (if index \<in> set dropped then retain_indices dropped (index + 1) xs
      else x # retain_indices dropped (index + 1) xs)"

definition plan_targets ::
  "managed_target_config list \<Rightarrow> managed_task \<Rightarrow> managed_apply_error + update_plan" where
  "plan_targets incoming m =
     bindr (prepare_incoming (mc_client (mt_config m)) [] incoming) (\<lambda>prepared.
     let retirements = plan_retirements incoming 0 (mt_targets m)
     in bindr (plan_created (mt_targets m) (mt_next_generation m) prepared) (\<lambda>(created, next_generation).
        if mt_applied_command_sequence m = - 1 then Err CommandSequenceExhausted
        else
          let live = length (retain_indices (synchronous_indices retirements) 0 (mt_targets m)) + length created
          in if mc_max_live_target_generations (mt_config m) < live then
               Err (LiveGenerationLimitExceeded live (mc_max_live_target_generations (mt_config m)))
             else Ok \<lparr>up_retirements = retirements, up_created = created, up_next_generation = next_generation,
                      up_next_command_sequence = mt_applied_command_sequence m + 1,
                      up_prospective_live_count = live\<rparr>))"

text \<open>One retirement: the target is withdrawn; a synchronous one is finished on the spot, another
  leaves the pacing.\<close>

definition retire ::
  "instant \<Rightarrow> planned_retirement \<Rightarrow> managed_task \<times> managed_event list \<Rightarrow> managed_task \<times> managed_event list" where
  "retire now r mf =
     (let (m, finished) = mf;
          target = mt_targets m ! pr_index r;
          withdrawn = target\<lparr>tr_membership := Withdrawn (pr_reason r)\<rparr>;
          m = m\<lparr>mt_targets := (mt_targets m)[pr_index r := withdrawn]\<rparr>
      in if pr_synchronous r then
           (if is_terminal_phase (tr_phase target) then (m, finished)
            else
              let outcome = target_outcome_of (end_reason_of (pr_reason r)) None withdrawn
              in (m\<lparr>mt_history := history_record outcome (mt_history m)\<rparr>, finished @ [MeTargetFinished outcome]))
         else if is_paced_active target then (stagger_target_removed now m, finished)
         else (m, finished))"

definition create_target :: "managed_client_config \<Rightarrow> planned_target \<Rightarrow> target_runtime" where
  "create_target config p = new_target_runtime config (pt_target p) (pt_client_config p) (pt_generation p)"

definition publish_all :: "managed_event list \<Rightarrow> managed_task \<Rightarrow> managed_task" where
  "publish_all events m = fold publish_event events m"

definition apply_targets ::
  "instant \<Rightarrow> managed_target_config list \<Rightarrow> managed_task \<Rightarrow>
     managed_task \<times> (managed_apply_error + u64 \<times> managed_status)" where
  "apply_targets now incoming m =
     (case plan_targets incoming m of
        Inl e \<Rightarrow> (m, Err e)
      | Inr plan \<Rightarrow>
          let (m, finished) = fold (retire now) (up_retirements plan) (m, []);
              synchronous = synchronous_indices (up_retirements plan);
              m = (if synchronous = [] then m
                   else rebase_target_cursors (m\<lparr>mt_targets := retain_indices synchronous 0 (mt_targets m)\<rparr>));
              created = map (create_target (mt_config m)) (up_created plan);
              m = m\<lparr>mt_targets := mt_targets m @ created, mt_next_generation := up_next_generation plan,
                    mt_applied_command_sequence := up_next_command_sequence plan\<rparr>;
              stopping = (list_all (\<lambda>t. \<not> is_desired t) (mt_targets m) \<and>
                          mc_completion (mt_config m) = FinishWhenQuiescent);
              m = (if stopping then m\<lparr>mt_admission := begin_stopping (mt_admission m), mt_phase := Stopping\<rparr> else m);
              m = replace_status m;
              m = (if stopping then publish_event MeStopping m else m);
              m = publish_all finished m;
              m = publish_all (map (\<lambda>t. MeTargetStateChanged (tr_instance t) TlPending) created) m
          in (m, Ok (mt_applied_command_sequence m, mt_status m)))"

definition process_command ::
  "instant \<Rightarrow> managed_target_config list \<Rightarrow> managed_task \<Rightarrow>
     managed_task \<times> (managed_apply_error + u64 \<times> managed_status)" where
  "process_command now incoming m =
     (if mt_phase m \<noteq> Running \<or> mt_admission m \<noteq> AdmissionOpen then (m, Err ApplyStopping)
      else apply_targets now incoming m)"

definition prune_undesired_terminal :: "managed_task \<Rightarrow> managed_task" where
  "prune_undesired_terminal m =
     (if \<not> list_ex (\<lambda>t. \<not> is_desired t \<and> is_terminal_phase (tr_phase t)) (mt_targets m) then m
      else replace_status (rebase_target_cursors
        (m\<lparr>mt_targets := filter (\<lambda>t. is_desired t \<or> \<not> is_terminal_phase (tr_phase t)) (mt_targets m)\<rparr>)))"

end
