(* ===== verification/Managed_Targets.thy ===== *)
theory Managed_Targets
  imports Managed
begin

text \<open>
  The polling of one target of the managed client (\<open>irtt-client/src/managed/task/target.rs\<close>): a target
  connects, opens, is active, drains, closes and ends, or retries with a growing delay when
  reconnection is configured. The readings of the clock and the answers of the socket are inputs;
  \<open>to_text\<close> renders an error. A target without a client where the code expects one is a panic
  (\<open>None\<close>).
\<close>

section \<open>Inputs\<close>

text \<open>The readings of the clock a poll of a target makes besides the time of the pass: for the retry
  deadline, for the pacing gate and for the start of a drain.\<close>

record clock_io =
  ck_finish :: instant
  ck_publish :: instant
  ck_drain :: instant

record target_io =
  tio_clock :: clock_io
  tio_connect :: "((client_error + socket_addr) \<times> (client_error + udp_socket)) poll"
  tio_cancel :: "io_error + nat"
  tio_open :: "open_poll_io list"
  tio_recv :: "recv_poll_io list"
  tio_close :: "close_poll_io list"

section \<open>Accounting\<close>

definition saturating_add_u64 :: "u64 \<Rightarrow> u64 \<Rightarrow> u64" where
  "saturating_add_u64 a b = (if unat a + unat b < 2 ^ 64 then a + b else - 1)"

fun membership_retirement :: "target_membership \<Rightarrow> retirement_reason option" where
  "membership_retirement Desired = None"
| "membership_retirement (Withdrawn reason) = Some reason"

definition effective_retirement :: "target_runtime \<Rightarrow> target_end_reason option" where
  "effective_retirement t = map_option end_reason_of (membership_retirement (tr_membership t))"

fun phase_client :: "target_phase \<Rightarrow> async_client option" where
  "phase_client (Opening client _) = Some client"
| "phase_client (Active client _ _) = Some client"
| "phase_client (Draining client _ _ _ _ _) = Some client"
| "phase_client (Closing client _ _ _) = Some client"
| "phase_client _ = None"

definition sync_packets_sent :: "async_client \<Rightarrow> target_runtime \<Rightarrow> target_runtime" where
  "sync_packets_sent client t =
     t\<lparr>tr_counters := (tr_counters t)\<lparr>tn_packets_sent :=
         saturating_add_u64 (tr_sent_before_session t) (packets_sent (ac_machine client))\<rparr>\<rparr>"

definition silence_deadline :: "duration option \<Rightarrow> target_runtime \<Rightarrow> instant option" where
  "silence_deadline timeout t =
     (case tr_phase t of
        Active _ schedule send_waiting \<Rightarrow>
          if send_waiting \<or> is_finished schedule then None
          else (case (tr_silence_since t, timeout) of
                  (Some since, Some d) \<Rightarrow> instant_checked_add since d
                | _ \<Rightarrow> None)
      | _ \<Rightarrow> None)"

definition update_target :: "nat \<Rightarrow> (target_runtime \<Rightarrow> target_runtime) \<Rightarrow> managed_task \<Rightarrow> managed_task" where
  "update_target i f m = m\<lparr>mt_targets := (mt_targets m)[i := f (mt_targets m ! i)]\<rparr>"

abbreviation set_phase :: "target_phase \<Rightarrow> target_runtime \<Rightarrow> target_runtime" where
  "set_phase phase t \<equiv> t\<lparr>tr_phase := phase\<rparr>"

definition duration_overflow_failure :: "(client_error \<Rightarrow> string) \<Rightarrow> target_failure" where
  "duration_overflow_failure to_text = classify_client_error to_text FpTiming DurationOverflow"

definition close_timeout_failure :: target_failure where
  "close_timeout_failure =
     \<lparr>tf_phase = FpClosing, tf_kind = FkTimeout,
      tf_message = ''best-effort close did not become writable before its deadline''\<rparr>"

definition silence_failure :: target_failure where
  "silence_failure =
     \<lparr>tf_phase = FpReceiving, tf_kind = FkTimeout, tf_message = ''session silent while sending probes''\<rparr>"

section \<open>Pacing of active targets\<close>

definition active_count :: "managed_task \<Rightarrow> nat" where
  "active_count m = length (filter is_paced_active (mt_targets m))"

definition paced_interval :: "target_runtime \<Rightarrow> duration option" where
  "paced_interval t =
     (case tr_phase t of
        Active _ schedule _ \<Rightarrow> if is_desired t then Some (sch_interval schedule) else None
      | _ \<Rightarrow> None)"

definition active_stagger_spacing :: "managed_task \<Rightarrow> duration option" where
  "active_stagger_spacing m =
     (case List.map_filter paced_interval (mt_targets m) of
        [] \<Rightarrow> None
      | d # ds \<Rightarrow> Some (stagger_spacing (foldl min d ds) (Suc (length ds))))"

definition stagger_target_added :: "instant \<Rightarrow> managed_task \<Rightarrow> managed_task" where
  "stagger_target_added now m =
     (case mt_send_gate m of
        Some existing \<Rightarrow>
          if now < existing then
            let candidate =
                  (case (mt_last_stagger_send m, active_stagger_spacing m) of
                     (Some last_send, Some spacing) \<Rightarrow>
                       (case instant_checked_add last_send spacing of
                          Some gate \<Rightarrow> if now < gate then Some gate else None
                        | None \<Rightarrow> None)
                   | _ \<Rightarrow> None)
            in m\<lparr>mt_send_gate := map_option (min existing) candidate\<rparr>
          else m\<lparr>mt_send_gate := None\<rparr>
      | None \<Rightarrow> m\<lparr>mt_send_gate := None\<rparr>)"

section \<open>Publishing\<close>

definition publish_target_phase :: "clock_io \<Rightarrow> nat \<Rightarrow> target_lifecycle \<Rightarrow> managed_task \<Rightarrow> managed_task" where
  "publish_target_phase ck i previous m =
     (let t = mt_targets m ! i;
          was_paced_active = (is_desired t \<and> previous = TlActive);
          m = (case (was_paced_active, is_paced_active t) of
                 (False, True) \<Rightarrow> stagger_target_added (ck_publish ck) m
               | (True, False) \<Rightarrow> stagger_target_removed (ck_publish ck) m
               | _ \<Rightarrow> m)
      in publish_event (MeTargetStateChanged (tr_instance t) (phase_lifecycle (tr_phase t))) (replace_status m))"

definition install_target_phase :: "clock_io \<Rightarrow> nat \<Rightarrow> target_phase \<Rightarrow> managed_task \<Rightarrow> managed_task" where
  "install_target_phase ck i phase m =
     publish_target_phase ck i (phase_lifecycle (tr_phase (mt_targets m ! i))) (update_target i (set_phase phase) m)"

text \<open>What an event means for the silence of the session and the retry delay.\<close>

fun note_event :: "managed_client_config \<Rightarrow> client_event \<Rightarrow> target_runtime \<Rightarrow> target_runtime" where
  "note_event config (EchoSent _ _ _ sent _ _ _) t =
     (let anchor =
            (case (tr_last_reply_at t, mc_reconnect_timeout config) of
               (Some reply, Some timeout) \<Rightarrow>
                 if saturating_duration_since (ct_mono sent) reply < timeout then reply else ct_mono sent
             | _ \<Rightarrow> ct_mono sent)
      in t\<lparr>tr_silence_since := Some (case tr_silence_since t of None \<Rightarrow> anchor | Some since \<Rightarrow> since)\<rparr>)"
| "note_event config (EchoReply _ _ _ received _ _ _ _ _ _) t =
     t\<lparr>tr_silence_since := None, tr_last_reply_at := Some (ct_mono received),
       tr_retry_delay := mc_reconnect_initial_delay config\<rparr>"
| "note_event config (LateReply _ _ _ _ received _ _ _ _ _ _) t =
     t\<lparr>tr_silence_since := None, tr_last_reply_at := Some (ct_mono received),
       tr_retry_delay := mc_reconnect_initial_delay config\<rparr>"
| "note_event config (DuplicateReply _ _ received _) t =
     t\<lparr>tr_silence_since := None, tr_last_reply_at := Some (ct_mono received),
       tr_retry_delay := mc_reconnect_initial_delay config\<rparr>"
| "note_event config _ t = t"

definition publish_client_event :: "nat \<Rightarrow> client_event \<Rightarrow> managed_task \<Rightarrow> managed_task" where
  "publish_client_event i event m =
     (let m = update_target i (\<lambda>t. let t = note_event (mt_config m) event t
                                    in t\<lparr>tr_counters := observe event (tr_counters t)\<rparr>) m
      in publish_event (MeClient (tr_instance (mt_targets m ! i)) event) m)"

definition publish_client_events :: "nat \<Rightarrow> client_event list \<Rightarrow> managed_task \<Rightarrow> managed_task" where
  "publish_client_events i events m = fold (publish_client_event i) events m"

section \<open>Ending a target\<close>

definition can_reconnect :: "nat \<Rightarrow> managed_task \<Rightarrow> bool" where
  "can_reconnect i m \<longleftrightarrow>
     mc_reconnect_timeout (mt_config m) \<noteq> None \<and> mt_phase m \<noteq> Stopping \<and> is_desired (mt_targets m ! i)"

fun reconnectable :: "target_end_reason \<Rightarrow> bool" where
  "reconnectable (Failed _) = True"
| "reconnectable PeerClosed = True"
| "reconnectable TestComplete = True"
| "reconnectable _ = False"

definition conclude_target ::
  "clock_io \<Rightarrow> nat \<Rightarrow> target_end_reason \<Rightarrow> target_failure option \<Rightarrow> managed_task \<Rightarrow> managed_task" where
  "conclude_target ck i end_reason cleanup_failure m =
     (let outcome = target_outcome_of end_reason cleanup_failure (mt_targets m ! i);
          m = m\<lparr>mt_history := history_record outcome (mt_history m)\<rparr>
      in publish_event (MeTargetFinished outcome) (install_target_phase ck i (Terminal outcome) m))"

definition double_delay :: "managed_client_config \<Rightarrow> duration \<Rightarrow> duration" where
  "double_delay config delay =
     min (if 2 * delay \<le> duration_max then 2 * delay else mc_reconnect_max_delay config) (mc_reconnect_max_delay config)"

definition finish_target ::
  "(client_error \<Rightarrow> string) \<Rightarrow> clock_io \<Rightarrow> nat \<Rightarrow> target_end_reason \<Rightarrow> target_failure option \<Rightarrow> managed_task \<Rightarrow>
     managed_task" where
  "finish_target to_text ck i end_reason cleanup_failure m =
     (if can_reconnect i m \<and> reconnectable end_reason then
        let m = update_target i (\<lambda>t. t\<lparr>tr_sent_before_session := tn_packets_sent (tr_counters t),
                                       tr_silence_since := None, tr_last_reply_at := None\<rparr>) m;
            delay = tr_retry_delay (mt_targets m ! i)
        in case instant_checked_add (ck_finish ck) delay of
             Some deadline \<Rightarrow>
               install_target_phase ck i (Retrying deadline)
                 (update_target i (\<lambda>t. t\<lparr>tr_retry_delay := double_delay (mt_config m) delay\<rparr>) m)
           | None \<Rightarrow> conclude_target ck i (Failed (duration_overflow_failure to_text)) cleanup_failure m
      else conclude_target ck i end_reason cleanup_failure m)"

definition fail_target ::
  "(client_error \<Rightarrow> string) \<Rightarrow> clock_io \<Rightarrow> nat \<Rightarrow> failure_phase \<Rightarrow> client_error \<Rightarrow> managed_task \<Rightarrow> managed_task" where
  "fail_target to_text ck i phase error =
     finish_target to_text ck i (Failed (classify_client_error to_text phase error)) None"

definition drain_deadline :: "managed_client_config \<Rightarrow> async_client \<Rightarrow> instant \<Rightarrow> instant option" where
  "drain_deadline config client drain_started_at =
     instant_checked_add
       (max (case latest_probe_timeout_deadline (ac_machine client) of Some d \<Rightarrow> d | None \<Rightarrow> drain_started_at)
          drain_started_at)
       (mc_final_drain config)"

definition begin_close ::
  "(client_error \<Rightarrow> string) \<Rightarrow> clock_io \<Rightarrow> nat \<Rightarrow> target_end_reason \<Rightarrow> target_failure option \<Rightarrow> instant \<Rightarrow>
     managed_task \<Rightarrow> managed_task option" where
  "begin_close to_text ck i primary_end cleanup_failure now m =
     (let (deadline, cleanup_failure) =
            (case instant_checked_add now (mc_final_drain (mt_config m)) of
               Some d \<Rightarrow> (d, cleanup_failure)
             | None \<Rightarrow> (now, Some (case cleanup_failure of Some f \<Rightarrow> f | None \<Rightarrow> duration_overflow_failure to_text)));
          previous = tr_phase (mt_targets m ! i)
      in map_option (\<lambda>client.
           publish_target_phase ck i (phase_lifecycle previous)
             (update_target i (set_phase (Closing client deadline primary_end cleanup_failure)) m))
           (phase_client previous))"

definition POST_DEADLINE_RECEIVE_BUDGET :: nat where "POST_DEADLINE_RECEIVE_BUDGET = 128"

definition begin_drain ::
  "(client_error \<Rightarrow> string) \<Rightarrow> clock_io \<Rightarrow> nat \<Rightarrow> target_end_reason \<Rightarrow> managed_task \<Rightarrow> managed_task option" where
  "begin_drain to_text ck i primary_end m =
     (let previous = tr_phase (mt_targets m ! i)
      in Option.bind (phase_client previous) (\<lambda>client.
           case drain_deadline (mt_config m) client (ck_drain ck) of
             None \<Rightarrow> begin_close to_text ck i primary_end (Some (duration_overflow_failure to_text)) (ck_drain ck) m
           | Some deadline \<Rightarrow>
               Some (publish_target_phase ck i (phase_lifecycle previous)
                 (update_target i
                    (set_phase (Draining client (ck_drain ck) deadline primary_end None POST_DEADLINE_RECEIVE_BUDGET)) m))))"

datatype open_session_failure_cleanup = CleanupDrain | CleanupClose

definition discard_probe :: "target_phase \<Rightarrow> target_phase option" where
  "discard_probe phase =
     (case phase of
        Opening client open \<Rightarrow> Some (Opening (discard_prepared_probe client) open)
      | Active client schedule send_waiting \<Rightarrow> Some (Active (discard_prepared_probe client) schedule send_waiting)
      | _ \<Rightarrow> None)"

definition sync_live_packets_sent :: "nat \<Rightarrow> managed_task \<Rightarrow> managed_task option" where
  "sync_live_packets_sent i m =
     map_option (\<lambda>client. update_target i (sync_packets_sent client) m) (phase_client (tr_phase (mt_targets m ! i)))"

definition begin_open_session_failure ::
  "(client_error \<Rightarrow> string) \<Rightarrow> clock_io \<Rightarrow> nat \<Rightarrow> failure_phase \<Rightarrow> client_error \<Rightarrow> instant \<Rightarrow>
     open_session_failure_cleanup \<Rightarrow> managed_task \<Rightarrow> managed_task option" where
  "begin_open_session_failure to_text ck i phase error now cleanup m =
     (let primary_end = Failed (classify_client_error to_text phase error)
      in Option.bind (discard_probe (tr_phase (mt_targets m ! i))) (\<lambda>discarded.
         Option.bind (sync_live_packets_sent i (update_target i (set_phase discarded) m)) (\<lambda>m.
           if can_reconnect i m \<or> cleanup = CleanupClose then begin_close to_text ck i primary_end None now m
           else begin_drain to_text ck i primary_end m)))"

section \<open>Polling a target\<close>

type_synonym target_poll = "(managed_task \<times> bool) option"

abbreviation immediately :: "managed_task option \<Rightarrow> target_poll" where
  "immediately r \<equiv> map_option (\<lambda>m. (m, True)) r"

definition end_of :: "target_end_reason option \<Rightarrow> target_end_reason" where
  "end_of retirement = (case retirement of None \<Rightarrow> Stopped | Some reason \<Rightarrow> reason)"

definition poll_retrying ::
  "(client_error \<Rightarrow> string) \<Rightarrow> target_io \<Rightarrow> nat \<Rightarrow> instant \<Rightarrow> instant \<Rightarrow> bool \<Rightarrow> managed_task \<Rightarrow> target_poll" where
  "poll_retrying to_text io i now deadline stopping m =
     (let t = mt_targets m ! i; ck = tio_clock io
      in if stopping then Some (finish_target to_text ck i (end_of (effective_retirement t)) None m, False)
         else if deadline \<le> now then
           Some (install_target_phase ck i (TpPending (target_client_config (mc_client (mt_config m)) (tr_config t))) m, True)
         else Some (m, False))"

definition start_connecting :: "clock_io \<Rightarrow> nat \<Rightarrow> client_config \<Rightarrow> managed_task \<Rightarrow> managed_task" where
  "start_connecting ck i client_config m =
     publish_target_phase ck i TlPending (update_target i (set_phase (Connecting client_config)) m)"

definition poll_connecting ::
  "mac_fun \<Rightarrow> (client_error \<Rightarrow> string) \<Rightarrow> target_io \<Rightarrow> nat \<Rightarrow> client_config \<Rightarrow> managed_task \<Rightarrow> target_poll" where
  "poll_connecting mac to_text io i client_config m =
     (case tio_connect io of
        Pending \<Rightarrow> Some (m, False)
      | Ready (resolved, socket) \<Rightarrow>
          (case async_connect mac True resolved socket client_config of
             Inr client \<Rightarrow>
               Some (install_target_phase (tio_clock io) i (Opening client open_state_new)
                       (update_target i (\<lambda>t. t\<lparr>tr_remote := Some (ac_remote client)\<rparr>) m), True)
           | Inl error \<Rightarrow> Some (fail_target to_text (tio_clock io) i FpConnecting error m, False)))"

definition opened_target ::
  "(client_error \<Rightarrow> string) \<Rightarrow> target_io \<Rightarrow> nat \<Rightarrow> instant \<Rightarrow> async_client \<Rightarrow> session_started \<Rightarrow> managed_task \<Rightarrow> target_poll" where
  "opened_target to_text io i now client started m =
     (case schedule_new (ct_mono (ev_at started)) (ng_accepted (ev_negotiation started)) of
        Inl error \<Rightarrow> immediately (begin_open_session_failure to_text (tio_clock io) i FpTiming error now CleanupClose m)
      | Inr schedule \<Rightarrow>
          let m = publish_client_events i [SessionStarted started] m
          in Some (publish_target_phase (tio_clock io) i TlOpening
                     (update_target i (set_phase (Active client schedule False)) m), True))"

definition poll_opening ::
  "mac_fun \<Rightarrow> (client_error \<Rightarrow> string) \<Rightarrow> target_io \<Rightarrow> nat \<Rightarrow> instant \<Rightarrow> async_client \<Rightarrow> async_open_state \<Rightarrow> managed_task \<Rightarrow>
     target_poll" where
  "poll_opening mac to_text io i now client open m =
     Option.bind (poll_open mac (tio_open io) open client) (\<lambda>(client, open, result).
       let m = update_target i (set_phase (Opening client open)) m
       in case result of
            Pending \<Rightarrow> Some (m, False)
          | Ready (Inr (Started started)) \<Rightarrow> opened_target to_text io i now client started m
          | Ready (Inr (NoTestOutcome completed)) \<Rightarrow>
              Some (finish_target to_text (tio_clock io) i NoTestComplete None
                      (publish_client_events i [NoTestCompletedEvent completed] m), False)
          | Ready (Inl error) \<Rightarrow> Some (fail_target to_text (tio_clock io) i FpOpening error m, False))"

definition stop_opening ::
  "(client_error \<Rightarrow> string) \<Rightarrow> target_io \<Rightarrow> nat \<Rightarrow> async_client \<Rightarrow> async_open_state \<Rightarrow> managed_task \<Rightarrow> target_poll" where
  "stop_opening to_text io i client open m =
     (let (client, open, error) = cancel_open (tio_cancel io) open client;
          cleanup_failure = map_option (classify_client_error to_text FpOpening) error;
          end_reason = end_of (effective_retirement (mt_targets m ! i))
      in map_option (\<lambda>m. (finish_target to_text (tio_clock io) i end_reason cleanup_failure m, False))
           (sync_live_packets_sent i (update_target i (set_phase (Opening client open)) m)))"

definition stop_active ::
  "(client_error \<Rightarrow> string) \<Rightarrow> target_io \<Rightarrow> nat \<Rightarrow> instant \<Rightarrow> async_client \<Rightarrow> probe_schedule \<Rightarrow> bool \<Rightarrow> managed_task \<Rightarrow>
     target_poll" where
  "stop_active to_text io i now client schedule send_waiting m =
     (let client = discard_prepared_probe client;
          end_reason = end_of (effective_retirement (mt_targets m ! i))
      in Option.bind (sync_live_packets_sent i (update_target i (set_phase (Active client schedule send_waiting)) m)) (\<lambda>m.
           immediately
             (if mc_reconnect_timeout (mt_config m) \<noteq> None then begin_close to_text (tio_clock io) i end_reason None now m
              else begin_drain to_text (tio_clock io) i end_reason m)))"

definition timeout_due :: "instant \<Rightarrow> async_client \<Rightarrow> bool" where
  "timeout_due now client \<longleftrightarrow>
     (case next_probe_timeout_deadline (ac_machine client) of None \<Rightarrow> False | Some deadline \<Rightarrow> deadline \<le> now)"

text \<open>An active target after its receive: the peer may have closed, the session may be silent, the
  test may be over.\<close>

definition settle_active ::
  "(client_error \<Rightarrow> string) \<Rightarrow> target_io \<Rightarrow> nat \<Rightarrow> instant \<Rightarrow> async_client \<Rightarrow> probe_schedule \<Rightarrow> bool \<Rightarrow> bool \<Rightarrow> managed_task \<Rightarrow>
     target_poll" where
  "settle_active to_text io i now client schedule send_waiting received m =
     (let ck = tio_clock io
      in if is_peer_closed (ac_machine client) then
           map_option (\<lambda>m. (finish_target to_text ck i PeerClosed None m, False)) (sync_live_packets_sent i m)
         else if (case silence_deadline (mc_reconnect_timeout (mt_config m)) (mt_targets m ! i) of
                    None \<Rightarrow> False | Some deadline \<Rightarrow> deadline \<le> now) then
           Option.bind (sync_live_packets_sent i m) (\<lambda>m.
             immediately (begin_close to_text ck i (Failed silence_failure) None now m))
         else
           let schedule = snd (permit_probe_at now schedule);
               m = update_target i (set_phase (Active client schedule send_waiting)) m
           in if is_finished schedule \<and> machine_pending_is_empty (ac_machine client) then
                Option.bind (sync_live_packets_sent i m) (\<lambda>m. immediately (begin_drain to_text ck i TestComplete m))
              else Some (m, received))"

definition poll_active ::
  "mac_fun \<Rightarrow> (client_error \<Rightarrow> string) \<Rightarrow> target_io \<Rightarrow> nat \<Rightarrow> instant \<Rightarrow> async_client \<Rightarrow> probe_schedule \<Rightarrow> bool \<Rightarrow> managed_task \<Rightarrow>
     target_poll" where
  "poll_active mac to_text io i now client schedule send_waiting m =
     (if timeout_due now client then Some (m, True)
      else
        Option.bind (poll_recv mac (tio_recv io) client) (\<lambda>(client, result).
          let m = update_target i (set_phase (Active client schedule send_waiting)) m
          in case result of
               Pending \<Rightarrow> settle_active to_text io i now client schedule send_waiting False m
             | Ready (Inr events) \<Rightarrow>
                 settle_active to_text io i now client schedule send_waiting True (publish_client_events i events m)
             | Ready (Inl error) \<Rightarrow>
                 immediately (begin_open_session_failure to_text (tio_clock io) i FpReceiving error now CleanupClose m)))"

text \<open>The retained state of a draining target changed: its deadline can only move closer.\<close>

definition shorten_drain ::
  "(client_error \<Rightarrow> string) \<Rightarrow> clock_io \<Rightarrow> nat \<Rightarrow> instant \<Rightarrow> managed_task \<Rightarrow> (managed_task \<times> bool) option" where
  "shorten_drain to_text ck i now m =
     (case tr_phase (mt_targets m ! i) of
        Draining client started deadline primary_end cleanup_failure remaining \<Rightarrow>
          (case drain_deadline (mt_config m) client started of
             Some candidate \<Rightarrow>
               Some (update_target i
                 (set_phase (Draining client started (min deadline candidate) primary_end cleanup_failure remaining)) m, False)
           | None \<Rightarrow>
               let cleanup_failure = (case cleanup_failure of Some f \<Rightarrow> f | None \<Rightarrow> duration_overflow_failure to_text)
               in immediately (begin_close to_text ck i primary_end (Some cleanup_failure) now m))
      | _ \<Rightarrow> None)"

definition settle_draining ::
  "(client_error \<Rightarrow> string) \<Rightarrow> target_io \<Rightarrow> nat \<Rightarrow> instant \<Rightarrow> bool \<Rightarrow> managed_task \<Rightarrow> target_poll" where
  "settle_draining to_text io i now received m =
     (case tr_phase (mt_targets m ! i) of
        Draining client started deadline primary_end cleanup_failure remaining \<Rightarrow>
          if deadline \<le> now then
            (if received \<and> 1 < remaining then
               Some (update_target i
                 (set_phase (Draining client started deadline primary_end cleanup_failure (remaining - 1))) m, True)
             else immediately (begin_close to_text (tio_clock io) i primary_end cleanup_failure now m))
          else Some (m, received)
      | _ \<Rightarrow> None)"

definition poll_draining ::
  "mac_fun \<Rightarrow> (client_error \<Rightarrow> string) \<Rightarrow> target_io \<Rightarrow> nat \<Rightarrow> instant \<Rightarrow> async_client \<Rightarrow> instant \<Rightarrow> instant \<Rightarrow>
     target_end_reason \<Rightarrow> target_failure option \<Rightarrow> nat \<Rightarrow> managed_task \<Rightarrow> target_poll" where
  "poll_draining mac to_text io i now client started deadline primary_end cleanup_failure remaining m =
     (let ck = tio_clock io
      in if timeout_due now client then Some (m, True)
         else
           Option.bind (poll_recv mac (tio_recv io) client) (\<lambda>(client, result).
             let m = update_target i (set_phase (Draining client started deadline primary_end cleanup_failure remaining)) m
             in case result of
                  Ready (Inl error) \<Rightarrow>
                    let cleanup_failure =
                          (case cleanup_failure of Some f \<Rightarrow> f | None \<Rightarrow> classify_client_error to_text FpReceiving error)
                    in Option.bind (sync_live_packets_sent i m) (\<lambda>m.
                         immediately (begin_close to_text ck i primary_end (Some cleanup_failure) now m))
                | _ \<Rightarrow>
                    let received = (result \<noteq> Pending);
                        m = (case result of Ready (Inr events) \<Rightarrow> publish_client_events i events m | _ \<Rightarrow> m)
                    in if is_peer_closed (ac_machine client) then
                         map_option (\<lambda>m. (finish_target to_text ck i PeerClosed cleanup_failure m, False))
                           (sync_live_packets_sent i m)
                       else if received then
                         Option.bind (shorten_drain to_text ck i now m) (\<lambda>(m, closing).
                           if closing then Some (m, True) else settle_draining to_text io i now received m)
                       else settle_draining to_text io i now received m))"

definition poll_closing ::
  "(client_error \<Rightarrow> string) \<Rightarrow> target_io \<Rightarrow> nat \<Rightarrow> instant \<Rightarrow> async_client \<Rightarrow> instant \<Rightarrow> target_end_reason \<Rightarrow>
     target_failure option \<Rightarrow> managed_task \<Rightarrow> target_poll" where
  "poll_closing to_text io i now client deadline primary_end cleanup_failure m =
     (let ck = tio_clock io;
          (client, result) = poll_close (tio_close io) client;
          m = update_target i (set_phase (Closing client deadline primary_end cleanup_failure)) m
      in case result of
           Pending \<Rightarrow>
             if deadline \<le> now then
               map_option (\<lambda>m. (finish_target to_text ck i primary_end
                   (Some (case cleanup_failure of Some f \<Rightarrow> f | None \<Rightarrow> close_timeout_failure)) m, False))
                 (sync_live_packets_sent i m)
             else Some (m, False)
         | Ready (Inr events) \<Rightarrow>
             map_option (\<lambda>m. (finish_target to_text ck i primary_end cleanup_failure (publish_client_events i events m), False))
               (sync_live_packets_sent i m)
         | Ready (Inl error) \<Rightarrow>
             map_option (\<lambda>m. (finish_target to_text ck i primary_end
                 (Some (case cleanup_failure of Some f \<Rightarrow> f | None \<Rightarrow> classify_client_error to_text FpClosing error)) m, False))
               (sync_live_packets_sent i m))"

definition poll_target ::
  "mac_fun \<Rightarrow> (client_error \<Rightarrow> string) \<Rightarrow> target_io \<Rightarrow> nat \<Rightarrow> instant \<Rightarrow> managed_task \<Rightarrow> target_poll" where
  "poll_target mac to_text io i now m =
     (if length (mt_targets m) \<le> i then None
      else
        let t = mt_targets m ! i; ck = tio_clock io;
            retirement = effective_retirement t;
            stopping = (mt_phase m = Stopping \<or> retirement \<noteq> None);
            stopped = Some (finish_target to_text ck i (end_of retirement) None m, False)
        in case tr_phase t of
             Retrying deadline \<Rightarrow> poll_retrying to_text io i now deadline stopping m
           | TpPending client_config \<Rightarrow> if stopping then stopped else Some (start_connecting ck i client_config m, True)
           | Connecting client_config \<Rightarrow> if stopping then stopped else poll_connecting mac to_text io i client_config m
           | Opening client open \<Rightarrow>
               if stopping then stop_opening to_text io i client open m
               else poll_opening mac to_text io i now client open m
           | Active client schedule send_waiting \<Rightarrow>
               if stopping then stop_active to_text io i now client schedule send_waiting m
               else poll_active mac to_text io i now client schedule send_waiting m
           | Draining client started deadline primary_end cleanup_failure remaining \<Rightarrow>
               poll_draining mac to_text io i now client started deadline primary_end cleanup_failure remaining m
           | Closing client deadline primary_end cleanup_failure \<Rightarrow>
               poll_closing to_text io i now client deadline primary_end cleanup_failure m
           | Terminal _ \<Rightarrow> Some (m, False))"

end
