(* ===== verification/Managed_Task.thy ===== *)
theory Managed_Task
  imports Managed_Targets
begin

text \<open>
  The driver of the managed client: bounded timeout work (\<open>managed/task/timeouts.rs\<close>), the burst and
  staggered sends (\<open>managed/task/pacing.rs\<close>), the passes over the targets, sealing and the poll of the
  whole task (\<open>managed/task.rs\<close>), and the command loop (\<open>managed/task/update.rs\<close>). Work that a poll
  repeats takes its inputs from a function of the number of turns left; a panic is \<open>None\<close>. The stop
  flag of the handles is read where the code reads it, each reading an input of its own; a handle's
  request closes the admission of updates between polls.
\<close>

section \<open>Timeouts\<close>

definition TIMEOUT_WORK_BUDGET :: nat where "TIMEOUT_WORK_BUDGET = 128"
definition TARGET_WORK_BUDGET :: nat where "TARGET_WORK_BUDGET = 128"
definition COMMAND_WORK_BUDGET :: nat where "COMMAND_WORK_BUDGET = 32"

type_synonym timeout_io = "clock_io \<times> tx_drain"

definition target_has_due_timeout :: "nat \<Rightarrow> instant \<Rightarrow> managed_task \<Rightarrow> bool" where
  "target_has_due_timeout i now m \<longleftrightarrow>
     (case tr_phase (mt_targets m ! i) of
        Active client _ _ \<Rightarrow>
          mt_phase m \<noteq> Stopping \<and> effective_retirement (mt_targets m ! i) = None \<and> timeout_due now client
      | Draining client _ _ _ _ _ \<Rightarrow> timeout_due now client
      | _ \<Rightarrow> False)"

text \<open>The result tells whether more timeouts of the target are due.\<close>

definition poll_target_timeout ::
  "(client_error \<Rightarrow> string) \<Rightarrow> timeout_io \<Rightarrow> nat \<Rightarrow> instant \<Rightarrow> managed_task \<Rightarrow> (managed_task \<times> bool) option" where
  "poll_target_timeout to_text io i now m =
     (let (ck, drain) = io
      in case tr_phase (mt_targets m ! i) of
           Active client schedule send_waiting \<Rightarrow>
             Option.bind (async_poll_timeouts_bounded_at drain now 1 client) (\<lambda>(client, result).
               let m = update_target i (set_phase (Active client schedule send_waiting)) m
               in case result of
                    Inr batch \<Rightarrow> Some (publish_client_events i (tb_events batch) m, tb_more_due batch)
                  | Inl error \<Rightarrow>
                      map_option (\<lambda>m. (m, False)) (begin_open_session_failure to_text ck i FpTiming error now CleanupClose m))
         | Draining client started deadline primary_end cleanup_failure remaining \<Rightarrow>
             Option.bind (async_poll_timeouts_bounded_at drain now 1 client) (\<lambda>(client, result).
               let m = update_target i (set_phase (Draining client started deadline primary_end cleanup_failure remaining)) m
               in case result of
                    Inr batch \<Rightarrow>
                      map_option (\<lambda>(m, closing). (m, \<not> closing \<and> tb_more_due batch))
                        (shorten_drain to_text ck i now (publish_client_events i (tb_events batch) m))
                  | Inl error \<Rightarrow>
                      let cleanup_failure =
                            (case cleanup_failure of Some f \<Rightarrow> f | None \<Rightarrow> classify_client_error to_text FpTiming error)
                      in Option.bind (sync_live_packets_sent i m) (\<lambda>m.
                           map_option (\<lambda>m. (m, False)) (begin_close to_text ck i primary_end (Some cleanup_failure) now m)))
         | _ \<Rightarrow> Some (m, False))"

definition enqueue_timeout_backlog :: "nat \<Rightarrow> u64 \<Rightarrow> managed_task \<Rightarrow> managed_task" where
  "enqueue_timeout_backlog i generation m =
     (if length (mt_timeout_backlog m) = TIMEOUT_WORK_BUDGET \<or>
         list_ex (\<lambda>e. bl_index e = i \<and> bl_generation e = generation) (mt_timeout_backlog m) then m
      else m\<lparr>mt_timeout_backlog := mt_timeout_backlog m @ [\<lparr>bl_index = i, bl_generation = generation\<rparr>]\<rparr>)"

fun timeout_scan ::
  "(client_error \<Rightarrow> string) \<Rightarrow> (nat \<Rightarrow> timeout_io) \<Rightarrow> instant \<Rightarrow> nat \<Rightarrow> nat \<Rightarrow> managed_task \<Rightarrow> (managed_task \<times> nat) option" where
  "timeout_scan to_text ios now 0 transitions m = Some (m, transitions)"
| "timeout_scan to_text ios now (Suc turns) transitions m =
     (if transitions = 0 then Some (m, transitions)
      else
        let i = mt_timeout_cursor m;
            m = m\<lparr>mt_timeout_cursor := Suc i mod length (mt_targets m)\<rparr>
        in if length (mt_targets m) \<le> i then None
           else if target_has_due_timeout i now m then
             (case poll_target_timeout to_text (ios transitions) i now m of
                None \<Rightarrow> None
              | Some (m', more_due) \<Rightarrow>
                  timeout_scan to_text ios now turns (transitions - 1)
                    (if more_due then enqueue_timeout_backlog i (ti_generation (tr_instance (mt_targets m ! i))) m' else m'))
           else timeout_scan to_text ios now turns transitions m)"

function drain_backlog ::
  "(client_error \<Rightarrow> string) \<Rightarrow> (nat \<Rightarrow> timeout_io) \<Rightarrow> instant \<Rightarrow> nat \<Rightarrow> managed_task \<Rightarrow> managed_task option" where
  "drain_backlog to_text ios now transitions m =
     (if transitions = 0 then Some m
      else case mt_timeout_backlog m of
             [] \<Rightarrow> Some m
           | entry # rest \<Rightarrow>
               let i = bl_index entry; m1 = m\<lparr>mt_timeout_backlog := rest\<rparr>
               in if i < length (mt_targets m) \<and> ti_generation (tr_instance (mt_targets m ! i)) = bl_generation entry \<and>
                     target_has_due_timeout i now m1 then
                    (case poll_target_timeout to_text (ios transitions) i now m1 of
                       None \<Rightarrow> None
                     | Some (m2, more_due) \<Rightarrow>
                         drain_backlog to_text ios now (transitions - 1)
                           (if more_due then enqueue_timeout_backlog i (bl_generation entry) m2 else m2))
                  else drain_backlog to_text ios now transitions m1)"
  by pat_completeness auto
termination
  by (relation "measures [\<lambda>(_, _, _, k, _). k, \<lambda>(_, _, _, _, m). length (mt_timeout_backlog m)]") auto

declare drain_backlog.simps [simp del]

definition poll_timeout_pass ::
  "(client_error \<Rightarrow> string) \<Rightarrow> (nat \<Rightarrow> timeout_io) \<Rightarrow> instant \<Rightarrow> managed_task \<Rightarrow> (managed_task \<times> bool) option" where
  "poll_timeout_pass to_text ios now m =
     (if mt_targets m = [] then Some (m, False)
      else
        Option.bind (timeout_scan to_text ios now (min (length (mt_targets m)) TIMEOUT_WORK_BUDGET) TIMEOUT_WORK_BUDGET m)
          (\<lambda>(m, transitions).
             map_option (\<lambda>m. (m, mt_timeout_backlog m \<noteq> [])) (drain_backlog to_text ios now transitions m)))"

section \<open>Sending\<close>

datatype send_result = NotAttempted | SendPending | SendReady bool | SendFailed bool

record pacing_io =
  pc_now :: instant
  pc_script :: "send_poll_io list"
  pc_accepted :: instant
  pc_skip :: instant
  pc_clock :: clock_io

definition record_stagger_acceptance :: "bool \<Rightarrow> duration option \<Rightarrow> instant \<Rightarrow> managed_task \<Rightarrow> managed_task" where
  "record_stagger_acceptance accepted spacing accepted_at m =
     (case spacing of
        Some d \<Rightarrow>
          if accepted then m\<lparr>mt_last_stagger_send := Some accepted_at, mt_send_gate := next_stagger_gate (mt_send_gate m) d accepted_at\<rparr>
          else m
      | None \<Rightarrow> m)"

definition scheduled_event :: "schedule_commit \<Rightarrow> send_receipt \<Rightarrow> client_event" where
  "scheduled_event commit r =
     EchoSent (sr_seq r) (sr_remote r) (Some (sc_scheduled_at commit)) (sr_sent_at r) (sr_bytes r) (sr_send_call r)
       (Some (instant_abs_diff (ct_mono (sr_sent_at r)) (sc_scheduled_at commit)))"

fun send_error_source :: "send_probe_error \<Rightarrow> client_error" where
  "send_error_source (NotCommitted source) = source"
| "send_error_source (AfterCommit _ source) = source"

definition polled_receipt :: "(send_probe_error + send_receipt) poll \<Rightarrow> send_receipt option" where
  "polled_receipt result = (case result of Pending \<Rightarrow> None | Ready r \<Rightarrow> receipt_of r)"

text \<open>The send itself, once the slot is due and its commit is prepared.\<close>

definition attempt_send ::
  "mac_fun \<Rightarrow> (client_error \<Rightarrow> string) \<Rightarrow> pacing_io \<Rightarrow> nat \<Rightarrow> instant \<Rightarrow> duration option \<Rightarrow> async_client \<Rightarrow> probe_schedule \<Rightarrow>
     schedule_commit \<Rightarrow> managed_task \<Rightarrow> (managed_task \<times> send_result) option" where
  "attempt_send mac to_text io i now spacing client schedule commit m =
     Option.bind (poll_send_probe mac (pc_script io) client) (\<lambda>(client, result).
       let receipt = polled_receipt result;
           accepted = (receipt \<noteq> None);
           m = record_stagger_acceptance accepted spacing (pc_accepted io) m;
           schedule = (if accepted then commit_schedule commit schedule else schedule);
           (schedule, schedule_error) =
             (if accepted then
                (case skip_missed_slots_at (pc_skip io) schedule of Inl e \<Rightarrow> (schedule, Some e) | Inr s \<Rightarrow> (s, None))
              else (schedule, None));
           send_waiting = (result = Pending);
           m = update_target i (\<lambda>t.
                 let t = sync_packets_sent client t;
                     t = (if send_waiting then t\<lparr>tr_silence_since := None, tr_last_reply_at := None\<rparr> else t)
                 in set_phase (Active client schedule send_waiting) t) m;
           m' = (case receipt of None \<Rightarrow> m | Some r \<Rightarrow> publish_client_events i [scheduled_event commit r] m);
           failed = (\<lambda>phase error. map_option (\<lambda>m. (m, SendFailed accepted))
                       (begin_open_session_failure to_text (pc_clock io) i phase error now CleanupDrain m'))
       in case result of
            Pending \<Rightarrow> Some (m, SendPending)
          | Ready (Inr _) \<Rightarrow>
              (case schedule_error of Some error \<Rightarrow> failed FpTiming error | None \<Rightarrow> Some (m', SendReady accepted))
          | Ready (Inl error) \<Rightarrow> failed FpSending (send_error_source error))"

definition poll_one_send ::
  "mac_fun \<Rightarrow> (client_error \<Rightarrow> string) \<Rightarrow> pacing_io \<Rightarrow> nat \<Rightarrow> instant \<Rightarrow> duration option \<Rightarrow> managed_task \<Rightarrow>
     (managed_task \<times> send_result) option" where
  "poll_one_send mac to_text io i now spacing m =
     (case tr_phase (mt_targets m ! i) of
        Active client schedule send_waiting \<Rightarrow>
          let idle = (\<lambda>schedule. Some (update_target i (set_phase (Active client schedule False)) m, NotAttempted));
              now = max now (pc_now io); ck = pc_clock io
          in if \<not> is_desired (mt_targets m ! i) then idle schedule
             else if timeout_due now client then idle schedule
             else
               let (permitted, schedule) = permit_probe_at now schedule
               in if \<not> permitted then
                    (if machine_pending_is_empty (ac_machine client) then
                       map_option (\<lambda>m. (m, SendReady False))
                         (begin_drain to_text ck i TestComplete
                           (update_target i (\<lambda>t. set_phase (Active client schedule False) (sync_packets_sent client t)) m))
                     else idle schedule)
                  else
                    (case sch_next_send_at schedule of
                       None \<Rightarrow> idle schedule
                     | Some deadline \<Rightarrow>
                         if now < deadline then idle schedule
                         else
                           (case preflight_managed_commit deadline now schedule of
                              Inl error \<Rightarrow>
                                map_option (\<lambda>m. (m, SendFailed False))
                                  (begin_open_session_failure to_text ck i FpTiming error now CleanupDrain
                                    (update_target i (set_phase (Active client schedule send_waiting)) m))
                            | Inr commit \<Rightarrow> attempt_send mac to_text io i now spacing client schedule commit m))
      | _ \<Rightarrow> Some (m, NotAttempted))"

fun send_moved :: "send_result \<Rightarrow> bool" where
  "send_moved (SendReady _) = True"
| "send_moved (SendFailed _) = True"
| "send_moved _ = False"

text \<open>The staggered scan ends at the first target that attempted a send.\<close>

fun stagger_scan ::
  "mac_fun \<Rightarrow> (client_error \<Rightarrow> string) \<Rightarrow> (nat \<Rightarrow> pacing_io) \<Rightarrow> instant \<Rightarrow> nat \<Rightarrow> managed_task \<Rightarrow> (managed_task \<times> bool) option" where
  "stagger_scan mac to_text ios now 0 m = Some (m, 0 < mt_stagger_remaining m)"
| "stagger_scan mac to_text ios now (Suc work) m =
     (let i = mt_send_cursor m mod length (mt_targets m);
          m = m\<lparr>mt_send_cursor := Suc (mt_send_cursor m) mod length (mt_targets m),
                mt_stagger_remaining := mt_stagger_remaining m - 1\<rparr>
      in if \<not> is_paced_active (mt_targets m ! i) then stagger_scan mac to_text ios now work m
         else
           (case poll_one_send mac to_text (ios work) i now (active_stagger_spacing m) m of
              None \<Rightarrow> None
            | Some (m', result) \<Rightarrow>
                if result = NotAttempted then stagger_scan mac to_text ios now work m'
                else Some (m'\<lparr>mt_stagger_remaining := 0\<rparr>, send_moved result)))"

definition poll_staggered_send ::
  "mac_fun \<Rightarrow> (client_error \<Rightarrow> string) \<Rightarrow> (nat \<Rightarrow> pacing_io) \<Rightarrow> instant \<Rightarrow> managed_task \<Rightarrow> (managed_task \<times> bool) option" where
  "poll_staggered_send mac to_text ios now m =
     (if active_count m = 0 \<or> (case mt_send_gate m of None \<Rightarrow> False | Some gate \<Rightarrow> now < gate) then Some (m, False)
      else
        let m = (if mt_stagger_remaining m = 0 then m\<lparr>mt_stagger_remaining := length (mt_targets m)\<rparr> else m)
        in stagger_scan mac to_text ios now (min (mt_stagger_remaining m) TARGET_WORK_BUDGET) m)"

fun burst_scan ::
  "mac_fun \<Rightarrow> (client_error \<Rightarrow> string) \<Rightarrow> (nat \<Rightarrow> pacing_io) \<Rightarrow> instant \<Rightarrow> nat \<Rightarrow> bool \<Rightarrow> managed_task \<Rightarrow>
     (managed_task \<times> bool) option" where
  "burst_scan mac to_text ios now 0 moved m = Some (m, moved \<or> 0 < mt_burst_remaining m)"
| "burst_scan mac to_text ios now (Suc work) moved m =
     (let i = mt_send_cursor m mod length (mt_targets m);
          m = m\<lparr>mt_send_cursor := Suc (mt_send_cursor m) mod length (mt_targets m),
                mt_burst_remaining := mt_burst_remaining m - 1\<rparr>
      in case poll_one_send mac to_text (ios work) i now None m of
           None \<Rightarrow> None
         | Some (m', result) \<Rightarrow> burst_scan mac to_text ios now work (moved \<or> send_moved result) m')"

definition poll_burst_sends ::
  "mac_fun \<Rightarrow> (client_error \<Rightarrow> string) \<Rightarrow> (nat \<Rightarrow> pacing_io) \<Rightarrow> instant \<Rightarrow> managed_task \<Rightarrow> (managed_task \<times> bool) option" where
  "poll_burst_sends mac to_text ios now m =
     (if mt_targets m = [] then Some (m, False)
      else
        let m = (if mt_burst_remaining m = 0 then m\<lparr>mt_burst_remaining := length (mt_targets m)\<rparr> else m)
        in burst_scan mac to_text ios now (min (mt_burst_remaining m) TARGET_WORK_BUDGET) False m)"

section \<open>The task\<close>

fun target_pass ::
  "mac_fun \<Rightarrow> (client_error \<Rightarrow> string) \<Rightarrow> (nat \<Rightarrow> target_io) \<Rightarrow> instant \<Rightarrow> nat \<Rightarrow> bool \<Rightarrow> managed_task \<Rightarrow>
     (managed_task \<times> bool) option" where
  "target_pass mac to_text ios now 0 immediate m = Some (m, immediate \<or> 0 < mt_scan_remaining m)"
| "target_pass mac to_text ios now (Suc work) immediate m =
     (let i = mt_cursor m mod length (mt_targets m);
          m = m\<lparr>mt_cursor := Suc (mt_cursor m) mod length (mt_targets m), mt_scan_remaining := mt_scan_remaining m - 1\<rparr>
      in case poll_target mac to_text (ios work) i now m of
           None \<Rightarrow> None
         | Some (m', b) \<Rightarrow> target_pass mac to_text ios now work (immediate \<or> b) m')"

definition poll_target_pass ::
  "mac_fun \<Rightarrow> (client_error \<Rightarrow> string) \<Rightarrow> (nat \<Rightarrow> target_io) \<Rightarrow> instant \<Rightarrow> managed_task \<Rightarrow> (managed_task \<times> bool) option" where
  "poll_target_pass mac to_text ios now m =
     (if mt_targets m = [] then Some (m, False)
      else
        let m = (if mt_scan_remaining m = 0 then m\<lparr>mt_scan_remaining := length (mt_targets m)\<rparr> else m)
        in target_pass mac to_text ios now (min (mt_scan_remaining m) TARGET_WORK_BUDGET) False m)"

definition all_targets_terminal :: "managed_task \<Rightarrow> bool" where
  "all_targets_terminal m \<longleftrightarrow> list_all (\<lambda>t. is_terminal_phase (tr_phase t)) (mt_targets m)"

fun is_terminal_task :: "task_phase \<Rightarrow> bool" where
  "is_terminal_task (Completed _) = True"
| "is_terminal_task (TaskFailed _) = True"
| "is_terminal_task Abandoned = True"
| "is_terminal_task _ = False"

type_synonym acknowledgement = "managed_apply_error + u64 \<times> managed_status"

fun process_commands ::
  "nat \<Rightarrow> (instant \<times> managed_target_config list) list \<Rightarrow> managed_task \<Rightarrow> managed_task \<times> acknowledgement list" where
  "process_commands 0 commands m = (m, [])"
| "process_commands (Suc budget) [] m = (m, [])"
| "process_commands (Suc budget) ((now, targets) # commands) m =
     (let (m, ack) = process_command now targets m;
          (m, acks) = process_commands budget commands m
      in (m, ack # acks))"

text \<open>Sealing answers the commands that are still buffered, \<open>buffered\<close> many.\<close>

definition seal ::
  "bool \<Rightarrow> nat \<Rightarrow> managed_end_reason \<Rightarrow> bool \<Rightarrow> managed_task \<Rightarrow> managed_task \<times> acknowledgement list \<times> managed_outcome" where
  "seal requested buffered end_reason failed m =
     (let m = (if requested then observe_stop m else m);
          end_reason = (if mt_stop_observed m \<and> end_reason = TargetsComplete then StopRequested else end_reason);
          m = m\<lparr>mt_admission := AdmissionClosed\<rparr>;
          error = (case end_reason of DriverFailed failure \<Rightarrow> ApplyDriverFailed failure | _ \<Rightarrow> ApplyStopping);
          outcome = history_outcome end_reason (mt_applied_command_sequence m) (mt_history m);
          m = replace_status (m\<lparr>mt_phase := if failed then TaskFailed outcome else Completed outcome\<rparr>)
      in (publish_event (if failed then MeFailed outcome else MeCompleted outcome) m, replicate buffered (Err error), outcome))"

record task_io =
  tk_runtime :: bool
  tk_stop :: "nat \<Rightarrow> bool"
  tk_commands :: "(instant \<times> managed_target_config list) list"
  tk_buffered :: nat
  tk_now :: instant
  tk_timeouts :: "nat \<Rightarrow> timeout_io"
  tk_targets :: "nat \<Rightarrow> target_io"
  tk_sends :: "nat \<Rightarrow> pacing_io"

definition check_stop :: "task_io \<Rightarrow> nat \<Rightarrow> managed_task \<Rightarrow> managed_task" where
  "check_stop io k m = (if tk_stop io k then observe_stop m else m)"

text \<open>The work of one poll: timeouts, targets, pruning, sends.\<close>

definition poll_work ::
  "mac_fun \<Rightarrow> (client_error \<Rightarrow> string) \<Rightarrow> task_io \<Rightarrow> managed_task \<Rightarrow> managed_task option" where
  "poll_work mac to_text io m =
     Option.bind (poll_timeout_pass to_text (tk_timeouts io) (tk_now io) m) (\<lambda>(m, _).
     Option.bind (poll_target_pass mac to_text (tk_targets io) (tk_now io) m) (\<lambda>(m, _).
       let m = prune_undesired_terminal m
       in if mt_phase m \<noteq> Running then Some m
          else
            map_option fst
              (case mc_pacing (mt_config m) of
                 Staggered \<Rightarrow> poll_staggered_send mac to_text (tk_sends io) (tk_now io) m
               | Burst \<Rightarrow> poll_burst_sends mac to_text (tk_sends io) (tk_now io) m)))"

definition sealed_poll ::
  "task_io \<Rightarrow> managed_end_reason \<Rightarrow> bool \<Rightarrow> managed_task \<Rightarrow> managed_task \<times> acknowledgement list \<times> managed_outcome poll" where
  "sealed_poll io end_reason failed m =
     (let (m, acks, outcome) = seal (tk_stop io 4) (tk_buffered io) end_reason failed m in (m, acks, Ready outcome))"

definition finish_poll ::
  "task_io \<Rightarrow> managed_task \<Rightarrow> managed_task \<times> acknowledgement list \<times> managed_outcome poll" where
  "finish_poll io m =
     (if \<not> all_targets_terminal m then (m, [], Pending)
      else if mt_phase m = Stopping then
        sealed_poll io (if mt_stop_observed m then StopRequested else TargetsComplete) False m
      else if mt_phase m = Running \<and> mc_completion (mt_config m) = FinishWhenQuiescent then
        sealed_poll io TargetsComplete False
          (publish_event MeStopping
            (replace_status (m\<lparr>mt_phase := Stopping, mt_admission := begin_stopping (mt_admission m)\<rparr>)))
      else (m, [], Pending))"

definition task_poll ::
  "mac_fun \<Rightarrow> (client_error \<Rightarrow> string) \<Rightarrow> task_io \<Rightarrow> managed_task \<Rightarrow>
     (managed_task \<times> acknowledgement list \<times> managed_outcome poll) option" where
  "task_poll mac to_text io m =
     (if is_terminal_task (mt_phase m) then None
      else
        case (if mt_phase m = NotStarted \<and> \<not> tk_stop io 0 then begin_running (tk_runtime io) m
              else (if mt_phase m = NotStarted then observe_stop m else m, Ok ())) of
          (m, Inl failure) \<Rightarrow> Some (sealed_poll io (DriverFailed failure) True m)
        | (m, Inr _) \<Rightarrow>
            let (m, acks) = process_commands COMMAND_WORK_BUDGET (tk_commands io) (check_stop io 1 m)
            in map_option (\<lambda>m. let (m, sealed, r) = finish_poll io (check_stop io 3 m) in (m, acks @ sealed, r))
                 (poll_work mac to_text io (check_stop io 2 m)))"

text \<open>A dropped task and a stop request of a handle.\<close>

definition abandon :: "managed_task \<Rightarrow> managed_task" where
  "abandon m =
     (if is_terminal_task (mt_phase m) then m
      else publish_event MeAbandoned (replace_status (m\<lparr>mt_phase := Abandoned, mt_admission := AdmissionClosed\<rparr>)))"

definition request_stop :: "managed_task \<Rightarrow> managed_task" where
  "request_stop m = m\<lparr>mt_admission := begin_stopping (mt_admission m)\<rparr>"

text \<open>The earliest time at which a poll can have work to do.\<close>

fun earliest :: "instant option list \<Rightarrow> instant option" where
  "earliest [] = None"
| "earliest (d # ds) =
     (case (d, earliest ds) of (Some a, Some b) \<Rightarrow> Some (min a b) | (Some a, None) \<Rightarrow> Some a | (None, e) \<Rightarrow> e)"

definition target_deadlines :: "managed_client_config \<Rightarrow> target_runtime \<Rightarrow> instant option list" where
  "target_deadlines config t =
     silence_deadline (mc_reconnect_timeout config) t #
     (case tr_phase t of
        Retrying deadline \<Rightarrow> [Some deadline]
      | Active client schedule _ \<Rightarrow> [next_probe_timeout_deadline (ac_machine client), end_deadline schedule]
      | Draining client _ deadline _ _ _ \<Rightarrow> [next_probe_timeout_deadline (ac_machine client), Some deadline]
      | Closing _ deadline _ _ \<Rightarrow> [Some deadline]
      | _ \<Rightarrow> [])"

definition target_send_deadline :: "target_runtime \<Rightarrow> instant option" where
  "target_send_deadline t =
     (case tr_phase t of
        Active _ schedule send_waiting \<Rightarrow> if is_desired t \<and> \<not> send_waiting then sch_next_send_at schedule else None
      | _ \<Rightarrow> None)"

definition next_deadline :: "managed_task \<Rightarrow> instant option" where
  "next_deadline m =
     (let non_send = earliest (concat (map (target_deadlines (mt_config m)) (mt_targets m)));
          send = earliest (map target_send_deadline (mt_targets m));
          send = (if mt_phase m = Running \<and> mc_pacing (mt_config m) = Staggered \<and> 0 < active_count m
                  then gated_send_deadline send (mt_send_gate m) else send)
      in earliest [non_send, send])"

end
