(* ===== verification/Managed_Update.thy ===== *)
theory Managed_Update
  imports Managed
begin

text \<open>
  What the managed client's update transaction keeps and does: live targets stay within the
  configured limit with unique generations, and after an update the desired targets are exactly the
  requested ones.
\<close>

section \<open>The invariant of a task\<close>

definition generation_of :: "target_runtime \<Rightarrow> u64" where
  "generation_of t = ti_generation (tr_instance t)"

definition managed_ok :: "managed_task \<Rightarrow> bool" where
  "managed_ok m \<longleftrightarrow>
     distinct (map generation_of (mt_targets m)) \<and>
     (\<forall>t \<in> set (mt_targets m). generation_of t < mt_next_generation m \<and> ti_id (tr_instance t) = tc_id (tr_config t)) \<and>
     distinct (map (\<lambda>t. tc_id (tr_config t)) (filter is_desired (mt_targets m))) \<and>
     length (mt_targets m) \<le> mc_max_live_target_generations (mt_config m) \<and>
     mt_timeout_cursor m < max 1 (length (mt_targets m))"

section \<open>Planning\<close>

lemma prepare_incoming_Ok:
  "prepare_incoming shared ids incoming = Ok prepared \<Longrightarrow>
     map fst prepared = incoming \<and> distinct (map tc_id incoming) \<and> set ids \<inter> tc_id ` set incoming = {}"
proof (induction incoming arbitrary: ids prepared)
  case (Cons target incoming)
  then obtain rest where rest: "tc_id target \<notin> set ids" "prepare_incoming shared (tc_id target # ids) incoming = Ok rest"
      "prepared = (target, target_client_config shared target) # rest"
    by (auto simp: Let_def result_simps split: if_splits)
  from Cons.IH [OF rest(2)] rest(1,3) show ?case by auto
qed simp

lemma word_less_succ: "(n :: u64) \<noteq> - 1 \<Longrightarrow> n < n + 1"
  by (simp add: word_less_nat_alt unat_succ)

lemma plan_created_Ok:
  "plan_created current start prepared = Ok (created, after) \<Longrightarrow>
     map pt_target created = filter (\<lambda>target. \<not> list_ex (\<lambda>t. runtime_satisfies_target t target) current) (map fst prepared) \<and>
     start \<le> after \<and> (\<forall>p \<in> set created. start \<le> pt_generation p \<and> pt_generation p < after) \<and>
     distinct (map pt_generation created)"
proof (induction prepared arbitrary: start created)
  case (Cons tc prepared)
  obtain target cfg where tc: "tc = (target, cfg)" by fastforce
  show ?case
  proof (cases "list_ex (\<lambda>t. runtime_satisfies_target t target) current")
    case True
    with Cons tc show ?thesis by simp
  next
    case False
    with Cons.prems tc obtain rest where rest: "start \<noteq> - 1" "plan_created current (start + 1) prepared = Ok (rest, after)"
        "created = \<lparr>pt_target = target, pt_client_config = cfg, pt_generation = start\<rparr> # rest"
      by (auto simp: result_simps split: if_splits)
    have less: "start < start + 1" using rest(1) by (rule word_less_succ)
    note ih = Cons.IH [OF rest(2)]
    have above: "start < pt_generation p" if "p \<in> set rest" for p
      using ih that less by fastforce
    have "start < after" using ih less by (meson less_le_trans)
    with ih rest(3) tc False less above show ?thesis
      by (auto intro: less_imp_le dest: above)
  qed
qed simp

section \<open>Retiring\<close>

definition withdraw :: "managed_target_config list \<Rightarrow> target_runtime \<Rightarrow> target_runtime" where
  "withdraw incoming t =
     (case retirement_of incoming t of None \<Rightarrow> t | Some reason \<Rightarrow> t\<lparr>tr_membership := Withdrawn reason\<rparr>)"

definition leaves_now :: "managed_target_config list \<Rightarrow> target_runtime \<Rightarrow> bool" where
  "leaves_now incoming t \<longleftrightarrow> retirement_of incoming t \<noteq> None \<and> synchronously_retireable (tr_phase t)"

lemma withdraw_simps [simp]:
  "tr_instance (withdraw incoming t) = tr_instance t" "tr_config (withdraw incoming t) = tr_config t"
  "tr_phase (withdraw incoming t) = tr_phase t" "generation_of (withdraw incoming t) = generation_of t"
  by (simp_all add: withdraw_def generation_of_def split: option.split)

lemma withdraw_desired:
  "is_desired (withdraw incoming t) \<longleftrightarrow> is_desired t \<and> list_ex (runtime_satisfies_target t) incoming"
  by (auto simp: withdraw_def retirement_of_def is_desired_def split: option.split if_splits)

lemma stagger_keeps [simp]:
  "mt_targets (stagger_target_removed now m) = mt_targets m" "mt_config (stagger_target_removed now m) = mt_config m"
  "mt_next_generation (stagger_target_removed now m) = mt_next_generation m"
  "mt_applied_command_sequence (stagger_target_removed now m) = mt_applied_command_sequence m"
  "mt_timeout_cursor (stagger_target_removed now m) = mt_timeout_cursor m"
  by (simp_all add: stagger_target_removed_def)

lemma retire_keeps:
  assumes "retire now r (m, f) = (m', f')"
  shows "mt_config m' = mt_config m" "mt_next_generation m' = mt_next_generation m"
    "mt_applied_command_sequence m' = mt_applied_command_sequence m" "mt_timeout_cursor m' = mt_timeout_cursor m"
    "mt_targets m' = (mt_targets m)[pr_index r := (mt_targets m ! pr_index r)\<lparr>tr_membership := Withdrawn (pr_reason r)\<rparr>]"
  using assms by (auto simp: retire_def Let_def split: if_splits)

lemma fold_retire:
  assumes "fold (retire now) (plan_retirements incoming (length pre) ts) (m, f) = (m', f')" "mt_targets m = pre @ ts"
  shows "mt_targets m' = pre @ map (withdraw incoming) ts \<and> mt_config m' = mt_config m \<and>
     mt_next_generation m' = mt_next_generation m \<and> mt_applied_command_sequence m' = mt_applied_command_sequence m \<and>
     mt_timeout_cursor m' = mt_timeout_cursor m"
  using assms
proof (induction ts arbitrary: pre m f)
  case (Cons t ts)
  show ?case
  proof (cases "retirement_of incoming t")
    case None
    with Cons.prems Cons.IH [of "pre @ [t]" m f] show ?thesis by (simp add: withdraw_def)
  next
    case (Some reason)
    define r where "r = \<lparr>pr_index = length pre, pr_reason = reason, pr_synchronous = synchronously_retireable (tr_phase t)\<rparr>"
    obtain m1 f1 where m1: "retire now r (m, f) = (m1, f1)" by fastforce
    note keeps = retire_keeps [OF m1]
    have "mt_targets m1 = (pre @ [withdraw incoming t]) @ ts"
      using keeps(5) Cons.prems(2) Some by (simp add: r_def withdraw_def)
    with Cons.prems(1) Cons.IH [of "pre @ [withdraw incoming t]" m1 f1] keeps Some m1 show ?thesis
      by (simp add: r_def)
  qed
qed simp

lemma synchronous_Cons [simp]:
  "synchronous_indices (r # rs) = (if pr_synchronous r then [pr_index r] else []) @ synchronous_indices rs"
  by (simp add: synchronous_indices_def)

lemma plan_indices: "i \<in> set (synchronous_indices (plan_retirements incoming k ts)) \<longleftrightarrow>
    k \<le> i \<and> i < k + length ts \<and> leaves_now incoming (ts ! (i - k))"
proof (induction ts arbitrary: k)
  case (Cons t ts)
  show ?case
    using Cons.IH [of "Suc k"]
    by (cases "i = k") (auto simp: leaves_now_def nth_Cons' split: option.split)
qed (simp add: synchronous_indices_def)

lemma retain_map: "retain_indices dropped k (map h xs) = map h (retain_indices dropped k xs)"
  by (induction xs arbitrary: k) auto

lemma retain_filter:
  assumes "\<And>i. i < length xs \<Longrightarrow> (k + i \<in> set dropped) = p (xs ! i)"
  shows "retain_indices dropped k xs = filter (\<lambda>x. \<not> p x) xs"
  using assms
proof (induction xs arbitrary: k)
  case (Cons x xs)
  have "(k \<in> set dropped) = p x" using Cons.prems [of 0] by simp
  moreover have "retain_indices dropped (Suc k) xs = filter (\<lambda>x. \<not> p x) xs"
    by (rule Cons.IH) (use Cons.prems [of "Suc _"] in simp)
  ultimately show ?case by simp
qed simp

lemma retained_targets:
  "retain_indices (synchronous_indices (plan_retirements incoming 0 ts)) 0 (map (withdraw incoming) ts) =
     map (withdraw incoming) (filter (\<lambda>t. \<not> leaves_now incoming t) ts)"
  unfolding retain_map by (subst retain_filter [where p = "leaves_now incoming"]) (simp_all add: plan_indices)

lemma no_synchronous:
  assumes "synchronous_indices (plan_retirements incoming 0 ts) = []"
  shows "filter (\<lambda>t. \<not> leaves_now incoming t) ts = ts"
proof -
  have "\<not> leaves_now incoming (ts ! i)" if "i < length ts" for i
    using plan_indices [of i incoming 0 ts] assms that by simp
  then show ?thesis by (simp add: filter_id_conv all_set_conv_all_nth)
qed

section \<open>The transaction\<close>

lemma rebase_keeps [simp]:
  "mt_targets (rebase_target_cursors m) = mt_targets m" "mt_config (rebase_target_cursors m) = mt_config m"
  "mt_next_generation (rebase_target_cursors m) = mt_next_generation m"
  "mt_applied_command_sequence (rebase_target_cursors m) = mt_applied_command_sequence m"
  by (simp_all add: rebase_target_cursors_def Let_def)

lemma rebase_cursor: "mt_timeout_cursor (rebase_target_cursors m) < max 1 (length (mt_targets m))"
  by (auto simp: rebase_target_cursors_def Let_def less_max_iff_disj)

lemma publish_keeps [simp]:
  "mt_targets (publish_event e m) = mt_targets m" "mt_config (publish_event e m) = mt_config m"
  "mt_next_generation (publish_event e m) = mt_next_generation m"
  "mt_applied_command_sequence (publish_event e m) = mt_applied_command_sequence m"
  "mt_timeout_cursor (publish_event e m) = mt_timeout_cursor m"
  "mt_status (publish_event e m) = mt_status m" "task_snapshot (publish_event e m) = task_snapshot m"
  by (simp_all add: publish_event_def task_snapshot_def)

lemma publish_all_keeps [simp]:
  "mt_targets (publish_all es m) = mt_targets m" "mt_config (publish_all es m) = mt_config m"
  "mt_next_generation (publish_all es m) = mt_next_generation m"
  "mt_applied_command_sequence (publish_all es m) = mt_applied_command_sequence m"
  "mt_timeout_cursor (publish_all es m) = mt_timeout_cursor m"
  "mt_status (publish_all es m) = mt_status m" "task_snapshot (publish_all es m) = task_snapshot m"
  unfolding publish_all_def by (induction es arbitrary: m; simp)+

lemma snapshot_status [simp]: "task_snapshot (replace_status m) = task_snapshot m"
  by (simp add: replace_status_def task_snapshot_def)

text \<open>The state a successful update leaves.\<close>

lemma apply_targets_Ok:
  fixes m :: "managed_task"
  assumes "apply_targets now incoming m = (m', Ok (sequence, status))"
  obtains plan where "plan_targets incoming m = Ok plan"
    and "mt_targets m' = map (withdraw incoming) (filter (\<lambda>t. \<not> leaves_now incoming t) (mt_targets m)) @
       map (create_target (mt_config m)) (up_created plan)"
    and "mt_config m' = mt_config m" "mt_next_generation m' = up_next_generation plan"
      "mt_applied_command_sequence m' = up_next_command_sequence plan"
      "sequence = up_next_command_sequence plan" "status = task_snapshot m'" "mt_status m' = status"
      "mt_timeout_cursor m' < max 1 (length (mt_targets m')) \<or> mt_timeout_cursor m' = mt_timeout_cursor m \<and>
         filter (\<lambda>t. \<not> leaves_now incoming t) (mt_targets m) = mt_targets m"
proof -
  obtain plan where plan: "plan_targets incoming m = Ok plan"
    using assms by (cases "plan_targets incoming m") (auto simp: apply_targets_def)
  then have rets: "up_retirements plan = plan_retirements incoming 0 (mt_targets m)"
    by (auto simp: plan_targets_def Let_def result_simps split: if_splits)
  obtain m1 f1 where m1: "fold (retire now) (up_retirements plan) (m, []) = (m1, f1)" by fastforce
  note ret = fold_retire [where pre = "[]" and ts = "mt_targets m" and m = m, simplified, OF m1 [unfolded rets]]
  define sync where "sync = synchronous_indices (up_retirements plan)"
  define m2 where "m2 = (if sync = [] then m1
     else rebase_target_cursors (m1\<lparr>mt_targets := retain_indices sync 0 (mt_targets m1)\<rparr>))"
  have t2: "mt_targets m2 = map (withdraw incoming) (filter (\<lambda>t. \<not> leaves_now incoming t) (mt_targets m))"
    using ret retained_targets [of incoming "mt_targets m"] no_synchronous [of incoming "mt_targets m"]
    by (auto simp: m2_def sync_def rets)
  have c2: "mt_config m2 = mt_config m" using ret by (simp add: m2_def)
  have cur: "mt_timeout_cursor m2 < max 1 (length (mt_targets m2)) \<or> mt_timeout_cursor m2 = mt_timeout_cursor m \<and>
      filter (\<lambda>t. \<not> leaves_now incoming t) (mt_targets m) = mt_targets m"
  proof (cases "sync = []")
    case True
    with ret no_synchronous [of incoming "mt_targets m"] show ?thesis by (simp add: m2_def sync_def rets)
  next
    case False
    then show ?thesis using rebase_cursor [of "m1\<lparr>mt_targets := retain_indices sync 0 (mt_targets m1)\<rparr>"] by (simp add: m2_def)
  qed
  define created :: "target_runtime list" where "created = map (create_target (mt_config m2)) (up_created plan)"
  define m3 where "m3 = m2\<lparr>mt_targets := mt_targets m2 @ created, mt_next_generation := up_next_generation plan,
     mt_applied_command_sequence := up_next_command_sequence plan\<rparr>"
  define stopping where "stopping \<longleftrightarrow> list_all (\<lambda>t. \<not> is_desired t) (mt_targets m3) \<and>
     mc_completion (mt_config m3) = FinishWhenQuiescent"
  define m4 where "m4 = (if stopping then m3\<lparr>mt_admission := begin_stopping (mt_admission m3), mt_phase := Stopping\<rparr> else m3)"
  define m5 where "m5 = publish_all f1 (if stopping then publish_event MeStopping (replace_status m4) else replace_status m4)"
  have res: "m' = publish_all (map (\<lambda>t. MeTargetStateChanged (tr_instance t) TlPending) created) m5"
      "sequence = mt_applied_command_sequence m'" "status = mt_status m'"
    using assms [unfolded apply_targets_def plan sum.case Let_def m1 prod.case, folded sync_def, folded m2_def,
        folded created_def, folded m3_def, folded stopping_def, folded m4_def, folded m5_def]
    by (auto simp del: publish_all_keeps)
  have m4: "mt_targets m4 = mt_targets m2 @ created" "mt_config m4 = mt_config m" "mt_next_generation m4 = up_next_generation plan"
      "mt_applied_command_sequence m4 = up_next_command_sequence plan" "mt_timeout_cursor m4 = mt_timeout_cursor m2"
    by (simp_all add: m4_def m3_def c2)
  have m': "mt_targets m' = mt_targets m4" "mt_config m' = mt_config m4" "mt_next_generation m' = mt_next_generation m4"
      "mt_applied_command_sequence m' = mt_applied_command_sequence m4" "mt_timeout_cursor m' = mt_timeout_cursor m4"
      "mt_status m' = task_snapshot m4" "task_snapshot m' = task_snapshot m4"
    by (simp_all add: res(1) m5_def) (simp_all add: replace_status_def)
  show thesis
    by (rule that [OF plan]) (use res(2,3) m' m4 t2 c2 cur in \<open>auto simp: created_def\<close>)
qed

lemma create_target_simps [simp]:
  "tr_config (create_target config p) = pt_target p" "is_desired (create_target config p)"
  "tr_instance (create_target config p) = \<lparr>ti_id = tc_id (pt_target p), ti_generation = pt_generation p\<rparr>"
  "generation_of (create_target config p) = pt_generation p"
  by (simp_all add: create_target_def new_target_runtime_def is_desired_def generation_of_def)

lemma plan_targets_Ok:
  assumes "plan_targets incoming m = Ok plan"
  shows "distinct (map tc_id incoming)"
    and "map pt_target (up_created plan) =
      filter (\<lambda>target. \<not> list_ex (\<lambda>t. runtime_satisfies_target t target) (mt_targets m)) incoming"
    and "\<forall>p \<in> set (up_created plan). mt_next_generation m \<le> pt_generation p \<and> pt_generation p < up_next_generation plan"
    and "mt_next_generation m \<le> up_next_generation plan" "distinct (map pt_generation (up_created plan))"
    and "up_next_command_sequence plan = mt_applied_command_sequence m + 1" "mt_applied_command_sequence m \<noteq> - 1"
    and "length (filter (\<lambda>t. \<not> leaves_now incoming t) (mt_targets m)) + length (up_created plan) \<le>
      mc_max_live_target_generations (mt_config m)"
proof -
  obtain prepared where prepared: "prepare_incoming (mc_client (mt_config m)) [] incoming = Ok prepared"
    using assms by (auto simp: plan_targets_def result_simps)
  have retained: "retain_indices (synchronous_indices (plan_retirements incoming 0 (mt_targets m))) 0 (mt_targets m) =
      filter (\<lambda>t. \<not> leaves_now incoming t) (mt_targets m)"
    by (rule retain_filter) (simp add: plan_indices)
  obtain made after where made: "plan_created (mt_targets m) (mt_next_generation m) prepared = Ok (made, after)"
      "mt_applied_command_sequence m \<noteq> - 1"
      "length (filter (\<lambda>t. \<not> leaves_now incoming t) (mt_targets m)) + length made \<le> mc_max_live_target_generations (mt_config m)"
      "plan = \<lparr>up_retirements = plan_retirements incoming 0 (mt_targets m), up_created = made, up_next_generation = after,
        up_next_command_sequence = mt_applied_command_sequence m + 1,
        up_prospective_live_count = length (filter (\<lambda>t. \<not> leaves_now incoming t) (mt_targets m)) + length made\<rparr>"
    using assms prepared by (auto simp: plan_targets_def Let_def result_simps retained split: if_splits)
  then have created: "plan_created (mt_targets m) (mt_next_generation m) prepared = Ok (up_created plan, up_next_generation plan)"
    by simp
  note p = prepare_incoming_Ok [OF prepared] and c = plan_created_Ok [OF created]
  show "length (filter (\<lambda>t. \<not> leaves_now incoming t) (mt_targets m)) + length (up_created plan) \<le>
      mc_max_live_target_generations (mt_config m)"
    and "up_next_command_sequence plan = mt_applied_command_sequence m + 1" "mt_applied_command_sequence m \<noteq> - 1"
    using made by simp_all
  show "distinct (map tc_id incoming)" using p by simp
  show "map pt_target (up_created plan) =
      filter (\<lambda>target. \<not> list_ex (\<lambda>t. runtime_satisfies_target t target) (mt_targets m)) incoming"
    and "\<forall>p \<in> set (up_created plan). mt_next_generation m \<le> pt_generation p \<and> pt_generation p < up_next_generation plan"
    and "mt_next_generation m \<le> up_next_generation plan" "distinct (map pt_generation (up_created plan))"
    using p c by simp_all
qed

text \<open>The targets desired after an update, and the ones created by it.\<close>

lemma desired_after:
  "filter is_desired (map (withdraw incoming) (filter (\<lambda>t. \<not> leaves_now incoming t) ts)) =
     filter (\<lambda>t. list_ex (runtime_satisfies_target t) incoming) ts"
proof (induction ts)
  case (Cons t ts)
  have "list_ex (runtime_satisfies_target t) incoming \<Longrightarrow> is_desired t" by (auto simp: runtime_satisfies_target_def list_ex_iff)
  then have "\<not> leaves_now incoming t \<and> is_desired (withdraw incoming t) \<longleftrightarrow> list_ex (runtime_satisfies_target t) incoming"
    by (auto simp: withdraw_desired leaves_now_def retirement_of_def)
  moreover have "list_ex (runtime_satisfies_target t) incoming \<Longrightarrow> withdraw incoming t = t"
    by (simp add: withdraw_def retirement_of_def)
  ultimately show ?case using Cons by auto
qed simp

lemma satisfied_config: "list_ex (runtime_satisfies_target t) incoming \<longleftrightarrow>
    is_desired t \<and> \<not> is_terminal_phase (tr_phase t) \<and> tr_config t \<in> set incoming"
  by (auto simp: list_ex_iff runtime_satisfies_target_def)

lemma distinct_tc_id: "distinct (map tc_id incoming) \<Longrightarrow> a \<in> set incoming \<Longrightarrow> b \<in> set incoming \<Longrightarrow> tc_id a = tc_id b \<Longrightarrow> a = b"
  by (auto simp: distinct_map dest: inj_onD)

lemma update_desired:
  assumes ok: "managed_ok m" and plan: "plan_targets incoming m = Ok plan"
    and targets: "mt_targets m' = map (withdraw incoming) (filter (\<lambda>t. \<not> leaves_now incoming t) (mt_targets m)) @
       map (create_target (mt_config m)) (up_created plan)"
  shows "set (map tr_config (filter is_desired (mt_targets m'))) = set incoming"
    and "distinct (map (\<lambda>t. tc_id (tr_config t)) (filter is_desired (mt_targets m')))"
proof -
  note p = plan_targets_Ok [OF plan]
  define kept where "kept = filter (\<lambda>t. list_ex (runtime_satisfies_target t) incoming) (mt_targets m)"
  have desired: "filter is_desired (mt_targets m') = kept @ map (create_target (mt_config m)) (up_created plan)"
    by (simp add: targets desired_after kept_def filter_id_conv)
  have configs: "map tr_config (filter is_desired (mt_targets m')) = map tr_config kept @ map pt_target (up_created plan)"
    by (simp add: desired comp_def)
  have kept: "t \<in> set kept \<longleftrightarrow> t \<in> set (mt_targets m) \<and> is_desired t \<and> \<not> is_terminal_phase (tr_phase t) \<and>
      tr_config t \<in> set incoming" for t
    by (auto simp: kept_def satisfied_config)
  have made: "x \<in> set (map pt_target (up_created plan)) \<longleftrightarrow> x \<in> set incoming \<and> x \<notin> tr_config ` set kept" for x
    unfolding p(2) by (auto simp: kept list_ex_iff runtime_satisfies_target_def)
  show "set (map tr_config (filter is_desired (mt_targets m'))) = set incoming"
    unfolding configs using made by (auto simp: kept)
  have "kept = filter (\<lambda>t. list_ex (runtime_satisfies_target t) incoming) (filter is_desired (mt_targets m))"
    unfolding kept_def filter_filter by (rule filter_cong) (auto simp: satisfied_config)
  moreover have "distinct (map (\<lambda>t. tc_id (tr_config t)) (filter is_desired (mt_targets m)))"
    using ok by (simp add: managed_ok_def)
  ultimately have "distinct (map (\<lambda>t. tc_id (tr_config t)) kept)" by (simp only: distinct_map_filter)
  moreover have "distinct (map tc_id (map pt_target (up_created plan)))"
    unfolding p(2) using p(1) by (simp add: distinct_map_filter)
  moreover have "tc_id (tr_config t) \<noteq> tc_id x" if t: "t \<in> set kept" and x: "x \<in> set (map pt_target (up_created plan))" for t x
  proof
    assume "tc_id (tr_config t) = tc_id x"
    with distinct_tc_id [OF p(1)] t x made have "tr_config t = x" by (auto simp: kept)
    with t x made show False by blast
  qed
  ultimately show "distinct (map (\<lambda>t. tc_id (tr_config t)) (filter is_desired (mt_targets m')))"
    unfolding desired by (auto simp: comp_def)
qed

lemma managed_update_ok:
  assumes ok: "managed_ok m" and plan: "plan_targets incoming m = Ok plan"
    and targets: "mt_targets m' = map (withdraw incoming) (filter (\<lambda>t. \<not> leaves_now incoming t) (mt_targets m)) @
       map (create_target (mt_config m)) (up_created plan)"
    and rest: "mt_config m' = mt_config m" "mt_next_generation m' = up_next_generation plan"
      "mt_timeout_cursor m' < max 1 (length (mt_targets m')) \<or> mt_timeout_cursor m' = mt_timeout_cursor m \<and>
         filter (\<lambda>t. \<not> leaves_now incoming t) (mt_targets m) = mt_targets m"
  shows "managed_ok m'"
proof -
  note p = plan_targets_Ok [OF plan]
  have gens: "map generation_of (mt_targets m') =
      map generation_of (filter (\<lambda>t. \<not> leaves_now incoming t) (mt_targets m)) @ map pt_generation (up_created plan)"
    by (simp add: targets comp_def)
  have old: "generation_of t < mt_next_generation m" "ti_id (tr_instance t) = tc_id (tr_config t)" if "t \<in> set (mt_targets m)" for t
    using ok that by (auto simp: managed_ok_def)
  have "distinct (map generation_of (filter (\<lambda>t. \<not> leaves_now incoming t) (mt_targets m)))"
    using ok by (simp add: managed_ok_def distinct_map_filter)
  moreover have "generation_of t \<noteq> pt_generation q" if "t \<in> set (mt_targets m)" "q \<in> set (up_created plan)" for t q
    using old(1) [OF that(1)] p(3) that(2) by fastforce
  ultimately have "distinct (map generation_of (mt_targets m'))" unfolding gens using p(5) by auto
  moreover have "generation_of t < mt_next_generation m' \<and> ti_id (tr_instance t) = tc_id (tr_config t)"
    if "t \<in> set (mt_targets m')" for t
    using that old(2) p(3) less_le_trans [OF old(1) p(4)] unfolding targets rest(2) by auto
  moreover have "length (mt_targets m') \<le> mc_max_live_target_generations (mt_config m')"
    using p(8) by (simp add: targets rest(1))
  moreover have "mt_timeout_cursor m' < max 1 (length (mt_targets m'))"
    using rest(3) ok by (auto simp: managed_ok_def targets)
  ultimately show ?thesis
    using update_desired(2) [OF ok plan targets] by (simp add: managed_ok_def)
qed

section \<open>Other steps\<close>

lemma initial_targets_Ok:
  "initial_targets config ids start targets = Ok (runtimes, after) \<Longrightarrow>
     map tr_config runtimes = targets \<and> list_all is_desired runtimes \<and> distinct (map tc_id targets) \<and>
     set ids \<inter> tc_id ` set targets = {} \<and> start \<le> after \<and>
     (\<forall>t \<in> set runtimes. start \<le> generation_of t \<and> generation_of t < after \<and> ti_id (tr_instance t) = tc_id (tr_config t)) \<and>
     distinct (map generation_of runtimes)"
proof (induction targets arbitrary: ids start runtimes)
  case (Cons target targets)
  define first :: "target_runtime" where
    "first = new_target_runtime config target (target_client_config (mc_client config) target) start"
  from Cons.prems obtain rest where rest: "tc_id target \<notin> set ids" "start \<noteq> - 1"
      "initial_targets config (tc_id target # ids) (start + 1) targets = Ok (rest, after)" "runtimes = first # rest"
    by (auto simp: first_def Let_def result_simps split: if_splits)
  have less: "start < start + 1" using rest(2) by (rule word_less_succ)
  note ih = Cons.IH [OF rest(3)]
  have later: "start < generation_of t" if "t \<in> set rest" for t using ih that less by fastforce
  then have "start \<notin> set (map generation_of rest)" by auto
  moreover have "\<forall>t \<in> set rest. start \<le> generation_of t" using later by (auto intro: less_imp_le)
  moreover have "start < after" using ih less by (meson less_le_trans)
  moreover have "tr_config first = target" "is_desired first" "generation_of first = start"
      "ti_id (tr_instance first) = tc_id target"
    by (simp_all add: first_def new_target_runtime_def is_desired_def generation_of_def)
  ultimately show ?case using ih rest(1,4) by (auto intro: less_imp_le)
qed simp

lemma initial_targets_pending:
  "initial_targets config ids start targets = Ok (runtimes, after) \<Longrightarrow> t \<in> set runtimes \<Longrightarrow>
     (\<exists>c. tr_phase t = TpPending c) \<and> tr_remote t = None"
proof (induction targets arbitrary: ids start runtimes)
qed (auto simp: Let_def result_simps new_target_runtime_def split: if_splits)

lemma build_task_ok:
  fixes m :: "managed_task"
  assumes "build_task max_permits now config targets = Ok m"
  shows "managed_ok m \<and> map tr_config (filter is_desired (mt_targets m)) = targets \<and> mt_status m = task_snapshot m"
proof -
  obtain runtimes :: "target_runtime list" and after
    where init: "initial_targets config [] 1 targets = Ok (runtimes, after)"
      and valid: "validate_managed_config max_permits now config targets = Ok ()"
      and m: "mt_targets m = runtimes" "mt_next_generation m = after" "mt_config m = config" "mt_timeout_cursor m = 0"
        "mt_phase m = NotStarted" "mt_stop_observed m = False" "mt_applied_command_sequence m = 0"
        "mt_history m = history_new (mc_outcome_history_limit config)" "mt_status m = initial_status runtimes"
    using assms by (auto simp: build_task_def result_simps)
  note i = initial_targets_Ok [OF init]
  have len: "length runtimes = length targets" using i by (metis length_map)
  have bound: "length targets \<le> mc_max_live_target_generations config"
    using valid by (auto simp: validate_managed_config_def split: if_splits)
  have desired: "filter is_desired runtimes = runtimes" using i by (simp add: list_all_iff filter_id_conv)
  have pending: "\<forall>t \<in> set runtimes. (\<exists>c. tr_phase t = TpPending c) \<and> tr_remote t = None"
    using initial_targets_pending [OF init] by blast
  then have "\<forall>t \<in> set runtimes. phase_lifecycle (tr_phase t) = TlPending \<and> tr_remote t = None \<and>
      (case tr_phase t of Terminal x \<Rightarrow> Some x | _ \<Rightarrow> None) = None" by fastforce
  then have "mt_status m = task_snapshot m" using desired
    by (simp add: m initial_status_def task_snapshot_def count_lifecycle_def history_new_def target_status_of_def
        filter_empty_conv)
  moreover have "distinct (map (\<lambda>t. tc_id (tr_config t)) runtimes)"
    using i by (metis (no_types, lifting) list.map_comp comp_def map_eq_conv)
  ultimately show ?thesis using i bound len desired by (simp add: managed_ok_def m)
qed

section \<open>The update contract\<close>

definition withdrawn_for :: "managed_target_config list \<Rightarrow> target_runtime \<Rightarrow> target_runtime" where
  "withdrawn_for incoming t =
     t\<lparr>tr_membership := Withdrawn (if tc_id (tr_config t) \<in> tc_id ` set incoming then RetReplaced else RetRemoved)\<rparr>"

text \<open>A retired target that cannot be dropped at once stays, marked as withdrawn, until it has
  finished its exchange.\<close>

lemma withdrawn_stay:
  assumes "t \<in> set ts" "is_desired t" "\<not> list_ex (runtime_satisfies_target t) incoming" "\<not> synchronously_retireable (tr_phase t)"
    and same: "ti_id (tr_instance t) = tc_id (tr_config t)"
  shows "withdrawn_for incoming t \<in>
     set (map (withdraw incoming) (filter (\<lambda>t. \<not> leaves_now incoming t) ts))"
proof -
  have "list_ex (\<lambda>target. tc_id target = ti_id (tr_instance t)) incoming \<longleftrightarrow> tc_id (tr_config t) \<in> tc_id ` set incoming"
    by (auto simp: same list_ex_iff image_iff intro: sym)
  then have "withdraw incoming t =
      withdrawn_for incoming t"
    using assms(2,3) by (simp add: withdraw_def retirement_of_def withdrawn_for_def)
  moreover have "\<not> leaves_now incoming t" using assms(4) by (simp add: leaves_now_def)
  ultimately show ?thesis using assms(1) by force
qed

text \<open>C10: an update is a transaction. When it is refused the task is unchanged; when it is applied,
  the desired targets are exactly the requested ones, each once, within the limit on live
  generations and with generations never used before; a live target whose configuration is
  unchanged goes on undisturbed, a retired one with an exchange under way stays as withdrawn; and
  the acknowledgement carries the next command number and the status that was published.\<close>

theorem update_transaction:
  assumes "managed_ok m" "apply_targets now incoming m = (m', r)"
  shows "case r of
      Inl _ \<Rightarrow> m' = m
    | Inr (sequence, status) \<Rightarrow>
        managed_ok m' \<and> set (map tr_config (filter is_desired (mt_targets m'))) = set incoming \<and>
        unat sequence = unat (mt_applied_command_sequence m) + 1 \<and> mt_applied_command_sequence m' = sequence \<and>
        status = task_snapshot m' \<and> mt_status m' = status \<and>
        (\<forall>t \<in> set (mt_targets m). is_desired t \<longrightarrow>
           (if \<not> is_terminal_phase (tr_phase t) \<and> tr_config t \<in> set incoming then t \<in> set (mt_targets m')
            else synchronously_retireable (tr_phase t) \<or>
              withdrawn_for incoming t
                \<in> set (mt_targets m'))) \<and>
        (\<forall>t \<in> set (mt_targets m'). is_desired t \<longrightarrow> t \<in> set (mt_targets m) \<or> mt_next_generation m \<le> generation_of t)"
proof (cases r)
  case (Inl e)
  then have "m' = m"
    using assms(2) by (cases "plan_targets incoming m") (auto simp: apply_targets_def Let_def split: prod.splits)
  then show ?thesis using Inl by simp
next
  case (Inr ok)
  obtain sequence status where ok: "ok = (sequence, status)" by fastforce
  from apply_targets_Ok [OF assms(2) [unfolded Inr ok]] obtain plan where plan: "plan_targets incoming m = Ok plan"
    and targets: "mt_targets m' = map (withdraw incoming) (filter (\<lambda>t. \<not> leaves_now incoming t) (mt_targets m)) @
       map (create_target (mt_config m)) (up_created plan)"
    and rest: "mt_config m' = mt_config m" "mt_next_generation m' = up_next_generation plan"
      "mt_timeout_cursor m' < max 1 (length (mt_targets m')) \<or> mt_timeout_cursor m' = mt_timeout_cursor m \<and>
         filter (\<lambda>t. \<not> leaves_now incoming t) (mt_targets m) = mt_targets m"
    and ack: "mt_applied_command_sequence m' = up_next_command_sequence plan" "sequence = up_next_command_sequence plan"
      "status = task_snapshot m'" "mt_status m' = status" by metis
  note p = plan_targets_Ok [OF plan]
  have desired: "filter is_desired (mt_targets m') = filter (\<lambda>t. list_ex (runtime_satisfies_target t) incoming) (mt_targets m) @
      map (create_target (mt_config m)) (up_created plan)"
    by (simp add: targets desired_after filter_id_conv)
  have kept: "t \<in> set (mt_targets m')" if "t \<in> set (mt_targets m)" "list_ex (runtime_satisfies_target t) incoming" for t
    using desired that by (metis (no_types, lifting) UnI1 filter_is_subset mem_Collect_eq set_append set_filter subsetD)
  have stay: "withdrawn_for incoming t
      \<in> set (mt_targets m')"
    if "t \<in> set (mt_targets m)" "is_desired t" "\<not> list_ex (runtime_satisfies_target t) incoming"
      "\<not> synchronously_retireable (tr_phase t)" for t
    using withdrawn_stay [OF that] assms(1) that(1) by (auto simp: targets managed_ok_def)
  have "\<forall>t \<in> set (filter is_desired (mt_targets m')). t \<in> set (mt_targets m) \<or> mt_next_generation m \<le> generation_of t"
    unfolding desired using p(3) by auto
  then have fresh: "\<forall>t \<in> set (mt_targets m'). is_desired t \<longrightarrow> t \<in> set (mt_targets m) \<or> mt_next_generation m \<le> generation_of t"
    by simp
  have "unat sequence = unat (mt_applied_command_sequence m) + 1"
    unfolding ack(2) p(6) using unat_succ [OF p(7)] by simp
  then show ?thesis
    unfolding Inr ok sum.case prod.case
    using managed_update_ok [OF assms(1) plan targets rest] update_desired(1) [OF assms(1) plan targets] ack kept stay fresh
    unfolding satisfied_config by (intro conjI) (simp_all, blast+)
qed

text \<open>A task with two targets, one of which is replaced by another.\<close>

definition test_target :: "string \<Rightarrow> managed_target_config" where
  "test_target name = \<lparr>tc_id = name, tc_server_addr = ''127.0.0.1'', tc_address_family = None, tc_auth = AuthInherit\<rparr>"

definition managed_test_config :: managed_client_config where
  "managed_test_config =
     \<lparr>mc_client = client_test_config, mc_pacing = Staggered, mc_completion = FinishWhenQuiescent, mc_event_capacity = 256,
      mc_command_capacity = 64, mc_outcome_history_limit = 2, mc_max_live_target_generations = 3, mc_final_drain = 100000000,
      mc_reconnect_timeout = None, mc_reconnect_initial_delay = 250000000, mc_reconnect_max_delay = 10000000000\<rparr>"

definition managed_test_task :: "managed_task" where
  "managed_test_task = projr (build_task 1000 (\<lambda>_. 0) managed_test_config [test_target ''a'', test_target ''b''])"

definition updated_test_task :: "managed_task \<times> (managed_apply_error + u64 \<times> managed_status)" where
  "updated_test_task = apply_targets 5 [test_target ''b'', test_target ''c''] managed_test_task"

lemma managed_test_built:
  "build_task 1000 (\<lambda>_. 0) managed_test_config [test_target ''a'', test_target ''b''] = Ok managed_test_task"
proof -
  have "isl (build_task 1000 (\<lambda>_. 0) managed_test_config [test_target ''a'', test_target ''b''] ::
      managed_config_error + managed_task) = False" by code_simp
  then show ?thesis by (simp add: managed_test_task_def)
qed

lemma updated_test_applied: "isl (snd updated_test_task) = False"
  by code_simp

theorem update_transaction_witness:
  "managed_ok (fst updated_test_task) \<and>
   set (map tr_config (filter is_desired (mt_targets (fst updated_test_task)))) = {test_target ''b'', test_target ''c''} \<and>
   mt_status (fst updated_test_task) = task_snapshot (fst updated_test_task)"
  using update_transaction [of managed_test_task 5 "[test_target ''b'', test_target ''c'']"
      "fst updated_test_task" "snd updated_test_task"] build_task_ok [OF managed_test_built] updated_test_applied
  by (auto simp: updated_test_task_def [symmetric] split: sum.split_asm prod.split_asm)

end
