(* ===== verification/Managed_Steps.thy ===== *)
theory Managed_Steps
  imports Managed_Task Managed_Update
begin

text \<open>
  What one step of a target keeps, whatever the clock and the sockets do. It touches that target
  alone; the client inside a live target is a client of the kind \<open>Async_Runs\<close> describes, with the
  configuration of its target; a target ends at most once, with the outcome that is published, and
  where the status was exact it is exact again. No operation finds the phase or the client it
  expects missing.
\<close>

section \<open>Invariants of a target\<close>

definition client_ok :: "mac_fun \<Rightarrow> client_config \<Rightarrow> instant \<Rightarrow> async_client \<Rightarrow> bool" where
  "client_ok mac cfg now a \<longleftrightarrow> (\<exists>out. accounted mac cfg (blocking_view a) now out) \<and> retained mac a"

fun phase_ok :: "mac_fun \<Rightarrow> client_config \<Rightarrow> instant \<Rightarrow> target_phase \<Rightarrow> bool" where
  "phase_ok mac cfg now (TpPending c) = (c = cfg)"
| "phase_ok mac cfg now (Connecting c) = (c = cfg)"
| "phase_ok mac cfg now (Opening a st) = (client_ok mac cfg now a \<and> open_state_ok st)"
| "phase_ok mac cfg now (Active a _ _) = client_ok mac cfg now a"
| "phase_ok mac cfg now (Draining a _ _ _ _ _) = client_ok mac cfg now a"
| "phase_ok mac cfg now (Closing a _ _ _) = client_ok mac cfg now a"
| "phase_ok mac cfg now _ = True"

definition target_ok :: "mac_fun \<Rightarrow> managed_client_config \<Rightarrow> instant \<Rightarrow> target_runtime \<Rightarrow> bool" where
  "target_ok mac config now t \<longleftrightarrow>
     phase_ok mac (target_client_config (mc_client config) (tr_config t)) now (tr_phase t) \<and>
     mc_reconnect_initial_delay config \<le> tr_retry_delay t \<and> tr_retry_delay t \<le> mc_reconnect_max_delay config \<and>
     ((\<exists>deadline. tr_phase t = Retrying deadline) \<longrightarrow> mc_reconnect_timeout config \<noteq> None)"

lemma client_ok_later: "client_ok mac cfg now a \<Longrightarrow> now \<le> now' \<Longrightarrow> client_ok mac cfg now' a"
  unfolding client_ok_def by (blast intro: accounted_later)

lemma target_ok_later: "target_ok mac config now t \<Longrightarrow> now \<le> now' \<Longrightarrow> target_ok mac config now' t"
  by (cases "tr_phase t") (auto simp: target_ok_def intro: client_ok_later)

lemma client_ok_discard [simp]: "client_ok mac cfg now a \<Longrightarrow> client_ok mac cfg now (discard_prepared_probe a)"
  by (auto simp: client_ok_def discard_prepared_probe_def retained_def split: option.splits)

fun finished :: "managed_event list \<Rightarrow> target_outcome list" where
  "finished [] = []"
| "finished (MeTargetFinished outcome # events) = outcome # finished events"
| "finished (_ # events) = finished events"

lemma finished_append [simp]: "finished (xs @ ys) = finished xs @ finished ys"
  by (induction xs rule: finished.induct) auto

section \<open>Steps that touch one target\<close>

definition same_task :: "managed_task \<Rightarrow> managed_task \<Rightarrow> bool" where
  "same_task m m' \<longleftrightarrow> mt_config m' = mt_config m \<and> mt_next_generation m' = mt_next_generation m \<and>
     mt_applied_command_sequence m' = mt_applied_command_sequence m \<and> mt_stop_observed m' = mt_stop_observed m \<and>
     mt_phase m' = mt_phase m \<and> mt_admission m' = mt_admission m \<and> mt_timeout_cursor m' = mt_timeout_cursor m \<and>
     mt_timeout_backlog m' = mt_timeout_backlog m"

definition same_target :: "target_runtime \<Rightarrow> target_runtime \<Rightarrow> bool" where
  "same_target t t' \<longleftrightarrow> tr_instance t' = tr_instance t \<and> tr_config t' = tr_config t \<and> tr_membership t' = tr_membership t"

text \<open>A target ends at most once, with an outcome that names it.\<close>

definition ends_with :: "target_runtime \<Rightarrow> target_runtime \<Rightarrow> target_outcome list \<Rightarrow> bool" where
  "ends_with t t' os \<longleftrightarrow>
     (os = [] \<and> (\<forall>o'. tr_phase t' = Terminal o' \<longleftrightarrow> tr_phase t = Terminal o')) \<or>
     (\<exists>o'. os = [o'] \<and> \<not> is_terminal_phase (tr_phase t) \<and> tr_phase t' = Terminal o' \<and> to_target o' = tr_instance t)"

definition touches :: "mac_fun \<Rightarrow> instant \<Rightarrow> nat \<Rightarrow> managed_task \<Rightarrow> managed_task \<Rightarrow> bool" where
  "touches mac now i m m' \<longleftrightarrow> i < length (mt_targets m) \<and> same_task m m' \<and>
     (\<exists>t' evs. mt_targets m' = (mt_targets m)[i := t'] \<and> mt_events m' = mt_events m @ evs \<and>
        same_target (mt_targets m ! i) t' \<and> mt_history m' = fold history_record (finished evs) (mt_history m) \<and>
        ends_with (mt_targets m ! i) t' (finished evs) \<and> target_ok mac (mt_config m) now t')"

definition steps :: "mac_fun \<Rightarrow> instant \<Rightarrow> nat \<Rightarrow> managed_task \<Rightarrow> managed_task \<Rightarrow> bool" where
  "steps mac now i m m' \<longleftrightarrow> touches mac now i m m' \<and> (mt_status m = task_snapshot m \<longrightarrow> mt_status m' = task_snapshot m')"

lemma is_terminal_iff: "is_terminal_phase p \<longleftrightarrow> (\<exists>o'. p = Terminal o')"
  by (cases p) auto

lemma ends_trans: "ends_with a b xs \<Longrightarrow> ends_with b c ys \<Longrightarrow> same_target a b \<Longrightarrow> ends_with a c (xs @ ys)"
  by (auto simp: ends_with_def same_target_def is_terminal_iff)

lemma touches_trans:
  assumes "touches mac now i m m1" "touches mac now i m1 m2"
  shows "touches mac now i m m2"
proof -
  obtain t1 e1 where 1: "i < length (mt_targets m)" "same_task m m1" "mt_targets m1 = (mt_targets m)[i := t1]"
      "mt_events m1 = mt_events m @ e1" "same_target (mt_targets m ! i) t1"
      "mt_history m1 = fold history_record (finished e1) (mt_history m)" "ends_with (mt_targets m ! i) t1 (finished e1)"
    using assms(1) by (auto simp: touches_def)
  obtain t2 e2 where 2: "same_task m1 m2" "mt_targets m2 = (mt_targets m1)[i := t2]"
      "mt_events m2 = mt_events m1 @ e2" "same_target (mt_targets m1 ! i) t2"
      "mt_history m2 = fold history_record (finished e2) (mt_history m1)" "ends_with (mt_targets m1 ! i) t2 (finished e2)"
      "target_ok mac (mt_config m1) now t2"
    using assms(2) by (auto simp: touches_def)
  have t1: "mt_targets m1 ! i = t1" using 1 by simp
  have "ends_with (mt_targets m ! i) t2 (finished (e1 @ e2))"
    using ends_trans [OF 1(7) 2(6) [unfolded t1] 1(5)] by simp
  moreover have "same_target (mt_targets m ! i) t2" using 1(5) 2(4) t1 by (simp add: same_target_def)
  moreover have "same_task m m2" "mt_config m1 = mt_config m" using 1(2) 2(1) by (simp_all add: same_task_def)
  ultimately show ?thesis
    using 1 2 by (auto simp: touches_def intro!: exI [of _ t2] exI [of _ "e1 @ e2"])
qed

lemma steps_trans: "steps mac now i m m1 \<Longrightarrow> steps mac now i m1 m2 \<Longrightarrow> steps mac now i m m2"
  unfolding steps_def by (blast intro: touches_trans)

lemma steps_touches: "steps mac now i m m' \<Longrightarrow> touches mac now i m m'"
  by (simp add: steps_def)

lemma touches_ok: "touches mac now i m m' \<Longrightarrow>
    i < length (mt_targets m') \<and> target_ok mac (mt_config m') now (mt_targets m' ! i) \<and> mt_config m' = mt_config m"
  by (auto simp: touches_def same_task_def)

lemma steps_refl:
  "i < length (mt_targets m) \<Longrightarrow> target_ok mac (mt_config m) now (mt_targets m ! i) \<Longrightarrow> steps mac now i m m"
  unfolding steps_def touches_def same_task_def same_target_def ends_with_def
  by (auto intro!: exI [of _ "mt_targets m ! i"] exI [of _ "[]"])

section \<open>The published status\<close>

lemma count_lifecycle_status: "count_lifecycle l ts = length (filter (\<lambda>s. ts_lifecycle s = l) (map target_status_of ts))"
  by (induction ts) (simp_all add: count_lifecycle_def target_status_of_def)

lemma desired_status: "length (filter is_desired ts) = length (filter ts_desired (map target_status_of ts))"
  by (induction ts) (simp_all add: target_status_of_def)

lemma snapshot_cong:
  assumes "map target_status_of (mt_targets m') = map target_status_of (mt_targets m)" "mt_history m' = mt_history m"
    "mt_phase m' = mt_phase m" "mt_stop_observed m' = mt_stop_observed m"
    "mt_applied_command_sequence m' = mt_applied_command_sequence m"
  shows "task_snapshot m' = task_snapshot m"
  unfolding task_snapshot_def count_lifecycle_status desired_status assms by simp

lemma update_target_simps [simp]:
  "mt_targets (update_target i f m) = (mt_targets m)[i := f (mt_targets m ! i)]"
  "mt_history (update_target i f m) = mt_history m" "mt_events (update_target i f m) = mt_events m"
  "mt_status (update_target i f m) = mt_status m" "mt_config (update_target i f m) = mt_config m"
  "mt_phase (update_target i f m) = mt_phase m" "mt_stop_observed (update_target i f m) = mt_stop_observed m"
  "mt_applied_command_sequence (update_target i f m) = mt_applied_command_sequence m"
  "same_task m (update_target i f m)"
  by (simp_all add: update_target_def same_task_def)

lemma same_task_trans: "same_task a b \<Longrightarrow> same_task b c \<Longrightarrow> same_task a c"
  by (simp add: same_task_def)

lemma update_touches:
  assumes "i < length (mt_targets m)" "same_target (mt_targets m ! i) (f (mt_targets m ! i))"
    "\<And>o'. tr_phase (f (mt_targets m ! i)) = Terminal o' \<longleftrightarrow> tr_phase (mt_targets m ! i) = Terminal o'"
    "target_ok mac (mt_config m) now (f (mt_targets m ! i))"
  shows "touches mac now i m (update_target i f m)"
  using assms unfolding touches_def same_task_def ends_with_def
  by (auto simp: update_target_def intro!: exI [of _ "f (mt_targets m ! i)"] exI [of _ "[]"])

lemma update_steps:
  assumes "i < length (mt_targets m)" "same_target (mt_targets m ! i) (f (mt_targets m ! i))"
    "target_status_of (f (mt_targets m ! i)) = target_status_of (mt_targets m ! i)"
    "target_ok mac (mt_config m) now (f (mt_targets m ! i))"
  shows "steps mac now i m (update_target i f m)"
proof -
  have "tr_phase (f (mt_targets m ! i)) = Terminal o' \<longleftrightarrow> tr_phase (mt_targets m ! i) = Terminal o'" for o'
    using arg_cong [OF assms(3), of ts_outcome]
    by (auto simp: target_status_of_def split: target_phase.splits)
  moreover have "map target_status_of ((mt_targets m)[i := f (mt_targets m ! i)]) = map target_status_of (mt_targets m)"
    using assms(1,3) by (simp add: map_update) (metis length_map list_update_id nth_map)
  ultimately show ?thesis
    using update_touches [of i m f mac now] assms snapshot_cong [of "update_target i f m" m] by (simp add: steps_def)
qed

lemma stagger_same:
  "same_task m (stagger_target_added t m)" "same_task m (stagger_target_removed t m)"
  "mt_targets (stagger_target_added t m) = mt_targets m"
  "mt_history (stagger_target_added t m) = mt_history m" "mt_history (stagger_target_removed t m) = mt_history m"
  "mt_events (stagger_target_added t m) = mt_events m" "mt_events (stagger_target_removed t m) = mt_events m"
  "mt_status (stagger_target_added t m) = mt_status m" "mt_status (stagger_target_removed t m) = mt_status m"
  by (simp_all add: stagger_target_added_def stagger_target_removed_def same_task_def Let_def split: option.split)

text \<open>Publishing a phase makes the status exact again.\<close>

lemma publish_phase_steps:
  assumes "touches mac now i m m1"
  shows "steps mac now i m (publish_target_phase ck i previous m1)"
proof -
  let ?t = "mt_targets m1 ! i"
  obtain m2 where m2: "same_task m1 m2" "mt_targets m2 = mt_targets m1" "mt_history m2 = mt_history m1" "mt_events m2 = mt_events m1"
    and eq: "publish_target_phase ck i previous m1 =
      publish_event (MeTargetStateChanged (tr_instance ?t) (phase_lifecycle (tr_phase ?t))) (replace_status m2)"
  proof -
    define m2 where "m2 = (case (is_desired ?t \<and> previous = TlActive, is_paced_active ?t) of
        (False, True) \<Rightarrow> stagger_target_added (ck_publish ck) m1
      | (True, False) \<Rightarrow> stagger_target_removed (ck_publish ck) m1 | _ \<Rightarrow> m1)"
    have "same_task m1 m1" by (simp add: same_task_def)
    then have "same_task m1 m2" "mt_targets m2 = mt_targets m1" "mt_history m2 = mt_history m1" "mt_events m2 = mt_events m1"
      by (simp_all add: m2_def stagger_same split: bool.split)
    then show thesis by (rule that) (simp add: publish_target_phase_def Let_def m2_def)
  qed
  let ?m = "publish_target_phase ck i previous m1"
  have i: "i < length (mt_targets m1)" using touches_ok [OF assms] by simp
  have "touches mac now i m1 ?m"
    using m2 i touches_ok [OF assms] unfolding eq touches_def
    by (auto simp: publish_event_def replace_status_def same_task_def same_target_def ends_with_def
        intro!: exI [of _ ?t] exI [of _ "[MeTargetStateChanged (tr_instance ?t) (phase_lifecycle (tr_phase ?t))]"])
  with touches_trans [OF assms this] show ?thesis
    unfolding steps_def eq by (simp add: replace_status_def publish_event_def task_snapshot_def)
qed

lemma set_phase_touches:
  assumes "i < length (mt_targets m)" "\<not> is_terminal_phase (tr_phase (mt_targets m ! i))" "\<not> is_terminal_phase phase"
    "target_ok mac (mt_config m) now (set_phase phase (mt_targets m ! i))"
  shows "touches mac now i m (update_target i (set_phase phase) m)"
  using assms by (intro update_touches) (auto simp: same_target_def)

lemma install_steps:
  assumes "i < length (mt_targets m)" "\<not> is_terminal_phase (tr_phase (mt_targets m ! i))" "\<not> is_terminal_phase phase"
    "target_ok mac (mt_config m) now (set_phase phase (mt_targets m ! i))"
  shows "steps mac now i m (install_target_phase ck i phase m)"
  unfolding install_target_phase_def by (rule publish_phase_steps [OF set_phase_touches [OF assms]])

text \<open>Within its lifecycle a target changes its client without a new status.\<close>

lemma set_phase_steps:
  assumes "i < length (mt_targets m)" "phase_lifecycle phase = phase_lifecycle (tr_phase (mt_targets m ! i))"
    "\<not> is_terminal_phase phase" "target_ok mac (mt_config m) now (set_phase phase (mt_targets m ! i))"
  shows "steps mac now i m (update_target i (set_phase phase) m)"
proof (rule update_steps [where f = "set_phase phase", OF assms(1) _ _ assms(4)])
  have "\<not> is_terminal_phase (tr_phase (mt_targets m ! i))"
    using assms(2,3) by (cases phase; cases "tr_phase (mt_targets m ! i)") auto
  then have "(case p of Terminal x \<Rightarrow> Some x | _ \<Rightarrow> None) = None" if "p \<in> {phase, tr_phase (mt_targets m ! i)}" for p
    using that assms(3) by (auto simp: is_terminal_iff split: target_phase.split) metis
  then show "target_status_of (set_phase phase (mt_targets m ! i)) = target_status_of (mt_targets m ! i)"
    using assms(2) by (simp add: target_status_of_def is_desired_def)
qed (simp add: same_target_def)

lemma note_event_same [simp]:
  "tr_phase (note_event config e t) = tr_phase t" "tr_instance (note_event config e t) = tr_instance t"
  "tr_config (note_event config e t) = tr_config t" "tr_membership (note_event config e t) = tr_membership t"
  "tr_server_addr (note_event config e t) = tr_server_addr t" "tr_remote (note_event config e t) = tr_remote t"
  "tr_retry_delay (note_event config e t) \<in> {tr_retry_delay t, mc_reconnect_initial_delay config}"
  by (cases e; simp add: Let_def)+

definition delays_ok :: "managed_client_config \<Rightarrow> bool" where
  "delays_ok config \<longleftrightarrow> mc_reconnect_initial_delay config \<le> mc_reconnect_max_delay config"

lemma note_event_ok:
  "target_ok mac config now t \<Longrightarrow> delays_ok config \<Longrightarrow>
     target_ok mac config now ((note_event config e t)\<lparr>tr_counters := n\<rparr>)"
  using note_event_same(7) [of config e t] by (auto simp: target_ok_def delays_ok_def)

lemma client_event_steps:
  assumes "i < length (mt_targets m)" "target_ok mac (mt_config m) now (mt_targets m ! i)" "delays_ok (mt_config m)"
  shows "steps mac now i m (publish_client_event i e m)"
proof -
  let ?f = "\<lambda>t. let t = note_event (mt_config m) e t in t\<lparr>tr_counters := observe e (tr_counters t)\<rparr>"
  have s: "steps mac now i m (update_target i ?f m)"
    using assms by (intro update_steps) (auto simp: Let_def same_target_def target_status_of_def is_desired_def intro!: note_event_ok)
  have "steps mac now i m1 (publish_event (MeClient x e) m1)" if "touches mac now i m m1" for m1 x
    using touches_ok [OF that] unfolding steps_def touches_def
    by (auto simp: publish_event_def same_task_def same_target_def ends_with_def task_snapshot_def
        intro!: exI [of _ "mt_targets m1 ! i"] exI [of _ "[MeClient x e]"])
  from steps_trans [OF s this [OF steps_touches [OF s]]] show ?thesis
    unfolding publish_client_event_def Let_def .
qed

lemma steps_start:
  assumes "steps mac now i m m'"
  shows "i < length (mt_targets m')" "target_ok mac (mt_config m') now (mt_targets m' ! i)" "mt_config m' = mt_config m"
  using touches_ok [OF steps_touches [OF assms]] by auto

lemma client_events_steps:
  assumes "i < length (mt_targets m)" "target_ok mac (mt_config m) now (mt_targets m ! i)" "delays_ok (mt_config m)"
  shows "steps mac now i m (publish_client_events i events m)"
  using assms unfolding publish_client_events_def
proof (induction events arbitrary: m)
  case Nil
  then show ?case by (simp add: steps_refl)
next
  case (Cons e events)
  note s = client_event_steps [OF Cons.prems, of e]
  have "steps mac now i (publish_client_event i e m) (fold (publish_client_event i) events (publish_client_event i e m))"
    using steps_start [OF s] Cons.prems(3) by (intro Cons.IH) simp_all
  from steps_trans [OF s this] show ?case by simp
qed

lemma client_events_phase [simp]:
  "i < length (mt_targets m) \<Longrightarrow> tr_phase (mt_targets (publish_client_events i events m) ! i) = tr_phase (mt_targets m ! i)"
  "length (mt_targets (publish_client_events i events m)) = length (mt_targets m)"
  "mt_phase (publish_client_events i events m) = mt_phase m"
  "mt_config (publish_client_events i events m) = mt_config m"
  unfolding publish_client_events_def
  by (induction events arbitrary: m; simp add: publish_client_event_def Let_def publish_event_def)+

section \<open>Ending a target\<close>

lemma conclude_steps:
  assumes "i < length (mt_targets m)" "\<not> is_terminal_phase (tr_phase (mt_targets m ! i))"
    "target_ok mac (mt_config m) now (mt_targets m ! i)"
  shows "steps mac now i m (conclude_target ck i end_reason cleanup m)"
proof -
  let ?t = "mt_targets m ! i"
  define o' where "o' = target_outcome_of end_reason cleanup ?t"
  define m1 where "m1 = m\<lparr>mt_history := history_record o' (mt_history m)\<rparr>"
  let ?m2 = "update_target i (set_phase (Terminal o')) m1"
  have ok: "target_ok mac (mt_config m) now (set_phase (Terminal o') ?t)" using assms(3) by (simp add: target_ok_def)
  have self: "touches mac now i ?m2 ?m2"
    using assms(1) ok by (intro steps_touches steps_refl) (simp_all add: m1_def)
  note pub = publish_phase_steps [OF self, of ck "phase_lifecycle (tr_phase ?t)"]
  let ?m3 = "publish_target_phase ck i (phase_lifecycle (tr_phase ?t)) ?m2"
  obtain t3 evs where m3: "same_task ?m2 ?m3" "mt_targets ?m3 = (mt_targets ?m2)[i := t3]" "mt_events ?m3 = mt_events ?m2 @ evs"
      "same_target (mt_targets ?m2 ! i) t3" "mt_history ?m3 = fold history_record (finished evs) (mt_history ?m2)"
      "ends_with (mt_targets ?m2 ! i) t3 (finished evs)" "target_ok mac (mt_config ?m2) now t3"
    using pub by (auto simp: steps_def touches_def)
  have here: "mt_targets ?m2 ! i = set_phase (Terminal o') ?t" "to_target o' = tr_instance ?t"
    using assms(1) by (simp_all add: m1_def o'_def target_outcome_of_def)
  have "same_task m m1" by (simp add: m1_def same_task_def)
  then have same: "same_task m ?m3" using same_task_trans m3(1) update_target_simps(9) by blast
  have "mt_config ?m2 = mt_config m" by (simp add: m1_def)
  have none: "finished evs = []" "tr_phase t3 = Terminal o'"
    using m3(6) unfolding here by (auto simp: ends_with_def)
  have "same_target ?t t3" using m3(4) unfolding here by (simp add: same_target_def)
  moreover have "mt_history ?m3 = history_record o' (mt_history m)" using m3(5) none by (simp add: m1_def)
  moreover have "mt_targets ?m3 = (mt_targets m)[i := t3]" "mt_events ?m3 = mt_events m @ evs" using m3(2,3) by (simp_all add: m1_def)
  ultimately have "touches mac now i m (publish_event (MeTargetFinished o') ?m3)"
    unfolding touches_def
    using assms(1,2) same none here(2) m3(7) \<open>mt_config ?m2 = mt_config m\<close>
    by (auto simp: same_task_def ends_with_def publish_event_def
        intro!: exI [of _ t3] exI [of _ "evs @ [MeTargetFinished o']"])
  moreover have "mt_status ?m3 = task_snapshot ?m3"
    unfolding publish_target_phase_def by (simp add: Let_def replace_status_def publish_event_def task_snapshot_def)
  ultimately show ?thesis
    unfolding conclude_target_def install_target_phase_def Let_def
    by (simp add: steps_def o'_def [symmetric] m1_def [symmetric] publish_event_def task_snapshot_def) (simp add: m1_def)
qed

lemma finish_steps:
  assumes i: "i < length (mt_targets m)" and live: "\<not> is_terminal_phase (tr_phase (mt_targets m ! i))"
    and ok: "target_ok mac (mt_config m) now (mt_targets m ! i)"
  shows "steps mac now i m (finish_target to_text ck i end_reason cleanup m)"
proof (cases "can_reconnect i m \<and> reconnectable end_reason")
  case False
  then show ?thesis using conclude_steps [OF assms] by (simp only: finish_target_def if_False)
next
  case True
  let ?f = "\<lambda>t. t\<lparr>tr_sent_before_session := tn_packets_sent (tr_counters t), tr_silence_since := None, tr_last_reply_at := None\<rparr>"
  let ?m1 = "update_target i ?f m"
  let ?delay = "tr_retry_delay (mt_targets m ! i)"
  let ?m2 = "update_target i (\<lambda>t. t\<lparr>tr_retry_delay := double_delay (mt_config m) ?delay\<rparr>) ?m1"
  have s1: "steps mac now i m ?m1"
    using assms by (intro update_steps) (simp_all add: same_target_def target_status_of_def is_desired_def target_ok_def)
  have max: "mc_reconnect_initial_delay (mt_config m) \<le> double_delay (mt_config m) ?delay"
      "double_delay (mt_config m) ?delay \<le> mc_reconnect_max_delay (mt_config m)"
    using ok by (auto simp: target_ok_def double_delay_def)
  have s2: "steps mac now i ?m1 ?m2"
    using assms max by (intro update_steps) (simp_all add: same_target_def target_status_of_def is_desired_def target_ok_def)
  have s3: "steps mac now i ?m2 (install_target_phase ck i (Retrying deadline) ?m2)" for deadline
    using assms max True by (intro install_steps) (simp_all add: target_ok_def can_reconnect_def)
  have c: "steps mac now i ?m1 (conclude_target ck i (Failed (duration_overflow_failure to_text)) cleanup ?m1)"
    using assms by (intro conclude_steps) (simp_all add: target_ok_def)
  show ?thesis
    using steps_trans [OF s1 steps_trans [OF s2 s3]] steps_trans [OF s1 c] True i
    by (simp add: finish_target_def Let_def split: option.split)
qed

text \<open>A result that exists and is a step.\<close>

definition moved :: "mac_fun \<Rightarrow> instant \<Rightarrow> nat \<Rightarrow> managed_task \<Rightarrow> managed_task option \<Rightarrow> bool" where
  "moved mac now i m r \<longleftrightarrow> (\<exists>m'. r = Some m' \<and> steps mac now i m m')"

lemma movedI: "steps mac now i m m' \<Longrightarrow> moved mac now i m (Some m')"
  by (simp add: moved_def)

lemma moved_trans: "steps mac now i m m1 \<Longrightarrow> moved mac now i m1 r \<Longrightarrow> moved mac now i m r"
  unfolding moved_def by (blast intro: steps_trans)

lemma phase_client_live: "phase_client p = Some a \<Longrightarrow> \<not> is_terminal_phase p"
  by (cases p) auto

lemma phase_client_ok: "phase_ok mac cfg now p \<Longrightarrow> phase_client p = Some a \<Longrightarrow> client_ok mac cfg now a"
  by (cases p) auto

lemma begin_close_moved:
  assumes "i < length (mt_targets m)" "target_ok mac (mt_config m) now (mt_targets m ! i)"
    "phase_client (tr_phase (mt_targets m ! i)) = Some a"
  shows "moved mac now i m (begin_close to_text ck i primary cleanup at m)"
proof -
  have "client_ok mac (target_client_config (mc_client (mt_config m)) (tr_config (mt_targets m ! i))) now a"
    using assms(2,3) phase_client_ok by (auto simp: target_ok_def)
  then have "touches mac now i m (update_target i (set_phase (Closing a d primary c)) m)" for d c
    using assms phase_client_live by (intro set_phase_touches) (auto simp: target_ok_def)
  from publish_phase_steps [OF this] assms(3) show ?thesis
    by (auto simp: begin_close_def moved_def Let_def split: option.split)
qed

lemma begin_drain_moved:
  assumes "i < length (mt_targets m)" "target_ok mac (mt_config m) now (mt_targets m ! i)"
    "phase_client (tr_phase (mt_targets m ! i)) = Some a"
  shows "moved mac now i m (begin_drain to_text ck i primary m)"
proof -
  have "client_ok mac (target_client_config (mc_client (mt_config m)) (tr_config (mt_targets m ! i))) now a"
    using assms(2,3) phase_client_ok by (auto simp: target_ok_def)
  then have "touches mac now i m (update_target i (set_phase (Draining a s d primary c n)) m)" for s d c n
    using assms phase_client_live by (intro set_phase_touches) (auto simp: target_ok_def)
  from publish_phase_steps [OF this] begin_close_moved [OF assms] assms(3) show ?thesis
    by (auto simp: begin_drain_def moved_def Let_def split: option.split)
qed

lemma sync_moved:
  assumes "i < length (mt_targets m)" "target_ok mac (mt_config m) now (mt_targets m ! i)"
    "phase_client (tr_phase (mt_targets m ! i)) = Some a"
  obtains m' where "sync_live_packets_sent i m = Some m'" "steps mac now i m m'"
    "tr_phase (mt_targets m' ! i) = tr_phase (mt_targets m ! i)" "tr_membership (mt_targets m' ! i) = tr_membership (mt_targets m ! i)"
    "mt_phase m' = mt_phase m"
proof -
  have "steps mac now i m (update_target i (sync_packets_sent a) m)"
    using assms by (intro update_steps) (simp_all add: same_target_def target_status_of_def is_desired_def target_ok_def sync_packets_sent_def)
  with assms(1,3) show thesis
    by (intro that [of "update_target i (sync_packets_sent a) m"]) (simp_all add: sync_live_packets_sent_def sync_packets_sent_def)
qed

lemma failure_moved:
  assumes "i < length (mt_targets m)" "target_ok mac (mt_config m) now (mt_targets m ! i)"
    "(\<exists>a st. tr_phase (mt_targets m ! i) = Opening a st) \<or> (\<exists>a s w. tr_phase (mt_targets m ! i) = Active a s w)"
  shows "moved mac now i m (begin_open_session_failure to_text ck i phase error at cleanup m)"
proof -
  obtain p a where p: "discard_probe (tr_phase (mt_targets m ! i)) = Some p" "phase_client p = Some a"
      "phase_lifecycle p = phase_lifecycle (tr_phase (mt_targets m ! i))" "\<not> is_terminal_phase p"
      "target_ok mac (mt_config m) now (set_phase p (mt_targets m ! i))"
    using assms(2,3) by (auto simp: discard_probe_def target_ok_def)
  let ?m1 = "update_target i (set_phase p) m"
  have s1: "steps mac now i m ?m1" by (rule set_phase_steps [OF assms(1) p(3,4,5)])
  have c1: "phase_client (tr_phase (mt_targets ?m1 ! i)) = Some a" using assms(1) p(2) by simp
  obtain m2 where m2: "sync_live_packets_sent i ?m1 = Some m2" "steps mac now i ?m1 m2"
      "tr_phase (mt_targets m2 ! i) = tr_phase (mt_targets ?m1 ! i)"
    using sync_moved [OF steps_start(1,2) [OF s1] c1] by metis
  have c2: "phase_client (tr_phase (mt_targets m2 ! i)) = Some a" using m2(3) c1 by simp
  note close = begin_close_moved [OF steps_start(1,2) [OF m2(2)] c2] and drain = begin_drain_moved [OF steps_start(1,2) [OF m2(2)] c2]
  have "moved mac now i m2 (if can_reconnect i m2 \<or> cleanup = CleanupClose
      then begin_close to_text ck i (Failed (classify_client_error to_text phase error)) None at m2
      else begin_drain to_text ck i (Failed (classify_client_error to_text phase error)) m2)"
    using close drain by simp
  from moved_trans [OF steps_trans [OF s1 m2(2)] this] show ?thesis
    by (simp add: begin_open_session_failure_def Let_def p(1) m2(1))
qed

section \<open>The client of a target\<close>

lemma client_ok_inv: "client_ok mac cfg now a \<Longrightarrow> open_state_ok st \<Longrightarrow> \<exists>out. async_inv mac cfg a st now out"
  by (auto simp: client_ok_def async_inv_def)

lemma inv_client_ok: "async_inv mac cfg a st now out \<Longrightarrow> client_ok mac cfg now a \<and> open_state_ok st"
  by (auto simp: client_ok_def async_inv_def)

lemma client_connect_ok:
  assumes "async_connect mac True resolved socket cfg = Ok a"
  shows "client_ok mac cfg now a"
  using inv_client_ok [OF async_connected [OF assms]] by simp

lemma client_open_ok:
  assumes "client_ok mac cfg now a" "open_state_ok st"
  shows "\<exists>a' st' r. poll_open mac ios st a = Some (a', st', r) \<and> client_ok mac cfg now a' \<and> open_state_ok st'"
proof -
  obtain out where "async_inv mac cfg a st now out" using client_ok_inv [OF assms] by blast
  from poll_open_ok [OF this, of ios] show ?thesis using inv_client_ok by blast
qed

lemma client_recv_ok:
  assumes "client_ok mac cfg now a"
  shows "\<exists>a' r. poll_recv mac ios a = Some (a', r) \<and> client_ok mac cfg now a'"
  using assms poll_recv_ok [of mac cfg a now _ ios] unfolding client_ok_def by metis

lemma client_timeouts_ok:
  assumes "client_ok mac cfg now a"
  shows "\<exists>a' r. async_poll_timeouts_bounded_at drain at limit a = Some (a', r) \<and> client_ok mac cfg now a'"
  using assms poll_bounded_ok [of mac cfg a now _ drain at limit] unfolding client_ok_def by metis

lemma client_close_ok:
  assumes "client_ok mac cfg now a"
  shows "client_ok mac cfg now (fst (poll_close ios a))"
  using assms poll_close_ok [of mac cfg a now _ ios] by (fastforce simp: client_ok_def close_polled_def)

lemma client_cancel_ok:
  assumes "client_ok mac cfg now a" "open_state_ok st" "cancel_open answer st a = (a', st', e)"
  shows "client_ok mac cfg now a' \<and> open_state_ok st'"
  using assms
  by (auto simp: client_ok_def cancel_open_def idle_simps open_state_ok_def has_in_flight_work_def split: option.splits)

section \<open>Polling a target\<close>

definition polled_ok :: "mac_fun \<Rightarrow> instant \<Rightarrow> nat \<Rightarrow> managed_task \<Rightarrow> target_poll \<Rightarrow> bool" where
  "polled_ok mac now i m r \<longleftrightarrow> (\<exists>m' b. r = Some (m', b) \<and> steps mac now i m m')"

lemma polled_some: "steps mac now i m m' \<Longrightarrow> polled_ok mac now i m (Some (m', b))"
  by (simp add: polled_ok_def)

lemma polled_moved: "moved mac now i m r \<Longrightarrow> polled_ok mac now i m (map_option (\<lambda>m. (m, b)) r)"
  by (auto simp: polled_ok_def moved_def)

lemma polled_trans: "steps mac now i m m1 \<Longrightarrow> polled_ok mac now i m1 r \<Longrightarrow> polled_ok mac now i m r"
  unfolding polled_ok_def by (blast intro: steps_trans)

text \<open>The count of probes is synchronized, then the target moves on.\<close>

lemma polled_sync:
  assumes "i < length (mt_targets m)" "target_ok mac (mt_config m) now (mt_targets m ! i)"
    "phase_client (tr_phase (mt_targets m ! i)) = Some a"
    "\<And>m'. i < length (mt_targets m') \<Longrightarrow> target_ok mac (mt_config m') now (mt_targets m' ! i) \<Longrightarrow>
       tr_phase (mt_targets m' ! i) = tr_phase (mt_targets m ! i) \<Longrightarrow> mt_config m' = mt_config m \<Longrightarrow> polled_ok mac now i m' (g m')"
  shows "polled_ok mac now i m (Option.bind (sync_live_packets_sent i m) g)"
proof -
  obtain m' where m': "sync_live_packets_sent i m = Some m'" "steps mac now i m m'"
    "tr_phase (mt_targets m' ! i) = tr_phase (mt_targets m ! i)"
    using sync_moved [OF assms(1-3)] by metis
  from polled_trans [OF m'(2) assms(4) [OF steps_start(1,2) [OF m'(2)] m'(3) steps_start(3) [OF m'(2)]]] m'(1) show ?thesis by simp
qed

lemma sync_finish:
  assumes "i < length (mt_targets m)" "target_ok mac (mt_config m) now (mt_targets m ! i)"
    "phase_client (tr_phase (mt_targets m ! i)) = Some a" "delays_ok (mt_config m)"
  shows "polled_ok mac now i m (map_option (\<lambda>m. (finish_target to_text ck i end_reason cleanup m, b)) (sync_live_packets_sent i m))"
    and "polled_ok mac now i m
      (map_option (\<lambda>m. (finish_target to_text ck i end_reason cleanup (publish_client_events i events m), b)) (sync_live_packets_sent i m))"
proof -
  have live: "\<not> is_terminal_phase (tr_phase (mt_targets m ! i))" using phase_client_live [OF assms(3)] .
  have "polled_ok mac now i m (Option.bind (sync_live_packets_sent i m)
      (\<lambda>m. Some (finish_target to_text ck i end_reason cleanup m, b)))"
    using live by (intro polled_sync [OF assms(1-3)] polled_some finish_steps) simp_all
  then show "polled_ok mac now i m (map_option (\<lambda>m. (finish_target to_text ck i end_reason cleanup m, b)) (sync_live_packets_sent i m))"
    by (simp add: map_conv_bind_option comp_def)
  have "polled_ok mac now i m (Option.bind (sync_live_packets_sent i m)
      (\<lambda>m. Some (finish_target to_text ck i end_reason cleanup (publish_client_events i events m), b)))"
  proof (rule polled_sync [OF assms(1-3)])
    fix m' :: managed_task
    assume m': "i < length (mt_targets m')" "target_ok mac (mt_config m') now (mt_targets m' ! i)"
      "tr_phase (mt_targets m' ! i) = tr_phase (mt_targets m ! i)" "mt_config m' = mt_config m"
    have s: "steps mac now i m' (publish_client_events i events m')"
      using m' assms(4) by (intro client_events_steps) simp_all
    have "steps mac now i (publish_client_events i events m') (finish_target to_text ck i end_reason cleanup (publish_client_events i events m'))"
      using live m' steps_start(2) [OF s] by (intro finish_steps) simp_all
    then show "polled_ok mac now i m' (Some (finish_target to_text ck i end_reason cleanup (publish_client_events i events m'), b))"
      by (intro polled_some steps_trans [OF s])
  qed
  then show "polled_ok mac now i m
      (map_option (\<lambda>m. (finish_target to_text ck i end_reason cleanup (publish_client_events i events m), b)) (sync_live_packets_sent i m))"
    by (simp add: map_conv_bind_option comp_def)
qed

lemma update_nth: "i < length (mt_targets m) \<Longrightarrow> mt_targets (update_target i f m) ! i = f (mt_targets m ! i)"
  by simp

lemma target_phase_ok:
  "target_ok mac config now t \<Longrightarrow> tr_phase t = p \<Longrightarrow> phase_ok mac (target_client_config (mc_client config) (tr_config t)) now p"
  by (simp add: target_ok_def)

lemma set_phase_ok:
  "target_ok mac config now t \<Longrightarrow> phase_ok mac (target_client_config (mc_client config) (tr_config t)) now p \<Longrightarrow>
     (\<And>d. p \<noteq> Retrying d) \<Longrightarrow> target_ok mac config now (set_phase p t)"
  by (simp add: target_ok_def)

lemma opening_ok:
  assumes i: "i < length (mt_targets m)" and ok: "target_ok mac (mt_config m) now (mt_targets m ! i)" and d: "delays_ok (mt_config m)"
    and p: "tr_phase (mt_targets m ! i) = Opening client open"
  shows "polled_ok mac now i m (poll_opening mac to_text io i at client open m)"
    and "polled_ok mac now i m (stop_opening to_text io i client open m)"
proof -
  let ?cfg = "target_client_config (mc_client (mt_config m)) (tr_config (mt_targets m ! i))"
  have c: "client_ok mac ?cfg now client" "open_state_ok open" using target_phase_ok [OF ok p] by simp_all
  have stay: "steps mac now i m (update_target i (set_phase (Opening a st)) m)" if "client_ok mac ?cfg now a" "open_state_ok st" for a st
    using that ok p by (intro set_phase_steps [OF i]) (simp_all add: set_phase_ok)
  show "polled_ok mac now i m (poll_opening mac to_text io i at client open m)"
  proof -
    obtain a st r where r: "poll_open mac (tio_open io) open client = Some (a, st, r)" "client_ok mac ?cfg now a" "open_state_ok st"
      using client_open_ok [OF c, of "tio_open io"] by blast
    let ?m = "update_target i (set_phase (Opening a st)) m"
    note s = stay [OF r(2,3)]
    note here = steps_start [OF s]
    have phase: "tr_phase (mt_targets ?m ! i) = Opening a st" using i by simp
    have started: "polled_ok mac now i ?m (opened_target to_text io i at a started ?m)" for started
    proof (cases "schedule_new (ct_mono (ev_at started)) (ng_accepted (ev_negotiation started))")
      case (Inl error)
      with polled_moved [OF failure_moved [OF here(1,2)]] phase show ?thesis by (simp add: opened_target_def)
    next
      case (Inr schedule)
      let ?m1 = "publish_client_events i [SessionStarted started] ?m"
      have s1: "steps mac now i ?m ?m1" using here d by (intro client_events_steps) simp_all
      have "touches mac now i ?m1 (update_target i (set_phase (Active a schedule False)) ?m1)"
        using steps_start [OF s1] phase r(2) target_phase_ok [OF steps_start(2) [OF s1]] i
        by (intro set_phase_touches set_phase_ok) simp_all
      from polled_trans [OF s1 polled_some [OF publish_phase_steps [OF this]]] show ?thesis
        by (simp add: opened_target_def Inr Let_def)
    qed
    have completed: "steps mac now i ?m (finish_target to_text ck i NoTestComplete None (publish_client_events i [e] ?m))" for ck e
    proof -
      have s1: "steps mac now i ?m (publish_client_events i [e] ?m)" using here d by (intro client_events_steps) simp_all
      show ?thesis using steps_start [OF s1] i by (intro steps_trans [OF s1 finish_steps]) simp_all
    qed
    have failed: "steps mac now i ?m (fail_target to_text ck i FpOpening error ?m)" for ck error
      unfolding fail_target_def using here i by (intro finish_steps) simp_all
    show ?thesis
      using polled_trans [OF s started] polled_some [OF steps_trans [OF s completed]] polled_some [OF steps_trans [OF s failed]] polled_some [OF s]
      by (auto simp: poll_opening_def r(1) Let_def split: poll.split sum.split open_outcome.split)
  qed
  show "polled_ok mac now i m (stop_opening to_text io i client open m)"
  proof -
    obtain a st e where r: "cancel_open (tio_cancel io) open client = (a, st, e)" by (metis prod_cases3)
    note ok' = client_cancel_ok [OF c r]
    let ?m = "update_target i (set_phase (Opening a st)) m"
    have s: "steps mac now i m ?m" using stay ok' by simp
    have pc: "phase_client (tr_phase (mt_targets ?m ! i)) = Some a" using i by simp
    show ?thesis
      using polled_trans [OF s sync_finish(1) [OF steps_start(1,2) [OF s] pc]] d by (simp add: stop_opening_def r Let_def)
  qed
qed

lemma settle_active_ok:
  assumes i: "i < length (mt_targets m)" and ok: "target_ok mac (mt_config m) now (mt_targets m ! i)" and d: "delays_ok (mt_config m)"
    and p: "tr_phase (mt_targets m ! i) = Active client schedule waiting"
  shows "polled_ok mac now i m (settle_active to_text io i at client schedule waiting received m)"
proof -
  have pc: "phase_client (tr_phase (mt_targets m ! i)) = Some client" using p by simp
  let ?s = "snd (permit_probe_at at schedule)"
  let ?m = "update_target i (set_phase (Active client ?s waiting)) m"
  have s: "steps mac now i m ?m"
    using ok p target_phase_ok [OF ok p] by (intro set_phase_steps [OF i] set_phase_ok) simp_all
  have pc': "phase_client (tr_phase (mt_targets ?m ! i)) = Some client" using i by simp
  have closing: "polled_ok mac now i m (Option.bind (sync_live_packets_sent i m) (\<lambda>m.
      immediately (begin_close to_text ck i (Failed silence_failure) None at m)))" for ck
    using pc by (intro polled_sync [OF i ok pc] polled_moved begin_close_moved) simp_all
  have draining: "polled_ok mac now i ?m (Option.bind (sync_live_packets_sent i ?m) (\<lambda>m.
      immediately (begin_drain to_text ck i TestComplete m)))" for ck
    using pc' by (intro polled_sync [OF steps_start(1,2) [OF s] pc'] polled_moved begin_drain_moved) simp_all
  show ?thesis
    unfolding settle_active_def Let_def
    using sync_finish(1) [OF i ok pc d] closing polled_trans [OF s draining] polled_some [OF s] by simp
qed

lemma active_ok:
  assumes i: "i < length (mt_targets m)" and ok: "target_ok mac (mt_config m) now (mt_targets m ! i)" and d: "delays_ok (mt_config m)"
    and p: "tr_phase (mt_targets m ! i) = Active client schedule waiting"
  shows "polled_ok mac now i m (poll_active mac to_text io i at client schedule waiting m)"
    and "polled_ok mac now i m (stop_active to_text io i at client schedule waiting m)"
proof -
  let ?cfg = "target_client_config (mc_client (mt_config m)) (tr_config (mt_targets m ! i))"
  have c: "client_ok mac ?cfg now client" using target_phase_ok [OF ok p] by simp
  have stay: "steps mac now i m (update_target i (set_phase (Active a schedule waiting)) m)" if "client_ok mac ?cfg now a" for a
    using that ok p by (intro set_phase_steps [OF i] set_phase_ok) simp_all
  have phase: "tr_phase (mt_targets (update_target i (set_phase (Active a schedule waiting)) m) ! i) = Active a schedule waiting" for a
    using i by simp
  obtain a r where r: "poll_recv mac (tio_recv io) client = Some (a, r)" "client_ok mac ?cfg now a"
    using client_recv_ok [OF c, of "tio_recv io"] by blast
  let ?m = "update_target i (set_phase (Active a schedule waiting)) m"
  note s = stay [OF r(2)]
  note here = steps_start [OF s]
  have idle: "polled_ok mac now i ?m (settle_active to_text io i at a schedule waiting False ?m)"
    using here d phase by (intro settle_active_ok) simp_all
  have got: "polled_ok mac now i ?m (settle_active to_text io i at a schedule waiting True (publish_client_events i events ?m))" for events
  proof -
    have s1: "steps mac now i ?m (publish_client_events i events ?m)" using here d by (intro client_events_steps) simp_all
    show ?thesis
      using steps_start [OF s1] d i by (intro polled_trans [OF s1 settle_active_ok]) simp_all
  qed
  have failed: "polled_ok mac now i ?m (immediately (begin_open_session_failure to_text ck i FpReceiving error at CleanupClose ?m))" for ck error
    using here phase by (intro polled_moved failure_moved) simp_all
  show "polled_ok mac now i m (poll_active mac to_text io i at client schedule waiting m)"
    using polled_trans [OF s idle] polled_trans [OF s got] polled_trans [OF s failed] polled_some [OF steps_refl [OF i ok]]
    by (auto simp: poll_active_def r(1) Let_def split: poll.split sum.split)
  let ?d = "discard_prepared_probe client"
  let ?n = "update_target i (set_phase (Active ?d schedule waiting)) m"
  have s': "steps mac now i m ?n" using stay c by simp
  have pc: "phase_client (tr_phase (mt_targets ?n ! i)) = Some ?d" using i by simp
  have "polled_ok mac now i ?n (Option.bind (sync_live_packets_sent i ?n) (\<lambda>m. immediately
      (if mc_reconnect_timeout (mt_config m) \<noteq> None then begin_close to_text ck i e None at m else begin_drain to_text ck i e m)))" for ck e
  proof (rule polled_sync [OF steps_start(1,2) [OF s'] pc])
    fix m' :: managed_task
    assume "i < length (mt_targets m')" "target_ok mac (mt_config m') now (mt_targets m' ! i)"
      "tr_phase (mt_targets m' ! i) = tr_phase (mt_targets ?n ! i)"
    with pc begin_close_moved begin_drain_moved show "polled_ok mac now i m' (immediately
      (if mc_reconnect_timeout (mt_config m') \<noteq> None then begin_close to_text ck i e None at m' else begin_drain to_text ck i e m'))"
      by (intro polled_moved) simp
  qed
  from polled_trans [OF s' this] show "polled_ok mac now i m (stop_active to_text io i at client schedule waiting m)"
    by (simp add: stop_active_def Let_def)
qed

lemma shorten_drain_ok:
  assumes i: "i < length (mt_targets m)" and ok: "target_ok mac (mt_config m) now (mt_targets m ! i)"
    and p: "tr_phase (mt_targets m ! i) = Draining a s dl pe cf n"
  shows "\<exists>m' closing. shorten_drain to_text ck i at m = Some (m', closing) \<and> steps mac now i m m' \<and>
     (\<not> closing \<longrightarrow> (\<exists>dl'. tr_phase (mt_targets m' ! i) = Draining a s dl' pe cf n))"
proof (cases "drain_deadline (mt_config m) a s")
  case None
  from begin_close_moved [OF i ok] p None show ?thesis by (fastforce simp: shorten_drain_def moved_def)
next
  case (Some candidate)
  have "steps mac now i m (update_target i (set_phase (Draining a s (min dl candidate) pe cf n)) m)"
    using ok p target_phase_ok [OF ok p] by (intro set_phase_steps [OF i] set_phase_ok) simp_all
  with p Some i show ?thesis by (auto simp: shorten_drain_def)
qed

lemma settle_draining_ok:
  assumes i: "i < length (mt_targets m)" and ok: "target_ok mac (mt_config m) now (mt_targets m ! i)"
    and p: "tr_phase (mt_targets m ! i) = Draining a s dl pe cf n"
  shows "polled_ok mac now i m (settle_draining to_text io i at received m)"
proof -
  have "steps mac now i m (update_target i (set_phase (Draining a s dl pe cf (n - 1))) m)"
    using ok p target_phase_ok [OF ok p] by (intro set_phase_steps [OF i] set_phase_ok) simp_all
  moreover have "moved mac now i m (begin_close to_text ck i pe cf at m)" for ck
    using p by (intro begin_close_moved [OF i ok]) simp
  ultimately show ?thesis
    using p polled_some steps_refl [OF i ok] by (auto simp: settle_draining_def intro: polled_moved)
qed

lemma draining_ok:
  assumes i: "i < length (mt_targets m)" and ok: "target_ok mac (mt_config m) now (mt_targets m ! i)" and d: "delays_ok (mt_config m)"
    and p: "tr_phase (mt_targets m ! i) = Draining client s dl pe cf n"
  shows "polled_ok mac now i m (poll_draining mac to_text io i at client s dl pe cf n m)"
proof -
  let ?cfg = "target_client_config (mc_client (mt_config m)) (tr_config (mt_targets m ! i))"
  have c: "client_ok mac ?cfg now client" using target_phase_ok [OF ok p] by simp
  obtain a r where r: "poll_recv mac (tio_recv io) client = Some (a, r)" "client_ok mac ?cfg now a"
    using client_recv_ok [OF c, of "tio_recv io"] by blast
  let ?m = "update_target i (set_phase (Draining a s dl pe cf n)) m"
  have s: "steps mac now i m ?m" using ok p r(2) by (intro set_phase_steps [OF i] set_phase_ok) simp_all
  note here = steps_start [OF s]
  have phase: "tr_phase (mt_targets ?m ! i) = Draining a s dl pe cf n" using i by simp
  have failed: "polled_ok mac now i ?m (Option.bind (sync_live_packets_sent i ?m) (\<lambda>m.
      immediately (begin_close to_text ck i pe (Some f) at m)))" for ck f
    using phase by (intro polled_sync [OF here(1,2)] polled_moved begin_close_moved) simp_all
  have after: "polled_ok mac now i m1 (if is_peer_closed (ac_machine a) then
        map_option (\<lambda>m. (finish_target to_text (tio_clock io) i PeerClosed cf m, False)) (sync_live_packets_sent i m1)
      else if received then
        Option.bind (shorten_drain to_text (tio_clock io) i at m1) (\<lambda>(m, closing).
          if closing then Some (m, True) else settle_draining to_text io i at received m)
      else settle_draining to_text io i at received m1)"
    if m1: "i < length (mt_targets m1)" "target_ok mac (mt_config m1) now (mt_targets m1 ! i)" "delays_ok (mt_config m1)"
      "tr_phase (mt_targets m1 ! i) = Draining a s dl pe cf n" for m1 received
  proof -
    obtain m2 closing where m2: "shorten_drain to_text (tio_clock io) i at m1 = Some (m2, closing)" "steps mac now i m1 m2"
        "\<not> closing \<longrightarrow> (\<exists>dl'. tr_phase (mt_targets m2 ! i) = Draining a s dl' pe cf n)"
      using shorten_drain_ok [OF m1(1,2,4), of to_text "tio_clock io" at] by blast
    have "polled_ok mac now i m1 (if closing then Some (m2, True) else settle_draining to_text io i at received m2)"
      using m2(2,3) settle_draining_ok [OF steps_start(1,2) [OF m2(2)]] polled_trans [OF m2(2)] polled_some by auto
    then show ?thesis using m1 m2(1) sync_finish(1) [OF m1(1,2) _ m1(3)] settle_draining_ok [OF m1(1,2,4)] by simp
  qed
  have s1: "steps mac now i ?m (publish_client_events i events ?m)" for events
    using here d by (intro client_events_steps) simp_all
  have got: "polled_ok mac now i ?m (if is_peer_closed (ac_machine a) then
        map_option (\<lambda>m. (finish_target to_text (tio_clock io) i PeerClosed cf m, False)) (sync_live_packets_sent i (publish_client_events i events ?m))
      else
        Option.bind (shorten_drain to_text (tio_clock io) i at (publish_client_events i events ?m)) (\<lambda>(m, closing).
          if closing then Some (m, True) else settle_draining to_text io i at True m))" for events
    by (rule polled_trans [OF s1 [of events] after [where received = True, unfolded if_True]])
       (use steps_start [OF s1 [of events]] d i in simp_all)
  show ?thesis
    using polled_some [OF steps_refl [OF i ok]] polled_trans [OF s failed] polled_trans [OF s got]
      polled_trans [OF s after [OF here(1,2) _ phase, of False]] d [folded here(3)]
    by (auto simp: poll_draining_def r(1) Let_def split: poll.split sum.split)
qed

lemma closing_ok:
  assumes i: "i < length (mt_targets m)" and ok: "target_ok mac (mt_config m) now (mt_targets m ! i)" and d: "delays_ok (mt_config m)"
    and p: "tr_phase (mt_targets m ! i) = Closing client dl pe cf"
  shows "polled_ok mac now i m (poll_closing to_text io i at client dl pe cf m)"
proof -
  obtain a r where r: "poll_close (tio_close io) client = (a, r)" by fastforce
  have c: "client_ok mac (target_client_config (mc_client (mt_config m)) (tr_config (mt_targets m ! i))) now a"
    using client_close_ok [of mac _ now client "tio_close io"] target_phase_ok [OF ok p] r by simp
  let ?m = "update_target i (set_phase (Closing a dl pe cf)) m"
  have s: "steps mac now i m ?m" using ok p c by (intro set_phase_steps [OF i] set_phase_ok) simp_all
  have pc: "phase_client (tr_phase (mt_targets ?m ! i)) = Some a" using i by simp
  have dl': "delays_ok (mt_config ?m)" using d by simp
  show ?thesis
    using polled_trans [OF s sync_finish(1) [OF steps_start(1,2) [OF s] pc dl']]
      polled_trans [OF s sync_finish(2) [OF steps_start(1,2) [OF s] pc dl']] polled_some [OF s]
    by (auto simp: poll_closing_def r Let_def split: poll.split sum.split)
qed

lemma poll_target_ok:
  assumes i: "i < length (mt_targets m)" and ok: "target_ok mac (mt_config m) now (mt_targets m ! i)" and d: "delays_ok (mt_config m)"
  shows "polled_ok mac now i m (poll_target mac to_text io i at m)"
proof -
  let ?t = "mt_targets m ! i"
  have refl: "polled_ok mac now i m (Some (m, b))" for b by (rule polled_some [OF steps_refl [OF i ok]])
  have stopped: "polled_ok mac now i m (Some (finish_target to_text ck i e c m, b))" if "\<not> is_terminal_phase (tr_phase ?t)" for ck e c b
    by (rule polled_some [OF finish_steps [OF i that ok]])
  have cfg: "target_ok mac (mt_config m) now (set_phase (TpPending (target_client_config (mc_client (mt_config m)) (tr_config ?t))) ?t)"
    using ok by (intro set_phase_ok) simp_all
  show ?thesis
  proof (cases "tr_phase ?t")
    case (Retrying deadline)
    then show ?thesis
      using i stopped refl polled_some [OF install_steps [OF i _ _ cfg]]
      by (simp add: poll_target_def Let_def poll_retrying_def)
  next
    case (TpPending c)
    have "touches mac now i m (update_target i (set_phase (Connecting c)) m)"
      using TpPending target_phase_ok [OF ok TpPending] ok by (intro set_phase_touches [OF i] set_phase_ok) simp_all
    from polled_some [OF publish_phase_steps [OF this]] i TpPending stopped show ?thesis
      by (simp add: poll_target_def Let_def start_connecting_def)
  next
    case (Connecting c)
    have "polled_ok mac now i m (poll_connecting mac to_text io i c m)"
    proof (cases "tio_connect io")
      case (Ready v)
      obtain resolved socket where v: "v = (resolved, socket)" by fastforce
      have "steps mac now i m (fail_target to_text ck i FpConnecting error m)" for ck error
        unfolding fail_target_def using Connecting by (intro finish_steps [OF i _ ok]) simp
      moreover have "steps mac now i m (install_target_phase ck i (Opening a open_state_new)
          (update_target i (\<lambda>t. t\<lparr>tr_remote := Some (ac_remote a)\<rparr>) m))" if "async_connect mac True resolved socket c = Ok a" for ck a
      proof -
        let ?m1 = "update_target i (\<lambda>t. t\<lparr>tr_remote := Some (ac_remote a)\<rparr>) m"
        have cl: "client_ok mac (target_client_config (mc_client (mt_config m)) (tr_config ?t)) now a"
          using client_connect_ok [OF that] target_phase_ok [OF ok Connecting] by simp
        have t1: "touches mac now i m ?m1"
          using i ok Connecting by (intro update_touches) (simp_all add: same_target_def target_ok_def)
        have "touches mac now i ?m1 (update_target i (set_phase (Opening a open_state_new)) ?m1)"
          using i ok Connecting cl by (intro set_phase_touches) (simp_all add: target_ok_def)
        from publish_phase_steps [OF touches_trans [OF t1 this]] show ?thesis by (simp add: install_target_phase_def)
      qed
      ultimately show ?thesis by (auto simp: poll_connecting_def Ready v polled_some split: sum.split)
    qed (simp add: poll_connecting_def refl)
    with i Connecting stopped show ?thesis by (simp add: poll_target_def Let_def)
  next
    case (Opening a st)
    from opening_ok [OF i ok d this] i Opening show ?thesis by (simp add: poll_target_def Let_def)
  next
    case (Active a s w)
    from active_ok [OF i ok d this] i Active show ?thesis by (simp add: poll_target_def Let_def)
  next
    case (Draining a s dl pe cf n)
    from draining_ok [OF i ok d this] i Draining show ?thesis by (simp add: poll_target_def Let_def)
  next
    case (Closing a dl pe cf)
    from closing_ok [OF i ok d this] i Closing show ?thesis by (simp add: poll_target_def Let_def)
  next
    case (Terminal o')
    with i refl show ?thesis by (simp add: poll_target_def Let_def)
  qed
qed

section \<open>Timeouts and sends of a target\<close>

lemma target_timeout_ok:
  assumes i: "i < length (mt_targets m)" and ok: "target_ok mac (mt_config m) now (mt_targets m ! i)" and d: "delays_ok (mt_config m)"
  shows "polled_ok mac now i m (poll_target_timeout to_text io i at m)"
proof -
  obtain ck drain where io: "io = (ck, drain)" by (cases io)
  let ?cfg = "target_client_config (mc_client (mt_config m)) (tr_config (mt_targets m ! i))"
  have run: "\<exists>a' r. async_poll_timeouts_bounded_at drain at (Suc 0) a = Some (a', r) \<and> client_ok mac ?cfg now a'"
    if "phase_client (tr_phase (mt_targets m ! i)) = Some a" for a
    using client_timeouts_ok phase_client_ok [OF target_phase_ok [OF ok refl] that] by blast
  show ?thesis
  proof (cases "tr_phase (mt_targets m ! i)")
    case (Active client schedule waiting)
    obtain a r where r: "async_poll_timeouts_bounded_at drain at (Suc 0) client = Some (a, r)" "client_ok mac ?cfg now a"
      using run [of client] Active by auto
    let ?m = "update_target i (set_phase (Active a schedule waiting)) m"
    have s: "steps mac now i m ?m" using ok Active r(2) by (intro set_phase_steps [OF i] set_phase_ok) simp_all
    note here = steps_start [OF s]
    have "steps mac now i ?m (publish_client_events i events ?m)" for events
      using here d by (intro client_events_steps) simp_all
    moreover have "moved mac now i ?m (begin_open_session_failure to_text ck i FpTiming error at CleanupClose ?m)" for error
      using here i by (intro failure_moved) simp_all
    ultimately show ?thesis
      using polled_trans [OF s polled_some] polled_trans [OF s polled_moved]
      by (simp add: poll_target_timeout_def io Active r(1) Let_def split: sum.split)
  next
    case (Draining client st dl pe cf n)
    obtain a r where r: "async_poll_timeouts_bounded_at drain at (Suc 0) client = Some (a, r)" "client_ok mac ?cfg now a"
      using run [of client] Draining by auto
    let ?m = "update_target i (set_phase (Draining a st dl pe cf n)) m"
    have s: "steps mac now i m ?m" using ok Draining r(2) by (intro set_phase_steps [OF i] set_phase_ok) simp_all
    note here = steps_start [OF s]
    have pc: "phase_client (tr_phase (mt_targets ?m ! i)) = Some a" using i by simp
    have failed: "polled_ok mac now i ?m (Option.bind (sync_live_packets_sent i ?m) (\<lambda>m.
        map_option (\<lambda>m. (m, False)) (begin_close to_text ck i pe (Some f) at m)))" for f
      using pc by (intro polled_sync [OF here(1,2) pc] polled_moved begin_close_moved) simp_all
    have due: "polled_ok mac now i ?m (map_option (\<lambda>(m, closing). (m, \<not> closing \<and> b))
        (shorten_drain to_text ck i at (publish_client_events i events ?m)))" for events b
    proof -
      have s1: "steps mac now i ?m (publish_client_events i events ?m)" using here d by (intro client_events_steps) simp_all
      obtain m2 closing where "shorten_drain to_text ck i at (publish_client_events i events ?m) = Some (m2, closing)"
          "steps mac now i (publish_client_events i events ?m) m2"
        using shorten_drain_ok [OF steps_start(1,2) [OF s1], of a st dl pe cf n to_text ck at] i by auto
      with steps_trans [OF s1] show ?thesis by (auto simp: polled_ok_def)
    qed
    show ?thesis
      using polled_trans [OF s failed] polled_trans [OF s due]
      by (simp add: poll_target_timeout_def io Draining r(1) Let_def split: sum.split)
  qed (use polled_some [OF steps_refl [OF i ok]] in \<open>simp_all add: poll_target_timeout_def io\<close>)
qed

definition sent_ok :: "mac_fun \<Rightarrow> instant \<Rightarrow> nat \<Rightarrow> managed_task \<Rightarrow> (managed_task \<times> send_result) option \<Rightarrow> bool" where
  "sent_ok mac now i m r \<longleftrightarrow> (\<exists>m' q. r = Some (m', q) \<and> steps mac now i m m')"

lemma sent_some: "steps mac now i m m' \<Longrightarrow> sent_ok mac now i m (Some (m', q))"
  by (simp add: sent_ok_def)

lemma sent_moved: "moved mac now i m r \<Longrightarrow> sent_ok mac now i m (map_option (\<lambda>m. (m, q)) r)"
  by (auto simp: sent_ok_def moved_def)

lemma sent_trans: "steps mac now i m m1 \<Longrightarrow> sent_ok mac now i m1 r \<Longrightarrow> sent_ok mac now i m r"
  unfolding sent_ok_def by (blast intro: steps_trans)

lemma gate_steps:
  assumes "i < length (mt_targets m)" "target_ok mac (mt_config m) now (mt_targets m ! i)"
  shows "steps mac now i m (record_stagger_acceptance accepted spacing at m)"
  using assms unfolding steps_def touches_def record_stagger_acceptance_def
  by (auto simp: same_task_def same_target_def ends_with_def task_snapshot_def split: option.split
      intro!: exI [of _ "mt_targets m ! i"] exI [of _ "[]"])

lemma record_stagger_simps [simp]:
  "mt_targets (record_stagger_acceptance accepted spacing at m) = mt_targets m"
  "mt_config (record_stagger_acceptance accepted spacing at m) = mt_config m"
  by (simp_all add: record_stagger_acceptance_def split: option.split)

lemma attempt_send_ok:
  assumes i: "i < length (mt_targets m)" and ok: "target_ok mac (mt_config m) now (mt_targets m ! i)" and d: "delays_ok (mt_config m)"
    and p: "tr_phase (mt_targets m ! i) = Active client s0 w0" and later: "now \<le> now'"
    and clock: "list_all (\<lambda>(_, io). now \<le> ct_mono (si_anchor io) \<and> ct_mono (si_anchor io) \<le> now') (pc_script io)"
  shows "sent_ok mac now' i m (attempt_send mac to_text io i at spacing client schedule commit m)"
proof -
  let ?cfg = "target_client_config (mc_client (mt_config m)) (tr_config (mt_targets m ! i))"
  have "client_ok mac ?cfg now client" using target_phase_ok [OF ok p] by simp
  then obtain a result where r: "poll_send_probe mac (pc_script io) client = Some (a, result)" "client_ok mac ?cfg now' a"
    using poll_send [OF _ _ later clock, of mac ?cfg client] unfolding client_ok_def by metis
  note ok' = target_ok_later [OF ok later]
  define receipt where "receipt = polled_receipt result"
  define m1 where "m1 = record_stagger_acceptance (receipt \<noteq> None) spacing (pc_accepted io) m"
  have s1: "steps mac now' i m m1" unfolding m1_def by (rule gate_steps [OF i ok'])
  define s1 where "s1 = (if receipt \<noteq> None then commit_schedule commit schedule else schedule)"
  obtain s2 e2 where s2: "(if receipt \<noteq> None then
      (case skip_missed_slots_at (pc_skip io) s1 of Inl e \<Rightarrow> (s1, Some e) | Inr s \<Rightarrow> (s, None)) else (s1, None)) = (s2, e2)"
    by fastforce
  define f where "f = (\<lambda>t. let t = sync_packets_sent a t;
                     t = (if result = Pending then t\<lparr>tr_silence_since := None, tr_last_reply_at := None\<rparr> else t)
                 in set_phase (Active a s2 (result = Pending)) t)"
  define m2 where "m2 = update_target i f m1"
  have "steps mac now' i m1 m2"
    unfolding m2_def using i ok' p r(2)
    by (intro update_steps) (simp_all add: f_def m1_def same_target_def target_status_of_def is_desired_def target_ok_def
        sync_packets_sent_def Let_def)
  note s2' = steps_trans [OF s1 this]
  have phase: "tr_phase (mt_targets m2 ! i) = Active a s2 (result = Pending)"
    using i by (simp add: m2_def m1_def f_def Let_def)
  define m3 where "m3 = (case receipt of None \<Rightarrow> m2 | Some r \<Rightarrow> publish_client_events i [scheduled_event commit r] m2)"
  have "steps mac now' i m2 m3"
    using steps_start [OF s2'] d steps_refl client_events_steps by (simp add: m3_def split: option.split)
  note s3 = steps_trans [OF s2' this]
  have phase3: "tr_phase (mt_targets m3 ! i) = Active a s2 (result = Pending)"
    using phase steps_start(1) [OF s2'] by (simp add: m3_def split: option.split)
  have failed: "sent_ok mac now' i m (map_option (\<lambda>m. (m, q)) (begin_open_session_failure to_text (pc_clock io) i ph error at CleanupDrain m3))" for ph error q
    using phase3 by (intro sent_trans [OF s3] sent_moved failure_moved [OF steps_start(1,2) [OF s3]]) simp
  have "attempt_send mac to_text io i at spacing client schedule commit m =
     (case result of
        Pending \<Rightarrow> Some (m2, SendPending)
      | Ready (Inr _) \<Rightarrow>
          (case e2 of Some error \<Rightarrow> map_option (\<lambda>m. (m, SendFailed (receipt \<noteq> None)))
              (begin_open_session_failure to_text (pc_clock io) i FpTiming error at CleanupDrain m3)
           | None \<Rightarrow> Some (m3, SendReady (receipt \<noteq> None)))
      | Ready (Inl error) \<Rightarrow> map_option (\<lambda>m. (m, SendFailed (receipt \<noteq> None)))
          (begin_open_session_failure to_text (pc_clock io) i FpSending (send_error_source error) at CleanupDrain m3))"
    unfolding attempt_send_def r(1) Option.bind.bind_lunit prod.case Let_def
    unfolding receipt_def [symmetric]
    unfolding s1_def [symmetric] m1_def [symmetric]
    unfolding s2 prod.case f_def [unfolded Let_def, symmetric]
    unfolding m2_def [symmetric]
    unfolding m3_def [symmetric] by (rule refl)
  then show ?thesis
    using failed sent_some [OF s2'] sent_some [OF s3] by (simp split: poll.split sum.split option.split)
qed


lemma later_steps:
  assumes "i < length (mt_targets m)" "target_ok mac (mt_config m) now (mt_targets m ! i)" "now \<le> now'"
    "tr_phase (mt_targets m ! i) = Active client s0 w0"
  shows "steps mac now' i m (update_target i (set_phase (Active client s w)) m)"
  using assms target_ok_later [OF assms(2,3)] by (intro set_phase_steps) (simp_all add: target_ok_def)

lemma poll_one_send_ok:
  assumes i: "i < length (mt_targets m)" and ok: "target_ok mac (mt_config m) now (mt_targets m ! i)" and d: "delays_ok (mt_config m)"
    and later: "now \<le> now'"
    and clock: "list_all (\<lambda>(_, io). now \<le> ct_mono (si_anchor io) \<and> ct_mono (si_anchor io) \<le> now') (pc_script io)"
  shows "sent_ok mac now' i m (poll_one_send mac to_text io i at spacing m)"
proof (cases "\<exists>client s w. tr_phase (mt_targets m ! i) = Active client s w")
  case False
  then show ?thesis
    using sent_some [OF steps_refl [OF i target_ok_later [OF ok later]]]
    by (auto simp: poll_one_send_def split: target_phase.split)
next
  case True
  then obtain client s0 w0 where p: "tr_phase (mt_targets m ! i) = Active client s0 w0" by blast
  have st: "steps mac now' i m (update_target i (set_phase (Active client s w)) m)" for s w
    by (rule later_steps [OF i ok later p])
  have idle: "sent_ok mac now' i m (Some (update_target i (set_phase (Active client s w)) m, NotAttempted))" for s w
    by (rule sent_some [OF st])
  have failed: "sent_ok mac now' i m (map_option (\<lambda>m. (m, SendFailed False))
      (begin_open_session_failure to_text ck i FpTiming error at' CleanupDrain (update_target i (set_phase (Active client s w)) m)))"
    for ck error at' s w
    using i by (intro sent_trans [OF st [of s w]] sent_moved failure_moved [OF steps_start(1,2) [OF st [of s w]]]) simp
  have over: "sent_ok mac now' i m (map_option (\<lambda>m. (m, SendReady False))
      (begin_drain to_text ck i TestComplete (update_target i (\<lambda>t. set_phase (Active client s w) (sync_packets_sent client t)) m)))"
    for ck s w
  proof -
    have u: "steps mac now' i m (update_target i (\<lambda>t. set_phase (Active client s w) (sync_packets_sent client t)) m)"
      using i p target_ok_later [OF ok later]
      by (intro update_steps) (simp_all add: same_target_def target_status_of_def is_desired_def target_ok_def sync_packets_sent_def)
    show ?thesis
      using i by (intro sent_trans [OF u] sent_moved begin_drain_moved [OF steps_start(1,2) [OF u]]) simp
  qed
  have sent: "sent_ok mac now' i m (attempt_send mac to_text io i at' spacing client s commit m)" for at' s commit
    by (rule attempt_send_ok [OF i ok d p later clock])
  show ?thesis
    by (auto simp: poll_one_send_def p Let_def idle failed over sent split: prod.split option.split sum.split)
qed

end
