(* ===== verification/Managed_Runs.thy ===== *)
theory Managed_Runs
  imports Managed_Steps
begin

text \<open>
  Runs of the managed client: the task is built, polled, asked to stop and dropped, whatever the
  clock, the sockets and the callers do. Every poll of a live task returns; the outcomes in the
  history, the status and the event stream agree, and a target generation ends at most once.
\<close>

section \<open>The invariant of a run\<close>

definition ended :: "managed_task \<Rightarrow> u64 set" where
  "ended m = (\<lambda>outcome. ti_generation (to_target outcome)) ` set (finished (mt_events m))"

fun accounted_target :: "target_outcome set \<Rightarrow> u64 set \<Rightarrow> target_runtime \<Rightarrow> target_phase \<Rightarrow> bool" where
  "accounted_target outcomes gone t (Terminal outcome) = (outcome \<in> outcomes \<and> to_target outcome = tr_instance t)"
| "accounted_target outcomes gone t _ = (generation_of t \<notin> gone)"

lemma accounted_live: "\<not> is_terminal_phase p \<Longrightarrow> accounted_target outcomes gone t p \<longleftrightarrow> generation_of t \<notin> gone"
  by (cases p) auto

definition ledger :: "managed_task \<Rightarrow> bool" where
  "ledger m \<longleftrightarrow>
     distinct (map (\<lambda>outcome. ti_generation (to_target outcome)) (finished (mt_events m))) \<and>
     (\<forall>g \<in> ended m. g < mt_next_generation m) \<and>
     (\<forall>t \<in> set (mt_targets m). accounted_target (set (finished (mt_events m))) (ended m) t (tr_phase t)) \<and>
     mt_history m = fold history_record (finished (mt_events m)) (history_new (mc_outcome_history_limit (mt_config m)))"

definition task_core :: "mac_fun \<Rightarrow> instant \<Rightarrow> managed_task \<Rightarrow> bool" where
  "task_core mac now m \<longleftrightarrow> managed_ok m \<and> delays_ok (mt_config m) \<and> ledger m \<and>
     (\<forall>t \<in> set (mt_targets m). target_ok mac (mt_config m) now t)"

definition task_inv :: "mac_fun \<Rightarrow> instant \<Rightarrow> managed_task \<Rightarrow> bool" where
  "task_inv mac now m \<longleftrightarrow> task_core mac now m \<and> mt_status m = task_snapshot m"

lemmas core_defs = task_core_def managed_ok_def ledger_def ended_def

lemma task_core_other [simp]:
  "task_core mac now (m\<lparr>mt_cursor := x\<rparr>) = task_core mac now m"
  "task_core mac now (m\<lparr>mt_timeout_backlog := b\<rparr>) = task_core mac now m"
  "task_core mac now (m\<lparr>mt_scan_remaining := x\<rparr>) = task_core mac now m"
  "task_core mac now (m\<lparr>mt_send_cursor := x\<rparr>) = task_core mac now m"
  "task_core mac now (m\<lparr>mt_burst_remaining := x\<rparr>) = task_core mac now m"
  "task_core mac now (m\<lparr>mt_stagger_remaining := x\<rparr>) = task_core mac now m"
  "task_core mac now (m\<lparr>mt_phase := p\<rparr>) = task_core mac now m"
  "task_core mac now (m\<lparr>mt_stop_observed := q\<rparr>) = task_core mac now m"
  "task_core mac now (m\<lparr>mt_admission := a\<rparr>) = task_core mac now m"
  "task_core mac now (m\<lparr>mt_status := s\<rparr>) = task_core mac now m"
  by (simp_all add: core_defs)

lemma task_inv_other [simp]:
  "task_inv mac now (m\<lparr>mt_cursor := x\<rparr>) = task_inv mac now m"
  "task_inv mac now (m\<lparr>mt_timeout_backlog := b\<rparr>) = task_inv mac now m"
  "task_inv mac now (m\<lparr>mt_scan_remaining := x\<rparr>) = task_inv mac now m"
  "task_inv mac now (m\<lparr>mt_send_cursor := x\<rparr>) = task_inv mac now m"
  "task_inv mac now (m\<lparr>mt_burst_remaining := x\<rparr>) = task_inv mac now m"
  "task_inv mac now (m\<lparr>mt_stagger_remaining := x\<rparr>) = task_inv mac now m"
  "task_inv mac now (m\<lparr>mt_admission := a\<rparr>) = task_inv mac now m"
  by (simp_all add: task_inv_def task_snapshot_def)

lemma task_inv_status [simp]: "task_inv mac now (replace_status m) = task_core mac now m"
  unfolding task_inv_def snapshot_status by (simp add: replace_status_def task_snapshot_def)

lemma task_inv_publish [simp]: "finished [e] = [] \<Longrightarrow> task_inv mac now (publish_event e m) = task_inv mac now m"
  by (simp add: task_inv_def core_defs) (simp add: publish_event_def)

lemma task_inv_core: "task_inv mac now m \<Longrightarrow> task_core mac now m"
  by (simp add: task_inv_def)

lemma task_inv_later: "task_inv mac now m \<Longrightarrow> now \<le> now' \<Longrightarrow> task_inv mac now' m"
  by (auto simp: task_inv_def task_core_def intro: target_ok_later)

lemma task_inv_target:
  "task_inv mac now m \<Longrightarrow> i < length (mt_targets m) \<Longrightarrow>
     target_ok mac (mt_config m) now (mt_targets m ! i) \<and> delays_ok (mt_config m)"
  by (simp add: task_inv_def task_core_def)

section \<open>Steps of one target\<close>

lemma map_update_same: "i < length xs \<Longrightarrow> f y = f (xs ! i) \<Longrightarrow> map f (xs[i := y]) = map f xs"
  by (simp add: map_update) (metis length_map list_update_id nth_map)

lemma filter_update_same:
  "i < length xs \<Longrightarrow> P y = P (xs ! i) \<Longrightarrow> f y = f (xs ! i) \<Longrightarrow> map f (filter P (xs[i := y])) = map f (filter P xs)"
  by (induction xs arbitrary: i) (auto split: nat.split simp: nth_Cons less_Suc_eq_0_disj)

lemma steps_managed_ok:
  assumes "managed_ok m" "touches mac now i m m'"
  shows "managed_ok m'"
proof -
  obtain t' where t: "i < length (mt_targets m)" "mt_targets m' = (mt_targets m)[i := t']" "same_target (mt_targets m ! i) t'"
      "same_task m m'"
    using assms(2) by (auto simp: touches_def)
  have "map generation_of (mt_targets m') = map generation_of (mt_targets m)"
    unfolding t(2) using t(1,3) by (intro map_update_same) (simp_all add: same_target_def generation_of_def)
  moreover have "map (\<lambda>t. tc_id (tr_config t)) (filter is_desired (mt_targets m')) =
      map (\<lambda>t. tc_id (tr_config t)) (filter is_desired (mt_targets m))"
    unfolding t(2) using t(1,3) by (intro filter_update_same) (simp_all add: same_target_def is_desired_def)
  moreover have "generation_of x < mt_next_generation m' \<and> ti_id (tr_instance x) = tc_id (tr_config x)" if "x \<in> set (mt_targets m')" for x
  proof -
    from that set_update_subset_insert [of "mt_targets m" i t'] have "x = t' \<or> x \<in> set (mt_targets m)" unfolding t(2) by blast
    with t(1,3,4) assms(1) nth_mem [OF t(1)] show ?thesis
      by (auto simp: managed_ok_def same_task_def same_target_def generation_of_def)
  qed
  ultimately show ?thesis using assms(1) t(2,4) by (simp add: managed_ok_def same_task_def)
qed

lemma steps_ledger:
  assumes ok: "managed_ok m" and "ledger m" "touches mac now i m m'"
  shows "ledger m'"
proof -
  let ?t = "mt_targets m ! i"
  obtain t' evs where t: "i < length (mt_targets m)" "mt_targets m' = (mt_targets m)[i := t']" "same_target ?t t'"
      "same_task m m'" "mt_events m' = mt_events m @ evs" "mt_history m' = fold history_record (finished evs) (mt_history m)"
      "ends_with ?t t' (finished evs)"
    using assms(3) by (auto simp: touches_def)
  have l: "distinct (map (\<lambda>outcome. ti_generation (to_target outcome)) (finished (mt_events m)))"
      "\<forall>g \<in> ended m. g < mt_next_generation m"
      "\<forall>t \<in> set (mt_targets m). accounted_target (set (finished (mt_events m))) (ended m) t (tr_phase t)"
      "mt_history m = fold history_record (finished (mt_events m)) (history_new (mc_outcome_history_limit (mt_config m)))"
    using assms(2) by (simp_all add: ledger_def)
  have hist: "mt_history m' = fold history_record (finished (mt_events m')) (history_new (mc_outcome_history_limit (mt_config m')))"
    using t(4,5,6) l(4) by (simp add: same_task_def)
  have gen: "generation_of t' = generation_of ?t" using t(3) by (simp add: same_target_def generation_of_def)
  have here: "accounted_target (set (finished (mt_events m))) (ended m) ?t (tr_phase ?t)" using l(3) t(1) by simp
  consider "finished evs = []" "\<forall>o'. tr_phase t' = Terminal o' \<longleftrightarrow> tr_phase ?t = Terminal o'"
    | o' where "finished evs = [o']" "\<not> is_terminal_phase (tr_phase ?t)" "tr_phase t' = Terminal o'" "to_target o' = tr_instance ?t"
    using t(7) by (auto simp: ends_with_def)
  then show ?thesis
  proof cases
    case 1
    have e: "finished (mt_events m') = finished (mt_events m)" "ended m' = ended m" using 1(1) t(5) by (simp_all add: ended_def)
    have "accounted_target (set (finished (mt_events m))) (ended m) t' (tr_phase t')"
    proof (cases "is_terminal_phase (tr_phase ?t)")
      case True
      then have "tr_phase t' = tr_phase ?t" using 1(2) by (auto simp: is_terminal_iff)
      with True here t(3) show ?thesis by (auto simp: is_terminal_iff same_target_def)
    next
      case False
      then have "\<not> is_terminal_phase (tr_phase t')" using 1(2) by (auto simp: is_terminal_iff)
      with False here gen show ?thesis by (simp add: accounted_live)
    qed
    then have "\<forall>t \<in> set (mt_targets m'). accounted_target (set (finished (mt_events m))) (ended m) t (tr_phase t)"
      unfolding t(2) using l(3) set_update_subset_insert [of "mt_targets m" i t'] by blast
    then show ?thesis using l(1,2) hist t(4) e by (simp add: ledger_def same_task_def)
  next
    case (2 o')
    have g: "ti_generation (to_target o') = generation_of ?t" using 2(4) by (simp add: generation_of_def)
    have e: "finished (mt_events m') = finished (mt_events m) @ [o']" "ended m' = insert (generation_of ?t) (ended m)"
      using 2(1) t(5) g by (simp_all add: ended_def)
    have new: "generation_of ?t \<notin> ended m" using here 2(2) by (cases "tr_phase ?t") auto
    have "accounted_target (set (finished (mt_events m'))) (ended m') x (tr_phase x)" if "x \<in> set (mt_targets m')" for x
    proof -
      obtain j where j: "j < length (mt_targets m)" "x = (mt_targets m)[i := t'] ! j"
        using \<open>x \<in> set (mt_targets m')\<close> unfolding t(2) by (metis in_set_conv_nth length_list_update)
      show ?thesis
      proof (cases "j = i")
        case True
        with j t(1) 2(3,4) t(3) e show ?thesis by (simp add: same_target_def)
      next
        case False
        then have x: "x = mt_targets m ! j" using j by simp
        have "map generation_of (mt_targets m) ! j \<noteq> map generation_of (mt_targets m) ! i"
          using ok False j(1) t(1) by (subst nth_eq_iff_index_eq) (simp_all add: managed_ok_def)
        then have "generation_of x \<noteq> generation_of ?t" using j(1) t(1) x by simp
        moreover have "accounted_target (set (finished (mt_events m))) (ended m) x (tr_phase x)" using l(3) j(1) x by simp
        ultimately show ?thesis unfolding e by (cases "tr_phase x") auto
      qed
    qed
    moreover have "distinct (map (\<lambda>outcome. ti_generation (to_target outcome)) (finished (mt_events m')))"
      using l(1) new g unfolding e by (auto simp: ended_def)
    moreover have "\<forall>g \<in> ended m'. g < mt_next_generation m'"
      using l(2) ok t(1,4) unfolding e by (auto simp: managed_ok_def same_task_def)
    ultimately show ?thesis using hist by (simp add: ledger_def)
  qed
qed

lemma steps_inv:
  assumes "task_inv mac now m" "steps mac now i m m'"
  shows "task_inv mac now m'"
proof -
  note t = steps_touches [OF assms(2)]
  have m: "managed_ok m" "ledger m" "delays_ok (mt_config m)" "\<forall>t \<in> set (mt_targets m). target_ok mac (mt_config m) now t"
    using assms(1) by (simp_all add: task_inv_def task_core_def)
  have "mt_config m' = mt_config m" using t by (simp add: touches_def same_task_def)
  moreover have "\<forall>t \<in> set (mt_targets m'). target_ok mac (mt_config m) now t"
    using t m(4) set_update_subset_insert by (fastforce simp: touches_def)
  ultimately show ?thesis
    using steps_managed_ok [OF m(1) t] steps_ledger [OF m(1,2) t] m(3) assms
    by (simp add: task_inv_def task_core_def steps_def)
qed

text \<open>A result that exists and keeps the invariant.\<close>

definition kept :: "mac_fun \<Rightarrow> instant \<Rightarrow> managed_task \<Rightarrow> (managed_task \<times> 'a) option \<Rightarrow> bool" where
  "kept mac now m r \<longleftrightarrow> (\<exists>m' x. r = Some (m', x) \<and> task_inv mac now m' \<and> same_task m m' \<and>
     length (mt_targets m') = length (mt_targets m))"

lemma steps_length: "steps mac now i m m' \<Longrightarrow> same_task m m' \<and> length (mt_targets m') = length (mt_targets m)"
  by (auto simp: steps_def touches_def)

lemma poll_target_kept:
  "task_inv mac now m \<Longrightarrow> i < length (mt_targets m) \<Longrightarrow> kept mac now m (poll_target mac to_text io i at m)"
  using poll_target_ok [of i m mac now to_text io at] task_inv_target [of mac now m i]
  by (auto simp: kept_def polled_ok_def dest: steps_inv steps_length)

lemma target_timeout_kept:
  "task_inv mac now m \<Longrightarrow> i < length (mt_targets m) \<Longrightarrow> kept mac now m (poll_target_timeout to_text io i at m)"
  using target_timeout_ok [of i m mac now to_text io at] task_inv_target [of mac now m i]
  by (auto simp: kept_def polled_ok_def dest: steps_inv steps_length)

lemma one_send_kept:
  assumes "task_inv mac now m" "i < length (mt_targets m)" "now \<le> now'"
    "list_all (\<lambda>(_, io). now \<le> ct_mono (si_anchor io) \<and> ct_mono (si_anchor io) \<le> now') (pc_script io)"
  shows "kept mac now' m (poll_one_send mac to_text io i at spacing m)"
  using poll_one_send_ok [OF assms(2) _ _ assms(3,4), of mac to_text at spacing] task_inv_target [OF assms(1,2)]
    task_inv_later [OF assms(1,3)]
  by (auto simp: kept_def sent_ok_def dest: steps_inv steps_length)


section \<open>Passes\<close>

lemma keptI: "task_inv mac now m' \<Longrightarrow> same_task m m' \<Longrightarrow> length (mt_targets m') = length (mt_targets m) \<Longrightarrow>
    kept mac now m (Some (m', x))"
  by (simp add: kept_def)

lemma enqueue_inv [simp]:
  "task_inv mac now (enqueue_timeout_backlog i g m) = task_inv mac now m"
  "mt_targets (enqueue_timeout_backlog i g m) = mt_targets m"
  by (simp_all add: enqueue_timeout_backlog_def)

lemma cursor_inv:
  "task_inv mac now m \<Longrightarrow> n < max 1 (length (mt_targets m)) \<Longrightarrow> task_inv mac now (m\<lparr>mt_timeout_cursor := n\<rparr>)"
  by (simp add: task_inv_def core_defs task_snapshot_def)

lemma task_inv_cursor: "task_inv mac now m \<Longrightarrow> mt_targets m \<noteq> [] \<Longrightarrow> mt_timeout_cursor m < length (mt_targets m)"
  by (auto simp: task_inv_def core_defs Suc_le_eq)

text \<open>What the passes keep of the task besides the invariant: who is stopped and how many targets there are.\<close>

definition stable :: "managed_task \<Rightarrow> managed_task \<Rightarrow> bool" where
  "stable m m' \<longleftrightarrow> mt_phase m' = mt_phase m \<and> mt_config m' = mt_config m \<and> mt_stop_observed m' = mt_stop_observed m \<and>
     length (mt_targets m') = length (mt_targets m)"

lemma stable_trans: "stable a b \<Longrightarrow> stable b c \<Longrightarrow> stable a c"
  by (simp add: stable_def)

lemma kept_stable: "kept mac now m r \<Longrightarrow> \<exists>m' x. r = Some (m', x) \<and> task_inv mac now m' \<and> stable m m'"
  by (auto simp: kept_def stable_def same_task_def)

lemma timeout_scan_inv:
  "task_inv mac now m \<Longrightarrow> mt_targets m \<noteq> [] \<Longrightarrow>
     \<exists>m' n. timeout_scan to_text ios at turns transitions m = Some (m', n) \<and> task_inv mac now m' \<and> stable m m'"
proof (induction turns arbitrary: transitions m)
  case 0
  then show ?case by (simp add: stable_def)
next
  case (Suc turns)
  let ?i = "mt_timeout_cursor m"
  let ?m = "m\<lparr>mt_timeout_cursor := Suc ?i mod length (mt_targets m)\<rparr>"
  have i: "?i < length (mt_targets m)" using task_inv_cursor [OF Suc.prems] .
  have inv: "task_inv mac now ?m" using Suc.prems by (intro cursor_inv) (simp_all add: less_max_iff_disj)
  have s: "stable m ?m" by (simp add: stable_def)
  obtain m1 b where m1: "poll_target_timeout to_text (ios transitions) ?i at ?m = Some (m1, b)" "task_inv mac now m1" "stable ?m m1"
  proof -
    have "?i < length (mt_targets ?m)" using i by simp
    from kept_stable [OF target_timeout_kept [OF inv this]] that show thesis by blast
  qed
  let ?m2 = "if b then enqueue_timeout_backlog ?i (ti_generation (tr_instance (mt_targets ?m ! ?i))) m1 else m1"
  have m2: "task_inv mac now ?m2" "stable m ?m2"
    using m1(2,3) by (simp_all add: stable_def enqueue_timeout_backlog_def)
  have ne: "mt_targets ?m \<noteq> []" "mt_targets ?m2 \<noteq> []"
    using m2(2) s Suc.prems(2) unfolding stable_def by (metis length_0_conv)+
  note rec1 = Suc.IH [OF m2(1) ne(2), of "transitions - 1"] and rec2 = Suc.IH [OF inv ne(1), of transitions]
  consider "transitions = 0" | "transitions \<noteq> 0" "target_has_due_timeout ?i at ?m" | "transitions \<noteq> 0" "\<not> target_has_due_timeout ?i at ?m"
    by blast
  then show ?case
  proof cases
    case 1
    then show ?thesis using Suc.prems(1) by (simp add: stable_def)
  next
    case 2
    then have "timeout_scan to_text ios at (Suc turns) transitions m = timeout_scan to_text ios at turns (transitions - 1) ?m2"
      using i m1(1) by (simp add: Let_def)
    then show ?thesis using rec1 stable_trans [OF m2(2)] by auto
  next
    case 3
    then have "timeout_scan to_text ios at (Suc turns) transitions m = timeout_scan to_text ios at turns transitions ?m"
      using i by (simp add: Let_def)
    then show ?thesis using rec2 stable_trans [OF s] by auto
  qed
qed

lemma drain_backlog_inv:
  "task_inv mac now m \<Longrightarrow> \<exists>m'. drain_backlog to_text ios at transitions m = Some m' \<and> task_inv mac now m' \<and> stable m m'"
proof (induction to_text ios at transitions m rule: drain_backlog.induct)
  case (1 to_text ios at transitions m)
  show ?case
  proof (cases "transitions = 0 \<or> mt_timeout_backlog m = []")
    case True
    with "1.prems" show ?thesis by (subst drain_backlog.simps) (auto simp: stable_def)
  next
    case False
    then obtain entry rest where b: "transitions \<noteq> 0" "mt_timeout_backlog m = entry # rest" by (cases "mt_timeout_backlog m") auto
    let ?i = "bl_index entry" and ?m = "m\<lparr>mt_timeout_backlog := rest\<rparr>"
    have inv: "task_inv mac now ?m" using "1.prems" by simp
    have s: "stable m ?m" by (simp add: stable_def)
    show ?thesis
    proof (cases "?i < length (mt_targets m) \<and> ti_generation (tr_instance (mt_targets m ! ?i)) = bl_generation entry \<and>
        target_has_due_timeout ?i at ?m")
      case True
      obtain m1 d where m1: "poll_target_timeout to_text (ios transitions) ?i at ?m = Some (m1, d)" "task_inv mac now m1" "stable ?m m1"
        using kept_stable [OF target_timeout_kept [OF inv]] True by fastforce
      let ?m2 = "if d then enqueue_timeout_backlog ?i (bl_generation entry) m1 else m1"
      have m2: "task_inv mac now ?m2" "stable m ?m2"
        using m1(2,3) by (simp_all add: stable_def enqueue_timeout_backlog_def)
      from "1.IH"(1) [OF b(1,2) refl refl True m1(1) refl m2(1)] True b m1(1) m2(2) show ?thesis
        by (subst drain_backlog.simps) (auto simp: Let_def dest: stable_trans)
    next
      case no: False
      from "1.IH"(2) [OF b(1,2) refl refl no inv] no b s show ?thesis
        by (subst drain_backlog.simps) (auto simp: Let_def dest: stable_trans)
    qed
  qed
qed

lemma timeout_pass_inv:
  assumes "task_inv mac now m"
  shows "\<exists>m' b. poll_timeout_pass to_text ios at m = Some (m', b) \<and> task_inv mac now m' \<and> stable m m'"
proof (cases "mt_targets m = []")
  case True
  then have "poll_timeout_pass to_text ios at m = Some (m, False)" by (simp add: poll_timeout_pass_def)
  with assms show ?thesis by (auto simp: stable_def)
next
  case False
  obtain m1 n where m1: "timeout_scan to_text ios at (min (length (mt_targets m)) TIMEOUT_WORK_BUDGET) TIMEOUT_WORK_BUDGET m = Some (m1, n)"
      "task_inv mac now m1" "stable m m1"
    using timeout_scan_inv [OF assms False] by blast
  with drain_backlog_inv [OF m1(2), of to_text ios at n] False show ?thesis
    by (auto simp: poll_timeout_pass_def dest: stable_trans)
qed

lemma target_pass_inv:
  "task_inv mac now m \<Longrightarrow> mt_targets m \<noteq> [] \<Longrightarrow>
     \<exists>m' b. target_pass mac to_text ios at work immediate m = Some (m', b) \<and> task_inv mac now m' \<and> stable m m'"
proof (induction work arbitrary: immediate m)
  case 0
  then show ?case by (simp add: stable_def)
next
  case (Suc work)
  let ?i = "mt_cursor m mod length (mt_targets m)"
  let ?m = "m\<lparr>mt_cursor := Suc (mt_cursor m) mod length (mt_targets m), mt_scan_remaining := mt_scan_remaining m - 1\<rparr>"
  have inv: "task_inv mac now ?m" using Suc.prems by simp
  obtain m1 b where m1: "poll_target mac to_text (ios work) ?i at ?m = Some (m1, b)" "task_inv mac now m1" "stable ?m m1"
    using kept_stable [OF poll_target_kept [OF inv, of ?i]] Suc.prems(2) by fastforce
  have "stable m m1" "mt_targets m1 \<noteq> []" using m1(3) Suc.prems(2) by (auto simp: stable_def)
  with Suc.IH [OF m1(2), of "immediate \<or> b"] m1(1) show ?case by (auto simp: Let_def dest: stable_trans)
qed

lemma poll_target_pass_inv:
  assumes "task_inv mac now m"
  shows "\<exists>m' b. poll_target_pass mac to_text ios at m = Some (m', b) \<and> task_inv mac now m' \<and> stable m m'"
proof (cases "mt_targets m = []")
  case True
  then have "poll_target_pass mac to_text ios at m = Some (m, False)" by (simp add: poll_target_pass_def)
  with assms show ?thesis by (auto simp: stable_def)
next
  case False
  let ?m = "if mt_scan_remaining m = 0 then m\<lparr>mt_scan_remaining := length (mt_targets m)\<rparr> else m"
  have "task_inv mac now ?m" "mt_targets ?m \<noteq> []" "stable m ?m" using assms False by (simp_all add: stable_def)
  with target_pass_inv [of mac now ?m to_text ios at "min (mt_scan_remaining ?m) TARGET_WORK_BUDGET" False] False
  show ?thesis by (auto simp: poll_target_pass_def Let_def dest: stable_trans)
qed


section \<open>Sends\<close>

text \<open>The sends of a poll take their turns in the order in which the clock runs: turn \<open>k\<close>, counted from
  the last one, starts at \<open>tick (Suc k)\<close> and is over at \<open>tick k\<close>.\<close>

definition sends_ordered :: "(nat \<Rightarrow> instant) \<Rightarrow> (nat \<Rightarrow> pacing_io) \<Rightarrow> bool" where
  "sends_ordered tick ios \<longleftrightarrow> (\<forall>k < TARGET_WORK_BUDGET. tick (Suc k) \<le> tick k \<and>
     list_all (\<lambda>(_, io). tick (Suc k) \<le> ct_mono (si_anchor io) \<and> ct_mono (si_anchor io) \<le> tick k) (pc_script (ios k)))"

lemma clock_turn:
  assumes "sends_ordered tick ios" "k \<le> j"
  shows "j \<le> TARGET_WORK_BUDGET \<Longrightarrow> tick j \<le> tick k"
  using assms(2)
proof (induction j rule: dec_induct)
  case (step n)
  then have "tick (Suc n) \<le> tick n" using assms(1) by (simp add: sends_ordered_def)
  with step show ?case by simp
qed simp

lemma clock_down: "sends_ordered tick ios \<Longrightarrow> k \<le> TARGET_WORK_BUDGET \<Longrightarrow> tick k \<le> tick 0"
  by (rule clock_turn) simp_all

lemma ordered_send:
  assumes "sends_ordered tick ios" "work < TARGET_WORK_BUDGET" "task_inv mac (tick (Suc work)) m" "i < length (mt_targets m)"
  shows "\<exists>m' q. poll_one_send mac to_text (ios work) i at spacing m = Some (m', q) \<and> task_inv mac (tick work) m' \<and> stable m m'"
  using assms(1,2) by (intro kept_stable one_send_kept [OF assms(3,4)]) (simp_all add: sends_ordered_def)

lemma stagger_scan_inv:
  assumes "sends_ordered tick ios"
  shows "work \<le> TARGET_WORK_BUDGET \<Longrightarrow> task_inv mac (tick work) m \<Longrightarrow> mt_targets m \<noteq> [] \<Longrightarrow>
     \<exists>m' b. stagger_scan mac to_text ios at work m = Some (m', b) \<and> task_inv mac (tick 0) m' \<and> stable m m'"
proof (induction work arbitrary: m)
  case 0
  then show ?case by (simp add: stable_def)
next
  case (Suc work)
  let ?i = "mt_send_cursor m mod length (mt_targets m)"
  let ?m = "m\<lparr>mt_send_cursor := Suc (mt_send_cursor m) mod length (mt_targets m), mt_stagger_remaining := mt_stagger_remaining m - 1\<rparr>"
  have inv: "task_inv mac (tick (Suc work)) ?m" and s: "stable m ?m" and i: "?i < length (mt_targets ?m)"
    using Suc.prems by (simp_all add: stable_def)
  obtain m1 q where m1: "poll_one_send mac to_text (ios work) ?i at (active_stagger_spacing ?m) ?m = Some (m1, q)"
      "task_inv mac (tick work) m1" "stable ?m m1"
    using ordered_send [OF assms _ inv i] Suc.prems(1) by (meson Suc_le_lessD)
  note s1 = stable_trans [OF s m1(3)]
  have ne: "mt_targets m1 \<noteq> []" "mt_targets ?m \<noteq> []" using s1 Suc.prems(3) by (auto simp: stable_def)
  have skip: "task_inv mac (tick work) ?m"
    using task_inv_later [OF inv clock_turn [OF assms _ Suc.prems(1)]] by simp
  have low: "work \<le> TARGET_WORK_BUDGET" using Suc.prems(1) by simp
  note rec1 = Suc.IH [OF low m1(2) ne(1)] and rec2 = Suc.IH [OF low skip ne(2)]
  have stop: "task_inv mac (tick 0) (m1\<lparr>mt_stagger_remaining := 0\<rparr>)" "stable m (m1\<lparr>mt_stagger_remaining := 0\<rparr>)"
    using task_inv_later [OF m1(2) clock_down [OF assms low]] s1 by (simp_all add: stable_def)
  consider "\<not> is_paced_active (mt_targets ?m ! ?i)" | "is_paced_active (mt_targets ?m ! ?i)" "q = NotAttempted"
    | "is_paced_active (mt_targets ?m ! ?i)" "q \<noteq> NotAttempted" by blast
  then show ?case
  proof cases
    case 1
    then have "stagger_scan mac to_text ios at (Suc work) m = stagger_scan mac to_text ios at work ?m" by (simp add: Let_def)
    with rec2 stable_trans [OF s] show ?thesis by auto
  next
    case 2
    then have "stagger_scan mac to_text ios at (Suc work) m = stagger_scan mac to_text ios at work m1"
      using m1(1) by (simp add: Let_def)
    with rec1 stable_trans [OF s1] show ?thesis by auto
  next
    case 3
    then have "stagger_scan mac to_text ios at (Suc work) m = Some (m1\<lparr>mt_stagger_remaining := 0\<rparr>, send_moved q)"
      using m1(1) by (simp add: Let_def)
    with stop show ?thesis by auto
  qed
qed

lemma burst_scan_inv:
  assumes "sends_ordered tick ios"
  shows "work \<le> TARGET_WORK_BUDGET \<Longrightarrow> task_inv mac (tick work) m \<Longrightarrow> mt_targets m \<noteq> [] \<Longrightarrow>
     \<exists>m' b. burst_scan mac to_text ios at work any m = Some (m', b) \<and> task_inv mac (tick 0) m' \<and> stable m m'"
proof (induction work arbitrary: any m)
  case 0
  then show ?case by (simp add: stable_def)
next
  case (Suc work)
  let ?i = "mt_send_cursor m mod length (mt_targets m)"
  let ?m = "m\<lparr>mt_send_cursor := Suc (mt_send_cursor m) mod length (mt_targets m), mt_burst_remaining := mt_burst_remaining m - 1\<rparr>"
  have inv: "task_inv mac (tick (Suc work)) ?m" and s: "stable m ?m" and i: "?i < length (mt_targets ?m)"
    using Suc.prems by (simp_all add: stable_def)
  obtain m1 q where m1: "poll_one_send mac to_text (ios work) ?i at None ?m = Some (m1, q)"
      "task_inv mac (tick work) m1" "stable ?m m1"
    using ordered_send [OF assms _ inv i] Suc.prems(1) by (meson Suc_le_lessD)
  note s1 = stable_trans [OF s m1(3)]
  have "mt_targets m1 \<noteq> []" using s1 Suc.prems(3) by (auto simp: stable_def)
  moreover have "work \<le> TARGET_WORK_BUDGET" using Suc.prems(1) by simp
  ultimately have rec: "\<exists>m' b. burst_scan mac to_text ios at work (any \<or> send_moved q) m1 = Some (m', b) \<and>
      task_inv mac (tick 0) m' \<and> stable m1 m'"
    using Suc.IH m1(2) by blast
  have "burst_scan mac to_text ios at (Suc work) any m = burst_scan mac to_text ios at work (any \<or> send_moved q) m1"
    using m1(1) by (simp add: Let_def)
  with rec stable_trans [OF s1] show ?case by auto
qed

lemma sends_inv:
  assumes "sends_ordered tick ios" "task_inv mac (tick TARGET_WORK_BUDGET) m"
  shows "\<exists>m' b. poll_staggered_send mac to_text ios at m = Some (m', b) \<and> task_inv mac (tick 0) m' \<and> stable m m'"
    and "\<exists>m' b. poll_burst_sends mac to_text ios at m = Some (m', b) \<and> task_inv mac (tick 0) m' \<and> stable m m'"
proof -
  have early: "task_inv mac (tick k) m" if "k \<le> TARGET_WORK_BUDGET" for k
    using task_inv_later [OF assms(2) clock_turn [OF assms(1) that]] by simp
  have idle: "task_inv mac (tick 0) m" "stable m m" using early by (simp_all add: stable_def)
  show "\<exists>m' b. poll_staggered_send mac to_text ios at m = Some (m', b) \<and> task_inv mac (tick 0) m' \<and> stable m m'"
  proof (cases "active_count m = 0 \<or> (case mt_send_gate m of None \<Rightarrow> False | Some gate \<Rightarrow> at < gate)")
    case True
    then have "poll_staggered_send mac to_text ios at m = Some (m, False)" by (simp only: poll_staggered_send_def if_True)
    with idle show ?thesis by auto
  next
    case False
    let ?m = "if mt_stagger_remaining m = 0 then m\<lparr>mt_stagger_remaining := length (mt_targets m)\<rparr> else m"
    let ?w = "min (mt_stagger_remaining ?m) TARGET_WORK_BUDGET"
    have ne: "mt_targets ?m \<noteq> []" using False by (auto simp: active_count_def)
    have inv: "task_inv mac (tick ?w) ?m" using early by simp
    have "poll_staggered_send mac to_text ios at m = stagger_scan mac to_text ios at ?w ?m"
      using False by (simp only: poll_staggered_send_def if_False Let_def)
    with stagger_scan_inv [OF assms(1) _ inv ne, of to_text at] show ?thesis by (auto simp: stable_def)
  qed
  show "\<exists>m' b. poll_burst_sends mac to_text ios at m = Some (m', b) \<and> task_inv mac (tick 0) m' \<and> stable m m'"
  proof (cases "mt_targets m = []")
    case True
    then have "poll_burst_sends mac to_text ios at m = Some (m, False)" by (simp add: poll_burst_sends_def)
    with idle show ?thesis by auto
  next
    case False
    let ?m = "if mt_burst_remaining m = 0 then m\<lparr>mt_burst_remaining := length (mt_targets m)\<rparr> else m"
    let ?w = "min (mt_burst_remaining ?m) TARGET_WORK_BUDGET"
    have ne: "mt_targets ?m \<noteq> []" using False by simp
    have inv: "task_inv mac (tick ?w) ?m" using early by simp
    have "poll_burst_sends mac to_text ios at m = burst_scan mac to_text ios at ?w False ?m"
      using False by (simp only: poll_burst_sends_def if_False Let_def)
    with burst_scan_inv [OF assms(1) _ inv ne, of to_text at False] show ?thesis by (auto simp: stable_def)
  qed
qed


section \<open>Updates\<close>

definition left_outcome :: "managed_target_config list \<Rightarrow> target_runtime \<Rightarrow> target_outcome" where
  "left_outcome incoming t = target_outcome_of (end_reason_of (the (retirement_of incoming t))) None (withdraw incoming t)"

definition leaves_live :: "managed_target_config list \<Rightarrow> target_runtime \<Rightarrow> bool" where
  "leaves_live incoming t \<longleftrightarrow> leaves_now incoming t \<and> \<not> is_terminal_phase (tr_phase t)"

lemma left_outcome_target [simp]: "to_target (left_outcome incoming t) = tr_instance t"
  by (simp add: left_outcome_def target_outcome_of_def)

text \<open>Retiring records the targets that end on the spot, in their order.\<close>

lemma fold_retire_outcomes:
  assumes "fold (retire at) (plan_retirements incoming (length pre) ts) (m, f) = (m', f')" "mt_targets m = pre @ ts"
  shows "finished f' = finished f @ map (left_outcome incoming) (filter (leaves_live incoming) ts) \<and>
     mt_events m' = mt_events m \<and>
     mt_history m' = fold history_record (map (left_outcome incoming) (filter (leaves_live incoming) ts)) (mt_history m)"
  using assms
proof (induction ts arbitrary: pre m f)
  case (Cons t ts)
  show ?case
  proof (cases "retirement_of incoming t")
    case None
    with Cons.prems Cons.IH [of "pre @ [t]" m f] show ?thesis by (simp add: leaves_live_def leaves_now_def)
  next
    case (Some reason)
    define r where "r = \<lparr>pr_index = length pre, pr_reason = reason, pr_synchronous = synchronously_retireable (tr_phase t)\<rparr>"
    obtain m1 f1 where m1: "retire at r (m, f) = (m1, f1)" by fastforce
    have here: "mt_targets m ! length pre = t" using Cons.prems(2) by simp
    have w: "withdraw incoming t = t\<lparr>tr_membership := Withdrawn reason\<rparr>" using Some by (simp add: withdraw_def)
    have one: "finished f1 = finished f @ map (left_outcome incoming) (filter (leaves_live incoming) [t]) \<and> mt_events m1 = mt_events m \<and>
        mt_history m1 = fold history_record (map (left_outcome incoming) (filter (leaves_live incoming) [t])) (mt_history m)"
      using m1 Some here
      by (auto simp: retire_def r_def Let_def leaves_live_def leaves_now_def left_outcome_def w stagger_target_removed_def split: if_splits)
    have "mt_targets m1 = (pre @ [withdraw incoming t]) @ ts"
      using retire_keeps(5) [OF m1] Cons.prems(2) w by (simp add: r_def)
    with Cons.IH [of "pre @ [withdraw incoming t]" m1 f1] Cons.prems(1) Some m1 one show ?thesis
      by (simp add: r_def split: if_splits)
  qed
qed simp

lemma publish_all_events: "mt_events (publish_all es m) = mt_events m @ es" "mt_history (publish_all es m) = mt_history m"
  unfolding publish_all_def by (induction es arbitrary: m; simp add: publish_event_def)+

lemma finished_changes [simp]: "(\<And>t. finished [f t] = []) \<Longrightarrow> finished (map f ts) = []"
proof (induction ts)
  case (Cons t ts)
  then show ?case using finished_append [of "[f t]" "map f ts"] by simp
qed simp

lemma rebase_other [simp]:
  "mt_events (rebase_target_cursors m) = mt_events m" "mt_history (rebase_target_cursors m) = mt_history m"
  by (simp_all add: rebase_target_cursors_def Let_def)

lemma apply_targets_outcomes:
  assumes "apply_targets at incoming m = (m', Ok x)"
  shows "finished (mt_events m') = finished (mt_events m) @ map (left_outcome incoming) (filter (leaves_live incoming) (mt_targets m))"
    and "mt_history m' = fold history_record (map (left_outcome incoming) (filter (leaves_live incoming) (mt_targets m))) (mt_history m)"
proof -
  obtain plan where plan: "plan_targets incoming m = Ok plan"
    using assms by (cases "plan_targets incoming m") (auto simp: apply_targets_def)
  then have rets: "up_retirements plan = plan_retirements incoming 0 (mt_targets m)"
    by (auto simp: plan_targets_def Let_def result_simps split: if_splits)
  obtain m1 f1 where m1: "fold (retire at) (up_retirements plan) (m, []) = (m1, f1)" by fastforce
  note out = fold_retire_outcomes [where pre = "[]" and ts = "mt_targets m" and m = m, simplified, OF m1 [unfolded rets]]
  show "finished (mt_events m') = finished (mt_events m) @ map (left_outcome incoming) (filter (leaves_live incoming) (mt_targets m))"
    and "mt_history m' = fold history_record (map (left_outcome incoming) (filter (leaves_live incoming) (mt_targets m))) (mt_history m)"
    using assms [unfolded apply_targets_def plan sum.case Let_def m1 prod.case, THEN conjunct1 [OF prod.inject [THEN iffD1]], symmetric] out
    by (simp_all add: publish_all_events) (simp_all add: publish_event_def replace_status_def)
qed

lemma prepared_configs:
  "prepare_incoming shared ids incoming = Ok prepared \<Longrightarrow> (target, c) \<in> set prepared \<Longrightarrow> c = target_client_config shared target"
proof (induction incoming arbitrary: ids prepared)
qed (auto simp: Let_def result_simps split: if_splits)

lemma created_configs:
  "plan_created current start prepared = Ok (made, after) \<Longrightarrow> p \<in> set made \<Longrightarrow> (pt_target p, pt_client_config p) \<in> set prepared"
proof (induction prepared arbitrary: start made)
  case (Cons x prepared)
  from Cons.prems show ?case by (cases x) (auto simp: result_simps split: if_splits dest: Cons.IH)
qed simp

lemma planned_configs:
  assumes "plan_targets incoming m = Ok plan" "p \<in> set (up_created plan)"
  shows "pt_client_config p = target_client_config (mc_client (mt_config m)) (pt_target p)"
proof -
  obtain prepared made after where "prepare_incoming (mc_client (mt_config m)) [] incoming = Ok prepared"
      "plan_created (mt_targets m) (mt_next_generation m) prepared = Ok (made, after)" "up_created plan = made"
    using assms(1) by (auto simp: plan_targets_def Let_def result_simps split: if_splits)
  with assms(2) created_configs prepared_configs show ?thesis by metis
qed

lemma fresh_target_ok:
  "delays_ok config \<Longrightarrow> c = target_client_config (mc_client config) target \<Longrightarrow>
     target_ok mac config now (new_target_runtime config target c g)"
  by (simp add: target_ok_def new_target_runtime_def delays_ok_def)


lemma withdraw_ok: "target_ok mac config now t \<Longrightarrow> target_ok mac config now (withdraw incoming t)"
  by (simp add: target_ok_def withdraw_def split: option.split)

lemma accounted_withdraw [simp]:
  "accounted_target outcomes gone (withdraw incoming t) p = accounted_target outcomes gone t p"
  by (cases p) simp_all

lemma generation_unique: "managed_ok m \<Longrightarrow> a \<in> set (mt_targets m) \<Longrightarrow> b \<in> set (mt_targets m) \<Longrightarrow> generation_of a = generation_of b \<Longrightarrow> a = b"
  by (auto simp: managed_ok_def distinct_map dest: inj_onD)

lemma update_ledger:
  assumes ok: "managed_ok m" and l: "ledger m" and plan: "plan_targets incoming m = Ok plan"
    and targets: "mt_targets m' = map (withdraw incoming) (filter (\<lambda>t. \<not> leaves_now incoming t) (mt_targets m)) @
       map (create_target (mt_config m)) (up_created plan)"
    and rest: "mt_config m' = mt_config m" "mt_next_generation m' = up_next_generation plan"
    and out: "finished (mt_events m') = finished (mt_events m) @ map (left_outcome incoming) (filter (leaves_live incoming) (mt_targets m))"
      "mt_history m' = fold history_record (map (left_outcome incoming) (filter (leaves_live incoming) (mt_targets m))) (mt_history m)"
  shows "ledger m'"
proof -
  note p = plan_targets_Ok [OF plan]
  let ?gone = "generation_of ` set (filter (leaves_live incoming) (mt_targets m))"
  have ended: "ended m' = ended m \<union> ?gone"
    unfolding ended_def out(1) set_append image_Un set_map image_image left_outcome_target generation_of_def ..
  have old: "\<forall>t \<in> set (mt_targets m). accounted_target (set (finished (mt_events m))) (ended m) t (tr_phase t)"
      "\<forall>g \<in> ended m. g < mt_next_generation m"
      "distinct (map (\<lambda>outcome. ti_generation (to_target outcome)) (finished (mt_events m)))"
    using l by (simp_all add: ledger_def)
  have new: "generation_of t \<notin> ended m" if "t \<in> set (mt_targets m)" "leaves_live incoming t" for t
    using old(1) that by (auto simp: leaves_live_def accounted_live)
  have below: "\<forall>g \<in> ended m'. g < mt_next_generation m"
    using old(2) ok unfolding ended by (auto simp: managed_ok_def)
  have gens: "map (\<lambda>outcome. ti_generation (to_target outcome)) (map (left_outcome incoming) (filter (leaves_live incoming) (mt_targets m))) =
      map generation_of (filter (leaves_live incoming) (mt_targets m))"
    by (simp add: generation_of_def)
  have once: "distinct (map generation_of (filter (leaves_live incoming) (mt_targets m)))"
    using ok by (simp add: managed_ok_def distinct_map_filter)
  have "ended m \<inter> ?gone = {}" using new by auto
  then have "distinct (map (\<lambda>outcome. ti_generation (to_target outcome)) (finished (mt_events m')))"
    unfolding out(1) map_append gens distinct_append set_map ended_def [symmetric] using old(3) once by (intro conjI)
  moreover have "\<forall>g \<in> ended m'. g < mt_next_generation m'"
    using below p(4) unfolding rest(2) by (auto intro: less_le_trans)
  moreover have "accounted_target (set (finished (mt_events m'))) (ended m') t (tr_phase t)"
    if "t \<in> set (mt_targets m)" "\<not> leaves_now incoming t" for t
  proof (cases "is_terminal_phase (tr_phase t)")
    case True
    with old(1) that(1) show ?thesis unfolding out(1) by (auto simp: is_terminal_iff)
  next
    case False
    have "generation_of t \<notin> ?gone"
      using generation_unique [OF ok that(1)] that(2) by (auto simp: leaves_live_def)
    with False old(1) that(1) show ?thesis unfolding ended by (auto simp: accounted_live)
  qed
  moreover have "accounted_target (set (finished (mt_events m'))) (ended m') (create_target (mt_config m) q) (tr_phase (create_target (mt_config m) q))"
    if "q \<in> set (up_created plan)" for q
    using below p(3) that by (auto simp: create_target_def new_target_runtime_def generation_of_def leD)
  ultimately show ?thesis
    using l out rest(1) unfolding ledger_def targets by auto
qed

lemma apply_targets_inv:
  assumes "task_inv mac now m" "apply_targets at incoming m = (m', r)"
  shows "task_inv mac now m'"
proof (cases r)
  case (Inl e)
  then have "m' = m"
    using assms(2) by (cases "plan_targets incoming m") (auto simp: apply_targets_def Let_def split: prod.splits)
  then show ?thesis using assms(1) by simp
next
  case (Inr ok)
  obtain sequence status where ok: "ok = (sequence, status)" by fastforce
  note done' = assms(2) [unfolded Inr ok]
  have m: "managed_ok m" "ledger m" "delays_ok (mt_config m)" "\<forall>t \<in> set (mt_targets m). target_ok mac (mt_config m) now t"
    using assms(1) by (simp_all add: task_inv_def task_core_def)
  from apply_targets_Ok [OF done'] obtain plan where plan: "plan_targets incoming m = Ok plan"
    and targets: "mt_targets m' = map (withdraw incoming) (filter (\<lambda>t. \<not> leaves_now incoming t) (mt_targets m)) @
       map (create_target (mt_config m)) (up_created plan)"
    and rest: "mt_config m' = mt_config m" "mt_next_generation m' = up_next_generation plan"
      "mt_timeout_cursor m' < max 1 (length (mt_targets m')) \<or> mt_timeout_cursor m' = mt_timeout_cursor m \<and>
         filter (\<lambda>t. \<not> leaves_now incoming t) (mt_targets m) = mt_targets m"
    and status: "mt_status m' = task_snapshot m'" by metis
  have "target_ok mac (mt_config m) now (create_target (mt_config m) p)" if "p \<in> set (up_created plan)" for p
    unfolding create_target_def by (rule fresh_target_ok [OF m(3) planned_configs [OF plan that]])
  then have "\<forall>t \<in> set (mt_targets m'). target_ok mac (mt_config m) now t"
    unfolding targets using m(4) by (auto intro: withdraw_ok)
  then show ?thesis
    using managed_update_ok [OF m(1) plan targets rest] update_ledger [OF m(1,2) plan targets rest(1,2) apply_targets_outcomes [OF done']]
      m(3) rest(1) status by (simp add: task_inv_def task_core_def)
qed

lemma commands_inv: "task_inv mac now m \<Longrightarrow> process_commands budget commands m = (m', acks) \<Longrightarrow> task_inv mac now m'"
proof (induction budget commands m arbitrary: m' acks rule: process_commands.induct)
  case (3 budget at targets commands m)
  obtain m1 ack where m1: "process_command at targets m = (m1, ack)" by fastforce
  have "task_inv mac now m1"
    using m1 "3.prems"(1) apply_targets_inv by (auto simp: process_command_def split: if_splits)
  with "3.IH" [OF m1 [symmetric] refl] "3.prems"(2) m1 show ?case by (auto split: prod.splits)
qed simp_all

section \<open>Pruning and changes of phase\<close>

lemma prune_inv: "task_inv mac now m \<Longrightarrow> task_inv mac now (prune_undesired_terminal m)"
proof -
  let ?m = "m\<lparr>mt_targets := filter (\<lambda>t. is_desired t \<or> \<not> is_terminal_phase (tr_phase t)) (mt_targets m)\<rparr>"
  have desired: "(is_desired t \<or> \<not> is_terminal_phase (tr_phase t)) \<and> is_desired t \<longleftrightarrow> is_desired t" for t by blast
  assume inv: "task_inv mac now m"
  then have "managed_ok (rebase_target_cursors ?m)"
    using rebase_cursor [of ?m] unfolding task_inv_def task_core_def managed_ok_def
    by (auto simp: distinct_map_filter filter_filter desired intro: order_trans [OF length_filter_le])
  moreover have "ledger (rebase_target_cursors ?m)"
    using inv by (simp add: task_inv_def task_core_def ledger_def ended_def)
  ultimately have "task_core mac now (rebase_target_cursors ?m)"
    using inv by (simp add: task_inv_def task_core_def)
  with inv show ?thesis by (simp add: prune_undesired_terminal_def)
qed

lemma observe_stop_inv: "task_inv mac now m \<Longrightarrow> task_inv mac now (observe_stop m)"
  by (auto simp: observe_stop_def Let_def dest: task_inv_core)

lemma begin_running_inv: "task_inv mac now m \<Longrightarrow> begin_running runtime m = (m', r) \<Longrightarrow> task_inv mac now m'"
  by (auto simp: begin_running_def dest: task_inv_core split: if_splits)

lemma seal_inv: "task_inv mac now m \<Longrightarrow> seal requested buffered reason failed m = (m', acks, outcome) \<Longrightarrow> task_inv mac now m'"
proof -
  assume inv: "task_inv mac now m" and s: "seal requested buffered reason failed m = (m', acks, outcome)"
  have "task_core mac now (if requested then observe_stop m else m)"
    using task_inv_core [OF inv] task_inv_core [OF observe_stop_inv [OF inv]] by simp
  with s show ?thesis by (auto simp: seal_def Let_def)
qed

lemma abandon_inv: "task_inv mac now m \<Longrightarrow> task_inv mac now (abandon m)"
  by (auto simp: abandon_def dest: task_inv_core)

lemma request_stop_inv: "task_inv mac now m \<Longrightarrow> task_inv mac now (request_stop m)"
  by (simp add: request_stop_def)


section \<open>A poll of the task\<close>

abbreviation live :: "managed_task \<Rightarrow> bool" where
  "live m \<equiv> \<not> is_terminal_task (mt_phase m)"

lemma observe_stop_live [simp]: "live m \<Longrightarrow> live (observe_stop m)"
  by (simp add: observe_stop_def Let_def publish_event_def replace_status_def)

lemma check_stop_inv: "task_inv mac now m \<Longrightarrow> live m \<Longrightarrow> task_inv mac now (check_stop io k m) \<and> live (check_stop io k m)"
  by (simp add: check_stop_def observe_stop_inv)

lemma publish_all_phase [simp]: "mt_phase (publish_all es m) = mt_phase m"
  unfolding publish_all_def by (induction es arbitrary: m; simp add: publish_event_def)

lemma rebase_phase [simp]: "mt_phase (rebase_target_cursors m) = mt_phase m"
  by (simp add: rebase_target_cursors_def Let_def)

lemma retire_phase: "mt_phase (fst (fold (retire at) rs mf)) = mt_phase (fst mf)"
proof (induction rs arbitrary: mf)
  case (Cons r rs)
  have "mt_phase (fst (retire at r mf)) = mt_phase (fst mf)"
    by (cases mf) (simp add: retire_def Let_def stagger_target_removed_def)
  with Cons show ?case by simp
qed simp

lemma apply_targets_live: "live m \<Longrightarrow> apply_targets at incoming m = (m', r) \<Longrightarrow> live m'"
proof (cases "plan_targets incoming m")
  case (Inr plan)
  obtain m1 f1 where m1: "fold (retire at) (up_retirements plan) (m, []) = (m1, f1)" by fastforce
  then have "mt_phase m1 = mt_phase m" using retire_phase [of at "up_retirements plan" "(m, [])"] by simp
  moreover assume "live m" "apply_targets at incoming m = (m', r)"
  ultimately show ?thesis
    using Inr m1 by (auto simp: apply_targets_def Let_def publish_event_def replace_status_def split: if_splits)
qed (simp add: apply_targets_def)

lemma commands_live: "live m \<Longrightarrow> process_commands budget commands m = (m', acks) \<Longrightarrow> live m'"
proof (induction budget commands m arbitrary: m' acks rule: process_commands.induct)
  case (3 budget at targets commands m)
  obtain m1 ack where m1: "process_command at targets m = (m1, ack)" by fastforce
  have "live m1"
    using m1 "3.prems"(1) apply_targets_live [of m at targets m1 ack] by (auto simp: process_command_def split: if_splits)
  with "3.IH" [OF m1 [symmetric] refl] "3.prems"(2) m1 show ?case by (auto split: prod.splits)
qed simp_all

lemma poll_work_inv:
  assumes "task_inv mac now m" "sends_ordered tick (tk_sends io)" "now \<le> tick TARGET_WORK_BUDGET"
  shows "\<exists>m'. poll_work mac to_text io m = Some m' \<and> task_inv mac (tick 0) m' \<and> mt_phase m' = mt_phase m"
proof -
  obtain m1 b1 where m1: "poll_timeout_pass to_text (tk_timeouts io) (tk_now io) m = Some (m1, b1)" "task_inv mac now m1" "stable m m1"
    using timeout_pass_inv [OF assms(1)] by blast
  obtain m2 b2 where m2: "poll_target_pass mac to_text (tk_targets io) (tk_now io) m1 = Some (m2, b2)" "task_inv mac now m2" "stable m1 m2"
    using poll_target_pass_inv [OF m1(2)] by blast
  let ?m = "prune_undesired_terminal m2"
  have inv: "task_inv mac (tick TARGET_WORK_BUDGET) ?m" by (rule task_inv_later [OF prune_inv [OF m2(2)] assms(3)])
  have phase: "mt_phase ?m = mt_phase m"
    using m1(3) m2(3) by (simp add: stable_def prune_undesired_terminal_def replace_status_def)
  have idle: "task_inv mac (tick 0) ?m" using task_inv_later [OF inv clock_down [OF assms(2)]] by simp
  show ?thesis
    using sends_inv [OF assms(2) inv, of to_text "tk_now io"] idle phase
    by (auto simp: poll_work_def m1(1) m2(1) Let_def stable_def split: managed_pacing.split)
qed

text \<open>A sealed task carries the outcome of everything its targets did.\<close>

definition sealed :: "managed_task \<Rightarrow> bool" where
  "sealed m \<longleftrightarrow>
     (case mt_phase m of
        Completed outcome \<Rightarrow> all_targets_terminal m \<and> last (mt_events m) = MeCompleted outcome \<and>
          outcome = history_outcome (mo_end_reason outcome) (mt_applied_command_sequence m) (mt_history m)
      | TaskFailed outcome \<Rightarrow> last (mt_events m) = MeFailed outcome \<and>
          outcome = history_outcome (mo_end_reason outcome) (mt_applied_command_sequence m) (mt_history m)
      | _ \<Rightarrow> True)"

lemma live_sealed: "live m \<Longrightarrow> sealed m"
  by (cases "mt_phase m") (simp_all add: sealed_def)

lemma observe_stop_targets [simp]: "mt_targets (observe_stop m) = mt_targets m"
  by (simp add: observe_stop_def Let_def publish_event_def replace_status_def)

lemma seal_sealed:
  assumes "seal requested buffered reason failed m = (m', acks, outcome)" "\<not> failed \<Longrightarrow> all_targets_terminal m"
  shows "sealed m' \<and> mt_phase m' = (if failed then TaskFailed outcome else Completed outcome)"
proof -
  let ?m = "if requested then observe_stop m else m"
  have "mt_targets ?m = mt_targets m" by simp
  with assms show ?thesis
    by (auto simp: seal_def Let_def sealed_def all_targets_terminal_def publish_event_def replace_status_def history_outcome_def
        split: if_splits)
qed

definition poll_ok :: "mac_fun \<Rightarrow> instant \<Rightarrow> managed_task \<times> acknowledgement list \<times> managed_outcome poll \<Rightarrow> bool" where
  "poll_ok mac now res \<longleftrightarrow>
     (let (m, _, r) = res
      in task_inv mac now m \<and> sealed m \<and>
         (case r of Pending \<Rightarrow> live m | Ready outcome \<Rightarrow> mt_phase m = Completed outcome \<or> mt_phase m = TaskFailed outcome))"

lemma sealed_poll_ok:
  assumes "task_inv mac now m" "\<not> failed \<Longrightarrow> all_targets_terminal m"
  shows "poll_ok mac now (sealed_poll io reason failed m)"
proof -
  obtain m' acks outcome where s: "seal (tk_stop io 4) (tk_buffered io) reason failed m = (m', acks, outcome)" by (metis prod_cases3)
  show ?thesis
    using seal_inv [OF assms(1) s] seal_sealed [OF s assms(2)] by (simp add: sealed_poll_def s poll_ok_def Let_def)
qed

lemma finish_poll_ok:
  assumes "task_inv mac now m" "live m"
  shows "poll_ok mac now (finish_poll io m)"
proof -
  let ?m = "publish_event MeStopping (replace_status (m\<lparr>mt_phase := Stopping, mt_admission := begin_stopping (mt_admission m)\<rparr>))"
  have "task_inv mac now ?m" using task_inv_core [OF assms(1)] by simp
  moreover have "all_targets_terminal ?m \<longleftrightarrow> all_targets_terminal m" by (simp add: all_targets_terminal_def replace_status_def)
  moreover have "poll_ok mac now (m, [], Pending)" using assms live_sealed by (simp add: poll_ok_def)
  ultimately show ?thesis using assms(1) by (auto simp: finish_poll_def intro!: sealed_poll_ok)
qed

lemma task_poll_ok:
  assumes inv: "task_inv mac now m" and l: "live m" and send: "sends_ordered tick (tk_sends io)" "now \<le> tick TARGET_WORK_BUDGET"
  shows "\<exists>res. task_poll mac to_text io m = Some res \<and> poll_ok mac (tick 0) res"
proof -
  have later: "now \<le> tick 0" using send(2) clock_down [OF send(1), of TARGET_WORK_BUDGET] by simp
  obtain m1 r where m1: "(if mt_phase m = NotStarted \<and> \<not> tk_stop io 0 then begin_running (tk_runtime io) m
      else (if mt_phase m = NotStarted then observe_stop m else m, Ok ())) = (m1, r)" by fastforce
  have start: "task_inv mac now m1" "live m1"
    using m1 inv l begin_running_inv [of mac now m] observe_stop_inv [of mac now m]
    by (auto simp: begin_running_def publish_event_def replace_status_def split: if_splits)
  show ?thesis
  proof (cases r)
    case (Inl failure)
    then have "task_poll mac to_text io m = Some (sealed_poll io (DriverFailed failure) True m1)"
      using l m1 by (simp add: task_poll_def)
    with sealed_poll_ok [OF task_inv_later [OF start(1) later], of True] show ?thesis by simp
  next
    case (Inr u)
    obtain m2 acks where m2: "process_commands COMMAND_WORK_BUDGET (tk_commands io) (check_stop io 1 m1) = (m2, acks)" by fastforce
    have "task_inv mac now m2" "live m2"
      using check_stop_inv [OF start] commands_inv [OF _ m2] commands_live [OF _ m2] by simp_all
    note ready = check_stop_inv [OF this, of io 2]
    obtain m3 where m3: "poll_work mac to_text io (check_stop io 2 m2) = Some m3" "task_inv mac (tick 0) m3" "live m3"
      using poll_work_inv [OF _ send, of mac "check_stop io 2 m2" to_text] ready by auto
    obtain m4 out4 r4 where m4: "finish_poll io (check_stop io 3 m3) = (m4, out4, r4)" by (metis prod_cases3)
    have "poll_ok mac (tick 0) (m4, out4, r4)"
      using finish_poll_ok [of mac "tick 0" "check_stop io 3 m3" io] check_stop_inv [OF m3(2,3), of io 3] m4 by simp
    moreover have "task_poll mac to_text io m = Some (m4, acks @ out4, r4)"
      using l m1 Inr m2 m3(1) m4 by (simp add: task_poll_def)
    ultimately show ?thesis by (simp add: poll_ok_def)
  qed
qed


section \<open>Runs\<close>

lemma initial_targets_ok:
  "initial_targets config ids start targets = Ok (runtimes, after) \<Longrightarrow> delays_ok config \<Longrightarrow> t \<in> set runtimes \<Longrightarrow>
     target_ok mac config now t"
proof (induction targets arbitrary: ids start runtimes)
qed (auto simp: Let_def result_simps fresh_target_ok split: if_splits)

lemma build_task_inv:
  assumes "build_task max_permits at config targets = Ok m"
  shows "task_inv mac now m \<and> live m"
proof -
  obtain runtimes after where init: "initial_targets config [] 1 targets = Ok (runtimes, after)"
    and valid: "validate_managed_config max_permits at config targets = Ok ()"
    and m: "mt_targets m = runtimes" "mt_config m = config" "mt_events m = []" "mt_phase m = NotStarted"
      "mt_history m = history_new (mc_outcome_history_limit config)"
    using assms by (auto simp: build_task_def result_simps)
  have d: "delays_ok config" using valid by (auto simp: validate_managed_config_def delays_ok_def split: if_splits)
  have "accounted_target (set (finished (mt_events m))) (ended m) t (tr_phase t)" if "t \<in> set runtimes" for t
    using initial_targets_pending [OF init that] by (auto simp: m ended_def)
  then have "ledger m" by (simp add: ledger_def m ended_def)
  with build_task_ok [OF assms] d initial_targets_ok [OF init d] show ?thesis
    by (simp add: task_inv_def task_core_def m)
qed

text \<open>The life of a task: it is built, polled with a clock that does not run backwards, asked to stop
  by a handle, and dropped.\<close>

inductive managed_run :: "mac_fun \<Rightarrow> (client_error \<Rightarrow> string) \<Rightarrow> instant \<Rightarrow> managed_task \<Rightarrow> bool"
  for mac :: mac_fun and to_text :: "client_error \<Rightarrow> string" where
  built: "build_task max_permits at config targets = Ok m \<Longrightarrow> managed_run mac to_text now m"
| polled: "managed_run mac to_text now m \<Longrightarrow> sends_ordered tick (tk_sends io) \<Longrightarrow> now \<le> tick TARGET_WORK_BUDGET \<Longrightarrow>
    task_poll mac to_text io m = Some (m', acks, r) \<Longrightarrow> managed_run mac to_text (tick 0) m'"
| stop_requested: "managed_run mac to_text now m \<Longrightarrow> managed_run mac to_text now (request_stop m)"
| dropped: "managed_run mac to_text now m \<Longrightarrow> managed_run mac to_text now (abandon m)"

lemma sealed_other [simp]: "sealed (request_stop m) = sealed m"
  by (simp add: sealed_def request_stop_def all_targets_terminal_def split: task_phase.split)

lemma abandon_sealed: "sealed m \<Longrightarrow> sealed (abandon m)"
  by (simp add: abandon_def) (simp add: sealed_def publish_event_def replace_status_def)

lemma managed_run_inv: "managed_run mac to_text now m \<Longrightarrow> task_inv mac now m \<and> sealed m"
proof (induction rule: managed_run.induct)
  case (built max_permits at config targets m now)
  then show ?case using build_task_inv live_sealed by blast
next
  case (polled now m tick io m' acks r)
  have "live m" using polled.hyps(4) by (auto simp: task_poll_def split: if_splits)
  with task_poll_ok [OF _ this polled.hyps(2,3), of mac to_text] polled show ?case by (auto simp: poll_ok_def)
next
  case (stop_requested now m)
  then show ?case by (simp add: request_stop_inv)
next
  case (dropped now m)
  then show ?case by (simp add: abandon_inv abandon_sealed)
qed

text \<open>The bounded loops in a form that evaluates with binary numbers.\<close>

lemma poll_open_loop_code [code]:
  "poll_open_loop mac budget ios st a =
     (case budget of
        0 \<Rightarrow> Some (a, st, Pending)
      | Suc budget \<Rightarrow>
          (case ios of
             [] \<Rightarrow> Some (a, st, Pending)
           | io # ios \<Rightarrow>
               (if aos_cleanup st \<noteq> None then poll_open_cleanup io st a
                else
                  let timeouts = op_timeouts (cc_open (sm_config (ac_machine a)))
                  in if length timeouts \<le> aos_attempt st then Some (a, st, Ready (Err OpenTimeout))
                     else
                       (case begin_attempt io timeouts st of
                          Inl e \<Rightarrow> Some (a, st, Ready (Err e))
                        | Inr st1 \<Rightarrow>
                            (case submit_request io st1 a of
                               None \<Rightarrow> None
                             | Some (a2, st2, FlowReturn r) \<Rightarrow> Some (a2, st2, r)
                             | Some (a2, st2, FlowContinue) \<Rightarrow> poll_open_loop mac budget ios st2 a2
                             | Some (a2, st2, FlowNext) \<Rightarrow>
                                 (case await_reply mac io st2 a2 of
                                    None \<Rightarrow> None
                                  | Some (a3, st3, FlowReturn r) \<Rightarrow> Some (a3, st3, r)
                                  | Some (a3, st3, _) \<Rightarrow> poll_open_loop mac budget ios st3 a3))))))"
  by (cases budget; cases ios; hypsubst; simp only: poll_open_loop.simps nat.case list.case)

lemma poll_recv_loop_code [code]:
  "poll_recv_loop mac budget ios a =
     (case budget of
        0 \<Rightarrow> Some (a, Pending)
      | Suc budget \<Rightarrow>
          (case ios of
             [] \<Rightarrow> Some (a, Pending)
           | io # ios \<Rightarrow>
               (case rp_ready io of
                  NotReady \<Rightarrow> Some (a, Pending)
                | ReadyError e \<Rightarrow> Some (a, Ready (Err (Socket e)))
                | IsReady \<Rightarrow>
                    (case rp_result io of
                       RecvError e \<Rightarrow>
                         if is_would_block e \<or> is_interrupted e then poll_recv_loop mac budget ios a
                         else Some (a, Ready (Err (Socket e)))
                     | RecvDatagram payload at meta \<Rightarrow> async_received mac io payload at meta a))))"
  by (cases budget; cases ios; hypsubst; simp only: poll_recv_loop.simps nat.case list.case)

lemma process_commands_code [code]:
  "process_commands budget commands m =
     (case budget of
        0 \<Rightarrow> (m, [])
      | Suc budget \<Rightarrow>
          (case commands of
             [] \<Rightarrow> (m, [])
           | (now, targets) # commands \<Rightarrow>
               let (m, ack) = process_command now targets m;
                   (m, acks) = process_commands budget commands m
               in (m, ack # acks)))"
  by (cases budget; cases commands) (auto simp: Let_def split: prod.split)

text \<open>A task with two targets that is asked to stop before its first poll.\<close>

definition test_clock_io :: clock_io where
  "test_clock_io = \<lparr>ck_finish = 10, ck_publish = 10, ck_drain = 10\<rparr>"

definition stopping_test_io :: task_io where
  "stopping_test_io =
     \<lparr>tk_runtime = True, tk_stop = (\<lambda>_. True), tk_commands = [], tk_buffered = 1, tk_now = 10,
      tk_timeouts = (\<lambda>_. (test_clock_io, ([], None))),
      tk_targets = (\<lambda>_. \<lparr>tio_clock = test_clock_io, tio_connect = Pending, tio_cancel = Inr 0, tio_open = [], tio_recv = [], tio_close = []\<rparr>),
      tk_sends = (\<lambda>_. \<lparr>pc_now = 10, pc_script = [], pc_accepted = 10, pc_skip = 10, pc_clock = test_clock_io\<rparr>)\<rparr>"

definition stopped_test_poll :: "(managed_task \<times> acknowledgement list \<times> managed_outcome poll) option" where
  "stopped_test_poll = task_poll flat_mac (\<lambda>_. []) stopping_test_io managed_test_task"

lemma test_run: "managed_run flat_mac (\<lambda>_. []) 0 managed_test_task"
  by (rule built [OF managed_test_built])

lemma test_sends: "sends_ordered (\<lambda>_. 10) (tk_sends stopping_test_io)"
  by (simp add: sends_ordered_def stopping_test_io_def)

lemma stopped_test_value:
  "\<exists>m outcome. stopped_test_poll = Some (m, [Err ApplyStopping], Ready outcome) \<and> mo_total outcome = 2 \<and>
     mo_end_reason outcome = StopRequested \<and> length (mt_targets m) = 2 \<and> mt_phase m = Completed outcome"
proof -
  have "(case stopped_test_poll of Some (m, [Inl ApplyStopping], Ready outcome) \<Rightarrow> mo_total outcome = 2 \<and>
     mo_end_reason outcome = StopRequested \<and> length (mt_targets m) = 2 \<and> mt_phase m = Completed outcome | _ \<Rightarrow> False)"
    by code_simp
  then show ?thesis by (auto split: option.splits prod.splits list.splits sum.splits poll.splits managed_apply_error.splits)
qed

text \<open>C11: whatever the sockets, the clock and the callers do, a target generation of the managed client
  ends at most once. The published outcomes, the history and the status always agree; a target that
  is over carries the outcome that was published for it, one that is not has none; retry delays stay
  between their bounds; and a task that has completed has ended all its targets and reports exactly
  what its history counted.\<close>

theorem managed_outcomes_once:
  assumes "managed_run mac to_text now m"
  shows "distinct (map (\<lambda>outcome. ti_generation (to_target outcome)) (finished (mt_events m))) \<and>
    mt_history m = fold history_record (finished (mt_events m)) (history_new (mc_outcome_history_limit (mt_config m))) \<and>
    mt_status m = task_snapshot m \<and> managed_ok m \<and>
    (\<forall>t \<in> set (mt_targets m).
       (case tr_phase t of
          Terminal outcome \<Rightarrow> outcome \<in> set (finished (mt_events m)) \<and> to_target outcome = tr_instance t
        | _ \<Rightarrow> \<forall>outcome \<in> set (finished (mt_events m)). ti_generation (to_target outcome) \<noteq> generation_of t) \<and>
       mc_reconnect_initial_delay (mt_config m) \<le> tr_retry_delay t \<and> tr_retry_delay t \<le> mc_reconnect_max_delay (mt_config m)) \<and>
    (\<forall>outcome. mt_phase m = Completed outcome \<longrightarrow> all_targets_terminal m \<and> last (mt_events m) = MeCompleted outcome \<and>
       outcome = history_outcome (mo_end_reason outcome) (mt_applied_command_sequence m) (mt_history m))"
proof -
  have inv: "task_core mac now m" "mt_status m = task_snapshot m" "sealed m"
    using managed_run_inv [OF assms] by (simp_all add: task_inv_def)
  have "accounted_target (set (finished (mt_events m))) (ended m) t (tr_phase t) \<longleftrightarrow>
      (case tr_phase t of
         Terminal outcome \<Rightarrow> outcome \<in> set (finished (mt_events m)) \<and> to_target outcome = tr_instance t
       | _ \<Rightarrow> \<forall>outcome \<in> set (finished (mt_events m)). ti_generation (to_target outcome) \<noteq> generation_of t)" for t
  proof -
    have "generation_of t \<notin> ended m \<longleftrightarrow> (\<forall>outcome \<in> set (finished (mt_events m)). ti_generation (to_target outcome) \<noteq> generation_of t)"
      by (auto simp: ended_def image_iff)
    then show ?thesis by (cases "tr_phase t") simp_all
  qed
  moreover have "\<forall>outcome. mt_phase m = Completed outcome \<longrightarrow> all_targets_terminal m \<and> last (mt_events m) = MeCompleted outcome \<and>
      outcome = history_outcome (mo_end_reason outcome) (mt_applied_command_sequence m) (mt_history m)"
    using inv(3) by (intro allI impI) (simp add: sealed_def)
  ultimately show ?thesis
    using inv(1,2) unfolding task_core_def ledger_def target_ok_def by simp
qed

theorem managed_outcomes_once_witness:
  "\<exists>m outcome. stopped_test_poll = Some (m, [Err ApplyStopping], Ready outcome) \<and> length (mt_targets m) = 2 \<and>
     all_targets_terminal m \<and> outcome = history_outcome StopRequested (mt_applied_command_sequence m) (mt_history m) \<and>
     distinct (map (\<lambda>outcome. ti_generation (to_target outcome)) (finished (mt_events m)))"
proof -
  obtain m outcome where p: "stopped_test_poll = Some (m, [Err ApplyStopping], Ready outcome)"
      "mo_end_reason outcome = StopRequested" "length (mt_targets m) = 2" "mt_phase m = Completed outcome"
    using stopped_test_value by blast
  have "managed_run flat_mac (\<lambda>_. []) 10 m"
    by (rule polled [OF test_run test_sends _ p(1) [unfolded stopped_test_poll_def]]) simp
  note facts = managed_outcomes_once [OF this]
  have "all_targets_terminal m \<and> outcome = history_outcome StopRequested (mt_applied_command_sequence m) (mt_history m)"
    using facts p(2,4) by metis
  with facts p(1,3) show ?thesis by blast
qed



end
