(* ===== verification/Ipdv.thy ===== *)
theory Ipdv
  imports Client_Timing
begin

text \<open>
  Inter-packet delay variation (\<open>irtt-stats/src/ipdv.rs\<close>): a tracker keeps the samples of replies by
  sequence number and reports every pair of adjacent numbers once, as soon as both are known. A
  limit bounds the retained samples; the oldest arrivals go first. Sequence numbers wrap; \<open>i128\<close>
  differences of nanosecond counts are integers.
\<close>

section \<open>Samples and pairs\<close>

record ipdv_sample =
  is_seq :: u32
  is_rtt_primary_ns :: int
  is_client_send_mono :: instant
  is_client_receive_mono :: instant
  is_client_send_wall_ns :: "int option"
  is_client_receive_wall_ns :: "int option"
  is_server_receive_mono_ns :: "i64 option"
  is_server_send_mono_ns :: "i64 option"
  is_server_receive_wall_ns :: "i64 option"
  is_server_send_wall_ns :: "i64 option"

record ipdv_tracker =
  it_samples :: "(u32, ipdv_sample) hash_table"
  it_sample_order :: "u32 list"
  it_completed_pairs :: "u32 set"
  it_sequence_limit :: "nat option"

record completed_ipdv_pair =
  cp_previous_seq :: u32
  cp_current_seq :: u32
  cp_rtt_ipdv_ns :: int
  cp_send_ipdv_ns :: "int option"
  cp_receive_ipdv_ns :: "int option"

definition ipdv_tracker_new :: "nat option \<Rightarrow> ipdv_tracker" where
  "ipdv_tracker_new limit =
     \<lparr>it_samples = [], it_sample_order = [], it_completed_pairs = {}, it_sequence_limit = limit\<rparr>"

definition instant_diff_ns :: "instant \<Rightarrow> instant \<Rightarrow> int" where
  "instant_diff_ns current previous =
     (case checked_duration_since current previous of
        Some diff \<Rightarrow> duration_ns_i128 diff
      | None \<Rightarrow> - duration_ns_i128 (nat (previous - current)))"

definition send_ipdv_ns :: "ipdv_sample \<Rightarrow> ipdv_sample \<Rightarrow> int option" where
  "send_ipdv_ns previous current =
     (case (is_server_receive_mono_ns previous, is_server_receive_mono_ns current) of
        (Some prev_server, Some cur_server) \<Rightarrow>
          Some (sint cur_server - sint prev_server -
                instant_diff_ns (is_client_send_mono current) (is_client_send_mono previous))
      | _ \<Rightarrow>
        (case (is_server_receive_wall_ns previous, is_server_receive_wall_ns current,
               is_client_send_wall_ns previous, is_client_send_wall_ns current) of
           (Some prev_server, Some cur_server, Some prev_client, Some cur_client) \<Rightarrow>
             Some (sint cur_server - sint prev_server - (cur_client - prev_client))
         | _ \<Rightarrow> None))"

definition receive_ipdv_ns :: "ipdv_sample \<Rightarrow> ipdv_sample \<Rightarrow> int option" where
  "receive_ipdv_ns previous current =
     (case (is_server_send_mono_ns previous, is_server_send_mono_ns current) of
        (Some prev_server, Some cur_server) \<Rightarrow>
          Some (instant_diff_ns (is_client_receive_mono current) (is_client_receive_mono previous) -
                (sint cur_server - sint prev_server))
      | _ \<Rightarrow>
        (case (is_server_send_wall_ns previous, is_server_send_wall_ns current,
               is_client_receive_wall_ns previous, is_client_receive_wall_ns current) of
           (Some prev_server, Some cur_server, Some prev_client, Some cur_client) \<Rightarrow>
             Some ((cur_client - prev_client) - (sint cur_server - sint prev_server))
         | _ \<Rightarrow> None))"

section \<open>The tracker\<close>

text \<open>The pair of two retained samples.\<close>

definition ipdv_pair :: "u32 \<Rightarrow> ipdv_sample \<Rightarrow> ipdv_sample \<Rightarrow> completed_ipdv_pair" where
  "ipdv_pair current_seq previous current =
     \<lparr>cp_previous_seq = current_seq - 1, cp_current_seq = current_seq,
      cp_rtt_ipdv_ns = is_rtt_primary_ns current - is_rtt_primary_ns previous,
      cp_send_ipdv_ns = send_ipdv_ns previous current,
      cp_receive_ipdv_ns = receive_ipdv_ns previous current\<rparr>"

definition try_pair :: "u32 \<Rightarrow> ipdv_tracker \<Rightarrow> completed_ipdv_pair option \<times> ipdv_tracker" where
  "try_pair current_seq t =
     (if current_seq \<in> it_completed_pairs t then (None, t)
      else
        let marked = insert current_seq (it_completed_pairs t)
        in case table_get (it_samples t) (current_seq - 1) of
             None \<Rightarrow> (None, t\<lparr>it_completed_pairs := marked - {current_seq}\<rparr>)
           | Some previous \<Rightarrow>
               (case table_get (it_samples t) current_seq of
                  None \<Rightarrow> (None, t\<lparr>it_completed_pairs := marked - {current_seq}\<rparr>)
                | Some current \<Rightarrow>
                    (Some (ipdv_pair current_seq previous current), t\<lparr>it_completed_pairs := marked\<rparr>)))"

fun enforce_loop ::
  "nat \<Rightarrow> u32 list \<Rightarrow> (u32, ipdv_sample) hash_table \<Rightarrow> u32 set \<Rightarrow>
     u32 list \<times> (u32, ipdv_sample) hash_table \<times> u32 set" where
  "enforce_loop limit [] samples completed = ([], samples, completed)"
| "enforce_loop limit (seq # order) samples completed =
     (if limit < table_len samples then
        (if table_get samples seq \<noteq> None
         then enforce_loop limit order (table_remove seq samples) (completed - {seq} - {seq + 1})
         else enforce_loop limit order samples completed)
      else (seq # order, samples, completed))"

definition enforce_sequence_limit :: "ipdv_tracker \<Rightarrow> ipdv_tracker" where
  "enforce_sequence_limit t =
     (case it_sequence_limit t of
        None \<Rightarrow> t
      | Some limit \<Rightarrow>
          let (order, samples, completed) =
                enforce_loop limit (it_sample_order t) (it_samples t) (it_completed_pairs t)
          in t\<lparr>it_sample_order := order, it_samples := samples, it_completed_pairs := completed\<rparr>)"

definition ipdv_insert :: "ipdv_sample \<Rightarrow> ipdv_tracker \<Rightarrow> completed_ipdv_pair list \<times> ipdv_tracker" where
  "ipdv_insert sample t =
     (let seq = is_seq sample;
          t1 = t\<lparr>it_samples := table_insert seq sample (it_samples t)\<rparr>
      in if table_get (it_samples t) seq \<noteq> None then ([], t1)
         else
           let t2 = enforce_sequence_limit (t1\<lparr>it_sample_order := it_sample_order t1 @ [seq]\<rparr>);
               (first, t3) = try_pair seq t2;
               (second, t4) = try_pair (seq + 1) t3
           in ((case first of None \<Rightarrow> [] | Some p \<Rightarrow> [p]) @ (case second of None \<Rightarrow> [] | Some p \<Rightarrow> [p]), t4))"

section \<open>The invariant\<close>

definition retained :: "ipdv_tracker \<Rightarrow> u32 set" where
  "retained t = {k. table_get (it_samples t) k \<noteq> None}"

definition adjacent :: "u32 set \<Rightarrow> u32 set" where
  "adjacent K = {c. c \<in> K \<and> c - 1 \<in> K}"

definition tracker_ok :: "ipdv_tracker \<Rightarrow> bool" where
  "tracker_ok t \<longleftrightarrow> table_wf (it_samples t) \<and> distinct (it_sample_order t) \<and>
     set (it_sample_order t) = retained t \<and> it_completed_pairs t = adjacent (retained t) \<and>
     (\<forall>limit. it_sequence_limit t = Some limit \<longrightarrow> table_len (it_samples t) \<le> limit)"

lemma tracker_ok_new: "tracker_ok (ipdv_tracker_new limit)"
  by (simp add: tracker_ok_def ipdv_tracker_new_def retained_def adjacent_def)

lemma u32_succ_neq: "(x :: u32) + 1 \<noteq> x" "(x :: u32) - 1 \<noteq> x"
  by (simp_all add: diff_eq_eq)

lemma adjacent_remove: "adjacent (K - {q}) = adjacent K - {q} - {q + 1}"
  by (auto simp: adjacent_def)

lemma adjacent_insert:
  "q \<notin> K \<Longrightarrow> adjacent (insert q K) =
     adjacent K \<union> (if q - 1 \<in> K then {q} else {}) \<union> (if q + 1 \<in> K then {q + 1} else {})"
  by (auto simp: adjacent_def u32_succ_neq diff_eq_eq)

text \<open>Evicting down to the limit keeps the order queue and the pairs in step with the samples.
  While the queue lists one more number than the pairs know of (the one just appended), the
  pairs are those of the others.\<close>

lemma enforce_loop_keeps:
  assumes "enforce_loop limit order samples completed = (order', samples', completed')"
    and "table_wf samples" "distinct order" "set order = {k. table_get samples k \<noteq> None}"
    and "completed = adjacent (set order - {new})"
  shows "table_wf samples' \<and> distinct order' \<and> set order' = {k. table_get samples' k \<noteq> None} \<and>
    completed' = adjacent (set order' - {new}) \<and> table_len samples' \<le> limit \<and> set order' \<subseteq> set order"
  using assms
proof (induction limit order samples completed rule: enforce_loop.induct)
  case (1 limit samples completed)
  then show ?case by (auto simp: tbl.len_zero_iff tbl.len_is_card)
next
  case (2 limit seq order samples completed)
  show ?case
  proof (cases "limit < table_len samples")
    case False
    then show ?thesis using 2 by auto
  next
    case True
    have present: "table_get samples seq \<noteq> None" using "2.prems"(4) by auto
    have keys: "set order = {k. table_get (table_remove seq samples) k \<noteq> None}"
    proof -
      have "{k. table_get (table_remove seq samples) k \<noteq> None} = {k. table_get samples k \<noteq> None} - {seq}"
        using "2.prems"(2) by (auto simp: tbl.get_remove)
      then show ?thesis using "2.prems"(3) by (simp only: "2.prems"(4) [symmetric]) auto
    qed
    have pairs: "completed - {seq} - {seq + 1} = adjacent (set order - {new})"
    proof -
      have "set order - {new} = set (seq # order) - {new} - {seq}" using "2.prems"(3) by auto
      then show ?thesis by (simp only: adjacent_remove "2.prems"(5))
    qed
    show ?thesis
      using "2.IH"(1) [OF True present _ _ _ keys pairs] "2.prems"(1-3) True present by auto
  qed
qed

lemma enforce_keeps:
  assumes "table_wf (it_samples t)" "distinct (it_sample_order t)" "set (it_sample_order t) = retained t"
    and "it_completed_pairs t = adjacent (retained t - {new})"
  defines "u \<equiv> enforce_sequence_limit t"
  shows "table_wf (it_samples u) \<and> distinct (it_sample_order u) \<and> set (it_sample_order u) = retained u \<and>
    it_completed_pairs u = adjacent (retained u - {new}) \<and> it_sequence_limit u = it_sequence_limit t \<and>
    (\<forall>limit. it_sequence_limit u = Some limit \<longrightarrow> table_len (it_samples u) \<le> limit) \<and>
    (it_sequence_limit t = None \<longrightarrow> u = t)"
proof (cases "it_sequence_limit t")
  case None
  then show ?thesis using assms by (simp add: enforce_sequence_limit_def)
next
  case (Some limit)
  obtain order samples completed where
    loop: "enforce_loop limit (it_sample_order t) (it_samples t) (it_completed_pairs t) = (order, samples, completed)"
    by (cases "enforce_loop limit (it_sample_order t) (it_samples t) (it_completed_pairs t)") auto
  then have u: "u = t\<lparr>it_sample_order := order, it_samples := samples, it_completed_pairs := completed\<rparr>"
    by (simp add: u_def enforce_sequence_limit_def Some)
  have k: "table_wf samples \<and> distinct order \<and> set order = {k. table_get samples k \<noteq> None} \<and>
    completed = adjacent (set order - {new}) \<and> table_len samples \<le> limit"
    using enforce_loop_keeps [OF loop assms(1,2), of new] assms(3,4) by (simp add: retained_def)
  have "retained u = set order" using k by (simp add: u retained_def)
  with k Some show ?thesis by (auto simp: u)
qed

lemma try_pair_cases:
  "try_pair c t =
     (if c \<notin> it_completed_pairs t \<and> c \<in> adjacent (retained t)
      then (Some (ipdv_pair c (the (table_get (it_samples t) (c - 1))) (the (table_get (it_samples t) c))),
            t\<lparr>it_completed_pairs := insert c (it_completed_pairs t)\<rparr>)
      else (None, t))"
proof -
  have "insert c (it_completed_pairs t) - {c} = it_completed_pairs t" if "c \<notin> it_completed_pairs t"
    using that by blast
  then show ?thesis
    by (auto simp: try_pair_def Let_def adjacent_def retained_def split: option.splits)
qed

definition pair_if :: "ipdv_tracker \<Rightarrow> u32 \<Rightarrow> completed_ipdv_pair list" where
  "pair_if t c =
     (case (table_get (it_samples t) (c - 1), table_get (it_samples t) c) of
        (Some previous, Some current) \<Rightarrow> [ipdv_pair c previous current]
      | _ \<Rightarrow> [])"

lemma retained_update [simp]:
  "retained (t\<lparr>it_completed_pairs := x\<rparr>) = retained t" "retained (t\<lparr>it_sample_order := y\<rparr>) = retained t"
  by (simp_all add: retained_def)

lemma adjacent_new:
  "it_completed_pairs t = adjacent (retained t - {q}) \<Longrightarrow>
     q \<notin> it_completed_pairs t \<and> q + 1 \<notin> it_completed_pairs t"
  by (auto simp: adjacent_def)

text \<open>The two attempts of an insertion report the pairs of the new number that are complete.\<close>

lemma try_both:
  assumes "it_completed_pairs t = adjacent (retained t - {q})"
    and "try_pair q t = (first, u)" "try_pair (q + 1) u = (second, v)"
  shows "(case first of None \<Rightarrow> [] | Some p \<Rightarrow> [p]) @ (case second of None \<Rightarrow> [] | Some p \<Rightarrow> [p]) =
      pair_if t q @ pair_if t (q + 1) \<and>
    v = t\<lparr>it_completed_pairs := adjacent (retained t)\<rparr>"
proof -
  have new: "q \<notin> it_completed_pairs t" "q + 1 \<notin> it_completed_pairs t"
    using adjacent_new [OF assms(1)] by auto
  have adj: "adjacent (retained t) = it_completed_pairs t \<union>
      (if q \<in> adjacent (retained t) then {q} else {}) \<union> (if q + 1 \<in> adjacent (retained t) then {q + 1} else {})"
    by (auto simp: assms(1) adjacent_def diff_eq_eq)
  have one: "(case fst (try_pair c t') of None \<Rightarrow> [] | Some p \<Rightarrow> [p]) = pair_if t c"
    if "c \<notin> it_completed_pairs t'" "it_samples t' = it_samples t" for c t'
    using that by (auto simp: try_pair_cases pair_if_def adjacent_def retained_def split: option.splits)
  have u: "u = (if q \<in> adjacent (retained t) then t\<lparr>it_completed_pairs := insert q (it_completed_pairs t)\<rparr> else t)"
    using assms(2) new by (auto simp: try_pair_cases)
  have new2: "q + 1 \<notin> it_completed_pairs u" using new by (auto simp: u u32_succ_neq)
  have v: "v = (if q + 1 \<in> adjacent (retained t) then u\<lparr>it_completed_pairs := insert (q + 1) (it_completed_pairs u)\<rparr> else u)"
    using assms(3) new2 by (auto simp: try_pair_cases u)
  have "v = t\<lparr>it_completed_pairs := adjacent (retained t)\<rparr>"
    by (subst adj) (auto simp: v u intro!: arg_cong [where f = "\<lambda>x. t\<lparr>it_completed_pairs := x\<rparr>"])
  then show ?thesis
    using one [of q t] one [of "q + 1" u] assms(2,3) new new2 by (simp add: u)
qed


lemma insert_known:
  assumes "tracker_ok t" "table_get (it_samples t) (is_seq s) \<noteq> None"
  shows "fst (ipdv_insert s t) = [] \<and> tracker_ok (snd (ipdv_insert s t)) \<and>
    retained (snd (ipdv_insert s t)) = retained t \<and>
    it_sequence_limit (snd (ipdv_insert s t)) = it_sequence_limit t \<and>
    it_samples (snd (ipdv_insert s t)) = table_insert (is_seq s) s (it_samples t)"
proof -
  let ?u = "t\<lparr>it_samples := table_insert (is_seq s) s (it_samples t)\<rparr>"
  have i: "ipdv_insert s t = ([], ?u)" using assms(2) by (simp add: ipdv_insert_def)
  have r: "retained ?u = retained t" using assms(2) by (auto simp: retained_def)
  obtain old where "table_get (it_samples t) (is_seq s) = Some old" using assms(2) by blast
  then have "table_len (it_samples ?u) = table_len (it_samples t)"
    using assms(1) by (simp add: tracker_ok_def tbl.len_insert_old)
  then show ?thesis using assms(1) by (simp add: i r tracker_ok_def)
qed

lemma insert_new:
  assumes "tracker_ok t" "table_get (it_samples t) (is_seq s) = None"
  defines "v \<equiv> snd (ipdv_insert s t)"
  shows "fst (ipdv_insert s t) = pair_if v (is_seq s) @ pair_if v (is_seq s + 1) \<and> tracker_ok v \<and>
    it_sequence_limit v = it_sequence_limit t \<and>
    (it_sequence_limit t = None \<longrightarrow> it_samples v = table_insert (is_seq s) s (it_samples t))"
proof -
  let ?q = "is_seq s"
  define t1 where "t1 = t\<lparr>it_samples := table_insert ?q s (it_samples t), it_sample_order := it_sample_order t @ [?q]\<rparr>"
  define u where "u = enforce_sequence_limit t1"
  have r1: "retained t1 = insert ?q (retained t)" by (auto simp: t1_def retained_def)
  have q: "?q \<notin> retained t" using assms(2) by (simp add: retained_def)
  have "table_wf (it_samples t1)" "distinct (it_sample_order t1)" "set (it_sample_order t1) = retained t1"
    using assms(1) q by (auto simp: r1 tracker_ok_def) (auto simp: t1_def)
  moreover have "it_completed_pairs t1 = adjacent (retained t1 - {?q})"
    using assms(1) q by (simp add: t1_def [THEN arg_cong [where f = it_completed_pairs]] r1 tracker_ok_def)
  ultimately have u: "table_wf (it_samples u) \<and> distinct (it_sample_order u) \<and> set (it_sample_order u) = retained u \<and>
    it_completed_pairs u = adjacent (retained u - {?q}) \<and> it_sequence_limit u = it_sequence_limit t1 \<and>
    (\<forall>limit. it_sequence_limit u = Some limit \<longrightarrow> table_len (it_samples u) \<le> limit) \<and>
    (it_sequence_limit t1 = None \<longrightarrow> u = t1)"
    unfolding u_def by (rule enforce_keeps)
  obtain first u' second u'' where tp: "try_pair ?q u = (first, u')" "try_pair (?q + 1) u' = (second, u'')"
    by (metis surj_pair)
  have b: "(case first of None \<Rightarrow> [] | Some p \<Rightarrow> [p]) @ (case second of None \<Rightarrow> [] | Some p \<Rightarrow> [p]) =
      pair_if u ?q @ pair_if u (?q + 1)" "u'' = u\<lparr>it_completed_pairs := adjacent (retained u)\<rparr>"
    using try_both [OF _ tp] u by auto
  have i: "ipdv_insert s t =
      ((case first of None \<Rightarrow> [] | Some p \<Rightarrow> [p]) @ (case second of None \<Rightarrow> [] | Some p \<Rightarrow> [p]), u'')"
    using assms(2) tp by (simp add: ipdv_insert_def Let_def u_def t1_def)
  then have v: "v = u\<lparr>it_completed_pairs := adjacent (retained u)\<rparr>" by (simp add: v_def b(2))
  then have "pair_if v = pair_if u" by (simp add: pair_if_def fun_eq_iff)
  then show ?thesis
    using u i b(1) by (simp add: v tracker_ok_def) (simp add: t1_def)
qed

lemma insert_keeps_ok:
  "tracker_ok t \<Longrightarrow> tracker_ok (snd (ipdv_insert s t)) \<and>
     it_sequence_limit (snd (ipdv_insert s t)) = it_sequence_limit t"
  using insert_known [of t s] insert_new [of t s] by (cases "table_get (it_samples t) (is_seq s)") auto

section \<open>Runs\<close>

fun ipdv_run :: "ipdv_sample list \<Rightarrow> ipdv_tracker \<Rightarrow> completed_ipdv_pair list \<times> ipdv_tracker" where
  "ipdv_run [] t = ([], t)"
| "ipdv_run (s # ss) t =
     (let (ps, u) = ipdv_insert s t; (qs, v) = ipdv_run ss u in (ps @ qs, v))"

lemma ipdv_run_ok:
  "tracker_ok t \<Longrightarrow> tracker_ok (snd (ipdv_run ss t)) \<and>
     it_sequence_limit (snd (ipdv_run ss t)) = it_sequence_limit t"
proof (induction ss arbitrary: t)
  case (Cons s ss)
  then show ?case using insert_keeps_ok [of t s] by (simp add: split_beta Let_def)
qed simp

definition samples_from :: "ipdv_sample set \<Rightarrow> ipdv_tracker \<Rightarrow> bool" where
  "samples_from S t \<longleftrightarrow> (\<forall>k s. table_get (it_samples t) k = Some s \<longrightarrow> s \<in> S \<and> is_seq s = k)"

definition exact_pair :: "ipdv_sample set \<Rightarrow> completed_ipdv_pair \<Rightarrow> bool" where
  "exact_pair S p \<longleftrightarrow> (\<exists>a \<in> S. \<exists>b \<in> S. is_seq b = cp_current_seq p \<and> is_seq a = cp_current_seq p - 1 \<and>
     p = ipdv_pair (is_seq b) a b)"

lemma pair_if_exact: "samples_from S t \<Longrightarrow> p \<in> set (pair_if t c) \<Longrightarrow> exact_pair S p"
proof -
  assume s: "samples_from S t" and "p \<in> set (pair_if t c)"
  then obtain a b where "table_get (it_samples t) (c - 1) = Some a" "table_get (it_samples t) c = Some b"
    "p = ipdv_pair c a b"
    by (cases "table_get (it_samples t) (c - 1)"; cases "table_get (it_samples t) c") (auto simp: pair_if_def)
  with s have "a \<in> S" "b \<in> S" "is_seq a = c - 1" "is_seq b = c" "cp_current_seq p = c" "p = ipdv_pair (is_seq b) a b"
    by (auto simp: samples_from_def ipdv_pair_def)
  then show ?thesis unfolding exact_pair_def by metis
qed

lemma current_of_pair_if: "map cp_current_seq (pair_if t c) = (if c \<in> adjacent (retained t) then [c] else [])"
  by (auto simp: pair_if_def ipdv_pair_def adjacent_def retained_def split: option.splits)

text \<open>One insertion into an unlimited tracker reports the pairs that become adjacent.\<close>

lemma insert_unlimited:
  assumes "tracker_ok t" "it_sequence_limit t = None" "samples_from S t" "s \<in> S"
  defines "ps \<equiv> fst (ipdv_insert s t)" and "u \<equiv> snd (ipdv_insert s t)"
  shows "retained u = insert (is_seq s) (retained t) \<and> samples_from S u \<and> (\<forall>p \<in> set ps. exact_pair S p) \<and>
    distinct (map cp_current_seq ps) \<and>
    set (map cp_current_seq ps) = adjacent (retained u) - adjacent (retained t)"
proof (cases "table_get (it_samples t) (is_seq s)")
  case None
  note n = insert_new [OF assms(1) None, folded ps_def u_def]
  have r: "retained u = insert (is_seq s) (retained t)" using n assms(2) by (auto simp: retained_def)
  have q: "is_seq s \<notin> retained t" using None by (simp add: retained_def)
  have sf: "samples_from S u" using assms(2-4) n by (auto simp: samples_from_def)
  have m: "map cp_current_seq ps = (if is_seq s \<in> adjacent (retained u) then [is_seq s] else []) @
      (if is_seq s + 1 \<in> adjacent (retained u) then [is_seq s + 1] else [])"
    using n by (simp add: current_of_pair_if)
  have "set (map cp_current_seq ps) = adjacent (retained u) - adjacent (retained t)"
    unfolding m r adjacent_insert [OF q] using q by (auto simp: adjacent_def u32_succ_neq)
  moreover have "distinct (map cp_current_seq ps)" unfolding m by (simp add: u32_succ_neq)
  moreover have "\<forall>p \<in> set ps. exact_pair S p" using n pair_if_exact [OF sf] by auto
  ultimately show ?thesis using r sf by blast
next
  case (Some old)
  then have "ps = []" "retained u = retained t" "it_samples u = table_insert (is_seq s) s (it_samples t)"
    using insert_known [OF assms(1), of s] by (simp_all add: ps_def u_def)
  moreover have "is_seq s \<in> retained t" using Some by (simp add: retained_def)
  ultimately show ?thesis using assms(3,4) by (auto simp: samples_from_def)
qed

lemma run_unlimited:
  assumes "tracker_ok t" "it_sequence_limit t = None" "samples_from S t" "set ss \<subseteq> S"
  shows "distinct (map cp_current_seq (fst (ipdv_run ss t))) \<and> (\<forall>p \<in> set (fst (ipdv_run ss t)). exact_pair S p) \<and>
    set (map cp_current_seq (fst (ipdv_run ss t))) = adjacent (retained t \<union> is_seq ` set ss) - adjacent (retained t)"
  using assms
proof (induction ss arbitrary: t)
  case Nil
  then show ?case by simp
next
  case (Cons s ss)
  let ?u = "snd (ipdv_insert s t)"
  have i: "retained ?u = insert (is_seq s) (retained t) \<and> samples_from S ?u \<and>
      (\<forall>p \<in> set (fst (ipdv_insert s t)). exact_pair S p) \<and> distinct (map cp_current_seq (fst (ipdv_insert s t))) \<and>
      set (map cp_current_seq (fst (ipdv_insert s t))) = adjacent (retained ?u) - adjacent (retained t)"
    by (intro insert_unlimited) (use Cons.prems in auto)
  have ok: "tracker_ok ?u" "it_sequence_limit ?u = None" using insert_keeps_ok [of t s] Cons.prems by auto
  have h: "distinct (map cp_current_seq (fst (ipdv_run ss ?u))) \<and> (\<forall>p \<in> set (fst (ipdv_run ss ?u)). exact_pair S p) \<and>
    set (map cp_current_seq (fst (ipdv_run ss ?u))) = adjacent (retained ?u \<union> is_seq ` set ss) - adjacent (retained ?u)"
    by (rule Cons.IH) (use ok i Cons.prems in auto)
  have ps: "fst (ipdv_run (s # ss) t) = fst (ipdv_insert s t) @ fst (ipdv_run ss ?u)"
    by (simp add: split_beta Let_def)
  have mono: "adjacent A \<subseteq> adjacent B" if "A \<subseteq> B" for A B using that by (auto simp: adjacent_def)
  have sub: "adjacent (retained t) \<subseteq> adjacent (retained ?u)"
      "adjacent (retained ?u) \<subseteq> adjacent (retained ?u \<union> is_seq ` set ss)"
    using i by (auto intro!: mono)
  have un: "retained t \<union> is_seq ` set (s # ss) = retained ?u \<union> is_seq ` set ss" using i by auto
  show ?case
    unfolding ps un
  proof (intro conjI)
    show "distinct (map cp_current_seq (fst (ipdv_insert s t) @ fst (ipdv_run ss ?u)))"
      unfolding map_append distinct_append using i h by (simp only: set_map) auto
    show "\<forall>p \<in> set (fst (ipdv_insert s t) @ fst (ipdv_run ss ?u)). exact_pair S p"
      using i h by auto
    show "set (map cp_current_seq (fst (ipdv_insert s t) @ fst (ipdv_run ss ?u))) =
        adjacent (retained ?u \<union> is_seq ` set ss) - adjacent (retained t)"
      unfolding map_append set_append using i h sub by (simp only:) auto
  qed
qed


end
