(* ===== verification/Stats_Events.thy ===== *)
theory Stats_Events
  imports Ipdv
begin

text \<open>
  What the statistics collector sees of a client event (\<open>irtt-stats/src/normalization.rs\<close>), the
  counters it keeps (\<open>lib.rs\<close>) and the loss figures derived from them (\<open>loss.rs\<close>). Counters are
  64-bit words: \<open>+= 1\<close> wraps in a release build after \<open>2 ^ 64\<close> events, byte counts saturate.
  Double-precision arithmetic is a parameter, \<open>f64_ops\<close>: the conversion of an integer, the
  product and the quotient.
\<close>

section \<open>Normalized events\<close>

record reply_sample =
  rs_bytes :: nat
  rs_rtt_raw_ns :: int
  rs_rtt_adjusted_ns :: "int option"
  rs_send_delay_ns :: "int option"
  rs_receive_delay_ns :: "int option"
  rs_server_processing_ns :: "int option"
  rs_received_count :: "u32 option"
  rs_received_window :: "u64 option"
  rs_ipdv :: ipdv_sample

datatype stats_event =
    is_SeSent: SeSent instant nat int "int option"
  | is_SeUniqueReply: SeUniqueReply instant bool reply_sample
  | is_SeDuplicateReply: SeDuplicateReply instant nat
  | is_SeLoss: SeLoss instant
  | is_SeWarning: SeWarning instant
  | is_SeUntrackedLate: SeUntrackedLate instant nat

fun stats_event_at :: "stats_event \<Rightarrow> instant" where
  "stats_event_at (SeSent at _ _ _) = at"
| "stats_event_at (SeUniqueReply at _ _) = at"
| "stats_event_at (SeDuplicateReply at _) = at"
| "stats_event_at (SeLoss at) = at"
| "stats_event_at (SeWarning at) = at"
| "stats_event_at (SeUntrackedLate at _) = at"

definition system_time_ns :: "system_time \<Rightarrow> int option" where
  "system_time_ns time =
     (if 0 \<le> time then Some (duration_ns_i128 (nat time)) else Some (- duration_ns_i128 (nat (- time))))"

text \<open>\<open>Option::or\<close>.\<close>

definition or_else :: "'a option \<Rightarrow> 'a option \<Rightarrow> 'a option" where
  "or_else a b = (case a of None \<Rightarrow> b | Some x \<Rightarrow> Some x)"

definition from_reply_parts ::
  "u32 \<Rightarrow> client_timestamp \<Rightarrow> client_timestamp \<Rightarrow> rtt_sample \<Rightarrow> server_timing option \<Rightarrow>
     one_way_delay_sample option \<Rightarrow> received_stats_sample option \<Rightarrow> nat \<Rightarrow> reply_sample" where
  "from_reply_parts seq sent received_at rtt server_timing one_way stats bytes =
     \<lparr>rs_bytes = bytes,
      rs_rtt_raw_ns = duration_ns_i128 (rtt_raw rtt),
      rs_rtt_adjusted_ns = rtt_adjusted rtt,
      rs_send_delay_ns = Option.bind one_way client_to_server,
      rs_receive_delay_ns = Option.bind one_way server_to_client,
      rs_server_processing_ns = map_option duration_ns_i128 (Option.bind server_timing st_processing),
      rs_received_count = Option.bind stats rss_count,
      rs_received_window = Option.bind stats rss_window,
      rs_ipdv =
        \<lparr>is_seq = seq, is_rtt_primary_ns = rtt_effective rtt,
         is_client_send_mono = ct_mono sent, is_client_receive_mono = ct_mono received_at,
         is_client_send_wall_ns = system_time_ns (ct_wall sent),
         is_client_receive_wall_ns = system_time_ns (ct_wall received_at),
         is_server_receive_mono_ns =
           Option.bind server_timing (\<lambda>t. or_else (st_receive_mono_ns t) (st_midpoint_mono_ns t)),
         is_server_send_mono_ns =
           Option.bind server_timing (\<lambda>t. or_else (st_send_mono_ns t) (st_midpoint_mono_ns t)),
         is_server_receive_wall_ns =
           Option.bind server_timing (\<lambda>t. or_else (st_receive_wall_ns t) (st_midpoint_wall_ns t)),
         is_server_send_wall_ns =
           Option.bind server_timing (\<lambda>t. or_else (st_send_wall_ns t) (st_midpoint_wall_ns t))\<rparr>\<rparr>"

fun normalize_event :: "client_event \<Rightarrow> stats_event option" where
  "normalize_event (EchoSent _ _ _ sent bytes send_call timer_error) =
     Some (SeSent (ct_mono sent) bytes (duration_ns_i128 send_call)
             (map_option duration_ns_i128 timer_error))"
| "normalize_event (EchoReply seq _ sent received_at rtt server_timing one_way stats bytes _) =
     Some (SeUniqueReply (ct_mono received_at) False
             (from_reply_parts seq sent received_at rtt server_timing one_way stats bytes))"
| "normalize_event
     (LateReply seq _ _ (Some sent) received_at (Some rtt) server_timing one_way stats bytes _) =
     Some (SeUniqueReply (ct_mono received_at) True
             (from_reply_parts seq sent received_at rtt server_timing one_way stats bytes))"
| "normalize_event (LateReply _ _ _ _ received_at _ _ _ _ bytes _) =
     Some (SeUntrackedLate (ct_mono received_at) bytes)"
| "normalize_event (DuplicateReply _ _ received_at bytes) =
     Some (SeDuplicateReply (ct_mono received_at) bytes)"
| "normalize_event (EchoLoss _ sent deadline) = Some (SeLoss (max deadline (ct_mono sent)))"
| "normalize_event (Warning _ _ at) = Some (SeWarning (ct_mono at))"
| "normalize_event (SessionStarted _) = None"
| "normalize_event (NoTestCompletedEvent _) = None"
| "normalize_event (SessionClosed _ _ _) = None"

section \<open>Counters\<close>

record event_counts =
  ec_sent_events :: u64
  ec_echo_replies :: u64
  ec_late_unique_replies :: u64
  ec_duplicate_replies :: u64
  ec_loss_events :: u64
  ec_warning_events :: u64
  ec_untracked_late_replies :: u64

record packet_counts =
  pc_packets_sent :: u64
  pc_packets_received :: u64
  pc_unique_replies :: u64
  pc_duplicates :: u64
  pc_late_packets :: u64
  pc_bytes_sent :: u64
  pc_bytes_received :: u64
  pc_server_packets_received :: "u64 option"
  pc_server_received_window :: "u64 option"

definition event_counts_default :: event_counts where
  "event_counts_default =
     \<lparr>ec_sent_events = 0, ec_echo_replies = 0, ec_late_unique_replies = 0, ec_duplicate_replies = 0,
      ec_loss_events = 0, ec_warning_events = 0, ec_untracked_late_replies = 0\<rparr>"

definition packet_counts_default :: packet_counts where
  "packet_counts_default =
     \<lparr>pc_packets_sent = 0, pc_packets_received = 0, pc_unique_replies = 0, pc_duplicates = 0,
      pc_late_packets = 0, pc_bytes_sent = 0, pc_bytes_received = 0,
      pc_server_packets_received = None, pc_server_received_window = None\<rparr>"

definition saturating_add_u64 :: "u64 \<Rightarrow> u64 \<Rightarrow> u64" where
  "saturating_add_u64 a b = (if unat a + unat b < 2 ^ 64 then a + b else - 1)"

definition saturating_mul_u64 :: "u64 \<Rightarrow> u64 \<Rightarrow> u64" where
  "saturating_mul_u64 a b = (if unat a * unat b < 2 ^ 64 then a * b else - 1)"

definition saturating_sub_u64 :: "u64 \<Rightarrow> u64 \<Rightarrow> u64" where
  "saturating_sub_u64 a b = (if b \<le> a then a - b else 0)"

lemma unat_max_u64: "unat (- 1 :: u64) = 2 ^ 64 - 1"
  by (simp add: unsigned_minus_1_eq_mask mask_eq_exp_minus_1)

lemma unat_saturating_add_u64: "unat (saturating_add_u64 a b) = min (unat a + unat b) (2 ^ 64 - 1)"
  by (simp add: saturating_add_u64_def unat_max_u64 unat_word_ariths(1) min_def)

lemma unat_saturating_mul_u64: "unat (saturating_mul_u64 a b) = min (unat a * unat b) (2 ^ 64 - 1)"
  by (simp add: saturating_mul_u64_def unat_max_u64 unat_word_ariths(2) min_def)

lemma unat_saturating_sub_u64: "unat (saturating_sub_u64 a b) = unat a - unat b"
  by (auto simp: saturating_sub_u64_def unat_sub word_le_nat_alt)

section \<open>Loss\<close>

record 'f f64_ops =
  f64_of_int :: "int \<Rightarrow> 'f"
  f64_mul :: "'f \<Rightarrow> 'f \<Rightarrow> 'f"
  f64_div :: "'f \<Rightarrow> 'f \<Rightarrow> 'f"

record 'f loss_stats =
  ls_lost_packets :: u64
  ls_upstream_loss_packets :: "int option"
  ls_downstream_loss_packets :: "int option"
  ls_packet_loss_percent :: 'f
  ls_upstream_loss_percent :: 'f
  ls_downstream_loss_percent :: 'f
  ls_duplicate_percent :: 'f
  ls_late_packets_percent :: 'f

definition percent :: "'f f64_ops \<Rightarrow> int \<Rightarrow> int \<Rightarrow> 'f" where
  "percent fl numerator denominator =
     f64_div fl (f64_mul fl (f64_of_int fl 100) (f64_of_int fl numerator)) (f64_of_int fl denominator)"

definition loss_stats_of :: "'f f64_ops \<Rightarrow> packet_counts \<Rightarrow> u64 option \<Rightarrow> 'f loss_stats" where
  "loss_stats_of fl packets server_received =
     (let lost = saturating_sub_u64 (pc_packets_sent packets) (pc_unique_replies packets);
          packet_loss_percent =
            (if pc_packets_sent packets = 0 then f64_of_int fl 0
             else if pc_unique_replies packets = 0 then f64_of_int fl 100
             else percent fl (uint lost) (uint (pc_packets_sent packets)));
          (upstream, upstream_percent, downstream, downstream_percent) =
            (case server_received of
               Some received \<Rightarrow>
                 let up = uint (pc_packets_sent packets) - uint received;
                     down = uint received - uint (pc_packets_received packets)
                 in (Some up,
                     if pc_packets_sent packets = 0 then f64_of_int fl 0
                     else percent fl up (uint (pc_packets_sent packets)),
                     Some down,
                     if received = 0 then f64_of_int fl 0 else percent fl down (uint received))
             | None \<Rightarrow> (None, f64_of_int fl 0, None, f64_of_int fl 0))
      in \<lparr>ls_lost_packets = lost, ls_upstream_loss_packets = upstream, ls_downstream_loss_packets = downstream,
          ls_packet_loss_percent = packet_loss_percent, ls_upstream_loss_percent = upstream_percent,
          ls_downstream_loss_percent = downstream_percent,
          ls_duplicate_percent =
            (if pc_packets_received packets = 0 then f64_of_int fl 0
             else percent fl (uint (pc_duplicates packets)) (uint (pc_packets_received packets))),
          ls_late_packets_percent =
            (if pc_packets_received packets = 0 then f64_of_int fl 0
             else percent fl (uint (pc_late_packets packets)) (uint (pc_packets_received packets)))\<rparr>)"

text \<open>No division by zero: the quotients the figures use have non-zero divisors, so they depend on
  the division of non-zero counts only. Directional losses are exact and add up to the difference
  of packets sent and received.\<close>

lemma loss_directions:
  assumes "server_received = Some n"
  shows "\<exists>up down. ls_upstream_loss_packets (loss_stats_of fl p server_received) = Some up \<and>
     ls_downstream_loss_packets (loss_stats_of fl p server_received) = Some down \<and>
     up + down = uint (pc_packets_sent p) - uint (pc_packets_received p)"
  by (simp add: assms loss_stats_of_def Let_def)

lemma loss_divisors_nonzero:
  assumes "\<And>x n. n \<noteq> 0 \<Longrightarrow> f64_div fl x (f64_of_int fl n) = f64_div fl' x (f64_of_int fl n)"
    and "f64_of_int fl = f64_of_int fl'" "f64_mul fl = f64_mul fl'"
  shows "loss_stats_of fl p r = loss_stats_of fl' p r"
proof -
  have pc: "percent fl a n = percent fl' a n" if "n \<noteq> 0" for a n
    using assms(1) [OF that] assms(2,3) by (simp add: percent_def)
  show ?thesis
    by (cases r) (simp_all add: loss_stats_of_def Let_def pc assms(2) unsigned_eq_0_iff)
qed

lemma unat_ucast_u32_u64 [simp]: "unat (ucast (n :: u32) :: u64) = unat n"
proof -
  have "unat n < 2 ^ 32" using unsigned_less [of n] by simp
  then show ?thesis by (simp add: unsigned_ucast_eq take_bit_nat_eq_self)
qed

end
