(* ===== verification/Stats_Core.thy ===== *)
theory Stats_Core
  imports Stats_Events
begin

text \<open>
  The cumulative statistics (\<open>irtt-stats/src/core.rs\<close>). The accumulators of a timing metric belong to
  the \<open>measurement_stats\<close> crate and are a parameter, \<open>time_ops\<close>: the two ways to create one, pushing
  a nanosecond value, and its snapshot. Nothing is assumed of them: the theorems say which values
  each accumulator was given and in which order.
\<close>

section \<open>State\<close>

datatype sample_mode = RunningOnly | Exact

datatype late_reply_mode = Measure | CountOnly

record ('a, 't) time_ops =
  ta_exact_unbounded :: 'a
  ta_running :: 'a
  ta_push_ns :: "int \<Rightarrow> 'a \<Rightarrow> 'a"
  ta_snapshot :: "'a \<Rightarrow> 't"

definition CONTINUOUS_SEQUENCE_LIMIT :: nat where
  "CONTINUOUS_SEQUENCE_LIMIT = 4096"

record 'a core_stats =
  cs_events :: event_counts
  cs_packets :: packet_counts
  cs_send_call :: 'a
  cs_timer_error :: 'a
  cs_rtt_primary :: 'a
  cs_rtt_raw :: 'a
  cs_rtt_adjusted :: 'a
  cs_ipdv_round_trip :: 'a
  cs_ipdv_send :: 'a
  cs_ipdv_receive :: 'a
  cs_send_delay :: 'a
  cs_receive_delay :: 'a
  cs_server_processing :: 'a
  cs_ipdv_tracker :: ipdv_tracker
  cs_late_replies :: late_reply_mode

record ipdv_pair_update =
  pu_previous_seq :: u32
  pu_current_seq :: u32
  pu_rtt_ipdv_ns :: int
  pu_send_ipdv_ns :: "int option"
  pu_receive_ipdv_ns :: "int option"
  pu_rtt_ipdv :: duration
  pu_send_ipdv :: "duration option"
  pu_receive_ipdv :: "duration option"

record event_stats_update =
  eu_contributed_sample :: bool
  eu_ipdv_pairs :: "ipdv_pair_update list"

definition event_stats_update_default :: event_stats_update where
  "event_stats_update_default = \<lparr>eu_contributed_sample = False, eu_ipdv_pairs = []\<rparr>"

definition core_stats_new :: "('a, 't) time_ops \<Rightarrow> sample_mode \<Rightarrow> late_reply_mode \<Rightarrow> 'a core_stats" where
  "core_stats_new ta mode late =
     (let metric = (case mode of Exact \<Rightarrow> ta_exact_unbounded ta | RunningOnly \<Rightarrow> ta_running ta);
          sequence_limit = (if mode = Exact then None else Some CONTINUOUS_SEQUENCE_LIMIT)
      in \<lparr>cs_events = event_counts_default, cs_packets = packet_counts_default,
          cs_send_call = metric, cs_timer_error = metric, cs_rtt_primary = metric, cs_rtt_raw = metric,
          cs_rtt_adjusted = metric, cs_ipdv_round_trip = metric, cs_ipdv_send = metric,
          cs_ipdv_receive = metric, cs_send_delay = metric, cs_receive_delay = metric,
          cs_server_processing = metric, cs_ipdv_tracker = ipdv_tracker_new sequence_limit,
          cs_late_replies = late\<rparr>)"

section \<open>Applying an event\<close>

definition push_opt :: "('a, 't) time_ops \<Rightarrow> int option \<Rightarrow> 'a \<Rightarrow> 'a" where
  "push_opt ta value acc = (case value of None \<Rightarrow> acc | Some ns \<Rightarrow> ta_push_ns ta ns acc)"

definition apply_sent ::
  "('a, 't) time_ops \<Rightarrow> nat \<Rightarrow> int \<Rightarrow> int option \<Rightarrow> 'a core_stats \<Rightarrow> 'a core_stats" where
  "apply_sent ta bytes send_call_ns timer_error_ns c =
     c\<lparr>cs_events := (cs_events c)\<lparr>ec_sent_events := ec_sent_events (cs_events c) + 1\<rparr>,
       cs_packets := (cs_packets c)
         \<lparr>pc_packets_sent := pc_packets_sent (cs_packets c) + 1,
          pc_bytes_sent := saturating_add_u64 (pc_bytes_sent (cs_packets c)) (of_nat bytes)\<rparr>,
       cs_send_call := ta_push_ns ta send_call_ns (cs_send_call c),
       cs_timer_error := push_opt ta timer_error_ns (cs_timer_error c)\<rparr>"

definition account_unique_reply :: "bool \<Rightarrow> reply_sample \<Rightarrow> 'a core_stats \<Rightarrow> 'a core_stats" where
  "account_unique_reply is_late sample c =
     c\<lparr>cs_events := (cs_events c)
         \<lparr>ec_echo_replies := ec_echo_replies (cs_events c) + of_bool (\<not> is_late),
          ec_late_unique_replies := ec_late_unique_replies (cs_events c) + of_bool is_late\<rparr>,
       cs_packets := (cs_packets c)
         \<lparr>pc_packets_received := pc_packets_received (cs_packets c) + 1,
          pc_unique_replies := pc_unique_replies (cs_packets c) + 1,
          pc_late_packets := pc_late_packets (cs_packets c) + of_bool is_late,
          pc_bytes_received := saturating_add_u64 (pc_bytes_received (cs_packets c)) (of_nat (rs_bytes sample)),
          pc_server_packets_received :=
            (case rs_received_count sample of
               None \<Rightarrow> pc_server_packets_received (cs_packets c)
             | Some count \<Rightarrow>
                 Some (case pc_server_packets_received (cs_packets c) of
                         None \<Rightarrow> ucast count | Some current \<Rightarrow> max current (ucast count))),
          pc_server_received_window :=
            (case rs_received_window sample of
               None \<Rightarrow> pc_server_received_window (cs_packets c) | Some window \<Rightarrow> Some window)\<rparr>\<rparr>"

definition record_reply_metrics :: "('a, 't) time_ops \<Rightarrow> reply_sample \<Rightarrow> 'a core_stats \<Rightarrow> 'a core_stats" where
  "record_reply_metrics ta sample c =
     c\<lparr>cs_rtt_primary := ta_push_ns ta (is_rtt_primary_ns (rs_ipdv sample)) (cs_rtt_primary c),
       cs_rtt_raw := ta_push_ns ta (rs_rtt_raw_ns sample) (cs_rtt_raw c),
       cs_rtt_adjusted := push_opt ta (rs_rtt_adjusted_ns sample) (cs_rtt_adjusted c),
       cs_server_processing := push_opt ta (rs_server_processing_ns sample) (cs_server_processing c),
       cs_send_delay := push_opt ta (rs_send_delay_ns sample) (cs_send_delay c),
       cs_receive_delay := push_opt ta (rs_receive_delay_ns sample) (cs_receive_delay c)\<rparr>"

definition saturating_abs_i128 :: "int \<Rightarrow> int" where
  "saturating_abs_i128 x = min \<bar>x\<bar> i128_max"

definition duration_from_non_negative_i128_ns :: "int \<Rightarrow> duration option" where
  "duration_from_non_negative_i128_ns value = (if 0 \<le> value \<and> value < 2 ^ 64 then Some (nat value) else None)"

fun apply_ipdv_pairs ::
  "('a, 't) time_ops \<Rightarrow> completed_ipdv_pair list \<Rightarrow> 'a core_stats \<Rightarrow> ipdv_pair_update list \<times> 'a core_stats" where
  "apply_ipdv_pairs ta [] c = ([], c)"
| "apply_ipdv_pairs ta (pair # pairs) c =
     (let rtt_magnitude_ns = saturating_abs_i128 (cp_rtt_ipdv_ns pair);
          send_magnitude_ns = map_option saturating_abs_i128 (cp_send_ipdv_ns pair);
          receive_magnitude_ns = map_option saturating_abs_i128 (cp_receive_ipdv_ns pair)
      in case duration_from_non_negative_i128_ns rtt_magnitude_ns of
           None \<Rightarrow> apply_ipdv_pairs ta pairs c
         | Some rtt_ipdv \<Rightarrow>
             let update =
                   \<lparr>pu_previous_seq = cp_previous_seq pair, pu_current_seq = cp_current_seq pair,
                    pu_rtt_ipdv_ns = cp_rtt_ipdv_ns pair, pu_send_ipdv_ns = cp_send_ipdv_ns pair,
                    pu_receive_ipdv_ns = cp_receive_ipdv_ns pair, pu_rtt_ipdv = rtt_ipdv,
                    pu_send_ipdv = Option.bind send_magnitude_ns duration_from_non_negative_i128_ns,
                    pu_receive_ipdv = Option.bind receive_magnitude_ns duration_from_non_negative_i128_ns\<rparr>;
                 c' = c\<lparr>cs_ipdv_round_trip := ta_push_ns ta rtt_magnitude_ns (cs_ipdv_round_trip c),
                        cs_ipdv_send := push_opt ta send_magnitude_ns (cs_ipdv_send c),
                        cs_ipdv_receive := push_opt ta receive_magnitude_ns (cs_ipdv_receive c)\<rparr>;
                 (updates, c'') = apply_ipdv_pairs ta pairs c'
             in (update # updates, c''))"

definition apply_ipdv_sample ::
  "('a, 't) time_ops \<Rightarrow> ipdv_sample \<Rightarrow> 'a core_stats \<Rightarrow> ipdv_pair_update list \<times> 'a core_stats" where
  "apply_ipdv_sample ta sample c =
     (let (pairs, tracker) = ipdv_insert sample (cs_ipdv_tracker c)
      in apply_ipdv_pairs ta pairs (c\<lparr>cs_ipdv_tracker := tracker\<rparr>))"

definition apply_unique_reply ::
  "('a, 't) time_ops \<Rightarrow> bool \<Rightarrow> reply_sample \<Rightarrow> 'a core_stats \<Rightarrow> event_stats_update \<times> 'a core_stats" where
  "apply_unique_reply ta is_late sample c =
     (let c1 = account_unique_reply is_late sample c
      in if is_late \<and> cs_late_replies c1 = CountOnly then (event_stats_update_default, c1)
         else
           let (pairs, c2) = apply_ipdv_sample ta (rs_ipdv sample) (record_reply_metrics ta sample c1)
           in (\<lparr>eu_contributed_sample = True, eu_ipdv_pairs = pairs\<rparr>, c2))"

definition apply_duplicate_reply :: "nat \<Rightarrow> 'a core_stats \<Rightarrow> 'a core_stats" where
  "apply_duplicate_reply bytes c =
     c\<lparr>cs_events := (cs_events c)\<lparr>ec_duplicate_replies := ec_duplicate_replies (cs_events c) + 1\<rparr>,
       cs_packets := (cs_packets c)
         \<lparr>pc_packets_received := pc_packets_received (cs_packets c) + 1,
          pc_duplicates := pc_duplicates (cs_packets c) + 1,
          pc_bytes_received := saturating_add_u64 (pc_bytes_received (cs_packets c)) (of_nat bytes)\<rparr>\<rparr>"

definition apply_loss :: "'a core_stats \<Rightarrow> 'a core_stats" where
  "apply_loss c = c\<lparr>cs_events := (cs_events c)\<lparr>ec_loss_events := ec_loss_events (cs_events c) + 1\<rparr>\<rparr>"

definition apply_warning :: "'a core_stats \<Rightarrow> 'a core_stats" where
  "apply_warning c = c\<lparr>cs_events := (cs_events c)\<lparr>ec_warning_events := ec_warning_events (cs_events c) + 1\<rparr>\<rparr>"

definition apply_untracked_late :: "nat \<Rightarrow> 'a core_stats \<Rightarrow> 'a core_stats" where
  "apply_untracked_late bytes c =
     c\<lparr>cs_events := (cs_events c)\<lparr>ec_untracked_late_replies := ec_untracked_late_replies (cs_events c) + 1\<rparr>,
       cs_packets := (cs_packets c)
         \<lparr>pc_packets_received := pc_packets_received (cs_packets c) + 1,
          pc_late_packets := pc_late_packets (cs_packets c) + 1,
          pc_bytes_received := saturating_add_u64 (pc_bytes_received (cs_packets c)) (of_nat bytes)\<rparr>\<rparr>"

fun apply_event :: "('a, 't) time_ops \<Rightarrow> stats_event \<Rightarrow> 'a core_stats \<Rightarrow> event_stats_update \<times> 'a core_stats" where
  "apply_event ta (SeSent _ bytes send_call_ns timer_error_ns) c =
     (event_stats_update_default, apply_sent ta bytes send_call_ns timer_error_ns c)"
| "apply_event ta (SeUniqueReply _ is_late sample) c = apply_unique_reply ta is_late sample c"
| "apply_event ta (SeDuplicateReply _ bytes) c = (event_stats_update_default, apply_duplicate_reply bytes c)"
| "apply_event ta (SeLoss _) c = (event_stats_update_default, apply_loss c)"
| "apply_event ta (SeWarning _) c = (event_stats_update_default, apply_warning c)"
| "apply_event ta (SeUntrackedLate _ bytes) c = (event_stats_update_default, apply_untracked_late bytes c)"

section \<open>Snapshots\<close>

record 't rtt_stats =
  rt_primary :: 't
  rt_raw :: 't
  rt_adjusted :: 't

record 't ipdv_stats =
  ip_round_trip :: 't
  ip_send :: 't
  ip_receive :: 't

record 't one_way_delay_stats =
  ow_send_delay :: 't
  ow_receive_delay :: 't

record ('t, 'f) snapshot =
  sn_events :: event_counts
  sn_packets :: packet_counts
  sn_loss :: "'f loss_stats"
  sn_send_call :: 't
  sn_timer_error :: 't
  sn_rtt :: "'t rtt_stats"
  sn_ipdv :: "'t ipdv_stats"
  sn_one_way_delay :: "'t one_way_delay_stats"
  sn_server_processing :: 't

definition core_snapshot :: "('a, 't) time_ops \<Rightarrow> 'f f64_ops \<Rightarrow> 'a core_stats \<Rightarrow> ('t, 'f) snapshot" where
  "core_snapshot ta fl c =
     \<lparr>sn_events = cs_events c, sn_packets = cs_packets c,
      sn_loss = loss_stats_of fl (cs_packets c) (pc_server_packets_received (cs_packets c)),
      sn_send_call = ta_snapshot ta (cs_send_call c), sn_timer_error = ta_snapshot ta (cs_timer_error c),
      sn_rtt = \<lparr>rt_primary = ta_snapshot ta (cs_rtt_primary c), rt_raw = ta_snapshot ta (cs_rtt_raw c),
                rt_adjusted = ta_snapshot ta (cs_rtt_adjusted c)\<rparr>,
      sn_ipdv = \<lparr>ip_round_trip = ta_snapshot ta (cs_ipdv_round_trip c), ip_send = ta_snapshot ta (cs_ipdv_send c),
                 ip_receive = ta_snapshot ta (cs_ipdv_receive c)\<rparr>,
      sn_one_way_delay = \<lparr>ow_send_delay = ta_snapshot ta (cs_send_delay c),
                          ow_receive_delay = ta_snapshot ta (cs_receive_delay c)\<rparr>,
      sn_server_processing = ta_snapshot ta (cs_server_processing c)\<rparr>"


section \<open>Replaying events\<close>

definition replay :: "('a, 't) time_ops \<Rightarrow> stats_event list \<Rightarrow> 'a core_stats \<Rightarrow> 'a core_stats" where
  "replay ta es c = fold (\<lambda>e c. snd (apply_event ta e c)) es c"

lemma replay_simps [simp]:
  "replay ta [] c = c" "replay ta (e # es) c = replay ta es (snd (apply_event ta e c))"
  by (simp_all add: replay_def)

lemma replay_append: "replay ta (es @ fs) c = replay ta fs (replay ta es c)"
  by (simp add: replay_def)

fun is_unique :: "bool \<Rightarrow> stats_event \<Rightarrow> bool" where
  "is_unique late (SeUniqueReply _ l _) = (l = late)"
| "is_unique _ _ = False"

fun is_any_reply :: "stats_event \<Rightarrow> bool" where
  "is_any_reply (SeUniqueReply _ _ _) = True"
| "is_any_reply (SeDuplicateReply _ _) = True"
| "is_any_reply (SeUntrackedLate _ _) = True"
| "is_any_reply _ = False"

text \<open>The IPDV part of a step touches its own metrics only.\<close>

lemma apply_ipdv_pairs_keeps:
  "cs_events (snd (apply_ipdv_pairs ta ps c)) = cs_events c"
  "cs_packets (snd (apply_ipdv_pairs ta ps c)) = cs_packets c"
  "cs_late_replies (snd (apply_ipdv_pairs ta ps c)) = cs_late_replies c"
  "cs_ipdv_tracker (snd (apply_ipdv_pairs ta ps c)) = cs_ipdv_tracker c"
  "cs_send_call (snd (apply_ipdv_pairs ta ps c)) = cs_send_call c"
  "cs_timer_error (snd (apply_ipdv_pairs ta ps c)) = cs_timer_error c"
  "cs_rtt_primary (snd (apply_ipdv_pairs ta ps c)) = cs_rtt_primary c"
  "cs_rtt_raw (snd (apply_ipdv_pairs ta ps c)) = cs_rtt_raw c"
  "cs_rtt_adjusted (snd (apply_ipdv_pairs ta ps c)) = cs_rtt_adjusted c"
  "cs_send_delay (snd (apply_ipdv_pairs ta ps c)) = cs_send_delay c"
  "cs_receive_delay (snd (apply_ipdv_pairs ta ps c)) = cs_receive_delay c"
  "cs_server_processing (snd (apply_ipdv_pairs ta ps c)) = cs_server_processing c"
  by (induction ps arbitrary: c) (simp_all add: Let_def split_beta split: option.split)

lemma apply_ipdv_sample_keeps:
  "cs_events (snd (apply_ipdv_sample ta s c)) = cs_events c"
  "cs_packets (snd (apply_ipdv_sample ta s c)) = cs_packets c"
  "cs_late_replies (snd (apply_ipdv_sample ta s c)) = cs_late_replies c"
  "cs_ipdv_tracker (snd (apply_ipdv_sample ta s c)) = snd (ipdv_insert s (cs_ipdv_tracker c))"
  "cs_send_call (snd (apply_ipdv_sample ta s c)) = cs_send_call c"
  "cs_timer_error (snd (apply_ipdv_sample ta s c)) = cs_timer_error c"
  "cs_rtt_primary (snd (apply_ipdv_sample ta s c)) = cs_rtt_primary c"
  "cs_rtt_raw (snd (apply_ipdv_sample ta s c)) = cs_rtt_raw c"
  "cs_rtt_adjusted (snd (apply_ipdv_sample ta s c)) = cs_rtt_adjusted c"
  "cs_send_delay (snd (apply_ipdv_sample ta s c)) = cs_send_delay c"
  "cs_receive_delay (snd (apply_ipdv_sample ta s c)) = cs_receive_delay c"
  "cs_server_processing (snd (apply_ipdv_sample ta s c)) = cs_server_processing c"
  by (simp_all add: apply_ipdv_sample_def split_beta apply_ipdv_pairs_keeps)

text \<open>Whether a reply is measured, and what its accounting leaves alone.\<close>

definition measures :: "late_reply_mode \<Rightarrow> bool \<Rightarrow> bool" where
  "measures mode late \<longleftrightarrow> \<not> (late \<and> mode = CountOnly)"

lemma account_keeps:
  "cs_late_replies (account_unique_reply l s c) = cs_late_replies c"
  "cs_ipdv_tracker (account_unique_reply l s c) = cs_ipdv_tracker c"
  "cs_send_call (account_unique_reply l s c) = cs_send_call c"
  "cs_timer_error (account_unique_reply l s c) = cs_timer_error c"
  "cs_rtt_primary (account_unique_reply l s c) = cs_rtt_primary c"
  "cs_rtt_raw (account_unique_reply l s c) = cs_rtt_raw c"
  "cs_rtt_adjusted (account_unique_reply l s c) = cs_rtt_adjusted c"
  "cs_ipdv_round_trip (account_unique_reply l s c) = cs_ipdv_round_trip c"
  "cs_ipdv_send (account_unique_reply l s c) = cs_ipdv_send c"
  "cs_ipdv_receive (account_unique_reply l s c) = cs_ipdv_receive c"
  "cs_send_delay (account_unique_reply l s c) = cs_send_delay c"
  "cs_receive_delay (account_unique_reply l s c) = cs_receive_delay c"
  "cs_server_processing (account_unique_reply l s c) = cs_server_processing c"
  by (simp_all add: account_unique_reply_def)

lemma record_keeps:
  "cs_events (record_reply_metrics ta s c) = cs_events c"
  "cs_packets (record_reply_metrics ta s c) = cs_packets c"
  "cs_late_replies (record_reply_metrics ta s c) = cs_late_replies c"
  "cs_ipdv_tracker (record_reply_metrics ta s c) = cs_ipdv_tracker c"
  "cs_send_call (record_reply_metrics ta s c) = cs_send_call c"
  "cs_timer_error (record_reply_metrics ta s c) = cs_timer_error c"
  "cs_ipdv_round_trip (record_reply_metrics ta s c) = cs_ipdv_round_trip c"
  "cs_ipdv_send (record_reply_metrics ta s c) = cs_ipdv_send c"
  "cs_ipdv_receive (record_reply_metrics ta s c) = cs_ipdv_receive c"
  by (simp_all add: record_reply_metrics_def)

lemma unique_reply_state:
  "snd (apply_unique_reply ta l s c) =
     (let a = account_unique_reply l s c
      in if measures (cs_late_replies c) l then snd (apply_ipdv_sample ta (rs_ipdv s) (record_reply_metrics ta s a)) else a)"
  by (simp add: apply_unique_reply_def Let_def split_beta measures_def account_keeps)

lemma unique_reply_keeps:
  "cs_events (snd (apply_unique_reply ta l s c)) = cs_events (account_unique_reply l s c)"
  "cs_packets (snd (apply_unique_reply ta l s c)) = cs_packets (account_unique_reply l s c)"
  "cs_late_replies (snd (apply_unique_reply ta l s c)) = cs_late_replies c"
  "cs_send_call (snd (apply_unique_reply ta l s c)) = cs_send_call c"
  "cs_timer_error (snd (apply_unique_reply ta l s c)) = cs_timer_error c"
  by (simp_all add: unique_reply_state Let_def apply_ipdv_sample_keeps record_keeps account_keeps)

text \<open>The counters of one event, read off the operations.\<close>

lemma account_events:
  "cs_events (account_unique_reply l s c) = (cs_events c)
     \<lparr>ec_echo_replies := ec_echo_replies (cs_events c) + of_bool (\<not> l),
      ec_late_unique_replies := ec_late_unique_replies (cs_events c) + of_bool l\<rparr>"
  by (simp add: account_unique_reply_def)

lemma account_packets:
  "pc_packets_sent (cs_packets (account_unique_reply l s c)) = pc_packets_sent (cs_packets c)"
  "pc_packets_received (cs_packets (account_unique_reply l s c)) = pc_packets_received (cs_packets c) + 1"
  "pc_unique_replies (cs_packets (account_unique_reply l s c)) = pc_unique_replies (cs_packets c) + 1"
  "pc_duplicates (cs_packets (account_unique_reply l s c)) = pc_duplicates (cs_packets c)"
  "pc_late_packets (cs_packets (account_unique_reply l s c)) = pc_late_packets (cs_packets c) + of_bool l"
  "map_option unat (pc_server_packets_received (cs_packets (account_unique_reply l s c))) =
     (case rs_received_count s of
        None \<Rightarrow> map_option unat (pc_server_packets_received (cs_packets c))
      | Some n \<Rightarrow> Some (case map_option unat (pc_server_packets_received (cs_packets c)) of
                        None \<Rightarrow> unat n | Some k \<Rightarrow> max k (unat n)))"
  by (simp_all add: account_unique_reply_def max_def word_le_nat_alt split: option.split)

lemmas apply_defs =
  apply_sent_def apply_duplicate_reply_def apply_loss_def apply_warning_def apply_untracked_late_def
  unique_reply_keeps account_events account_packets

lemma step_late [simp]: "cs_late_replies (snd (apply_event ta e c)) = cs_late_replies c"
  by (cases e) (simp_all add: apply_defs)

lemma step_event_counts:
  "ec_sent_events (cs_events (snd (apply_event ta e c))) = ec_sent_events (cs_events c) + of_bool (is_SeSent e)"
  "ec_echo_replies (cs_events (snd (apply_event ta e c))) = ec_echo_replies (cs_events c) + of_bool (is_unique False e)"
  "ec_late_unique_replies (cs_events (snd (apply_event ta e c))) =
     ec_late_unique_replies (cs_events c) + of_bool (is_unique True e)"
  "ec_duplicate_replies (cs_events (snd (apply_event ta e c))) =
     ec_duplicate_replies (cs_events c) + of_bool (is_SeDuplicateReply e)"
  "ec_loss_events (cs_events (snd (apply_event ta e c))) = ec_loss_events (cs_events c) + of_bool (is_SeLoss e)"
  "ec_warning_events (cs_events (snd (apply_event ta e c))) = ec_warning_events (cs_events c) + of_bool (is_SeWarning e)"
  "ec_untracked_late_replies (cs_events (snd (apply_event ta e c))) =
     ec_untracked_late_replies (cs_events c) + of_bool (is_SeUntrackedLate e)"
  by (cases e; simp add: apply_defs)+

lemma step_packet_counts:
  "pc_packets_sent (cs_packets (snd (apply_event ta e c))) = pc_packets_sent (cs_packets c) + of_bool (is_SeSent e)"
  "pc_packets_received (cs_packets (snd (apply_event ta e c))) =
     pc_packets_received (cs_packets c) + of_bool (is_any_reply e)"
  "pc_unique_replies (cs_packets (snd (apply_event ta e c))) =
     pc_unique_replies (cs_packets c) + of_bool (is_SeUniqueReply e)"
  "pc_duplicates (cs_packets (snd (apply_event ta e c))) =
     pc_duplicates (cs_packets c) + of_bool (is_SeDuplicateReply e)"
  "pc_late_packets (cs_packets (snd (apply_event ta e c))) =
     pc_late_packets (cs_packets c) + of_bool (is_unique True e \<or> is_SeUntrackedLate e)"
  by (cases e; simp add: apply_defs)+

text \<open>A counter that a step raises exactly on some events counts those events.\<close>

lemma replay_counter:
  fixes count :: "'a core_stats \<Rightarrow> u64"
  assumes "\<And>e c. count (snd (apply_event ta e c)) = count c + of_bool (p e)"
  shows "count (replay ta es c) = count c + of_nat (length (filter p es))"
  by (induction es arbitrary: c) (simp_all add: assms)

lemmas replay_counts =
  replay_counter [where count = "\<lambda>c. ec_sent_events (cs_events c)", OF step_event_counts(1)]
  replay_counter [where count = "\<lambda>c. ec_echo_replies (cs_events c)", OF step_event_counts(2)]
  replay_counter [where count = "\<lambda>c. ec_late_unique_replies (cs_events c)", OF step_event_counts(3)]
  replay_counter [where count = "\<lambda>c. ec_duplicate_replies (cs_events c)", OF step_event_counts(4)]
  replay_counter [where count = "\<lambda>c. ec_loss_events (cs_events c)", OF step_event_counts(5)]
  replay_counter [where count = "\<lambda>c. ec_warning_events (cs_events c)", OF step_event_counts(6)]
  replay_counter [where count = "\<lambda>c. ec_untracked_late_replies (cs_events c)", OF step_event_counts(7)]
  replay_counter [where count = "\<lambda>c. pc_packets_sent (cs_packets c)", OF step_packet_counts(1)]
  replay_counter [where count = "\<lambda>c. pc_packets_received (cs_packets c)", OF step_packet_counts(2)]
  replay_counter [where count = "\<lambda>c. pc_unique_replies (cs_packets c)", OF step_packet_counts(3)]
  replay_counter [where count = "\<lambda>c. pc_duplicates (cs_packets c)", OF step_packet_counts(4)]
  replay_counter [where count = "\<lambda>c. pc_late_packets (cs_packets c)", OF step_packet_counts(5)]

fun server_count :: "stats_event \<Rightarrow> nat list" where
  "server_count (SeUniqueReply _ _ sample) = (case rs_received_count sample of None \<Rightarrow> [] | Some n \<Rightarrow> [unat n])"
| "server_count _ = []"

definition maximum :: "nat list \<Rightarrow> nat option" where
  "maximum ns = (if ns = [] then None else Some (Max (set ns)))"

lemma maximum_Cons: "maximum (n # ns) = Some (case maximum ns of None \<Rightarrow> n | Some m \<Rightarrow> max n m)"
  by (simp add: maximum_def)

lemma step_server_count:
  "map_option unat (pc_server_packets_received (cs_packets (snd (apply_event ta e c)))) =
     fold (\<lambda>n m. Some (case m of None \<Rightarrow> n | Some k \<Rightarrow> max k n)) (server_count e)
       (map_option unat (pc_server_packets_received (cs_packets c)))"
  by (cases e) (simp_all add: apply_defs split: option.split)

lemma replay_server_count:
  "map_option unat (pc_server_packets_received (cs_packets (replay ta es c))) =
     fold (\<lambda>n m. Some (case m of None \<Rightarrow> n | Some k \<Rightarrow> max k n)) (concat (map server_count es))
       (map_option unat (pc_server_packets_received (cs_packets c)))"
  by (induction es arbitrary: c) (simp_all add: step_server_count)

lemma fold_maximum:
  "fold (\<lambda>n m. Some (case m of None \<Rightarrow> n | Some k \<Rightarrow> max k n)) ns (Some k) =
     Some (case maximum ns of None \<Rightarrow> k | Some m \<Rightarrow> max k m)"
  by (induction ns arbitrary: k) (simp_all add: maximum_Cons, simp_all add: maximum_def max.assoc)

lemma fold_maximum_None:
  "fold (\<lambda>n m. Some (case m of None \<Rightarrow> n | Some k \<Rightarrow> max k n)) ns None = maximum ns"
  by (cases ns) (simp_all add: fold_maximum maximum_Cons, simp add: maximum_def)

section \<open>Which values a metric receives\<close>

definition opt_list :: "'a option \<Rightarrow> 'a list" where
  "opt_list v = (case v of None \<Rightarrow> [] | Some x \<Rightarrow> [x])"

lemma push_opt_fold: "push_opt ta v acc = fold (ta_push_ns ta) (opt_list v) acc"
  by (simp add: push_opt_def opt_list_def split: option.split)

fun measured :: "late_reply_mode \<Rightarrow> stats_event \<Rightarrow> reply_sample list" where
  "measured mode (SeUniqueReply _ late sample) = (if measures mode late then [sample] else [])"
| "measured mode _ = []"

fun send_calls :: "stats_event \<Rightarrow> int list" where
  "send_calls (SeSent _ _ call _) = [call]"
| "send_calls _ = []"

fun timer_errors :: "stats_event \<Rightarrow> int list" where
  "timer_errors (SeSent _ _ _ err) = opt_list err"
| "timer_errors _ = []"

lemma step_metrics:
  "cs_send_call (snd (apply_event ta e c)) = fold (ta_push_ns ta) (send_calls e) (cs_send_call c)"
  "cs_timer_error (snd (apply_event ta e c)) = fold (ta_push_ns ta) (timer_errors e) (cs_timer_error c)"
  by (cases e; simp add: apply_defs push_opt_fold)+

lemma record_metrics:
  "cs_rtt_primary (record_reply_metrics ta s c) = ta_push_ns ta (is_rtt_primary_ns (rs_ipdv s)) (cs_rtt_primary c)"
  "cs_rtt_raw (record_reply_metrics ta s c) = ta_push_ns ta (rs_rtt_raw_ns s) (cs_rtt_raw c)"
  "cs_rtt_adjusted (record_reply_metrics ta s c) = fold (ta_push_ns ta) (opt_list (rs_rtt_adjusted_ns s)) (cs_rtt_adjusted c)"
  "cs_server_processing (record_reply_metrics ta s c) =
     fold (ta_push_ns ta) (opt_list (rs_server_processing_ns s)) (cs_server_processing c)"
  "cs_send_delay (record_reply_metrics ta s c) = fold (ta_push_ns ta) (opt_list (rs_send_delay_ns s)) (cs_send_delay c)"
  "cs_receive_delay (record_reply_metrics ta s c) =
     fold (ta_push_ns ta) (opt_list (rs_receive_delay_ns s)) (cs_receive_delay c)"
  by (simp_all add: record_reply_metrics_def push_opt_fold)

lemmas reply_step_simps =
  apply_sent_def apply_duplicate_reply_def apply_loss_def apply_warning_def apply_untracked_late_def
  unique_reply_state Let_def apply_ipdv_sample_keeps account_keeps record_keeps

lemma step_reply_metrics:
  "cs_rtt_primary (snd (apply_event ta e c)) =
     fold (ta_push_ns ta) (map (\<lambda>s. is_rtt_primary_ns (rs_ipdv s)) (measured (cs_late_replies c) e)) (cs_rtt_primary c)"
  "cs_rtt_raw (snd (apply_event ta e c)) =
     fold (ta_push_ns ta) (map rs_rtt_raw_ns (measured (cs_late_replies c) e)) (cs_rtt_raw c)"
  "cs_rtt_adjusted (snd (apply_event ta e c)) =
     fold (ta_push_ns ta) (concat (map (\<lambda>s. opt_list (rs_rtt_adjusted_ns s)) (measured (cs_late_replies c) e))) (cs_rtt_adjusted c)"
  "cs_send_delay (snd (apply_event ta e c)) =
     fold (ta_push_ns ta) (concat (map (\<lambda>s. opt_list (rs_send_delay_ns s)) (measured (cs_late_replies c) e))) (cs_send_delay c)"
  "cs_receive_delay (snd (apply_event ta e c)) =
     fold (ta_push_ns ta) (concat (map (\<lambda>s. opt_list (rs_receive_delay_ns s)) (measured (cs_late_replies c) e))) (cs_receive_delay c)"
  "cs_server_processing (snd (apply_event ta e c)) =
     fold (ta_push_ns ta) (concat (map (\<lambda>s. opt_list (rs_server_processing_ns s)) (measured (cs_late_replies c) e))) (cs_server_processing c)"
  by (cases e; simp add: reply_step_simps record_metrics)+

text \<open>Pairs whose magnitude fits in a \<open>Duration\<close> of 64-bit nanoseconds are recorded.\<close>

definition recorded_pairs :: "completed_ipdv_pair list \<Rightarrow> completed_ipdv_pair list" where
  "recorded_pairs = filter (\<lambda>p. saturating_abs_i128 (cp_rtt_ipdv_ns p) < 2 ^ 64)"

lemma recorded_pairs_Nil: "recorded_pairs [] = []"
  by (simp add: recorded_pairs_def)

lemma recorded_pairs_append: "recorded_pairs (ps @ qs) = recorded_pairs ps @ recorded_pairs qs"
  by (simp add: recorded_pairs_def)

lemma magnitude_fits:
  "duration_from_non_negative_i128_ns (saturating_abs_i128 x) =
     (if saturating_abs_i128 x < 2 ^ 64 then Some (nat (saturating_abs_i128 x)) else None)"
  by (simp add: duration_from_non_negative_i128_ns_def saturating_abs_i128_def i128_max_def min_less_iff_disj)

lemma apply_ipdv_pairs_metrics:
  "cs_ipdv_round_trip (snd (apply_ipdv_pairs ta ps c)) =
     fold (ta_push_ns ta) (map (\<lambda>p. saturating_abs_i128 (cp_rtt_ipdv_ns p)) (recorded_pairs ps)) (cs_ipdv_round_trip c)"
  "cs_ipdv_send (snd (apply_ipdv_pairs ta ps c)) =
     fold (ta_push_ns ta) (concat (map (\<lambda>p. opt_list (map_option saturating_abs_i128 (cp_send_ipdv_ns p))) (recorded_pairs ps)))
       (cs_ipdv_send c)"
  "cs_ipdv_receive (snd (apply_ipdv_pairs ta ps c)) =
     fold (ta_push_ns ta) (concat (map (\<lambda>p. opt_list (map_option saturating_abs_i128 (cp_receive_ipdv_ns p))) (recorded_pairs ps)))
       (cs_ipdv_receive c)"
  by (induction ps arbitrary: c)
     (simp_all add: Let_def split_beta magnitude_fits recorded_pairs_def push_opt_fold)

lemma apply_ipdv_pairs_updates:
  "map pu_current_seq (fst (apply_ipdv_pairs ta ps c)) = map cp_current_seq (recorded_pairs ps)"
  by (induction ps arbitrary: c)
     (simp_all add: Let_def split_beta magnitude_fits recorded_pairs_def)

definition pairs_of :: "late_reply_mode \<Rightarrow> ipdv_tracker \<Rightarrow> stats_event list \<Rightarrow> completed_ipdv_pair list" where
  "pairs_of mode t es = fst (ipdv_run (map rs_ipdv (concat (map (measured mode) es))) t)"

lemma step_tracker:
  "cs_ipdv_tracker (snd (apply_event ta e c)) =
     snd (ipdv_run (map rs_ipdv (measured (cs_late_replies c) e)) (cs_ipdv_tracker c))"
  by (cases e)
     (simp_all add: reply_step_simps split_beta)

lemma step_ipdv_metrics:
  fixes e :: stats_event
  defines "ps \<equiv> \<lambda>c. recorded_pairs (pairs_of (cs_late_replies c) (cs_ipdv_tracker c) [e])"
  shows "cs_ipdv_round_trip (snd (apply_event ta e c)) =
     fold (ta_push_ns ta) (map (\<lambda>p. saturating_abs_i128 (cp_rtt_ipdv_ns p)) (ps c)) (cs_ipdv_round_trip c)"
  and "cs_ipdv_send (snd (apply_event ta e c)) =
     fold (ta_push_ns ta) (concat (map (\<lambda>p. opt_list (map_option saturating_abs_i128 (cp_send_ipdv_ns p))) (ps c))) (cs_ipdv_send c)"
  and "cs_ipdv_receive (snd (apply_event ta e c)) =
     fold (ta_push_ns ta) (concat (map (\<lambda>p. opt_list (map_option saturating_abs_i128 (cp_receive_ipdv_ns p))) (ps c))) (cs_ipdv_receive c)"
  unfolding ps_def pairs_of_def
  by (cases e; simp add: reply_step_simps recorded_pairs_Nil apply_ipdv_sample_def split_beta
      apply_ipdv_pairs_metrics)+

lemma ipdv_run_append:
  "ipdv_run (xs @ ys) t =
     (let (ps, u) = ipdv_run xs t; (qs, v) = ipdv_run ys u in (ps @ qs, v))"
  by (induction xs arbitrary: t) (simp_all add: Let_def split_beta)

lemma replay_late [simp]: "cs_late_replies (replay ta es c) = cs_late_replies c"
  by (induction es arbitrary: c) simp_all

lemma replay_tracker:
  "cs_ipdv_tracker (replay ta es c) =
     snd (ipdv_run (map rs_ipdv (concat (map (measured (cs_late_replies c)) es))) (cs_ipdv_tracker c))"
  by (induction es arbitrary: c) (simp_all add: step_tracker ipdv_run_append split_beta)

text \<open>A metric that a step extends by the values of the event has, after a replay, received the
  values of all events in order; an IPDV metric likewise for the pairs completed on the way.\<close>

lemma replay_metric:
  assumes "\<And>e c. metric (snd (apply_event ta e c)) = fold (ta_push_ns ta) (vals (cs_late_replies c) e) (metric c)"
  shows "metric (replay ta es c) = fold (ta_push_ns ta) (concat (map (vals (cs_late_replies c)) es)) (metric c)"
  by (induction es arbitrary: c) (simp_all add: assms)

lemma replay_pairs_metric:
  assumes "\<And>e c. metric (snd (apply_event ta e c)) =
      fold (ta_push_ns ta) (vals (recorded_pairs (pairs_of (cs_late_replies c) (cs_ipdv_tracker c) [e]))) (metric c)"
    and "\<And>ps qs. vals (ps @ qs) = vals ps @ vals qs" "vals [] = []"
  shows "metric (replay ta es c) =
      fold (ta_push_ns ta) (vals (recorded_pairs (pairs_of (cs_late_replies c) (cs_ipdv_tracker c) es))) (metric c)"
proof (induction es arbitrary: c)
  case Nil
  then show ?case by (simp add: pairs_of_def recorded_pairs_Nil assms(3))
next
  case (Cons e es)
  let ?t = "cs_ipdv_tracker (snd (apply_event ta e c))"
  have "pairs_of (cs_late_replies c) (cs_ipdv_tracker c) (e # es) =
      pairs_of (cs_late_replies c) (cs_ipdv_tracker c) [e] @ pairs_of (cs_late_replies c) ?t es"
    by (simp add: pairs_of_def ipdv_run_append split_beta step_tracker)
  then show ?case by (simp add: Cons.IH assms(1,2) recorded_pairs_append)
qed

lemma concat_map_map: "concat (map (\<lambda>e. map f (g e)) es) = map f (concat (map g es))"
  by (induction es) simp_all

lemma concat_map_concat: "concat (map (\<lambda>e. concat (map f (g e))) es) = concat (map f (concat (map g es)))"
  by (induction es) simp_all

lemma replay_values:
  "cs_send_call (replay ta es c) = fold (ta_push_ns ta) (concat (map send_calls es)) (cs_send_call c)"
  "cs_timer_error (replay ta es c) = fold (ta_push_ns ta) (concat (map timer_errors es)) (cs_timer_error c)"
  "cs_rtt_primary (replay ta es c) = fold (ta_push_ns ta)
     (map (\<lambda>s. is_rtt_primary_ns (rs_ipdv s)) (concat (map (measured (cs_late_replies c)) es))) (cs_rtt_primary c)"
  "cs_rtt_raw (replay ta es c) = fold (ta_push_ns ta)
     (map rs_rtt_raw_ns (concat (map (measured (cs_late_replies c)) es))) (cs_rtt_raw c)"
  "cs_rtt_adjusted (replay ta es c) = fold (ta_push_ns ta)
     (concat (map (\<lambda>s. opt_list (rs_rtt_adjusted_ns s)) (concat (map (measured (cs_late_replies c)) es)))) (cs_rtt_adjusted c)"
  "cs_send_delay (replay ta es c) = fold (ta_push_ns ta)
     (concat (map (\<lambda>s. opt_list (rs_send_delay_ns s)) (concat (map (measured (cs_late_replies c)) es)))) (cs_send_delay c)"
  "cs_receive_delay (replay ta es c) = fold (ta_push_ns ta)
     (concat (map (\<lambda>s. opt_list (rs_receive_delay_ns s)) (concat (map (measured (cs_late_replies c)) es)))) (cs_receive_delay c)"
  "cs_server_processing (replay ta es c) = fold (ta_push_ns ta)
     (concat (map (\<lambda>s. opt_list (rs_server_processing_ns s)) (concat (map (measured (cs_late_replies c)) es)))) (cs_server_processing c)"
  by (rule replay_metric [where metric = cs_send_call and vals = "\<lambda>_. send_calls", OF step_metrics(1)],
      rule replay_metric [where metric = cs_timer_error and vals = "\<lambda>_. timer_errors", OF step_metrics(2)],
      rule replay_metric [where metric = cs_rtt_primary, OF step_reply_metrics(1), unfolded concat_map_map],
      rule replay_metric [where metric = cs_rtt_raw, OF step_reply_metrics(2), unfolded concat_map_map],
      rule replay_metric [where metric = cs_rtt_adjusted, OF step_reply_metrics(3), unfolded concat_map_concat],
      rule replay_metric [where metric = cs_send_delay, OF step_reply_metrics(4), unfolded concat_map_concat],
      rule replay_metric [where metric = cs_receive_delay, OF step_reply_metrics(5), unfolded concat_map_concat],
      rule replay_metric [where metric = cs_server_processing, OF step_reply_metrics(6), unfolded concat_map_concat])

lemma replay_pair_values:
  fixes c :: "'a core_stats" and es :: "stats_event list"
  defines "ps \<equiv> recorded_pairs (fst (ipdv_run (map rs_ipdv (concat (map (measured (cs_late_replies c)) es))) (cs_ipdv_tracker c)))"
  shows "cs_ipdv_round_trip (replay ta es c) =
     fold (ta_push_ns ta) (map (\<lambda>p. saturating_abs_i128 (cp_rtt_ipdv_ns p)) ps) (cs_ipdv_round_trip c)"
  and "cs_ipdv_send (replay ta es c) = fold (ta_push_ns ta)
     (concat (map (\<lambda>p. opt_list (map_option saturating_abs_i128 (cp_send_ipdv_ns p))) ps)) (cs_ipdv_send c)"
  and "cs_ipdv_receive (replay ta es c) = fold (ta_push_ns ta)
     (concat (map (\<lambda>p. opt_list (map_option saturating_abs_i128 (cp_receive_ipdv_ns p))) ps)) (cs_ipdv_receive c)"
  unfolding ps_def pairs_of_def [symmetric]
  by ((rule replay_pairs_metric [where metric = cs_ipdv_round_trip
        and vals = "\<lambda>ps. map (\<lambda>p. saturating_abs_i128 (cp_rtt_ipdv_ns p)) ps", OF step_ipdv_metrics(1)]; simp),
      (rule replay_pairs_metric [where metric = cs_ipdv_send
        and vals = "\<lambda>ps. concat (map (\<lambda>p. opt_list (map_option saturating_abs_i128 (cp_send_ipdv_ns p))) ps)",
        OF step_ipdv_metrics(2)]; simp),
      (rule replay_pairs_metric [where metric = cs_ipdv_receive
        and vals = "\<lambda>ps. concat (map (\<lambda>p. opt_list (map_option saturating_abs_i128 (cp_receive_ipdv_ns p))) ps)",
        OF step_ipdv_metrics(3)]; simp))

definition initial_metric :: "('a, 't) time_ops \<Rightarrow> sample_mode \<Rightarrow> 'a" where
  "initial_metric ta mode = (case mode of Exact \<Rightarrow> ta_exact_unbounded ta | RunningOnly \<Rightarrow> ta_running ta)"

definition tracking_limit :: "sample_mode \<Rightarrow> nat option" where
  "tracking_limit mode = (if mode = Exact then None else Some CONTINUOUS_SEQUENCE_LIMIT)"

lemma core_stats_new_simps [simp]:
  "cs_events (core_stats_new ta mode late) = event_counts_default"
  "cs_packets (core_stats_new ta mode late) = packet_counts_default"
  "cs_send_call (core_stats_new ta mode late) = initial_metric ta mode"
  "cs_timer_error (core_stats_new ta mode late) = initial_metric ta mode"
  "cs_rtt_primary (core_stats_new ta mode late) = initial_metric ta mode"
  "cs_rtt_raw (core_stats_new ta mode late) = initial_metric ta mode"
  "cs_rtt_adjusted (core_stats_new ta mode late) = initial_metric ta mode"
  "cs_ipdv_round_trip (core_stats_new ta mode late) = initial_metric ta mode"
  "cs_ipdv_send (core_stats_new ta mode late) = initial_metric ta mode"
  "cs_ipdv_receive (core_stats_new ta mode late) = initial_metric ta mode"
  "cs_send_delay (core_stats_new ta mode late) = initial_metric ta mode"
  "cs_receive_delay (core_stats_new ta mode late) = initial_metric ta mode"
  "cs_server_processing (core_stats_new ta mode late) = initial_metric ta mode"
  "cs_ipdv_tracker (core_stats_new ta mode late) = ipdv_tracker_new (tracking_limit mode)"
  "cs_late_replies (core_stats_new ta mode late) = late"
  by (simp_all add: core_stats_new_def Let_def initial_metric_def tracking_limit_def)

section \<open>What the cumulative statistics report\<close>


text \<open>C33: the measurements. Every timing metric received exactly the values of the events that
  measure it, in arrival order: send calls and timer errors of the sends; round trips, delays and
  processing times of the measured replies (late ones only when the configuration measures them);
  and, for delay variation, the magnitudes of the adjacent pairs the measured replies complete.\<close>

theorem stats_metrics_exact:
  "let c = replay ta es (core_stats_new ta mode late);
       fed = (\<lambda>vs. fold (ta_push_ns ta) vs (initial_metric ta mode));
       samples = concat (map (measured late) es);
       pairs = recorded_pairs (fst (ipdv_run (map rs_ipdv samples) (ipdv_tracker_new (tracking_limit mode)))) in
     cs_send_call c = fed (concat (map send_calls es)) \<and>
     cs_timer_error c = fed (concat (map timer_errors es)) \<and>
     cs_rtt_primary c = fed (map (\<lambda>s. is_rtt_primary_ns (rs_ipdv s)) samples) \<and>
     cs_rtt_raw c = fed (map rs_rtt_raw_ns samples) \<and>
     cs_rtt_adjusted c = fed (concat (map (\<lambda>s. opt_list (rs_rtt_adjusted_ns s)) samples)) \<and>
     cs_send_delay c = fed (concat (map (\<lambda>s. opt_list (rs_send_delay_ns s)) samples)) \<and>
     cs_receive_delay c = fed (concat (map (\<lambda>s. opt_list (rs_receive_delay_ns s)) samples)) \<and>
     cs_server_processing c = fed (concat (map (\<lambda>s. opt_list (rs_server_processing_ns s)) samples)) \<and>
     cs_ipdv_round_trip c = fed (map (\<lambda>p. saturating_abs_i128 (cp_rtt_ipdv_ns p)) pairs) \<and>
     cs_ipdv_send c =
       fed (concat (map (\<lambda>p. opt_list (map_option saturating_abs_i128 (cp_send_ipdv_ns p))) pairs)) \<and>
     cs_ipdv_receive c =
       fed (concat (map (\<lambda>p. opt_list (map_option saturating_abs_i128 (cp_receive_ipdv_ns p))) pairs))"
  by (simp add: Let_def replay_values replay_pair_values)

end
