(* ===== verification/Stats_Rolling.thy ===== *)
theory Stats_Rolling
  imports Stats_Core "HOL-Library.Product_Lexorder"
begin

text \<open>
  Rolling windows (\<open>irtt-stats/src/rolling.rs\<close>): the last events by count and the events of the last
  interval by timestamp, each replayed on demand. A \<open>BTreeMap\<close> is the list of its entries in key
  order and a \<open>BTreeSet\<close> the list of its elements in order. The count window is \<open>CountWindow\<close> of the
  \<open>measurement_stats\<close> crate, a parameter \<open>window_ops\<close>. The \<open>u128\<close> ordinals count events and cannot
  overflow in practice; they are natural numbers.
\<close>

section \<open>Directional positions\<close>

record directional_position =
  dp_packet_events :: nat
  dp_server_received :: "u64 option"
  dp_server_observed_at :: nat
  dp_counter_reset_at :: nat

definition directional_position_default :: directional_position where
  "directional_position_default =
     \<lparr>dp_packet_events = 0, dp_server_received = None, dp_server_observed_at = 0, dp_counter_reset_at = 0\<rparr>"

definition abs_diff_u64 :: "u64 \<Rightarrow> u64 \<Rightarrow> u64" where
  "abs_diff_u64 a b = (if a < b then b - a else a - b)"

definition observe_count :: "u32 \<Rightarrow> directional_position \<Rightarrow> directional_position" where
  "observe_count reported p =
     (let count = ucast reported :: u64;
          jump = (case dp_server_received p of None \<Rightarrow> False | Some current \<Rightarrow> 2 ^ 31 \<le> abs_diff_u64 current count);
          p1 = (if jump then p\<lparr>dp_server_received := None, dp_counter_reset_at := dp_packet_events p + 1\<rparr> else p);
          newest = (case dp_server_received p1 of None \<Rightarrow> True | Some current \<Rightarrow> current \<le> count)
      in if newest then p1\<lparr>dp_server_received := Some count, dp_server_observed_at := dp_packet_events p1 + 1\<rparr>
         else p1)"

fun advance :: "stats_event \<Rightarrow> directional_position \<Rightarrow> bool \<times> directional_position" where
  "advance (SeUniqueReply _ _ sample) p =
     (let p1 = (case rs_received_count sample of None \<Rightarrow> p | Some count \<Rightarrow> observe_count count p)
      in (True, p1\<lparr>dp_packet_events := dp_packet_events p1 + 1\<rparr>))"
| "advance (SeLoss _) p = (False, p)"
| "advance (SeWarning _) p = (False, p)"
| "advance _ p = (True, p\<lparr>dp_packet_events := dp_packet_events p + 1\<rparr>)"

record rolling_event =
  re_event :: stats_event
  re_before :: directional_position

section \<open>Ordered containers\<close>

fun btree_insert :: "'k::linorder \<Rightarrow> 'v \<Rightarrow> ('k \<times> 'v) list \<Rightarrow> ('k \<times> 'v) list" where
  "btree_insert k v [] = [(k, v)]"
| "btree_insert k v (e # es) =
     (if fst e < k then e # btree_insert k v es else if fst e = k then (k, v) # es else (k, v) # e # es)"

definition btree_remove :: "'k \<Rightarrow> ('k \<times> 'v) list \<Rightarrow> ('k \<times> 'v) list" where
  "btree_remove k m = filter (\<lambda>e. fst e \<noteq> k) m"

fun btree_set_insert :: "'a::linorder \<Rightarrow> 'a list \<Rightarrow> 'a list" where
  "btree_set_insert x [] = [x]"
| "btree_set_insert x (y # ys) = (if y < x then y # btree_set_insert x ys else if y = x then y # ys else x # y # ys)"

section \<open>The windows\<close>

type_synonym arrival_key = "instant \<times> nat"

record 'w window_ops =
  cw_new :: "nat \<Rightarrow> 'w"
  cw_push :: "rolling_event \<Rightarrow> 'w \<Rightarrow> 'w"
  cw_iter :: "'w \<Rightarrow> rolling_event list"

record stats_config =
  sg_samples :: sample_mode
  sg_rolling_count :: "nat option"
  sg_rolling_time :: "duration option"
  sg_late_replies :: late_reply_mode

record 'w rolling_events =
  rw_time_limit :: "duration option"
  rw_count_events :: "'w option"
  rw_time_events :: "(arrival_key \<times> rolling_event) list option"
  rw_time_expiry :: "(instant \<times> arrival_key) list"
  rw_time_anchor :: "instant option"
  rw_late_replies :: late_reply_mode
  rw_directional_position :: directional_position

definition rolling_new :: "'w window_ops \<Rightarrow> stats_config \<Rightarrow> 'w rolling_events" where
  "rolling_new cw config =
     \<lparr>rw_time_limit = sg_rolling_time config,
      rw_count_events = map_option (cw_new cw) (sg_rolling_count config),
      rw_time_events = map_option (\<lambda>_. []) (sg_rolling_time config),
      rw_time_expiry = [], rw_time_anchor = None, rw_late_replies = sg_late_replies config,
      rw_directional_position = directional_position_default\<rparr>"

definition instant_checked_sub :: "instant \<Rightarrow> duration \<Rightarrow> instant option" where
  "instant_checked_sub t d = (if - (2 ^ 63 * 1000000000) \<le> t - int d then Some (t - int d) else None)"

fun expire ::
  "instant \<Rightarrow> (instant \<times> arrival_key) list \<Rightarrow> (arrival_key \<times> rolling_event) list \<Rightarrow>
     (instant \<times> arrival_key) list \<times> (arrival_key \<times> rolling_event) list" where
  "expire cutoff [] window = ([], window)"
| "expire cutoff (x # expiry) window =
     (if fst x < cutoff then expire cutoff expiry (btree_remove (snd x) window) else (x # expiry, window))"

definition push_time ::
  "duration \<Rightarrow> rolling_event \<Rightarrow> (arrival_key \<times> rolling_event) list \<Rightarrow> 'w rolling_events \<Rightarrow> 'w rolling_events" where
  "push_time duration event window r =
     (let at = stats_event_at (re_event event);
          anchor = (case rw_time_anchor r of None \<Rightarrow> at | Some previous \<Rightarrow> max previous at);
          cutoff = instant_checked_sub anchor duration;
          (expiry, live) = (case cutoff of None \<Rightarrow> (rw_time_expiry r, window)
                            | Some c \<Rightarrow> expire c (rw_time_expiry r) window);
          expired = (case cutoff of None \<Rightarrow> False | Some c \<Rightarrow> at < c);
          arrival = (anchor, length live)
      in if expired then r\<lparr>rw_time_anchor := Some anchor, rw_time_expiry := expiry, rw_time_events := Some live\<rparr>
         else r\<lparr>rw_time_anchor := Some anchor, rw_time_expiry := btree_set_insert (at, arrival) expiry,
                rw_time_events := Some (btree_insert arrival event live)\<rparr>)"

definition rolling_push :: "'w window_ops \<Rightarrow> stats_event \<Rightarrow> 'w rolling_events \<Rightarrow> 'w rolling_events" where
  "rolling_push cw e r =
     (if rw_count_events r = None \<and> rw_time_events r = None then r
      else
        let event = \<lparr>re_event = e, re_before = rw_directional_position r\<rparr>;
            r1 = r\<lparr>rw_directional_position := snd (advance e (rw_directional_position r)),
                   rw_count_events := map_option (cw_push cw event) (rw_count_events r)\<rparr>
        in case (rw_time_limit r1, rw_time_events r1) of
             (Some duration, Some window) \<Rightarrow> push_time duration event window r1
           | _ \<Rightarrow> r1)"

section \<open>Window snapshots\<close>

record window_scan =
  ws_start :: "directional_position option"
  ws_end :: "directional_position option"
  ws_contiguous :: bool

definition scan_event :: "rolling_event \<Rightarrow> window_scan \<Rightarrow> window_scan" where
  "scan_event ev s =
     (let (is_packet, after) = advance (re_event ev) (re_before ev)
      in if is_packet
         then \<lparr>ws_start = (case ws_start s of None \<Rightarrow> Some (re_before ev) | Some p \<Rightarrow> Some p),
               ws_end = Some after,
               ws_contiguous = (ws_contiguous s \<and>
                 (case ws_end s of None \<Rightarrow> True
                  | Some previous \<Rightarrow> dp_packet_events previous = dp_packet_events (re_before ev)))\<rparr>
         else s)"

definition scan_window :: "rolling_event list \<Rightarrow> window_scan" where
  "scan_window evs = fold scan_event evs \<lparr>ws_start = None, ws_end = None, ws_contiguous = True\<rparr>"

definition baseline_of :: "directional_position \<Rightarrow> u64 option" where
  "baseline_of start =
     (if dp_packet_events start = 0 then Some 0
      else if dp_server_observed_at start = dp_packet_events start then dp_server_received start
      else None)"

definition server_delta :: "window_scan \<Rightarrow> u64 option" where
  "server_delta s =
     (case (ws_start s, ws_end s) of
        (Some start, Some end_pos) \<Rightarrow>
          if \<not> ws_contiguous s \<or> dp_counter_reset_at start \<noteq> dp_counter_reset_at end_pos then None
          else Option.bind (baseline_of start) (\<lambda>baseline.
                 map_option (\<lambda>count. count - baseline) (dp_server_received end_pos))
      | _ \<Rightarrow> None)"

definition snapshot_window ::
  "('a, 't) time_ops \<Rightarrow> 'f f64_ops \<Rightarrow> rolling_event list \<Rightarrow> late_reply_mode \<Rightarrow> ('t, 'f) snapshot" where
  "snapshot_window ta fl evs late =
     (let core = replay ta (map re_event evs) (core_stats_new ta RunningOnly late);
          snap = core_snapshot ta fl core
      in snap\<lparr>sn_loss := loss_stats_of fl (sn_packets snap) (server_delta (scan_window evs))\<rparr>)"

definition count_snapshot ::
  "('a, 't) time_ops \<Rightarrow> 'f f64_ops \<Rightarrow> 'w window_ops \<Rightarrow> 'w rolling_events \<Rightarrow> ('t, 'f) snapshot option" where
  "count_snapshot ta fl cw r =
     map_option (\<lambda>w. snapshot_window ta fl (cw_iter cw w) (rw_late_replies r)) (rw_count_events r)"

definition time_snapshot ::
  "('a, 't) time_ops \<Rightarrow> 'f f64_ops \<Rightarrow> 'w rolling_events \<Rightarrow> ('t, 'f) snapshot option" where
  "time_snapshot ta fl r =
     map_option (\<lambda>m. snapshot_window ta fl (map snd m) (rw_late_replies r)) (rw_time_events r)"

section \<open>Ordered containers keep their order\<close>

lemma btree_insert_last:
  "\<forall>e \<in> set m. fst e < k \<Longrightarrow> btree_insert k v m = m @ [(k, v)]"
  by (induction m) auto

lemma set_btree_set_insert: "set (btree_set_insert x ys) = insert x (set ys)"
  by (induction ys) auto

lemma sorted_btree_set_insert: "sorted_wrt (<) ys \<Longrightarrow> sorted_wrt (<) (btree_set_insert x ys)"
  by (induction ys) (auto simp: set_btree_set_insert)

lemma length_btree_set_insert:
  "sorted_wrt (<) ys \<Longrightarrow> x \<notin> set ys \<Longrightarrow> length (btree_set_insert x ys) = Suc (length ys)"
  by (induction ys) auto

section \<open>The time window is the recent part of the history\<close>

abbreviation entry_at :: "arrival_key \<times> rolling_event \<Rightarrow> instant" where
  "entry_at e \<equiv> stats_event_at (re_event (snd e))"

definition expiry_of :: "(arrival_key \<times> rolling_event) list \<Rightarrow> (instant \<times> arrival_key) set" where
  "expiry_of m = (\<lambda>e. (entry_at e, fst e)) ` set m"

lemma expiry_of_remove:
  assumes "distinct (map fst m)" "e \<in> set m"
  shows "expiry_of (btree_remove (fst e) m) = expiry_of m - {(entry_at e, fst e)}"
proof -
  have inj: "inj_on fst (set m)" using assms(1) by (simp add: distinct_map)
  then have "set (btree_remove (fst e) m) = set m - {e}"
    using assms(2) by (auto simp: btree_remove_def dest: inj_onD)
  moreover have "inj_on (\<lambda>e. (entry_at e, fst e)) (set m)" using inj by (simp add: inj_on_def)
  ultimately show ?thesis
    using assms(2) by (simp add: expiry_of_def inj_on_image_set_diff [of _ "set m"])
qed

lemma expire_spec:
  assumes "expire cutoff expiry m = (expiry', m')" "sorted_wrt (<) expiry" "distinct (map fst m)"
    and "set expiry = expiry_of m"
  shows "m' = filter (\<lambda>e. cutoff \<le> entry_at e) m \<and> sorted_wrt (<) expiry' \<and> set expiry' = expiry_of m'"
  using assms
proof (induction cutoff expiry m rule: expire.induct)
  case (1 cutoff m)
  then show ?case by (auto simp: expiry_of_def)
next
  case (2 cutoff x expiry m)
  show ?case
  proof (cases "fst x < cutoff")
    case False
    have "cutoff \<le> entry_at e" if "e \<in> set m" for e
    proof -
      have "(entry_at e, fst e) \<in> set (x # expiry)" using "2.prems"(4) that by (auto simp: expiry_of_def)
      then have "x \<le> (entry_at e, fst e)" using "2.prems"(2) by auto
      then show ?thesis using False by (auto simp: less_eq_prod_def)
    qed
    then have "filter (\<lambda>e. cutoff \<le> entry_at e) m = m" by simp
    then show ?thesis using "2.prems" False by simp
  next
    case True
    have "x \<in> expiry_of m" using "2.prems"(4) by auto
    then obtain e where e: "e \<in> set m" "x = (entry_at e, fst e)" by (auto simp: expiry_of_def)
    have same: "e' = e" if "e' \<in> set m" "fst e' = fst e" for e'
      using that e(1) "2.prems"(3) by (meson distinct_map inj_onD)
    have nin: "x \<notin> set expiry" using "2.prems"(2) by auto
    have keys: "set expiry = expiry_of (btree_remove (snd x) m)"
    proof -
      have "expiry_of (btree_remove (snd x) m) = expiry_of m - {x}"
        using expiry_of_remove [OF "2.prems"(3) e(1)] by (simp add: e(2))
      then show ?thesis using "2.prems"(4) nin by auto
    qed
    have run: "expire cutoff expiry (btree_remove (snd x) m) = (expiry', m')" using "2.prems"(1) True by simp
    have sorted: "sorted_wrt (<) expiry" using "2.prems"(2) by simp
    have dist: "distinct (map fst (btree_remove (snd x) m))"
      unfolding btree_remove_def by (rule distinct_map_filter [OF "2.prems"(3)])
    note ih = "2.IH" [OF True run sorted dist keys]
    have "filter (\<lambda>e. cutoff \<le> entry_at e) (btree_remove (snd x) m) = filter (\<lambda>e. cutoff \<le> entry_at e) m"
      unfolding btree_remove_def filter_filter
    proof (rule filter_cong [OF refl])
      fix y assume y: "y \<in> set m"
      have "fst y = snd x \<Longrightarrow> entry_at y < cutoff" using same [OF y] e(2) True by simp
      then show "(fst y \<noteq> snd x \<and> cutoff \<le> entry_at y) = (cutoff \<le> entry_at y)" by force
    qed
    then show ?thesis using ih by simp
  qed
qed


text \<open>The history: every event pushed, with the position before it. \<open>cutoff_of\<close> is the cutoff the
  latest timestamp gives.\<close>

fun annotate :: "directional_position \<Rightarrow> stats_event list \<Rightarrow> rolling_event list" where
  "annotate p [] = []"
| "annotate p (e # es) = \<lparr>re_event = e, re_before = p\<rparr> # annotate (snd (advance e p)) es"

fun position_after :: "directional_position \<Rightarrow> stats_event list \<Rightarrow> directional_position" where
  "position_after p [] = p"
| "position_after p (e # es) = position_after (snd (advance e p)) es"

lemma annotate_snoc:
  "annotate p (es @ [e]) = annotate p es @ [\<lparr>re_event = e, re_before = position_after p es\<rparr>]"
  "position_after p (es @ [e]) = snd (advance e (position_after p es))"
  by (induction es arbitrary: p) simp_all

definition latest :: "stats_event list \<Rightarrow> instant option" where
  "latest es = (if es = [] then None else Some (Max (stats_event_at ` set es)))"

lemma latest_snoc:
  "latest (es @ [e]) = Some (case latest es of None \<Rightarrow> stats_event_at e | Some a \<Rightarrow> max a (stats_event_at e))"
proof (cases "es = []")
  case False
  then have "Max (stats_event_at ` set (es @ [e])) = max (stats_event_at e) (Max (stats_event_at ` set es))"
    by (simp add: insert_commute)
  with False show ?thesis by (simp add: latest_def max.commute)
qed (simp add: latest_def)

definition live :: "duration \<Rightarrow> instant option \<Rightarrow> stats_event \<Rightarrow> bool" where
  "live d anchor e = (case anchor of None \<Rightarrow> True
     | Some a \<Rightarrow> (case instant_checked_sub a d of None \<Rightarrow> True | Some c \<Rightarrow> c \<le> stats_event_at e))"

definition time_window :: "duration \<Rightarrow> stats_event list \<Rightarrow> rolling_event list" where
  "time_window d es =
     filter (\<lambda>ev. live d (latest es) (re_event ev)) (annotate directional_position_default es)"

lemma live_anchor_mono: "live d (Some (max a b)) e \<Longrightarrow> live d (Some a) e"
  by (auto simp: live_def instant_checked_sub_def max_def split: if_splits)

lemma live_none: "live d None e"
  by (simp add: live_def)

definition window_ok :: "duration \<Rightarrow> stats_event list \<Rightarrow> 'w rolling_events \<Rightarrow> bool" where
  "window_ok d es r \<longleftrightarrow> (\<exists>m. rw_time_events r = Some m \<and> rw_time_limit r = Some d \<and>
     rw_time_anchor r = latest es \<and> rw_directional_position r = position_after directional_position_default es \<and>
     map snd m = time_window d es \<and> sorted_wrt (<) (map fst m) \<and>
     (\<forall>k \<in> fst ` set m. \<forall>a. latest es = Some a \<longrightarrow> fst k \<le> a \<and> (fst k = a \<longrightarrow> snd k < length m)) \<and>
     (latest es = None \<longrightarrow> m = []) \<and>
     sorted_wrt (<) (rw_time_expiry r) \<and> set (rw_time_expiry r) = expiry_of m)"

lemma window_ok_new:
  "sg_rolling_time config = Some d \<Longrightarrow> window_ok d [] (rolling_new cw config)"
  by (simp add: window_ok_def rolling_new_def latest_def time_window_def expiry_of_def)

text \<open>One push: what expires is what falls below the new cutoff, and the arrival key of the new
  event is larger than every key in use.\<close>

lemma window_filter_snoc:
  assumes "a' = (case latest es of None \<Rightarrow> stats_event_at e | Some a \<Rightarrow> max a (stats_event_at e))"
  shows "time_window d (es @ [e]) =
    filter (\<lambda>ev. live d (Some a') (re_event ev)) (time_window d es) @
    (if live d (Some a') e then [\<lparr>re_event = e, re_before = position_after directional_position_default es\<rparr>] else [])"
proof -
  have old: "live d (latest es) x" if "live d (Some a') x" for x
  proof (cases "latest es")
    case None
    then show ?thesis by (simp add: live_none)
  next
    case (Some a)
    then show ?thesis using live_anchor_mono [of d a "stats_event_at e" x] that by (simp add: assms)
  qed
  have "filter (\<lambda>ev. live d (Some a') (re_event ev)) (annotate directional_position_default es) =
      filter (\<lambda>ev. live d (Some a') (re_event ev)) (time_window d es)"
    unfolding time_window_def filter_filter by (rule filter_cong [OF refl]) (use old in blast)
  moreover have "latest (es @ [e]) = Some a'" by (simp add: latest_snoc assms)
  ultimately show ?thesis by (simp add: time_window_def annotate_snoc)
qed

lemma expire_live:
  assumes "(expiry', m') = (case instant_checked_sub a d of None \<Rightarrow> (expiry, m) | Some c \<Rightarrow> expire c expiry m)"
    and "sorted_wrt (<) expiry" "distinct (map fst m)" "set expiry = expiry_of m"
  shows "m' = filter (\<lambda>e. live d (Some a) (re_event (snd e))) m \<and> sorted_wrt (<) expiry' \<and> set expiry' = expiry_of m'"
proof (cases "instant_checked_sub a d")
  case None
  then show ?thesis using assms by (simp add: live_def)
next
  case (Some c)
  then have "expire c expiry m = (expiry', m')" using assms(1) by simp
  then show ?thesis using expire_spec [OF _ assms(2-4)] Some by (simp add: live_def)
qed

lemma sorted_map_fst_distinct: "sorted_wrt (<) (map fst (m :: ('k::linorder \<times> 'v) list)) \<Longrightarrow> distinct (map fst m)"
  by (simp add: strict_sorted_iff)

lemma expiry_of_append: "expiry_of (m @ [(k, ev)]) = insert (stats_event_at (re_event ev), k) (expiry_of m)"
  by (simp add: expiry_of_def)

text \<open>The keys stay below the new arrival key: an older anchor is smaller, and at the same anchor
  nothing expired, so the length has only grown.\<close>

lemma arrival_key_fresh:
  assumes keys: "\<forall>k \<in> fst ` set m. \<forall>a. anchor = Some a \<longrightarrow> fst k \<le> a \<and> (fst k = a \<longrightarrow> snd k < length m)"
    and empty: "anchor = None \<longrightarrow> m = []"
    and a': "a' = (case anchor of None \<Rightarrow> at | Some a \<Rightarrow> max a at)"
    and m': "m' = filter (\<lambda>e. live d (Some a') (re_event (snd e))) m"
    and alive: "\<And>a. anchor = Some a \<Longrightarrow> \<forall>e \<in> set m. live d (Some a) (re_event (snd e))"
    and k: "k \<in> fst ` set m'"
  shows "k < (a', length m')"
proof -
  from k m' have km: "k \<in> fst ` set m" by auto
  then obtain a where a: "anchor = Some a" using empty by (cases anchor) auto
  have le: "fst k \<le> a" "fst k = a \<longrightarrow> snd k < length m" using keys km a by auto
  show ?thesis
  proof (cases "fst k = a'")
    case True
    then have "a' = a" using le(1) a' a by auto
    then have "m' = m" using m' alive [OF a] by simp
    then show ?thesis using True le \<open>a' = a\<close> by (cases k) simp
  next
    case False
    then show ?thesis using le(1) a' a by (cases k) (auto simp: max_def split: if_splits)
  qed
qed

lemma push_time_window_ok:
  assumes ok: "window_ok d es r" and m: "rw_time_events r = Some m"
    and ev: "ev = \<lparr>re_event = e, re_before = rw_directional_position r\<rparr>"
    and r1: "r1 = r\<lparr>rw_directional_position := snd (advance e (rw_directional_position r)), rw_count_events := w\<rparr>"
  shows "window_ok d (es @ [e]) (push_time d ev m r1)"
proof -
  let ?at = "stats_event_at e"
  define a' where "a' = (case latest es of None \<Rightarrow> ?at | Some a \<Rightarrow> max a ?at)"
  have inv: "rw_time_anchor r = latest es" "rw_directional_position r = position_after directional_position_default es"
    "map snd m = time_window d es" "sorted_wrt (<) (map fst m)" "latest es = None \<longrightarrow> m = []"
    "\<forall>k \<in> fst ` set m. \<forall>a. latest es = Some a \<longrightarrow> fst k \<le> a \<and> (fst k = a \<longrightarrow> snd k < length m)"
    "sorted_wrt (<) (rw_time_expiry r)" "set (rw_time_expiry r) = expiry_of m" "rw_time_limit r = Some d"
    using ok m by (auto simp: window_ok_def)
  obtain expiry m' where em: "(expiry, m') =
      (case instant_checked_sub a' d of None \<Rightarrow> (rw_time_expiry r, m) | Some c \<Rightarrow> expire c (rw_time_expiry r) m)"
    by (metis surj_pair)
  note part = expire_live [OF em inv(7) sorted_map_fst_distinct [OF inv(4)] inv(8)]
  have alive: "\<forall>e \<in> set m. live d (Some a) (re_event (snd e))" if "latest es = Some a" for a
  proof -
    have "\<forall>ev \<in> set (map snd m). live d (Some a) (re_event ev)" unfolding inv(3) by (simp add: time_window_def that)
    then show ?thesis by simp
  qed
  have fresh: "k < (a', length m')" if "k \<in> fst ` set m'" for k
    by (rule arrival_key_fresh [OF inv(6,5) a'_def conjunct1 [OF part] alive that])
  have sorted': "sorted_wrt (<) (map fst m')"
    using part inv(4) by (simp add: sorted_wrt_map sorted_wrt_filter)
  have vals: "map snd m' = filter (\<lambda>ev. live d (Some a') (re_event ev)) (time_window d es)"
    using part unfolding inv(3) [symmetric] by (simp add: filter_map comp_def)
  have expired: "(case instant_checked_sub a' d of None \<Rightarrow> False | Some c \<Rightarrow> ?at < c) \<longleftrightarrow> \<not> live d (Some a') e"
    by (auto simp: live_def split: option.splits)
  have ins: "btree_insert (a', length m') ev m' = m' @ [((a', length m'), ev)]"
    using fresh by (intro btree_insert_last) auto
  have push: "push_time d ev m r1 =
      (if live d (Some a') e
       then r1\<lparr>rw_time_anchor := Some a', rw_time_expiry := btree_set_insert (?at, (a', length m')) expiry,
               rw_time_events := Some (m' @ [((a', length m'), ev)])\<rparr>
       else r1\<lparr>rw_time_anchor := Some a', rw_time_expiry := expiry, rw_time_events := Some m'\<rparr>)"
  proof -
    have fields: "rw_time_anchor r1 = latest es" "rw_time_expiry r1 = rw_time_expiry r" by (simp_all add: r1 inv(1))
    have at: "stats_event_at (re_event ev) = ?at" by (simp add: ev)
    show ?thesis
      unfolding push_time_def Let_def fields at a'_def [symmetric] em [symmetric] prod.case expired ins if_not_P
      by simp
  qed
  have latest': "latest (es @ [e]) = Some a'" by (simp add: latest_snoc a'_def)
  have keys: "fst k \<le> a' \<and> (fst k = a' \<longrightarrow> snd k < length m')" if "k \<in> fst ` set m'" for k
    using fresh [OF that] by (cases k) (auto simp: less_prod_def)
  have tw: "time_window d (es @ [e]) = map snd m' @ (if live d (Some a') e then [ev] else [])"
    using window_filter_snoc [OF a'_def, of d] by (simp add: vals ev inv(2))
  have pos: "rw_directional_position r1 = position_after directional_position_default (es @ [e])"
    "rw_time_limit r1 = Some d"
    by (simp_all add: r1 inv(2,9) annotate_snoc)
  show ?thesis
  proof (cases "live d (Some a') e")
    case True
    have s: "sorted_wrt (<) (map fst m' @ [(a', length m')])"
      using sorted' fresh by (auto simp: sorted_wrt_append)
    have at: "stats_event_at (re_event ev) = ?at" by (simp add: ev)
    have p: "push_time d ev m r1 = r1\<lparr>rw_time_anchor := Some a',
        rw_time_expiry := btree_set_insert (?at, (a', length m')) expiry,
        rw_time_events := Some (m' @ [((a', length m'), ev)])\<rparr>"
      using push True by simp
    show ?thesis
      unfolding p window_ok_def latest' tw
      by (rule exI [of _ "m' @ [((a', length m'), ev)]"])
        (use True part keys s pos in \<open>auto simp: set_btree_set_insert sorted_btree_set_insert expiry_of_append at less_Suc_eq\<close>)
  next
    case False
    then have p: "push_time d ev m r1 = r1\<lparr>rw_time_anchor := Some a', rw_time_expiry := expiry, rw_time_events := Some m'\<rparr>"
      using push by simp
    show ?thesis
      unfolding p window_ok_def latest' tw
      by (rule exI [of _ m']) (use False part keys sorted' pos in auto)
  qed
qed

definition rolling_run :: "'w window_ops \<Rightarrow> stats_config \<Rightarrow> stats_event list \<Rightarrow> 'w rolling_events" where
  "rolling_run cw config es = fold (rolling_push cw) es (rolling_new cw config)"

lemma rolling_run_snoc: "rolling_run cw config (es @ [e]) = rolling_push cw e (rolling_run cw config es)"
  by (simp add: rolling_run_def)

lemma rolling_run_window:
  assumes "sg_rolling_time config = Some d"
  shows "window_ok d es (rolling_run cw config es)"
proof (induction es rule: rev_induct)
  case Nil
  show ?case using window_ok_new [OF assms] by (simp add: rolling_run_def)
next
  case (snoc e es)
  let ?r = "rolling_run cw config es"
  obtain m where m: "rw_time_events ?r = Some m" and l: "rw_time_limit ?r = Some d"
    using snoc by (auto simp: window_ok_def)
  have "rolling_push cw e ?r = push_time d \<lparr>re_event = e, re_before = rw_directional_position ?r\<rparr> m
      (?r\<lparr>rw_directional_position := snd (advance e (rw_directional_position ?r)),
          rw_count_events := map_option (cw_push cw \<lparr>re_event = e, re_before = rw_directional_position ?r\<rparr>) (rw_count_events ?r)\<rparr>)"
    using m l by (simp add: rolling_push_def Let_def)
  then show ?case
    unfolding rolling_run_snoc by (simp only:) (rule push_time_window_ok [OF snoc m refl refl])
qed

text \<open>C35: the time window. After any sequence of events, in any timestamp order, the time window
  holds exactly the events of the whole history whose timestamp is not before the cutoff given by
  the latest timestamp, in arrival order, each with the directional position before it; both
  indexes hold the same number of entries. Without a configured interval there is no window.\<close>

theorem rolling_time_exact:
  "case sg_rolling_time config of
     None \<Rightarrow> rw_time_events (rolling_run cw config es) = None
   | Some d \<Rightarrow>
       (\<exists>m. rw_time_events (rolling_run cw config es) = Some m \<and>
          map snd m = filter (\<lambda>ev. live d (latest es) (re_event ev)) (annotate directional_position_default es) \<and>
          length (rw_time_expiry (rolling_run cw config es)) = length m)"
proof (cases "sg_rolling_time config")
  case None
  have "rw_time_events (rolling_run cw config es) = None \<and> rw_time_limit (rolling_run cw config es) = None"
    by (induction es rule: rev_induct)
      (simp_all add: rolling_run_snoc rolling_push_def Let_def, simp add: rolling_run_def rolling_new_def None)
  then show ?thesis by (simp add: None)
next
  case (Some d)
  obtain m where m: "rw_time_events (rolling_run cw config es) = Some m" "map snd m = time_window d es"
    "sorted_wrt (<) (map fst m)" "sorted_wrt (<) (rw_time_expiry (rolling_run cw config es))"
    "set (rw_time_expiry (rolling_run cw config es)) = expiry_of m"
    using rolling_run_window [OF Some, where es = es and cw = cw] by (auto simp: window_ok_def)
  have "length (rw_time_expiry (rolling_run cw config es)) = card (expiry_of m)"
    using m(4) distinct_card [of "rw_time_expiry (rolling_run cw config es)"] by (simp add: m(5) strict_sorted_iff)
  also have "\<dots> = length m"
  proof -
    have d: "distinct (map fst m)" by (rule sorted_map_fst_distinct [OF m(3)])
    then have "inj_on (\<lambda>e. (entry_at e, fst e)) (set m)" by (auto simp: inj_on_def distinct_map)
    then show ?thesis using d by (simp add: expiry_of_def card_image distinct_card distinct_map)
  qed
  finally show ?thesis using m by (simp add: Some time_window_def)
qed

section \<open>Directional loss never underflows\<close>

definition position_ok :: "directional_position \<Rightarrow> bool" where
  "position_ok p \<longleftrightarrow> dp_counter_reset_at p \<le> dp_packet_events p"

text \<open>\<open>q\<close> is a later position than \<open>p\<close>: the segment only moves forward, and within a segment the
  highest count never falls.\<close>

definition later :: "directional_position \<Rightarrow> directional_position \<Rightarrow> bool" where
  "later p q \<longleftrightarrow> dp_counter_reset_at p \<le> dp_counter_reset_at q \<and>
     (\<forall>c. dp_counter_reset_at p = dp_counter_reset_at q \<and> dp_server_received p = Some c \<longrightarrow>
        (\<exists>c'. dp_server_received q = Some c' \<and> c \<le> c'))"

lemma later_refl [simp]: "later p p"
  by (simp add: later_def)

lemma later_trans:
  assumes "later p q" "later q r"
  shows "later p r"
proof -
  have le: "dp_counter_reset_at p \<le> dp_counter_reset_at q" "dp_counter_reset_at q \<le> dp_counter_reset_at r"
    using assms by (auto simp: later_def)
  have "\<exists>c'. dp_server_received r = Some c' \<and> c \<le> c'"
    if eq: "dp_counter_reset_at p = dp_counter_reset_at r" and c: "dp_server_received p = Some c" for c
  proof -
    have "dp_counter_reset_at p = dp_counter_reset_at q" "dp_counter_reset_at q = dp_counter_reset_at r"
      using le eq by auto
    then show ?thesis using assms c unfolding later_def by (meson order.trans)
  qed
  with le show ?thesis unfolding later_def by auto
qed

lemma observe_count_later:
  assumes "position_ok p"
  shows "later p (observe_count n p) \<and> dp_packet_events (observe_count n p) = dp_packet_events p \<and>
    dp_counter_reset_at (observe_count n p) \<le> dp_packet_events p + 1"
  using assms
  by (cases "dp_server_received p") (auto simp: observe_count_def Let_def later_def position_ok_def)

lemma advance_later:
  assumes "position_ok p"
  shows "later p (snd (advance e p)) \<and> position_ok (snd (advance e p))"
proof (cases e)
  case (SeUniqueReply at late sample)
  have upd: "later q (r\<lparr>dp_packet_events := n\<rparr>) = later q r" for q r n by (simp add: later_def)
  show ?thesis
    using observe_count_later [OF assms] assms
    by (cases "rs_received_count sample") (auto simp: SeUniqueReply Let_def upd position_ok_def)
qed (use assms in \<open>auto simp: later_def position_ok_def\<close>)

text \<open>A list of rolling events that continues from \<open>p\<close>: a part of a history in order.\<close>

fun continues :: "directional_position \<Rightarrow> rolling_event list \<Rightarrow> bool" where
  "continues p [] = True"
| "continues p (ev # evs) =
     (later p (re_before ev) \<and> position_ok (re_before ev) \<and> continues (snd (advance (re_event ev) (re_before ev))) evs)"

lemma continues_mono: "later q p \<Longrightarrow> continues p evs \<Longrightarrow> continues q evs"
  by (cases evs) (auto intro: later_trans)

lemma continues_annotate: "position_ok p \<Longrightarrow> continues p (annotate p es)"
  by (induction es arbitrary: p) (simp_all add: advance_later)

lemma continues_skip: "continues p (ev # evs) \<Longrightarrow> continues p evs"
  using advance_later [of "re_before ev" "re_event ev"] by (auto intro: continues_mono later_trans)

lemma continues_filter: "continues p evs \<Longrightarrow> continues p (filter P evs)"
proof (induction evs arbitrary: p)
  case (Cons ev evs)
  then show ?case using continues_skip [OF Cons.prems] by (cases "P ev") auto
qed simp

lemma continues_drop: "continues p evs \<Longrightarrow> continues p (drop n evs)"
proof (induction n arbitrary: evs)
  case (Suc n)
  then show ?case by (cases evs) (auto dest: continues_skip simp del: continues.simps)
qed simp

lemma scan_later:
  assumes "continues p evs" "\<And>a. ws_start s = Some a \<Longrightarrow> \<exists>b. ws_end s = Some b \<and> later a b \<and> later b p"
    and "ws_start (fold scan_event evs s) = Some a" "ws_end (fold scan_event evs s) = Some b"
    and "ws_start s = None \<Longrightarrow> ws_end s = None"
  shows "later a b"
  using assms
proof (induction evs arbitrary: p s)
  case Nil
  then show ?case by fastforce
next
  case (Cons ev evs)
  let ?q = "snd (advance (re_event ev) (re_before ev))" and ?s = "scan_event ev s"
  have ok: "later p (re_before ev)" "position_ok (re_before ev)" "continues ?q evs" using Cons.prems(1) by auto
  have adv: "later (re_before ev) ?q" using advance_later [OF ok(2)] by simp
  have pq: "later p ?q" by (rule later_trans [OF ok(1) adv])
  show ?case
  proof (rule Cons.IH [OF ok(3), of ?s])
    show "\<exists>b. ws_end ?s = Some b \<and> later a b \<and> later b ?q" if "ws_start ?s = Some a" for a
    proof (cases "fst (advance (re_event ev) (re_before ev))")
      case True
      then have "ws_end ?s = Some ?q" by (simp add: scan_event_def split_beta)
      moreover have "later a ?q"
      proof (cases "ws_start s")
        case None
        then show ?thesis using that True adv by (simp add: scan_event_def split_beta)
      next
        case (Some a')
        then have "a = a'" using that True by (simp add: scan_event_def split_beta)
        then show ?thesis using Cons.prems(2) [OF Some] pq by (blast intro: later_trans)
      qed
      ultimately show ?thesis by simp
    next
      case False
      then have "?s = s" by (simp add: scan_event_def split_beta)
      then show ?thesis using Cons.prems(2) [of a] that pq by (metis later_trans)
    qed
    show "ws_end ?s = None" if "ws_start ?s = None"
      using that Cons.prems(5) by (auto simp: scan_event_def split_beta split: if_splits option.splits)
  qed (use Cons.prems(3,4) in simp_all)
qed

lemma server_delta_exact:
  assumes "continues p evs" "server_delta (scan_window evs) = Some d"
  shows "\<exists>start end_pos baseline count. ws_start (scan_window evs) = Some start \<and> ws_end (scan_window evs) = Some end_pos \<and>
     baseline_of start = Some baseline \<and> dp_server_received end_pos = Some count \<and> baseline \<le> count \<and>
     unat d = unat count - unat baseline"
proof -
  obtain start end_pos baseline count where s: "ws_start (scan_window evs) = Some start"
      "ws_end (scan_window evs) = Some end_pos" "dp_counter_reset_at start = dp_counter_reset_at end_pos"
      "baseline_of start = Some baseline" "dp_server_received end_pos = Some count" "d = count - baseline"
    using assms(2) by (auto simp: server_delta_def bind_eq_Some_conv split: option.splits if_splits)
  have l: "later start end_pos"
    by (rule scan_later [OF assms(1) _ s(1,2) [unfolded scan_window_def]]) simp_all
  have "baseline \<le> count"
  proof (cases "dp_packet_events start = 0")
    case True
    then show ?thesis using s(4) by (simp add: baseline_of_def)
  next
    case False
    then have "dp_server_received start = Some baseline" using s(4) by (auto simp: baseline_of_def split: if_splits)
    then show ?thesis using l s(3,5) by (auto simp: later_def)
  qed
  then show ?thesis using s by (auto simp: unat_sub word_le_nat_alt)
qed

text \<open>Directional loss. For the time window and for any window that keeps the last events of the
  history, the server's received count over the window is the difference of the highest counts at
  its two ends, never a wrapped subtraction: the baseline is at most the final count whenever an
  estimate is given at all.\<close>

theorem rolling_loss_never_underflows:
  assumes "evs = filter p (annotate directional_position_default es) \<or>
      evs = drop n (annotate directional_position_default es)"
    and "server_delta (scan_window evs) = Some d"
  shows "\<exists>start end_pos baseline count. ws_start (scan_window evs) = Some start \<and> ws_end (scan_window evs) = Some end_pos \<and>
     baseline_of start = Some baseline \<and> dp_server_received end_pos = Some count \<and> baseline \<le> count \<and>
     unat d = unat count - unat baseline"
proof -
  have "continues directional_position_default (annotate directional_position_default es)"
    by (rule continues_annotate) (simp add: position_ok_def directional_position_default_def)
  then have "continues directional_position_default evs"
    using assms(1) continues_filter continues_drop by metis
  then show ?thesis by (rule server_delta_exact [OF _ assms(2)])
qed

definition rolling_test_reply :: "u32 \<Rightarrow> stats_event" where
  "rolling_test_reply n =
     SeUniqueReply 0 False
       \<lparr>rs_bytes = 0, rs_rtt_raw_ns = 0, rs_rtt_adjusted_ns = None, rs_send_delay_ns = None,
        rs_receive_delay_ns = None, rs_server_processing_ns = None, rs_received_count = Some n,
        rs_received_window = None,
        rs_ipdv = \<lparr>is_seq = n, is_rtt_primary_ns = 0, is_client_send_mono = 0, is_client_receive_mono = 0,
          is_client_send_wall_ns = None, is_client_receive_wall_ns = None, is_server_receive_mono_ns = None,
          is_server_send_mono_ns = None, is_server_receive_wall_ns = None, is_server_send_wall_ns = None\<rparr>\<rparr>"

text \<open>The last event of a history whose replies report 3 and then 5 received packets.\<close>

theorem rolling_loss_never_underflows_witness:
  "\<exists>start end_pos baseline count.
     ws_start (scan_window (drop 1 (annotate directional_position_default [rolling_test_reply 3, rolling_test_reply 5]))) = Some start \<and>
     ws_end (scan_window (drop 1 (annotate directional_position_default [rolling_test_reply 3, rolling_test_reply 5]))) = Some end_pos \<and>
     baseline_of start = Some baseline \<and> dp_server_received end_pos = Some count \<and> baseline \<le> count \<and>
     unat (2 :: u64) = unat count - unat baseline"
proof (rule rolling_loss_never_underflows [OF disjI2 [OF refl]])
  show "server_delta (scan_window (drop 1 (annotate directional_position_default
      [rolling_test_reply 3, rolling_test_reply 5]))) = Some 2"
    by (simp add: rolling_test_reply_def observe_count_def directional_position_default_def Let_def
        server_delta_def scan_window_def scan_event_def baseline_of_def abs_diff_u64_def)
qed

end
