(* ===== verification/Stats.thy ===== *)
theory Stats
  imports Stats_Rolling
begin

text \<open>
  The statistics collector (\<open>irtt-stats/src/lib.rs\<close>) and the estimate of what it retains
  (\<open>retention.rs\<close>). A collector feeds every normalized client event to the cumulative statistics and
  to the rolling windows. The sizes of the compiled structures are a parameter, \<open>layout_sizes\<close>.
\<close>

section \<open>Collector\<close>

definition stats_config_finite :: stats_config where
  "stats_config_finite =
     \<lparr>sg_samples = Exact, sg_rolling_count = None, sg_rolling_time = None, sg_late_replies = Measure\<rparr>"

definition stats_config_continuous :: stats_config where
  "stats_config_continuous =
     \<lparr>sg_samples = RunningOnly, sg_rolling_count = None, sg_rolling_time = None, sg_late_replies = Measure\<rparr>"

record ('a, 'w) stats_collector =
  sk_cumulative :: "'a core_stats"
  sk_rolling :: "'w rolling_events"

definition collector_new ::
  "('a, 't) time_ops \<Rightarrow> 'w window_ops \<Rightarrow> stats_config \<Rightarrow> ('a, 'w) stats_collector" where
  "collector_new ta cw config =
     \<lparr>sk_cumulative = core_stats_new ta (sg_samples config) (sg_late_replies config),
      sk_rolling = rolling_new cw config\<rparr>"

definition collector_process ::
  "('a, 't) time_ops \<Rightarrow> 'w window_ops \<Rightarrow> client_event \<Rightarrow> ('a, 'w) stats_collector \<Rightarrow>
     event_stats_update \<times> ('a, 'w) stats_collector" where
  "collector_process ta cw event k =
     (case normalize_event event of
        None \<Rightarrow> (event_stats_update_default, k)
      | Some e \<Rightarrow>
          let (update, cumulative) = apply_event ta e (sk_cumulative k)
          in (update, \<lparr>sk_cumulative = cumulative, sk_rolling = rolling_push cw e (sk_rolling k)\<rparr>))"

definition collector_snapshot ::
  "('a, 't) time_ops \<Rightarrow> 'f f64_ops \<Rightarrow> ('a, 'w) stats_collector \<Rightarrow> ('t, 'f) snapshot" where
  "collector_snapshot ta fl k = core_snapshot ta fl (sk_cumulative k)"

definition collector_rolling_count ::
  "('a, 't) time_ops \<Rightarrow> 'f f64_ops \<Rightarrow> 'w window_ops \<Rightarrow> ('a, 'w) stats_collector \<Rightarrow> ('t, 'f) snapshot option" where
  "collector_rolling_count ta fl cw k = count_snapshot ta fl cw (sk_rolling k)"

definition collector_rolling_time ::
  "('a, 't) time_ops \<Rightarrow> 'f f64_ops \<Rightarrow> ('a, 'w) stats_collector \<Rightarrow> ('t, 'f) snapshot option" where
  "collector_rolling_time ta fl k = time_snapshot ta fl (sk_rolling k)"

section \<open>Retention estimate\<close>

record layout_sizes =
  size_ipdv_sample :: u64
  size_rolling_event :: u64
  size_reply_sample :: u64

definition GROWTH_FACTOR :: u64 where "GROWTH_FACTOR = 2"
definition HASH_ENTRY_OVERHEAD :: u64 where "HASH_ENTRY_OVERHEAD = 1"
definition EXACT_SAMPLES_PER_PROBE :: u64 where "EXACT_SAMPLES_PER_PROBE = 11"
definition ROLLING_EVENTS_PER_PROBE :: u64 where "ROLLING_EVENTS_PER_PROBE = 2"

definition ipdv_tracker_bytes_per_sample :: "layout_sizes \<Rightarrow> u64" where
  "ipdv_tracker_bytes_per_sample sz =
     (let sample_entry = (4 + size_ipdv_sample sz) + HASH_ENTRY_OVERHEAD;
          order_entry = 4;
          completed_entry = 4 + HASH_ENTRY_OVERHEAD
      in saturating_add_u64 (saturating_add_u64 sample_entry order_entry) completed_entry)"

definition exact_bytes :: "layout_sizes \<Rightarrow> u64 \<Rightarrow> u64" where
  "exact_bytes sz probe_count =
     (let per_probe = saturating_add_u64 (saturating_mul_u64 EXACT_SAMPLES_PER_PROBE 16)
                        (ipdv_tracker_bytes_per_sample sz)
      in saturating_mul_u64 probe_count per_probe)"

definition running_only_bytes :: "layout_sizes \<Rightarrow> u64 \<Rightarrow> u64" where
  "running_only_bytes sz probe_count =
     saturating_mul_u64 (min probe_count (of_nat CONTINUOUS_SEQUENCE_LIMIT)) (ipdv_tracker_bytes_per_sample sz)"

definition rolling_bytes_per_event :: "layout_sizes \<Rightarrow> u64" where
  "rolling_bytes_per_event sz = size_rolling_event sz + size_reply_sample sz"

definition rolling_count_bytes :: "layout_sizes \<Rightarrow> stats_config \<Rightarrow> u64 \<Rightarrow> u64" where
  "rolling_count_bytes sz config probe_count =
     (case sg_rolling_count config of
        None \<Rightarrow> 0
      | Some limit \<Rightarrow>
          saturating_mul_u64 (min (saturating_mul_u64 probe_count ROLLING_EVENTS_PER_PROBE) (of_nat limit))
            (rolling_bytes_per_event sz))"

definition estimated_retained_bytes :: "layout_sizes \<Rightarrow> stats_config \<Rightarrow> u64 \<Rightarrow> u64" where
  "estimated_retained_bytes sz config probe_count =
     (let cumulative = (case sg_samples config of
            Exact \<Rightarrow> exact_bytes sz probe_count
          | RunningOnly \<Rightarrow> running_only_bytes sz probe_count)
      in saturating_mul_u64 (saturating_add_u64 cumulative (rolling_count_bytes sz config probe_count)) GROWTH_FACTOR)"

lemma saturating_mul_mono: "a \<le> b \<Longrightarrow> saturating_mul_u64 a c \<le> saturating_mul_u64 b c"
  unfolding word_le_nat_alt unat_saturating_mul_u64 by (intro min.mono mult_le_mono1) auto

lemma saturating_add_mono: "a \<le> b \<Longrightarrow> c \<le> d \<Longrightarrow> saturating_add_u64 a c \<le> saturating_add_u64 b d"
  unfolding word_le_nat_alt unat_saturating_add_u64 by (intro min.mono add_mono) auto

text \<open>The estimate never falls as a run grows, and in continuous mode it stops growing at the tracking
  limit: a longer run costs no more.\<close>

lemma retention_monotone:
  assumes "p \<le> q"
  shows "estimated_retained_bytes sz config p \<le> estimated_retained_bytes sz config q"
proof -
  have "rolling_count_bytes sz config p \<le> rolling_count_bytes sz config q"
    using assms by (auto simp: rolling_count_bytes_def split: option.splits
        intro!: saturating_mul_mono min.mono)
  moreover have "(case sg_samples config of Exact \<Rightarrow> exact_bytes sz p | RunningOnly \<Rightarrow> running_only_bytes sz p) \<le>
      (case sg_samples config of Exact \<Rightarrow> exact_bytes sz q | RunningOnly \<Rightarrow> running_only_bytes sz q)"
    using assms by (auto simp: exact_bytes_def running_only_bytes_def Let_def split: sample_mode.split
        intro!: saturating_mul_mono min.mono)
  ultimately show ?thesis
    unfolding estimated_retained_bytes_def Let_def by (intro saturating_mul_mono saturating_add_mono)
qed

lemma retention_ceiling:
  assumes "sg_samples config = RunningOnly" "sg_rolling_count config = None" "4096 \<le> p"
  shows "estimated_retained_bytes sz config p = estimated_retained_bytes sz config 4096"
  using assms
  by (simp add: estimated_retained_bytes_def rolling_count_bytes_def running_only_bytes_def
      CONTINUOUS_SEQUENCE_LIMIT_def min_def Let_def)

section \<open>Runs of a collector\<close>

definition collect ::
  "('a, 't) time_ops \<Rightarrow> 'w window_ops \<Rightarrow> stats_config \<Rightarrow> client_event list \<Rightarrow> ('a, 'w) stats_collector" where
  "collect ta cw config events =
     fold (\<lambda>e k. snd (collector_process ta cw e k)) events (collector_new ta cw config)"

definition normalized :: "client_event list \<Rightarrow> stats_event list" where
  "normalized events = List.map_filter normalize_event events"

lemma normalized_simps:
  "normalized [] = []"
  "normalized (e # es) = (case normalize_event e of None \<Rightarrow> normalized es | Some s \<Rightarrow> s # normalized es)"
  by (simp_all add: normalized_def map_filter_simps split: option.split)

lemma process_fold:
  "fold (\<lambda>e k. snd (collector_process ta cw e k)) events k =
     \<lparr>sk_cumulative = replay ta (normalized events) (sk_cumulative k),
      sk_rolling = fold (rolling_push cw) (normalized events) (sk_rolling k)\<rparr>"
  by (induction events arbitrary: k)
     (simp_all add: normalized_simps collector_process_def split_beta split: option.split)

lemma collect_state:
  "sk_cumulative (collect ta cw config events) =
     replay ta (normalized events) (core_stats_new ta (sg_samples config) (sg_late_replies config))"
  "sk_rolling (collect ta cw config events) = rolling_run cw config (normalized events)"
  by (simp_all add: collect_def process_fold collector_new_def rolling_run_def)

lemma rolling_late: "rw_late_replies (rolling_run cw config es) = sg_late_replies config"
  by (induction es rule: rev_induct)
     (simp_all add: rolling_run_snoc rolling_push_def push_time_def Let_def split_beta split: option.split,
      simp add: rolling_run_def rolling_new_def)


end
