(* ===== verification/Spec2Isabelle.thy ===== *)
theory Spec2Isabelle
  imports Server_Runtime Managed_Runs Stats
begin

text \<open>
  A verification development for irtt-rs, a Rust implementation of the IRTT round-trip measurement
  protocol: a client opens a session with a server over UDP, sends numbered probes, and measures
  delay, loss and delay variation from the echoes. This theory imports the whole development and
  holds the theorems that compose a client with a server.

  \<^bold>\<open>Parts of the program and their theories.\<close>

  \<^item> The wire protocol (\<open>crates/irtt-proto\<close>). \<open>Wire\<close>: errors, constants, flags and header
    (\<open>error.rs\<close>, \<open>lib.rs\<close>, \<open>flags.rs\<close>); \<open>Varint\<close> (\<open>varint.rs\<close>); \<open>Envelope\<close>: the authentication field
    and the shared packet envelope (\<open>hmac.rs\<close>, \<open>envelope.rs\<close>); \<open>Params\<close>: negotiated parameters and
    their tagged encoding (\<open>params.rs\<close>); \<open>Layout\<close>: packet lengths (\<open>layout.rs\<close>); \<open>Request\<close> (\<open>request.rs\<close>);
    \<open>Replies\<close>: open and echo replies (\<open>open.rs\<close>, \<open>echo.rs\<close>).
  \<^item> The server (\<open>crates/irtt-server\<close>). \<open>Server_Clock\<close> (\<open>clock.rs\<close>); \<open>Server_Config\<close>: configuration and
    negotiation (\<open>config.rs\<close>, \<open>negotiate.rs\<close>); \<open>Fill\<close>: reply payloads (\<open>fill.rs\<close>); \<open>Session\<close>: receive
    window, rate limit and lifetime of one session (\<open>session.rs\<close>); \<open>Server_Core\<close>: the datagram engine,
    its session table and its tokens (\<open>core.rs\<close>, \<open>token.rs\<close>); \<open>Server_Runtime\<close>: binding, the Linux receive
    and send paths, the serving loop and the supervision of several listeners (\<open>runtime.rs\<close>,
    \<open>socket_io.rs\<close>, \<open>socket_io/ancillary.rs\<close>, \<open>socket_options.rs\<close>, \<open>set.rs\<close>).
  \<^item> The client (\<open>crates/irtt-client\<close>). \<open>Client_Config\<close> (\<open>config.rs\<close>, \<open>auth.rs\<close>, \<open>error.rs\<close>);
    \<open>Client_Negotiation\<close> (\<open>session/negotiation.rs\<close>); \<open>Probe\<close>: the stores of probes in flight, timed out
    and completed (\<open>probe.rs\<close>); \<open>Client_Timing\<close>: events and the timing of a reply (\<open>event.rs\<close>,
    \<open>metadata.rs\<close>); \<open>Machine\<close>, \<open>Machine_Invariant\<close>, \<open>Machine_Runs\<close>: the session machine without I/O
    (\<open>session/machine.rs\<close>), its invariant and its runs; \<open>Client_Adapter\<close>, \<open>Client_Runs\<close>: the blocking
    client over a socket (\<open>client.rs\<close>, \<open>send.rs\<close>) and its runs; \<open>Async_Client\<close>, \<open>Async_Runs\<close>: the
    asynchronous client, poll by poll (\<open>async_client.rs\<close>), and its runs; \<open>Schedule\<close>: the cadence of probes
    (\<open>managed/schedule.rs\<close>, the stagger arithmetic of \<open>managed/task/pacing.rs\<close>); \<open>Managed\<close>,
    \<open>Managed_Update\<close>: the data model of the managed client, its status and history and the update
    transaction (\<open>managed/model.rs\<close>, \<open>managed/task.rs\<close>, \<open>managed/task/control.rs\<close>,
    \<open>managed/task/update.rs\<close>); \<open>Managed_Targets\<close>: the polling of one target, phase by phase
    (\<open>managed/task/target.rs\<close>); \<open>Managed_Task\<close>: timeouts with their backlog, burst and staggered sends,
    sealing and the poll of the whole task (\<open>managed/task/timeouts.rs\<close>, \<open>managed/task/pacing.rs\<close>,
    \<open>managed/task.rs\<close>); \<open>Managed_Steps\<close>, \<open>Managed_Runs\<close>: what a step of one target keeps, and the runs
    of a task.
  \<^item> The statistics (\<open>crates/irtt-stats\<close>). \<open>Ipdv\<close> (\<open>ipdv.rs\<close>); \<open>Stats_Events\<close>: normalized events and loss
    (\<open>normalization.rs\<close>, \<open>loss.rs\<close>); \<open>Stats_Core\<close>: cumulative statistics (\<open>core.rs\<close>); \<open>Stats_Rolling\<close>:
    count and time windows (\<open>rolling.rs\<close>); \<open>Stats\<close>: the collector and the retention estimate (\<open>lib.rs\<close>,
    \<open>retention.rs\<close>).
  \<^item> \<open>Prelude\<close> holds what they share: integers of Rust widths, byte strings and their little-endian
    codecs, hash tables, results, durations and instants, answers of the operating system.

  \<^bold>\<open>How code is represented.\<close> A struct is a record, an enum a datatype, and a method a function that
  takes and returns the record. Integers whose width matters are words; durations and instants are
  numbers of nanoseconds with the range checks of the standard library written out. \<open>Err\<close> and \<open>Ok\<close>
  are the two sides of a sum. Where the source could panic (\<open>expect\<close>, \<open>unwrap\<close>, \<open>unreachable\<close>) the
  function returns an option and \<open>None\<close> is the panic, so that its absence is a theorem. A hash map
  is a table accessed through the interface \<open>hash_map\<close> of \<open>Prelude\<close>; the linked pending map of the
  client is modelled link by link and refined by a list through \<open>ordered_store\<close> of \<open>Probe\<close>; the two
  varint codecs share \<open>prefix_codec\<close> of \<open>Varint\<close>.

  \<^bold>\<open>Parameters.\<close> What is not source of this repository is an argument: the message authentication
  function \<open>mac\<close>, the clock samples and random tokens of the server, the random fill, failures of the
  allocator, floating-point operations, the accumulators of timing statistics and the counted window
  of other crates, sizes of types in memory, texts of errors, and what the operating system answers.
  Loops over I/O consume a script of answers; a script that ends while the loop still runs gives
  \<open>Pending\<close> (or no result), so no fuel bounds any theorem and termination is stated as such.

  \<^bold>\<open>What is shown.\<close>

  \<^item> Protocol: every encoding decodes to what was encoded, authentication accepts exactly what was
    signed, and lengths agree with the layout.
  \<^item> Server: an invariant of every reachable state, isolation of sessions from other endpoints, the
    exact content of replies, the rate limit as a bound and as a promise to a conforming client, the
    received window as a refinement of the set of accepted numbers, and the errors that can occur;
    above it, soundness of what a listener sends and of the supervision of a set.
  \<^item> Client: the invariant of the session machine over all runs, conservation of probes, the
    classification of replies, exact timeouts, the negotiation policies; above it, that the blocking
    client refines the machine whatever the socket answers, that its calls return, and the contracts
    of its transactions; the same of the asynchronous client, whose futures may be dropped anywhere;
    the absolute cadence of probes; of the managed client, that updates are atomic, that each target
    generation ends at most once with history, status and events in agreement, and that every poll
    of a live task returns.
  \<^item> Statistics: counters and metrics are exact functions of the event history, the indexed window
    equals a filter of it, snapshots of windows equal a replay, and pairs are counted once.
  \<^item> Client and server together (below): a handshake makes both sides agree on one session, and the
    answer to a probe measures exactly that probe.

  \<^bold>\<open>Not modelled.\<close> Wakers, timer registration and the subscription and receipt futures of the managed
  client's handles, and its blocking wrapper (\<open>managed/blocking.rs\<close>), which belong to the executor:
  a poll is modelled by what it does, not by when it is scheduled, although the deadline it asks to
  be woken at is (\<open>next_deadline\<close>); name resolution and socket construction (\<open>socket.rs\<close>), which are
  calls of the operating system; and the command line and terminal front ends (\<open>crates/irtt-app\<close>),
  which parse arguments and render results.
\<close>

section \<open>A client and a server that share a key\<close>

lemma map_err_eq_Ok: "map_err h r = Ok x \<longleftrightarrow> r = Ok x"
  by (cases r) auto

lemma decode_request_envelope:
  "decode_request packet = Ok r \<Longrightarrow>
     \<exists>env. decode_structural packet = Ok env \<and> env_hmac_present env = req_hmac_present r"
  by (auto simp: decode_request_def Let_def result_simps split: if_splits)

text \<open>What a client encodes under the shared key, the server admits.\<close>

lemma encoded_request_admitted:
  assumes "encode_request mac req k = Ok packet" "k = cfg_hmac_key config"
    and "case req of ReqEcho _ _ p body \<Rightarrow> length body \<le> payload_room (k \<noteq> None) p | _ \<Rightarrow> True"
  shows "admitted mac config packet = Some \<lparr>req_hmac_present = (k \<noteq> None), req_kind = request_kind k req\<rparr>"
proof -
  have dec: "decode_request packet = Ok \<lparr>req_hmac_present = (k \<noteq> None), req_kind = request_kind k req\<rparr>"
    and ver: "verify_envelope mac packet k = Ok ()"
    using encoded_request_decodes [OF assms(3), of mac] assms(1) by auto
  have "verify_packet_hmac mac key packet = Ok ()" if "k = Some key" for key
    using decode_request_envelope [OF dec] ver that
    by (auto simp: verify_packet_hmac_def verify_envelope_def)
  then show ?thesis by (simp add: admitted_def dec assms(2) del: not_None_eq)
qed

text \<open>Server negotiation only ever restricts what a client can request.\<close>

lemma negotiation_restricts:
  assumes "requestable q" "config_ok config" and "negotiate_server_fill (negotiate_params q config) = (p, fill)"
  shows "restricts q p"
proof -
  define n where "n = negotiate_params q config"
  have p: "p = n\<lparr>server_fill := server_fill p\<rparr>"
    using negotiate_server_fill_params [OF assms(3)] by (simp add: n_def)
  have q: "0 \<le> sint (duration_ns q)" "0 < sint (interval_ns q)" "0 \<le> sint (length_param q)"
    using assms(1) by (simp_all add: requestable_def)
  have "0 < sint (interval_ns n)"
    using q(2) unfolding n_def negotiate_interval Let_def by (auto simp: i64_max_def)
  moreover have "if duration_ns q = 0 then 0 \<le> sint (duration_ns n)
      else 0 < sint (duration_ns n) \<and> sint (duration_ns n) \<le> sint (duration_ns q)"
    using q(1) assms(2) sint_i64_zero_iff [of "duration_ns q"]
    by (auto simp: n_def negotiate_duration config_ok_def i64_max_def split: option.split)
  moreover have "0 \<le> sint (length_param n)" "sint (length_param n) \<le> sint (length_param q)"
    using q(3) by (simp_all add: n_def negotiate_length i64_max_def)
  moreover have "dscp n = dscp q \<or> dscp n = 0" by (simp add: n_def negotiate_fields)
  moreover have "protocol_version n = PROTOCOL_VERSION" by (simp add: n_def negotiate_fields)
  ultimately show ?thesis by (subst p) (simp add: restricts_def)
qed


text \<open>A concrete client and server: no key, an empty server.\<close>

definition loose_config :: client_config where
  "loose_config = client_config_default\<lparr>cc_open := \<lparr>op_timeouts = [], op_negotiation = Loose\<rparr>,
     cc_request := session_request_default\<lparr>rq_duration := None, rq_interval := 5, rq_received_stats := RsNone,
       rq_clock := ClkMonotonic\<rparr>, cc_max_pending_probes := 2\<rparr>"

definition loose_client :: session_machine where
  "loose_client = projr (machine_new loose_config test_peer)"

definition loose_request :: bytes where
  "loose_request = [20, 167, 91, 1, 1, 2, 3, 10, 6, 6, 7, 4]"

definition opened_server :: server_core where
  "opened_server = fst (process zero_mac test_inputs test_peer loose_request None (core_new plain_config))"

definition open_answer :: outbound_datagram where
  "open_answer = the (projr (snd (process zero_mac test_inputs test_peer loose_request None (core_new plain_config))))"

lemma loose_client_new: "machine_new loose_config test_peer = Ok loose_client"
proof -
  have "isl (machine_new loose_config test_peer) = False" by code_simp
  then show ?thesis by (simp add: loose_client_def)
qed

lemma loose_request_ok: "prepare_open_request zero_mac loose_client = Ok loose_request"
  by code_simp

lemma open_answered:
  "process zero_mac test_inputs test_peer loose_request None (core_new plain_config) =
     (opened_server, Ok (Some open_answer))"
proof -
  have "(case snd (process zero_mac test_inputs test_peer loose_request None (core_new plain_config)) of
      Inr (Some _) \<Rightarrow> True | _ \<Rightarrow> False) = True" by code_simp
  then show ?thesis
    by (cases "process zero_mac test_inputs test_peer loose_request None (core_new plain_config)")
       (auto simp: opened_server_def open_answer_def split: sum.split_asm option.split_asm)
qed

lemma loose_config_facts:
  "rq_run_mode (cc_request loose_config) = RunNormal" "op_negotiation (cc_open loose_config) = Loose"
  "\<forall>f \<in> set_option (rq_server_fill (cc_request loose_config)). utf8_valid f"
  "cfg_hmac_key (core_config (core_new plain_config)) = auth_hmac_key (cc_auth loose_config)"
  by (simp_all add: loose_config_def client_config_default_def session_request_default_def core_new_def
      plain_config_def config_default_def with_idle_timeout_def)


text \<open>What an event says of the probe it measures.\<close>

fun event_measures :: "client_event \<Rightarrow> (u32 \<times> client_timestamp \<times> rtt_sample) option" where
  "event_measures (EchoReply seq _ sent _ rtt _ _ _ _ _) = Some (seq, sent, rtt)"
| "event_measures (LateReply seq _ _ (Some sent) _ (Some rtt) _ _ _ _ _) = Some (seq, sent, rtt)"
| "event_measures _ = None"

lemma classify_in_flight:
  assumes "represents (as_pending s) ps" "p \<in> set ps" "wire_seq p = er_sequence reply"
  shows "\<exists>s' e. classify_reply remote reply n now meta s = Some (s', e) \<and>
     event_measures e = Some (er_sequence reply, sent_at p, compute_rtt (sent_at p) now (er_timestamps reply))"
proof -
  have "find (\<lambda>x. wire_seq x = er_sequence reply) ps = Some p"
  proof -
    obtain ys zs where ps: "ps = ys @ p # zs" using assms(2) by (auto simp: in_set_conv_decomp)
    then have "find (\<lambda>x. wire_seq x = er_sequence reply) ys = None"
      using represents_distinct [OF assms(1)] assms(3) by (auto simp: find_None_iff image_iff)
    then show ?thesis unfolding ps using assms(3) by (induction ys) (auto split: if_splits)
  qed
  with pending_remove_refines [OF assms(1), of "er_sequence reply"] obtain pe where
    "pending_remove (er_sequence reply) (as_pending s) = Some (Some p, pe)" by auto
  then show ?thesis by (simp add: classify_reply_def Let_def measured_late_reply_def)
qed

text \<open>C2: one probe, end to end. When the server answers the datagram of a probe the client has
  committed, for a session both sides agree on, the client measures exactly that probe from the
  answer: its sequence number, its send time, and a round trip corrected by the server's own
  clock samples; the client's session ends with it exactly when the server released its own.\<close>

theorem probe_round_trip:
  assumes client: "machine_run mac config remote m t log" "sm_state m = MsOpen s"
      "prepare_probe mac m = Ok prepared" "machine_send mac reserve_ok anchor sent m = Some (Ok (m', psent))"
    and server: "core_ok c" "cfg_hmac_key (core_config c) = auth_hmac_key (cc_auth config)"
      "table_get (core_sessions c) (as_token s) = Some ss" "ss_params ss = ng_peer_params (as_negotiated s)"
    and answered: "process mac inp peer (pp_bytes prepared) krx c = (c', Ok (Some out))"
  shows "\<exists>m'' e rest. process_received_echo_packet mac (out_bytes out) now meta m' = Some (m'', Ok (e # rest)) \<and>
     event_measures e = Some (psent_seq psent, sent, compute_rtt sent now
        (timestamp_fields_of (ss_params ss) (in_clock inp 0) (in_clock inp 1)
           (preferred_receive_wall_ns krx (in_clock inp 0)))) \<and>
     (is_peer_closed m'' \<longleftrightarrow> table_get (core_sessions c') (as_token s) = None)"
proof -
  define k where "k = auth_hmac_key (cc_auth config)"
  note inv = machine_run_inv [OF client(1)]
  then have key: "machine_hmac_key m = k" by (simp add: run_inv_def machine_hmac_key_def k_def)
  obtain ps ts where ok: "client_session_ok mac m t s ps ts" using run_inv_open [OF inv client(2)] by blast
  then have tr: "tracked (cc_max_pending_probes (sm_config m)) s ps ts" by (simp add: client_session_ok_def)
  obtain cm s' where cm: "m' = m\<lparr>sm_state := MsOpen s'\<rparr>" "session_commit_sent cm sent s = Some s'"
      "pc_wire_seq cm = as_next_wire_seq s" "psent_seq psent = as_next_wire_seq s"
      "preflight_insert reserve_ok (as_next_wire_seq s) (as_pending s) = Ok ()"
    using send_Ok [OF client(4)] client(2) by auto
  obtain p where p: "same_identity s s'" "wire_seq p = as_next_wire_seq s" "sent_at p = sent"
      "represents (as_pending s') (ps @ [p])"
    using commit_sent_tracked [OF tr, of cm sent] preflight_room [OF tr cm(5)] cm(2,3) by (auto simp: tracked_def)
  have enc: "encode_request mac (ReqEcho (as_token s) (as_next_wire_seq s) (ng_peer_params (as_negotiated s)) []) k =
      Ok (pp_bytes prepared)"
    using client(2,3) key by (auto simp: prepare_probe_def open_session_def result_simps map_err_eq_Ok)
  define q where "q = \<lparr>eq_token = as_token s, eq_sequence = as_next_wire_seq s,
      eq_datagram_len = length (pp_bytes prepared), eq_received_at = in_clock inp 0,
      eq_receive_wall_ns = preferred_receive_wall_ns krx (in_clock inp 0)\<rparr>"
  define c1 where "c1 = release_expired_sessions (mono_ns (in_clock inp 0)) c"
  have "admitted mac (core_config c) (pp_bytes prepared) = Some \<lparr>req_hmac_present = (k \<noteq> None),
      req_kind = request_kind k (ReqEcho (as_token s) (as_next_wire_seq s) (ng_peer_params (as_negotiated s)) [])\<rparr>"
    by (rule encoded_request_admitted [OF enc]) (simp_all add: server(2) k_def)
  from answered [unfolded process_admitted [OF this]]
  have echo: "handle_echo mac inp peer q c1 = (c', Ok (Some out))"
    by (simp add: dispatch_def q_def c1_def Let_def)
  have "core_ok c1" unfolding c1_def by (rule sweep_ok [OF server(1)])
  from served_reply [OF this echo] obtain s2 r where
    s2: "table_get (core_sessions c1) (as_token s) = Some s2"
    and r: "decode_echo_reply mac (out_bytes out) (ss_params s2) k = Ok r" "er_token r = as_token s"
      "er_sequence r = as_next_wire_seq s"
      "er_timestamps r = timestamp_fields_of (ss_params s2) (in_clock inp 0) (in_clock inp 1)
         (preferred_receive_wall_ns krx (in_clock inp 0))"
      "has (er_flags r) FLAG_CLOSE = (table_get (core_sessions c') (as_token s) = None)"
    by (auto simp: q_def c1_def server(2) k_def)
  have "s2 = ss" using s2 server(1,3) by (simp add: c1_def sweep_get core_ok_def split: option.splits if_splits)
  obtain s'' e where c: "classify_reply (sm_remote m) r (length (out_bytes out)) now meta s' = Some (s'', e)"
      "event_measures e = Some (er_sequence r, sent_at p, compute_rtt (sent_at p) now (er_timestamps r))"
    using classify_in_flight [OF p(4), of p r "sm_remote m" "length (out_bytes out)" now meta] p(2) r(3) by auto
  have "decode_echo_reply mac (out_bytes out) (ng_peer_params (as_negotiated s')) (machine_hmac_key m') = Ok r"
    using r(1) server(4) p(1) key \<open>s2 = ss\<close> by (simp add: cm(1) machine_hmac_key_def same_identity_def)
  moreover have "as_token s' = as_token s" using p(1) by (simp add: same_identity_def)
  ultimately show ?thesis
    using c r(2-5) p(3) cm(1,4) \<open>s2 = ss\<close>
    by (simp add: process_received_echo_packet_def open_session_def process_echo_reply_def is_peer_closed_def)
qed

text \<open>The same pair after the handshake.\<close>

definition granted_params :: params where
  "granted_params = \<lparr>protocol_version = 1, duration_ns = 0, interval_ns = 25, length_param = 0,
     received_stats = RsNone, stamp_at = StBoth, clock = ClkMonotonic, dscp = 0, server_fill = None\<rparr>"

definition granted_reply :: open_reply where
  "granted_reply = \<lparr>or_flags = FLAG_OPEN OR FLAG_REPLY, or_token = 7, or_params = granted_params\<rparr>"

definition granted_acceptance :: prepared_open_acceptance where
  "granted_acceptance = projr (the (prepare_open_acceptance zero_mac granted_reply client_test_instant loose_client))"

definition open_client :: session_machine where
  "open_client = fst (commit_open granted_acceptance loose_client)"

definition open_client_session :: active_session where
  "open_client_session = (case sm_state open_client of MsOpen s \<Rightarrow> s | _ \<Rightarrow> undefined)"

definition serving_session :: session where
  "serving_session = session_new test_peer granted_params default_fill plain_config 10"

definition serving_core :: server_core where
  "serving_core = (core_new plain_config)\<lparr>core_sessions := [(7, serving_session)]\<rparr>"

definition probe_bytes :: bytes where
  "probe_bytes = [20, 167, 91, 0, 7, 0, 0, 0, 0, 0, 0, 0] @ replicate 20 0"

definition after_send :: "session_machine \<times> probe_sent" where
  "after_send = projr (the (machine_send zero_mac True client_test_instant client_test_instant open_client))"

definition after_serve :: "server_core \<times> (server_error + outbound_datagram option)" where
  "after_serve = process zero_mac test_inputs test_peer probe_bytes None serving_core"

lemma granted_acceptance_ok:
  "prepare_open_acceptance zero_mac granted_reply client_test_instant loose_client = Some (Ok granted_acceptance)"
proof -
  have "(case prepare_open_acceptance zero_mac granted_reply client_test_instant loose_client of
      Some (Inr p) \<Rightarrow> True | _ \<Rightarrow> False) = True" by code_simp
  then show ?thesis by (auto simp: granted_acceptance_def split: option.split_asm sum.split_asm)
qed

lemma open_client_run: "machine_run zero_mac loose_config test_peer open_client 0 []"
  unfolding open_client_def by (rule run_open [OF machine_run.run_new [OF loose_client_new] granted_acceptance_ok])

lemma open_client_state: "sm_state open_client = MsOpen open_client_session"
proof -
  have "(case sm_state open_client of MsOpen s \<Rightarrow> True | _ \<Rightarrow> False) = True" by code_simp
  then show ?thesis by (auto simp: open_client_session_def split: machine_state.split_asm)
qed

lemma open_client_probe: "prepare_probe zero_mac open_client = Ok \<lparr>pp_bytes = probe_bytes, pp_seq = 0\<rparr>"
  by code_simp

lemma after_send_ok:
  "machine_send zero_mac True client_test_instant client_test_instant open_client =
     Some (Ok (fst after_send, snd after_send))"
proof -
  have "(case machine_send zero_mac True client_test_instant client_test_instant open_client of
      Some (Inr (m', p)) \<Rightarrow> True | _ \<Rightarrow> False) = True" by code_simp
  then show ?thesis by (auto simp: after_send_def split: option.split_asm sum.split_asm)
qed

lemma serving_core_ok: "core_ok serving_core"
proof -
  have "Server_Core.session_ok plain_config serving_session" by code_simp
  then show ?thesis
    using test_config_ok(1) by (auto simp: core_ok_def serving_core_def core_new_def table_get_def table_wf_def table_len_def
        plain_config_def config_default_def with_idle_timeout_def DEFAULT_MAX_SESSIONS_def)
qed

lemma serving_agreed:
  "cfg_hmac_key (core_config serving_core) = auth_hmac_key (cc_auth loose_config)"
  "table_get (core_sessions serving_core) (as_token open_client_session) = Some serving_session"
  "ss_params serving_session = ng_peer_params (as_negotiated open_client_session)"
  by code_simp+

lemma after_serve_ok: "process zero_mac test_inputs test_peer (pp_bytes \<lparr>pp_bytes = probe_bytes, pp_seq = 0\<rparr>) None serving_core =
    (fst after_serve, Ok (Some (the (projr (snd after_serve)))))"
proof -
  have "(case snd after_serve of Inr (Some _) \<Rightarrow> True | _ \<Rightarrow> False) = True" by code_simp
  then show ?thesis
    by (cases "process zero_mac test_inputs test_peer probe_bytes None serving_core")
       (auto simp: after_serve_def split: sum.split_asm option.split_asm)
qed

theorem probe_round_trip_witness:
  "\<exists>m'' e rest. process_received_echo_packet zero_mac (out_bytes (the (projr (snd after_serve)))) client_test_instant
       client_test_meta (fst after_send) = Some (m'', Ok (e # rest)) \<and>
     event_measures e = Some (psent_seq (snd after_send), client_test_instant, compute_rtt client_test_instant client_test_instant
        (timestamp_fields_of (ss_params serving_session) (in_clock test_inputs 0) (in_clock test_inputs 1)
           (preferred_receive_wall_ns None (in_clock test_inputs 0)))) \<and>
     (is_peer_closed m'' \<longleftrightarrow> table_get (core_sessions (fst after_serve)) (as_token open_client_session) = None)"
  by (rule probe_round_trip [OF open_client_run open_client_state open_client_probe after_send_ok serving_core_ok
      serving_agreed after_serve_ok])

end
